(* ===== verification/Prelude.thy ===== *)
theory Prelude
  imports Main "HOL-Library.Word"
begin

text \<open>
  Shared vocabulary of the development.

  \<^item> Machine integers at the widths of the program's \<^verbatim>\<open>uint8\<close>, \<^verbatim>\<open>uint16\<close>, \<^verbatim>\<open>uint32\<close>, \<^verbatim>\<open>uint64\<close>
    (spNetCommon.h); the signed types are the same bit patterns, read with \<open>sint\<close>.
  \<^item> \<open>fault\<close>, the ways the code stops without a result: a failed \<^verbatim>\<open>assert\<close>, a null dereference,
    a throwing \<^verbatim>\<open>at()\<close>, behaviour the C++ standard leaves undefined, a call of \<^verbatim>\<open>std::terminate\<close>, and a loop or a recursion
    that has not ended within the fuel it was given.
  \<^item> \<open>size_t\<close> arithmetic on \<open>nat\<close> with the wrap-around at \<open>2 ^ 64\<close> written out.
  \<^item> Generic facts on lists and results, declared where the automation of every component finds
    them.
\<close>

unbundle bit_operations_syntax

section \<open>Machine integers\<close>

type_synonym u8 = "8 word"
type_synonym u16 = "16 word"
type_synonym u32 = "32 word"
type_synonym u64 = "64 word"

text \<open>\<^verbatim>\<open>int16\<close> and \<^verbatim>\<open>int32\<close>: two's complement words, read with \<open>sint\<close>.\<close>

type_synonym i16 = "16 word"
type_synonym i32 = "32 word"

type_synonym bytes = "u8 list"

section \<open>Faults and results\<close>

datatype fault = AssertFailed | NullDeref | OutOfRange | Undefined | Terminated | OutOfFuel

type_synonym 'a res = "fault + 'a"

definition res_bind :: "'a res \<Rightarrow> ('a \<Rightarrow> 'b res) \<Rightarrow> 'b res" where
  "res_bind m f = (case m of Inl e \<Rightarrow> Inl e | Inr x \<Rightarrow> f x)"

lemma res_bind_Inr [simp]: "res_bind (Inr x) f = f x"
  by (simp add: res_bind_def)

lemma res_bind_Inl [simp]: "res_bind (Inl e) f = Inl e"
  by (simp add: res_bind_def)

lemma res_bind_eq_Inr [simp]:
  "(res_bind m f = Inr y) = (\<exists>x. m = Inr x \<and> f x = Inr y)"
  by (cases m) simp_all

lemma res_bind_eq_Inl:
  "(res_bind m f = Inl e) = (m = Inl e \<or> (\<exists>x. m = Inr x \<and> f x = Inl e))"
  by (cases m) simp_all

lemma res_bind_assoc:
  "res_bind (res_bind m f) g = res_bind m (\<lambda>x. res_bind (f x) g)"
  by (cases m) simp_all

lemma res_bind_cong [fundef_cong]:
  "m = m' \<Longrightarrow> (\<And>x. m' = Inr x \<Longrightarrow> f x = f' x) \<Longrightarrow> res_bind m f = res_bind m' f'"
  by (cases m') simp_all

text \<open>A loop over a list whose body may fault, as a range-based \<^verbatim>\<open>for\<close> runs it.\<close>

fun res_fold :: "('a \<Rightarrow> 's \<Rightarrow> 's res) \<Rightarrow> 'a list \<Rightarrow> 's \<Rightarrow> 's res" where
  "res_fold f [] s = Inr s"
| "res_fold f (x # xs) s = res_bind (f x s) (res_fold f xs)"

lemma res_fold_append:
  "res_fold f (xs @ ys) s = res_bind (res_fold f xs s) (res_fold f ys)"
  by (induction xs arbitrary: s) (simp_all add: res_bind_assoc cong: res_bind_cong)

lemma res_fold_invariant:
  assumes "\<And>x s s'. x \<in> set xs \<Longrightarrow> I s \<Longrightarrow> f x s = Inr s' \<Longrightarrow> I s'"
    and "I s" and "res_fold f xs s = Inr s'"
  shows "I s'"
  using assms by (induction xs arbitrary: s) auto

lemma res_fold_total:
  assumes "\<And>x s. x \<in> set xs \<Longrightarrow> I s \<Longrightarrow> \<exists>s'. f x s = Inr s' \<and> I s'"
    and "I s"
  shows "\<exists>s'. res_fold f xs s = Inr s' \<and> I s'"
  using assms
proof (induction xs arbitrary: s)
  case Nil
  then show ?case by simp
next
  case (Cons x xs)
  from Cons.prems(1)[of x s] Cons.prems(2) obtain t where t: "f x s = Inr t" "I t"
    by auto
  from Cons.IH[of t] Cons.prems(1) t(2) obtain s' where "res_fold f xs t = Inr s' \<and> I s'"
    by auto
  with t show ?case by simp
qed

text \<open>A loop that appends to a buffer.\<close>

text \<open>Steps that cannot fault while an invariant holds are an ordinary fold.\<close>

lemma res_fold_Inr:
  assumes "\<And>x t. x \<in> set xs \<Longrightarrow> I t \<Longrightarrow> f x t = Inr (g x t) \<and> I (g x t)" and "I s"
  shows "res_fold f xs s = Inr (fold g xs s)"
  using assms by (induction xs arbitrary: s) auto

lemma res_fold_buffer:
  "(\<And>x. x \<in> set xs \<Longrightarrow> g x = Inr (f x)) \<Longrightarrow>
   res_fold (\<lambda>x buf. res_bind (g x) (\<lambda>c. Inr (buf @ c))) xs buf = Inr (buf @ concat (map f xs))"
  by (induction xs arbitrary: buf) simp_all

section \<open>size_t arithmetic\<close>

definition size_max :: nat where
  "size_max = 2 ^ 64 - 1"

definition sz_add :: "nat \<Rightarrow> nat \<Rightarrow> nat" where
  "sz_add a b = (a + b) mod 2 ^ 64"

definition sz_sub :: "nat \<Rightarrow> nat \<Rightarrow> nat" where
  "sz_sub a b = (a + (2 ^ 64 - b)) mod 2 ^ 64"

lemma sz_add_exact [simp]: "a + b < 2 ^ 64 \<Longrightarrow> sz_add a b = a + b"
  by (simp add: sz_add_def)

lemma sz_sub_exact [simp]:
  assumes "b \<le> a" and "a < 2 ^ 64"
  shows "sz_sub a b = a - b"
proof -
  from assms have "a + (2 ^ 64 - b) = (a - b) + 2 ^ 64" by simp
  then have "sz_sub a b = ((a - b) + 2 ^ 64) mod 2 ^ 64" by (simp only: sz_sub_def)
  also have "\<dots> = (a - b) mod 2 ^ 64" by (rule mod_add_self2)
  finally show ?thesis using assms by simp
qed

lemma sz_sub_wraps:
  assumes "a < b" and "b \<le> 2 ^ 64"
  shows "sz_sub a b = a + (2 ^ 64 - b)"
  using assms by (simp add: sz_sub_def)

section \<open>Integer square root\<close>

text \<open>
  \<^verbatim>\<open>static_cast<short>(std::sqrt(value))\<close> of a non-negative \<^verbatim>\<open>short\<close> is the integer part of the
  root: a correctly rounded \<^verbatim>\<open>double\<close> root of an integer below \<open>2 ^ 15\<close> does not cross an integer.
\<close>

fun isqrt :: "nat \<Rightarrow> nat" where
  "isqrt 0 = 0"
| "isqrt (Suc n) = (let r = isqrt n in if Suc r * Suc r \<le> Suc n then Suc r else r)"

lemma isqrt_bounds: "isqrt n * isqrt n \<le> n \<and> n < Suc (isqrt n) * Suc (isqrt n)"
proof (induction n)
  case 0
  then show ?case by simp
next
  case (Suc n)
  then show ?case by (auto simp: Let_def)
qed

lemma isqrt_unique:
  assumes "r * r \<le> n" and "n < Suc r * Suc r"
  shows "isqrt n = r"
proof (rule antisym)
  have b: "isqrt n * isqrt n \<le> n" "n < Suc (isqrt n) * Suc (isqrt n)"
    using isqrt_bounds by auto
  show "isqrt n \<le> r"
  proof (rule ccontr)
    assume "\<not> isqrt n \<le> r"
    then have "Suc r * Suc r \<le> isqrt n * isqrt n" by (intro mult_le_mono) auto
    with b assms show False by linarith
  qed
  show "r \<le> isqrt n"
  proof (rule ccontr)
    assume "\<not> r \<le> isqrt n"
    then have "Suc (isqrt n) * Suc (isqrt n) \<le> r * r" by (intro mult_le_mono) auto
    with b assms show False by linarith
  qed
qed

lemma isqrt_le_iff: "isqrt n \<le> k \<longleftrightarrow> n < Suc k * Suc k"
proof
  assume "isqrt n \<le> k"
  then have "Suc (isqrt n) * Suc (isqrt n) \<le> Suc k * Suc k" by (intro mult_le_mono) auto
  with isqrt_bounds[of n] show "n < Suc k * Suc k" by linarith
next
  assume a: "n < Suc k * Suc k"
  show "isqrt n \<le> k"
  proof (rule ccontr)
    assume "\<not> isqrt n \<le> k"
    then have "Suc k * Suc k \<le> isqrt n * isqrt n" by (intro mult_le_mono) auto
    with isqrt_bounds[of n] a show False by linarith
  qed
qed

section \<open>Lists\<close>

lemma nth_mem_update: "y \<in> set (xs[i := x]) \<Longrightarrow> y = x \<or> y \<in> set xs"
  using set_update_subset_insert[of xs i x] by blast

end
