(* ===== verification/Message.thy ===== *)
theory Message
  imports Prelude
begin

text \<open>
  SpNetCommon/src/spNetMessage.h: messages, and pushing and popping the bytes of a value.

  The streaming operators copy the object representation of any standard-layout value to or from the
  end of the body. \<open>msg_push\<close> and \<open>msg_pop\<close> are that copy on bytes; the locale \<open>pod\<close> is what a typed
  use of the operators relies on: an encoder into a fixed number of bytes and a decoder that undoes
  it. The layouts of the game's structures are its interpretations (theory Layout).
\<close>

section \<open>The model\<close>

record message =
  hid :: u32
  hsize :: u32
  body :: bytes

definition new_message :: "u32 \<Rightarrow> message" where
  "new_message i = \<lparr>hid = i, hsize = 0, body = []\<rparr>"

definition msg_length :: "message \<Rightarrow> nat" where
  "msg_length m = length (body m)"

definition msg_push :: "bytes \<Rightarrow> message \<Rightarrow> message" where
  "msg_push bs m =
     (let b = body m @ bs in m\<lparr>body := b, hsize := word_of_nat (length b)\<rparr>)"

text \<open>
  Popping more bytes than the body has makes \<^verbatim>\<open>body.size() - sizeof(DataType)\<close> wrap: the copy reads
  outside the body.
\<close>

definition msg_pop :: "nat \<Rightarrow> message \<Rightarrow> (bytes \<times> message) res" where
  "msg_pop n m =
     (let i = sz_sub (length (body m)) n
      in if i + n \<le> length (body m)
         then Inr (drop i (body m), m\<lparr>body := take i (body m), hsize := word_of_nat i\<rparr>)
         else Inl Undefined)"

section \<open>Bytes\<close>

definition wf_message :: "message \<Rightarrow> bool" where
  "wf_message m \<longleftrightarrow> length (body m) < 2 ^ 32 \<and> hsize m = word_of_nat (length (body m))"

lemma wf_new_message [simp]: "wf_message (new_message i)"
  by (simp add: wf_message_def new_message_def)

lemma wf_msg_push: "length (body m) + length bs < 2 ^ 32 \<Longrightarrow> wf_message (msg_push bs m)"
  by (simp add: wf_message_def msg_push_def Let_def)

lemma msg_push_simps [simp]:
  "body (msg_push bs m) = body m @ bs" "hid (msg_push bs m) = hid m"
  "hsize (msg_push bs m) = word_of_nat (length (body m) + length bs)"
  by (simp_all add: msg_push_def Let_def)

lemma msg_pop_short:
  assumes "length (body m) < n" and "n < 2 ^ 64"
  shows "msg_pop n m = Inl Undefined"
proof -
  have "sz_sub (length (body m)) n = length (body m) + (2 ^ 64 - n)"
    using assms by (intro sz_sub_wraps) simp_all
  then show ?thesis using assms by (simp add: msg_pop_def Let_def)
qed

lemma msg_pop_enough:
  assumes "n \<le> length (body m)" and "length (body m) < 2 ^ 64"
  shows "msg_pop n m = Inr (drop (length (body m) - n) (body m),
           m\<lparr>body := take (length (body m) - n) (body m),
             hsize := word_of_nat (length (body m) - n)\<rparr>)"
  using assms by (simp add: msg_pop_def Let_def)

lemma msg_pop_push:
  assumes "wf_message m" and "length bs < 2 ^ 32"
  shows "msg_pop (length bs) (msg_push bs m) = Inr (bs, m)"
  using assms by (simp add: msg_pop_enough wf_message_def)

section \<open>Typed values\<close>

locale pod =
  fixes enc :: "'a \<Rightarrow> bytes" and dec :: "bytes \<Rightarrow> 'a" and sz :: nat and ok :: "'a \<Rightarrow> bool"
  assumes enc_length: "ok x \<Longrightarrow> length (enc x) = sz"
    and dec_enc: "ok x \<Longrightarrow> dec (enc x) = x"
    and sz_bound: "sz < 2 ^ 32"
begin

text \<open>Pushing a value and popping it gives the value and the message back.\<close>

lemma pop_push:
  assumes "wf_message m" and "ok x"
  shows "res_bind (msg_pop sz (msg_push (enc x) m)) (\<lambda>(bs, m'). Inr (dec bs, m')) = Inr (x, m)"
  using msg_pop_push [OF assms(1), of "enc x"] assms enc_length [OF assms(2)] sz_bound
  by (simp add: dec_enc)

lemma pop_short:
  assumes "length (body m) < sz"
  shows "res_bind (msg_pop sz m) (\<lambda>(bs, m'). Inr (dec bs, m')) = Inl Undefined"
proof -
  have "sz < 2 ^ 64" using sz_bound by (rule less_trans) simp
  then show ?thesis unfolding msg_pop_short [OF assms \<open>sz < 2 ^ 64\<close>] by (simp only: res_bind_Inl)
qed

lemma enc_inj:
  assumes "ok x" and "ok y" and "enc x = enc y"
  shows "x = y"
  by (metis assms dec_enc)

text \<open>The message a single value makes, and the value read back from its body.\<close>

lemma single:
  assumes "ok x"
  shows "msg_pop sz (msg_push (enc x) (new_message i)) = Inr (enc x, new_message i)"
  using msg_pop_push [OF wf_new_message, of "enc x" i] sz_bound unfolding enc_length [OF assms] by blast

end

text \<open>
  Two kinds of values in one message come out in the opposite order: the operators are a stack.
\<close>

locale pod_pair =
  p: pod enc1 dec1 sz1 ok1 + q: pod enc2 dec2 sz2 ok2
  for enc1 :: "'a \<Rightarrow> bytes" and dec1 :: "bytes \<Rightarrow> 'a" and sz1 :: nat and ok1 :: "'a \<Rightarrow> bool"
    and enc2 :: "'b \<Rightarrow> bytes" and dec2 :: "bytes \<Rightarrow> 'b" and sz2 :: nat and ok2 :: "'b \<Rightarrow> bool"
begin

lemma stack_order:
  assumes "wf_message m" and "ok1 x" and "ok2 y" and "length (body m) + sz1 < 2 ^ 32"
  shows "res_bind (msg_pop sz2 (msg_push (enc2 y) (msg_push (enc1 x) m))) (\<lambda>(bs, m').
           res_bind (msg_pop sz1 m') (\<lambda>(cs, m''). Inr (dec2 bs, dec1 cs, m''))) = Inr (y, x, m)"
proof -
  have "wf_message (msg_push (enc1 x) m)"
    using assms p.enc_length by (intro wf_msg_push) simp
  from msg_pop_push [OF this, of "enc2 y"] msg_pop_push [OF assms(1), of "enc1 x"]
  show ?thesis
    using p.enc_length [OF assms(2)] q.enc_length [OF assms(3)] p.sz_bound q.sz_bound
    by (simp add: p.dec_enc [OF assms(2)] q.dec_enc [OF assms(3)])
qed

end

end
