(* ===== verification/VecMath.thy ===== *)
theory VecMath
  imports Prelude Complex_Main
begin

text \<open>
  The three-component vectors of SpNetCommon/src/spNetMath.h (\<^verbatim>\<open>template_vec3\<close>).

  The template is modelled as it is written, over any ring of components: the member functions
  that only add, subtract and multiply are polymorphic, those that divide need a field. The one
  instance the game uses, \<^verbatim>\<open>CoordVec = template_vec3<int16>\<close>, is the ring of 16-bit words: the
  \<^verbatim>\<open>int\<close> results of the C++ operators are narrowed back to \<^verbatim>\<open>short\<close>, which is arithmetic modulo
  \<open>2 ^ 16\<close>. Comparison (\<^verbatim>\<open>equal\<close>, \<^verbatim>\<open>less_or_equal\<close>, \<^verbatim>\<open>operator==\<close>) and \<^verbatim>\<open>Lenght\<close> depend on the
  component type and are modelled for \<^verbatim>\<open>int16\<close>.
\<close>

section \<open>Vectors over a ring\<close>

record 'a vec3 =
  vx :: 'a
  vy :: 'a
  vz :: 'a

definition vec3_zero :: "'a::zero vec3" where
  "vec3_zero = \<lparr>vx = 0, vy = 0, vz = 0\<rparr>"

definition vec3_splat :: "'a \<Rightarrow> 'a vec3" where
  "vec3_splat s = \<lparr>vx = s, vy = s, vz = s\<rparr>"

definition vec3_make :: "'a \<Rightarrow> 'a \<Rightarrow> 'a \<Rightarrow> 'a vec3" where
  "vec3_make x y z = \<lparr>vx = x, vy = y, vz = z\<rparr>"

text \<open>
  The initializer-list constructor: one element fills the vector, otherwise the first three
  elements are copied and components past the end of the list keep what the memory held.
\<close>

definition vec3_init_list :: "'a vec3 \<Rightarrow> 'a list \<Rightarrow> 'a vec3" where
  "vec3_init_list old xs =
     (case xs of
        [] \<Rightarrow> old
      | [s] \<Rightarrow> vec3_splat s
      | [x, y] \<Rightarrow> old\<lparr>vx := x, vy := y\<rparr>
      | x # y # z # _ \<Rightarrow> vec3_make x y z)"

definition vec3_add :: "'a::plus vec3 \<Rightarrow> 'a vec3 \<Rightarrow> 'a vec3" where
  "vec3_add a b = \<lparr>vx = vx a + vx b, vy = vy a + vy b, vz = vz a + vz b\<rparr>"

definition vec3_ScalarAdd :: "'a::plus vec3 \<Rightarrow> 'a \<Rightarrow> 'a vec3" where
  "vec3_ScalarAdd a s = \<lparr>vx = vx a + s, vy = vy a + s, vz = vz a + s\<rparr>"

definition vec3_sub :: "'a::minus vec3 \<Rightarrow> 'a vec3 \<Rightarrow> 'a vec3" where
  "vec3_sub a b = \<lparr>vx = vx a - vx b, vy = vy a - vy b, vz = vz a - vz b\<rparr>"

definition vec3_ScalarSubtract :: "'a::minus vec3 \<Rightarrow> 'a \<Rightarrow> 'a vec3" where
  "vec3_ScalarSubtract a s = \<lparr>vx = vx a - s, vy = vy a - s, vz = vz a - s\<rparr>"

text \<open>\<^verbatim>\<open>operator-=(number_t b)\<close>: the overload the enemy AI selects when it subtracts an \<^verbatim>\<open>int16\<close>.\<close>

definition vec3_sub_assign_scalar :: "'a::minus vec3 \<Rightarrow> 'a \<Rightarrow> 'a vec3" where
  "vec3_sub_assign_scalar v s = v\<lparr>vx := vx v - s, vy := vy v - s, vz := vz v - s\<rparr>"

definition vec3_mult :: "'a::times vec3 \<Rightarrow> 'a vec3 \<Rightarrow> 'a vec3" where
  "vec3_mult a b = \<lparr>vx = vx a * vx b, vy = vy a * vy b, vz = vz a * vz b\<rparr>"

definition vec3_ScalarMultiply :: "'a::times vec3 \<Rightarrow> 'a \<Rightarrow> 'a vec3" where
  "vec3_ScalarMultiply a s = \<lparr>vx = vx a * s, vy = vy a * s, vz = vz a * s\<rparr>"

definition vec3_divide :: "'a::field vec3 \<Rightarrow> 'a vec3 \<Rightarrow> 'a vec3" where
  "vec3_divide a b = \<lparr>vx = vx a / vx b, vy = vy a / vy b, vz = vz a / vz b\<rparr>"

definition vec3_ScalarDivide :: "'a::field vec3 \<Rightarrow> 'a \<Rightarrow> 'a vec3" where
  "vec3_ScalarDivide a s = \<lparr>vx = vx a / s, vy = vy a / s, vz = vz a / s\<rparr>"

definition vec3_SquareLength :: "'a::{plus,times} vec3 \<Rightarrow> 'a" where
  "vec3_SquareLength v = vx v * vx v + vy v * vy v + vz v * vz v"

definition vec3_SumOfElements :: "'a::plus vec3 \<Rightarrow> 'a" where
  "vec3_SumOfElements v = vx v + vy v + vz v"

definition vec3_DotProduct :: "'a::{plus,times} vec3 \<Rightarrow> 'a vec3 \<Rightarrow> 'a" where
  "vec3_DotProduct a b = vx a * vx b + vy a * vy b + vz a * vz b"

definition vec3_CrossProduct :: "'a::{minus,times} vec3 \<Rightarrow> 'a vec3 \<Rightarrow> 'a vec3" where
  "vec3_CrossProduct a b =
     \<lparr>vx = vy a * vz b - vz a * vy b,
      vy = vz a * vx b - vx a * vz b,
      vz = vx a * vy b - vy a * vx b\<rparr>"

definition vec3_GetInversed :: "'a::comm_ring_1 vec3 \<Rightarrow> 'a vec3" where
  "vec3_GetInversed v = \<lparr>vx = vx v * (-1), vy = vy v * (-1), vz = vz v * (-1)\<rparr>"

definition vec3_ProjectionFrom :: "'a::field vec3 \<Rightarrow> 'a vec3 \<Rightarrow> 'a vec3" where
  "vec3_ProjectionFrom this b =
     vec3_ScalarMultiply this (vec3_DotProduct b this / vec3_SquareLength this)"

definition vec3_Projection :: "'a::field vec3 \<Rightarrow> 'a vec3 \<Rightarrow> 'a vec3" where
  "vec3_Projection this b = vec3_ProjectionFrom b this"

definition vec3_Reflect :: "'a::comm_ring_1 vec3 \<Rightarrow> 'a vec3 \<Rightarrow> 'a vec3" where
  "vec3_Reflect this n =
     vec3_sub this (vec3_ScalarMultiply (vec3_ScalarMultiply n 2) (vec3_DotProduct this n))"

definition vec3_Lerp :: "'a::comm_ring_1 vec3 \<Rightarrow> 'a vec3 \<Rightarrow> 'a \<Rightarrow> 'a vec3" where
  "vec3_Lerp a b t = vec3_add (vec3_ScalarMultiply a (1 - t)) (vec3_ScalarMultiply b t)"

text \<open>
  The free left-hand operators written right after the class. They forward to the member with the
  vector on the left, so \<^verbatim>\<open>a - v\<close> is \<open>v - a\<close>, and the body of the one for \<^verbatim>\<open>a / v\<close> computes \<open>v / a\<close>. At the end of
  the file there are others for \<^verbatim>\<open>/\<close> and \<^verbatim>\<open>+\<close>, by value, which compute \<open>a / v\<close> and \<open>a + v\<close>: where both are seen,
  neither is better and a call does not compile.
\<close>

definition vec3_left_divide :: "'a::field \<Rightarrow> 'a vec3 \<Rightarrow> 'a vec3" where
  "vec3_left_divide a v = vec3_ScalarDivide v a"

definition vec3_left_minus :: "'a::minus \<Rightarrow> 'a vec3 \<Rightarrow> 'a vec3" where
  "vec3_left_minus a v = vec3_ScalarSubtract v a"

named_theorems vec3_defs

lemmas vec3_arith_defs [vec3_defs] =
  vec3_zero_def vec3_splat_def vec3_make_def vec3_add_def vec3_ScalarAdd_def vec3_sub_def
  vec3_ScalarSubtract_def vec3_sub_assign_scalar_def vec3_mult_def vec3_ScalarMultiply_def
  vec3_divide_def vec3_ScalarDivide_def vec3_SquareLength_def vec3_SumOfElements_def
  vec3_DotProduct_def vec3_CrossProduct_def vec3_GetInversed_def vec3_ProjectionFrom_def
  vec3_Projection_def vec3_Reflect_def vec3_Lerp_def vec3_left_divide_def vec3_left_minus_def

subsection \<open>Vector algebra\<close>

lemma vec3_eqI: "vx a = vx b \<Longrightarrow> vy a = vy b \<Longrightarrow> vz a = vz b \<Longrightarrow> a = (b::'a vec3)"
  by simp

lemma vec3_add_commute: "vec3_add a b = vec3_add b (a::'a::comm_ring_1 vec3)"
  by (simp add: vec3_defs algebra_simps)

lemma vec3_add_sub [simp]: "vec3_sub (vec3_add a d) a = (d::'a::comm_ring_1 vec3)"
  by (simp add: vec3_defs)

lemma vec3_sub_add [simp]: "vec3_add a (vec3_sub b a) = (b::'a::comm_ring_1 vec3)"
  by (simp add: vec3_defs)

lemma vec3_cross_orthogonal:
  fixes a b :: "'a::comm_ring_1 vec3"
  shows "vec3_DotProduct a (vec3_CrossProduct a b) = 0"
    and "vec3_DotProduct b (vec3_CrossProduct a b) = 0"
  by (simp_all add: vec3_defs algebra_simps)

lemma vec3_cross_anticommute:
  "vec3_CrossProduct a b = vec3_GetInversed (vec3_CrossProduct b (a::'a::comm_ring_1 vec3))"
  by (simp add: vec3_defs algebra_simps)

text \<open>Lagrange's identity: the cross and the dot product share the product of the lengths.\<close>

lemma vec3_lagrange:
  fixes a b :: "'a::comm_ring_1 vec3"
  shows "vec3_SquareLength (vec3_CrossProduct a b) + vec3_DotProduct a b * vec3_DotProduct a b
           = vec3_SquareLength a * vec3_SquareLength b"
  by (simp add: vec3_defs algebra_simps)

lemma vec3_projection_residual_orthogonal:
  fixes n v :: "'a::field vec3"
  assumes "vec3_SquareLength n \<noteq> 0"
  shows "vec3_DotProduct n (vec3_sub v (vec3_ProjectionFrom n v)) = 0"
proof -
  let ?q = "vec3_DotProduct v n / vec3_SquareLength n"
  have "vec3_DotProduct n (vec3_sub v (vec3_ScalarMultiply n c))
          = vec3_DotProduct v n - vec3_SquareLength n * c" for c
    by (simp add: vec3_DotProduct_def vec3_sub_def vec3_ScalarMultiply_def
        vec3_SquareLength_def algebra_simps)
  moreover have "vec3_SquareLength n * ?q = vec3_DotProduct v n" using assms by simp
  ultimately show ?thesis by (simp add: vec3_ProjectionFrom_def)
qed

text \<open>A reflection in a unit normal preserves the length and is its own inverse.\<close>

lemma vec3_reflect_SquareLength:
  fixes v n :: "'a::comm_ring_1 vec3"
  assumes "vec3_SquareLength n = 1"
  shows "vec3_SquareLength (vec3_Reflect v n) = vec3_SquareLength v"
proof -
  let ?d = "vec3_DotProduct v n"
  have "vec3_SquareLength (vec3_Reflect v n)
          = vec3_SquareLength v - 4 * ?d * ?d + 4 * ?d * ?d * vec3_SquareLength n"
    by (simp add: vec3_defs algebra_simps)
  then show ?thesis using assms by simp
qed

lemma vec3_reflect_dot:
  fixes v n :: "'a::comm_ring_1 vec3"
  assumes "vec3_SquareLength n = 1"
  shows "vec3_DotProduct (vec3_Reflect v n) n = - vec3_DotProduct v n"
proof -
  have "vec3_DotProduct (vec3_Reflect v n) n
          = vec3_DotProduct v n - 2 * vec3_DotProduct v n * vec3_SquareLength n"
    by (simp add: vec3_defs algebra_simps)
  then show ?thesis using assms by simp
qed

lemma vec3_reflect_involution:
  fixes v n :: "'a::comm_ring_1 vec3"
  assumes "vec3_SquareLength n = 1"
  shows "vec3_Reflect (vec3_Reflect v n) n = v"
proof -
  have "vec3_Reflect (vec3_Reflect v n) n
          = vec3_sub (vec3_Reflect v n)
              (vec3_ScalarMultiply (vec3_ScalarMultiply n 2) (- vec3_DotProduct v n))"
    by (simp only: vec3_Reflect_def [of "vec3_Reflect v n"] vec3_reflect_dot [OF assms])
  also have "\<dots> = v"
    by (simp add: vec3_Reflect_def vec3_sub_def vec3_ScalarMultiply_def)
  finally show ?thesis .
qed

section \<open>The game's coordinates: components of 16 bits\<close>

type_synonym CoordVec = "i16 vec3"

text \<open>\<^verbatim>\<open>std::abs\<close> of the promoted \<^verbatim>\<open>int\<close>, narrowed back to \<^verbatim>\<open>short\<close>: \<open>-32768\<close> stays negative.\<close>

definition abs_i16 :: "i16 \<Rightarrow> i16" where
  "abs_i16 a = (if sint a < 0 then - a else a)"

definition vec3_abs_i16 :: "CoordVec \<Rightarrow> CoordVec" where
  "vec3_abs_i16 v = \<lparr>vx = abs_i16 (vx v), vy = abs_i16 (vy v), vz = abs_i16 (vz v)\<rparr>"

text \<open>
  \<^verbatim>\<open>equal(short, short)\<close> compares an integer distance with the guard \<^verbatim>\<open>0.00001f\<close>, so it asks for
  distance zero.
\<close>

definition equal_i16 :: "i16 \<Rightarrow> i16 \<Rightarrow> bool" where
  "equal_i16 a b \<longleftrightarrow> \<bar>sint a - sint b\<bar> \<le> 0"

definition less_or_equal_i16 :: "i16 \<Rightarrow> i16 \<Rightarrow> bool" where
  "less_or_equal_i16 a b \<longleftrightarrow> sint a < sint b \<or> equal_i16 a b"

text \<open>
  \<^verbatim>\<open>operator==(template_vec3)\<close> is \<^verbatim>\<open>equal(*this, vec3)\<close>: the component-wise absolute difference is
  compared by \<^verbatim>\<open>operator<=(number_t)\<close> with the guard, whose conversion to \<^verbatim>\<open>short\<close> is 0.
\<close>

definition vec3_eq_i16 :: "CoordVec \<Rightarrow> CoordVec \<Rightarrow> bool" where
  "vec3_eq_i16 a b =
     (let d = vec3_abs_i16 (vec3_sub a b)
      in less_or_equal_i16 (vx d) 0 \<and> less_or_equal_i16 (vy d) 0 \<and> less_or_equal_i16 (vz d) 0)"

text \<open>
  \<^verbatim>\<open>Lenght()\<close>: the square length wraps to 16 bits; the root of a negative value is not a number,
  and its conversion to \<^verbatim>\<open>short\<close> is undefined.
\<close>

definition vec3_Lenght_i16 :: "CoordVec \<Rightarrow> i16 res" where
  "vec3_Lenght_i16 v =
     (let q = vec3_SquareLength v
      in if sint q < 0 then Inl Undefined else Inr (word_of_nat (isqrt (nat (sint q)))))"

subsection \<open>Equality of coordinates\<close>

lemma sint_i16_range: "- 32768 \<le> sint (a::i16)" "sint (a::i16) < 32768"
  using sint_ge [of a] sint_lt [of a] by simp_all

lemma sint_i16_of_int:
  "- 32768 \<le> k \<Longrightarrow> k < 32768 \<Longrightarrow> sint (word_of_int k :: i16) = k"
  by (simp add: sint_sbintrunc' signed_take_bit_int_eq_self)

lemma i16_eq_iff_sint: "(a::i16) = b \<longleftrightarrow> sint a = sint b"
proof
  assume "sint a = sint b"
  then have "(word_of_int (sint a) :: i16) = word_of_int (sint b)" by simp
  then show "a = b" by simp
qed simp

lemma less_or_equal_abs_zero:
  "less_or_equal_i16 (abs_i16 d) 0 \<longleftrightarrow> d = 0 \<or> d = 0x8000"
proof -
  have min: "sint (0x8000::i16) = - 32768" by simp
  show ?thesis
  proof (cases "sint d < 0")
    case True
    show ?thesis
    proof (cases "sint d = - 32768")
      case True
      then have "d = 0x8000" by (simp add: i16_eq_iff_sint min)
      then show ?thesis by (simp add: less_or_equal_i16_def abs_i16_def)
    next
      case False
      have "- d = word_of_int (- sint d)" by simp
      then have "sint (- d) = - sint d"
        using False True sint_i16_range [of d] by (simp only: sint_i16_of_int)
      then show ?thesis using True False min
        by (auto simp: less_or_equal_i16_def equal_i16_def abs_i16_def i16_eq_iff_sint)
    qed
  next
    case False
    then show ?thesis using min
      by (auto simp: less_or_equal_i16_def equal_i16_def abs_i16_def i16_eq_iff_sint)
  qed
qed

lemma vec3_eq_i16_iff:
  "vec3_eq_i16 a b \<longleftrightarrow>
     vx a - vx b \<in> {0, 0x8000} \<and> vy a - vy b \<in> {0, 0x8000} \<and> vz a - vz b \<in> {0, 0x8000}"
  by (simp add: vec3_eq_i16_def vec3_abs_i16_def vec3_sub_def Let_def less_or_equal_abs_zero)

lemma vec3_eq_i16_refl [simp]: "vec3_eq_i16 a a"
  by (simp add: vec3_eq_i16_iff)

text \<open>Coordinates whose differences stay within 15 bits: there \<^verbatim>\<open>operator==\<close> is equality.\<close>

definition near_coord :: "i16 \<Rightarrow> bool" where
  "near_coord c \<longleftrightarrow> - 16384 \<le> sint c \<and> sint c < 16384"

definition near_vec :: "CoordVec \<Rightarrow> bool" where
  "near_vec v \<longleftrightarrow> near_coord (vx v) \<and> near_coord (vy v) \<and> near_coord (vz v)"

lemma near_coord_diff:
  assumes "near_coord a" and "near_coord b"
  shows "sint (a - b) = sint a - sint b"
proof -
  have "a - b = word_of_int (sint a - sint b)" by simp
  moreover have "sint (word_of_int (sint a - sint b) :: i16) = sint a - sint b"
    using assms by (intro sint_i16_of_int) (auto simp: near_coord_def)
  ultimately show ?thesis by simp
qed

lemma near_coord_eq:
  assumes "near_coord a" and "near_coord b"
  shows "a - b \<in> {0, 0x8000} \<longleftrightarrow> a = b"
proof -
  have "a - b \<noteq> 0x8000"
  proof
    assume "a - b = 0x8000"
    then have "sint (a - b) = sint (0x8000::i16)" by simp
    then have "sint a - sint b = - 32768" using near_coord_diff [OF assms] by simp
    then show False using assms by (simp add: near_coord_def)
  qed
  then show ?thesis by simp
qed

lemma vec3_eq_i16_near:
  "near_vec a \<Longrightarrow> near_vec b \<Longrightarrow> vec3_eq_i16 a b \<longleftrightarrow> a = b"
  using near_coord_eq by (simp only: vec3_eq_i16_iff near_vec_def) (auto intro: vec3_eqI)

subsection \<open>Lengths\<close>

lemma vec3_Lenght_small:
  assumes "\<bar>sint (vx v)\<bar> \<le> 104" and "\<bar>sint (vy v)\<bar> \<le> 104" and "\<bar>sint (vz v)\<bar> \<le> 104"
  shows "vec3_Lenght_i16 v =
           Inr (word_of_nat (isqrt (nat ((sint (vx v))\<^sup>2 + (sint (vy v))\<^sup>2 + (sint (vz v))\<^sup>2))))"
proof -
  let ?q = "(sint (vx v))\<^sup>2 + (sint (vy v))\<^sup>2 + (sint (vz v))\<^sup>2"
  have sq: "\<bar>x\<bar> \<le> 104 \<Longrightarrow> x\<^sup>2 \<le> 10816" for x :: int
    using power_mono [of "\<bar>x\<bar>" 104 2] by simp
  have "?q \<le> 32448"
    using sq [OF assms(1)] sq [OF assms(2)] sq [OF assms(3)] by linarith
  moreover have "0 \<le> ?q" by simp
  moreover have "vec3_SquareLength v = word_of_int ?q"
    by (simp add: vec3_SquareLength_def power2_eq_square)
  ultimately have s: "sint (vec3_SquareLength v) = ?q" and nn: "\<not> ?q < 0"
    by (simp_all only: sint_i16_of_int not_less)
  show ?thesis
    unfolding vec3_Lenght_i16_def Let_def s using nn by (simp only: if_False)
qed


section \<open>Properties of the vectors\<close>

text \<open>
  \<^verbatim>\<open>operator==\<close> of coordinates holds exactly when every component differs by 0 or by
  32768; within 15 bits that is equality.
\<close>

theorem coord_equality:
  "(vec3_eq_i16 a b \<longleftrightarrow>
      vx a - vx b \<in> {0, 0x8000} \<and> vy a - vy b \<in> {0, 0x8000} \<and> vz a - vz b \<in> {0, 0x8000}) \<and>
   (near_vec a \<longrightarrow> near_vec b \<longrightarrow> (vec3_eq_i16 a b \<longleftrightarrow> a = b))"
  using vec3_eq_i16_iff vec3_eq_i16_near by blast

theorem coord_equality_witness:
  "vec3_eq_i16 (vec3_make 16384 0 0) (vec3_make (- 16384) 0 0)"
  using coord_equality [of "vec3_make 16384 0 0" "vec3_make (- 16384) 0 0"]
  by (simp add: vec3_make_def)

text \<open>
  Reflecting a vector in a unit normal keeps its length, turns its component along the
  normal around, and is undone by reflecting again.
\<close>

theorem reflection_is_an_isometry:
  fixes v n :: "'a::comm_ring_1 vec3"
  assumes "vec3_SquareLength n = 1"
  shows "vec3_SquareLength (vec3_Reflect v n) = vec3_SquareLength v \<and>
         vec3_DotProduct (vec3_Reflect v n) n = - vec3_DotProduct v n \<and>
         vec3_Reflect (vec3_Reflect v n) n = v"
  using assms by (simp add: vec3_reflect_SquareLength vec3_reflect_dot vec3_reflect_involution)

theorem reflection_is_an_isometry_witness:
  "vec3_Reflect (vec3_Reflect (vec3_make 3 4 5) (vec3_make 0 1 0)) (vec3_make 0 1 0)
     = (vec3_make 3 4 5 :: int vec3)"
  using reflection_is_an_isometry [of "vec3_make 0 1 0" "vec3_make 3 4 5"]
  by (simp add: vec3_defs)

text \<open>
  Over a field, subtracting the projection on a vector of non-zero length leaves a
  vector orthogonal to it, the cross product is orthogonal to both factors, and its square length is
  the one Lagrange's identity gives.
\<close>

theorem projection_and_cross:
  fixes n v :: "'a::field vec3"
  assumes "vec3_SquareLength n \<noteq> 0"
  shows "vec3_DotProduct n (vec3_sub v (vec3_ProjectionFrom n v)) = 0 \<and>
         vec3_DotProduct n (vec3_CrossProduct n v) = 0 \<and> vec3_DotProduct v (vec3_CrossProduct n v) = 0 \<and>
         vec3_SquareLength (vec3_CrossProduct n v) + vec3_DotProduct n v * vec3_DotProduct n v
           = vec3_SquareLength n * vec3_SquareLength v"
  using vec3_projection_residual_orthogonal [OF assms] vec3_cross_orthogonal(1) [of n v]
    vec3_cross_orthogonal(2) [of v n] vec3_lagrange [of n v]
  by simp

theorem projection_and_cross_witness:
  "vec3_DotProduct (vec3_make 1 2 2 :: rat vec3)
     (vec3_sub (vec3_make 3 0 1) (vec3_ProjectionFrom (vec3_make 1 2 2) (vec3_make 3 0 1))) = 0"
  using projection_and_cross [of "vec3_make 1 2 2 :: rat vec3" "vec3_make 3 0 1"]
  by (simp add: vec3_SquareLength_def vec3_make_def)

end
