(* ===== verification/StaticArr.thy ===== *)
theory StaticArr
  imports Prelude
begin

text \<open>
  SpNetCommon/src/Containers/StaticArray.h: the fixed-size array and the fixed-size string.

  A \<^verbatim>\<open>StaticArray<V, N>\<close> is a list of length \<open>N\<close>; its \<^verbatim>\<open>operator[]\<close> asserts that the index is in
  range (the build defines no \<^verbatim>\<open>NDEBUG\<close>, so the assertion is live in both configurations) and is
  modelled by a read and a write that fail with \<open>AssertFailed\<close>. A \<^verbatim>\<open>FixedString<N>\<close> is the list of
  its \<open>N\<close> bytes.
\<close>

section \<open>StaticArray\<close>

definition sa_get :: "'a list \<Rightarrow> nat \<Rightarrow> 'a res" where
  "sa_get xs i = (if i < length xs then Inr (xs ! i) else Inl AssertFailed)"

definition sa_set :: "'a list \<Rightarrow> nat \<Rightarrow> 'a \<Rightarrow> 'a list res" where
  "sa_set xs i x = (if i < length xs then Inr (xs[i := x]) else Inl AssertFailed)"

lemma sa_get_Inr_iff [simp]: "sa_get xs i = Inr x \<longleftrightarrow> i < length xs \<and> xs ! i = x"
  by (auto simp: sa_get_def)

lemma sa_set_Inr_iff [simp]: "sa_set xs i x = Inr ys \<longleftrightarrow> i < length xs \<and> ys = xs[i := x]"
  by (auto simp: sa_set_def)

lemma sa_get_set_same: "sa_set xs i x = Inr ys \<Longrightarrow> sa_get ys i = Inr x"
  by simp

lemma sa_get_set_other: "sa_set xs i x = Inr ys \<Longrightarrow> i \<noteq> j \<Longrightarrow> sa_get ys j = sa_get xs j"
  by (auto simp: sa_get_def)

lemma sa_get_fault: "length xs \<le> i \<Longrightarrow> sa_get xs i = Inl AssertFailed"
  by (simp add: sa_get_def)

text \<open>
  \<^verbatim>\<open>data()\<close>, \<^verbatim>\<open>begin()\<close> and \<^verbatim>\<open>end()\<close> are pointers into the storage: offsets, of which those before the end
  may be read.
\<close>

definition sa_size :: "'a list \<Rightarrow> nat" where
  "sa_size xs = length xs"

definition sa_data :: "'a list \<Rightarrow> nat" where
  "sa_data xs = 0"

definition sa_begin :: "'a list \<Rightarrow> nat" where
  "sa_begin xs = 0"

definition sa_end :: "'a list \<Rightarrow> nat" where
  "sa_end xs = sa_begin xs + sa_size xs"

definition sa_read :: "'a list \<Rightarrow> nat \<Rightarrow> 'a res" where
  "sa_read xs p = (if p < length xs then Inr (xs ! p) else Inl Undefined)"

text \<open>A range-based \<^verbatim>\<open>for\<close> reads every element once, in order, and nothing else.\<close>

lemma sa_range_loop: "map (sa_read xs) [sa_begin xs..<sa_end xs] = map Inr xs"
  by (rule nth_equalityI) (simp_all add: sa_begin_def sa_end_def sa_size_def sa_read_def)

lemma sa_end_unreadable: "sa_read xs (sa_end xs) = Inl Undefined"
  by (simp add: sa_read_def sa_end_def sa_begin_def sa_size_def)

section \<open>FixedString\<close>

text \<open>Access to the characters, with the assertion of its own.\<close>

definition fs_get :: "bytes \<Rightarrow> nat \<Rightarrow> u8 res" where
  "fs_get st i = (if i < length st then sa_get st i else Inl AssertFailed)"

definition fs_set :: "bytes \<Rightarrow> nat \<Rightarrow> u8 \<Rightarrow> bytes res" where
  "fs_set st i c = (if i < length st then sa_set st i c else Inl AssertFailed)"

definition fs_size :: "bytes \<Rightarrow> nat" where
  "fs_size st = length st"

definition fs_data :: "bytes \<Rightarrow> nat" where
  "fs_data st = sa_data st"

definition fs_begin :: "bytes \<Rightarrow> nat" where
  "fs_begin st = sa_data st"

definition fs_end :: "bytes \<Rightarrow> nat" where
  "fs_end st = sa_data st + fs_size st"

lemma fs_is_array:
  "fs_get st i = sa_get st i" "fs_set st i c = sa_set st i c" "fs_size st = sa_size st" "fs_data st = sa_data st"
  "fs_begin st = sa_begin st" "fs_end st = sa_end st"
  by (simp_all add: fs_get_def fs_set_def sa_get_def sa_set_def fs_size_def sa_size_def fs_data_def fs_begin_def
      fs_end_def sa_begin_def sa_end_def sa_data_def)

text \<open>
  The constructor from a C string. \<open>mem\<close> is the memory the pointer addresses, from its first
  character on; reading past the memory the model knows is undefined. The loop copies a character
  first and tests the next one for the terminator afterwards, so the terminator itself is never
  copied and the first character is copied even when it is the terminator.
\<close>

function fixed_string_copy :: "bytes \<Rightarrow> nat \<Rightarrow> nat \<Rightarrow> bytes \<Rightarrow> bytes res" where
  "fixed_string_copy mem p i st =
     (if i < length st then
        (if p < length mem then
           (if Suc p < length mem then
              (if mem ! Suc p = 0 then Inr (st[i := mem ! p])
               else fixed_string_copy mem (Suc p) (Suc i) (st[i := mem ! p]))
            else Inl Undefined)
         else Inl Undefined)
      else Inr st)"
  by pat_completeness auto
termination
  by (relation "measure (\<lambda>(mem, p, i, st). length st - i)") auto

declare fixed_string_copy.simps [simp del]

text \<open>\<open>old\<close>: what the storage held before; a null pointer leaves it as it was.\<close>

definition FixedString_from :: "bytes option \<Rightarrow> bytes \<Rightarrow> bytes res" where
  "FixedString_from cStr old =
     (case cStr of None \<Rightarrow> Inr old | Some mem \<Rightarrow> fixed_string_copy mem 0 0 old)"

lemma fixed_string_copy_prefix:
  assumes "s \<noteq> []" and "0 \<notin> set s"
  shows "fixed_string_copy (pre @ s @ 0 # rest) (length pre) (length acc)
           (acc @ old) = Inr (acc @ take (length old) s @ drop (length s) old)"
  using assms
proof (induction s arbitrary: pre "acc" old)
  case Nil
  then show ?case by simp
next
  case (Cons c s)
  show ?case
  proof (cases old)
    case Nil
    then show ?thesis by (simp add: fixed_string_copy.simps [of _ "length pre" "length acc"])
  next
    case (Cons o1 old')
    let ?mem = "pre @ (c # s) @ 0 # rest"
    have upd: "(acc @ old)[length acc := c] = (acc @ [c]) @ old'"
      using Cons by (simp add: list_update_append)
    have next_char: "?mem ! Suc (length pre) = (s @ 0 # rest) ! 0"
      by (simp add: nth_append)
    show ?thesis
    proof (cases s)
      case Nil
      then show ?thesis using Cons upd next_char
        by (simp add: fixed_string_copy.simps [of _ "length pre" "length acc"] nth_append)
    next
      case (Cons d s')
      have "d \<noteq> 0" and "0 \<notin> set s" using Cons.prems Cons by auto
      have step: "fixed_string_copy ?mem (length pre) (length acc) (acc @ old)
              = fixed_string_copy ((pre @ [c]) @ s @ 0 # rest) (length (pre @ [c]))
                  (length (acc @ [c])) ((acc @ [c]) @ old')"
        using \<open>old = o1 # old'\<close> Cons upd \<open>d \<noteq> 0\<close>
        by (simp add: fixed_string_copy.simps [of _ "length pre" "length acc"] nth_append)
      also have "\<dots> = Inr ((acc @ [c]) @ take (length old') s @ drop (length s) old')"
        using Cons.IH [of "pre @ [c]" "acc @ [c]" old'] \<open>0 \<notin> set s\<close> Cons by simp
      finally show ?thesis using \<open>old = o1 # old'\<close> by simp
    qed
  qed
qed

text \<open>
  A non-empty C string is copied up to the capacity; what follows it keeps the old contents,
  because the terminator is not written.
\<close>

lemma FixedString_from_string:
  assumes "s \<noteq> []" and "0 \<notin> set s"
  shows "FixedString_from (Some (s @ 0 # rest)) old = Inr (take (length old) s @ drop (length s) old)"
  using fixed_string_copy_prefix [OF assms, of "[]" rest "[]" old]
  by (simp add: FixedString_from_def)

text \<open>The empty string: the terminator is copied and the byte after it is read.\<close>

lemma FixedString_from_empty_reads_past:
  "old \<noteq> [] \<Longrightarrow> FixedString_from (Some [0]) old = Inl Undefined"
  by (simp add: FixedString_from_def fixed_string_copy.simps)

section \<open>strcmp\<close>

text \<open>
  \<^verbatim>\<open>std::strcmp(a, b) == 0\<close> on two character arrays: equal up to a common terminator. Running past
  an array that holds no terminator is undefined.
\<close>

fun strcmp_eq :: "bytes \<Rightarrow> bytes \<Rightarrow> bool res" where
  "strcmp_eq (a # as) (b # bs) =
     (if a \<noteq> b then Inr False else if a = 0 then Inr True else strcmp_eq as bs)"
| "strcmp_eq _ _ = Inl Undefined"

text \<open>The C string an array holds.\<close>

definition c_string :: "bytes \<Rightarrow> bytes" where
  "c_string xs = takeWhile (\<lambda>c. c \<noteq> 0) xs"

lemma strcmp_eq_c_string:
  "0 \<in> set as \<Longrightarrow> 0 \<in> set bs \<Longrightarrow> strcmp_eq as bs = Inr (c_string as = c_string bs)"
  by (induction as bs rule: strcmp_eq.induct) (auto simp: c_string_def)


section \<open>Properties of the fixed string\<close>

text \<open>
  A non-empty C string of any length is copied up to the capacity of the fixed string,
  and whatever the storage held after it stays: over zeroed storage, a string shorter than the
  capacity is read back as it was.
\<close>

theorem FixedString_round_trip:
  assumes "s \<noteq> []" and "0 \<notin> set s" and "length s < n"
  shows "\<exists>fs. FixedString_from (Some (s @ 0 # rest)) (replicate n 0) = Inr fs \<and>
              length fs = n \<and> c_string fs = s"
proof -
  have "replicate (n - length s) (0::u8) = 0 # replicate (n - Suc (length s)) 0"
    using assms(3) by (simp flip: replicate_Suc add: Suc_diff_Suc)
  then have "c_string (s @ replicate (n - length s) 0) = s"
    unfolding c_string_def by (subst takeWhile_append2) (use assms(2) in auto)
  then show ?thesis
    using FixedString_from_string [OF assms(1,2), of rest "replicate n 0"] assms(3) by simp
qed

theorem FixedString_round_trip_witness:
  "\<exists>fs. FixedString_from (Some [66, 111, 119, 0]) (replicate 75 0) = Inr fs \<and> c_string fs = [66, 111, 119]"
  using FixedString_round_trip [of "[66, 111, 119]" 75 "[]"] by auto

text \<open>The empty string literal makes the constructor read past its terminator.\<close>

theorem FixedString_empty_literal:
  assumes "0 < n"
  shows "FixedString_from (Some [0]) (replicate n x) = Inl Undefined"
  using assms by (intro FixedString_from_empty_reads_past) auto

theorem FixedString_empty_literal_witness:
  "FixedString_from (Some [0]) (replicate 75 0) = Inl Undefined"
  by (rule FixedString_empty_literal) simp

end
