(* ===== verification/Items.thy ===== *)
theory Items
  imports StaticArr
begin

text \<open>
  Items and the inventory (spNetMETA.h, \<^verbatim>\<open>ItemType\<close> to \<^verbatim>\<open>Inventory\<close>).

  An inventory is its storage, a \<^verbatim>\<open>StaticArray<ItemSlot, 20>\<close>. Item types that arrive over the
  network can hold any value of the enumeration's integer; \<open>OtherItem\<close> keeps those apart.
\<close>

section \<open>Data\<close>

definition InvalidID :: u32 where
  "InvalidID = 0xFFFFFFFF"

definition MaxNameSize :: nat where
  "MaxNameSize = 75"

definition MaxInventorySize :: nat where
  "MaxInventorySize = 20"

datatype ItemType = NoItem | Arrow | Bow | Sword | Apple | OtherItem u32

record Item =
  ItemName :: bytes
  item_type :: ItemType
  usage :: u8
  Power :: u8

record ItemSlot =
  slot_empty :: bool
  slot_item :: Item
  Mods :: u8
  quantity :: u32

record Inventory =
  Storage :: "ItemSlot list"

text \<open>\<^verbatim>\<open>Item{}\<close> and \<^verbatim>\<open>ItemSlot{}\<close>: zero-initialised characters and the default member initialisers.\<close>

definition default_Item :: Item where
  "default_Item = \<lparr>ItemName = replicate 75 0, item_type = NoItem, usage = 0, Power = 0\<rparr>"

definition default_ItemSlot :: ItemSlot where
  "default_ItemSlot = \<lparr>slot_empty = True, slot_item = default_Item, Mods = 0, quantity = 0\<rparr>"

definition empty_Inventory :: Inventory where
  "empty_Inventory = \<lparr>Storage = replicate MaxInventorySize default_ItemSlot\<rparr>"

text \<open>The characters of a literal, in zero-initialised storage of 75 characters.\<close>

definition item_name :: "string \<Rightarrow> bytes" where
  "item_name s = take 75 (map of_char s @ replicate 75 0)"

definition ItemTable :: "Item list" where
  "ItemTable =
     [\<lparr>ItemName = item_name ''Master Keiju Sword'', item_type = Sword, usage = 100, Power = 5\<rparr>,
      \<lparr>ItemName = item_name ''Villager Bow'', item_type = Bow, usage = 27, Power = 1\<rparr>,
      \<lparr>ItemName = item_name ''Apple'', item_type = Apple, usage = 3, Power = 1\<rparr>,
      \<lparr>ItemName = item_name ''Just Arrow'', item_type = Arrow, usage = 1, Power = 1\<rparr>,
      \<lparr>ItemName = item_name ''Poisoned Arrow'', item_type = Arrow, usage = 7, Power = 3\<rparr>,
      \<lparr>ItemName = item_name ''Iron Sword'', item_type = Sword, usage = 27, Power = 3\<rparr>]"

section \<open>Operations\<close>

text \<open>The slot \<^verbatim>\<open>AddItem\<close> builds: weapons carry their wear, everything else is a stack.\<close>

definition slot_of_item :: "Item \<Rightarrow> ItemSlot" where
  "slot_of_item item =
     \<lparr>slot_empty = False, slot_item = item,
      Mods = (if item_type item = Sword \<or> item_type item = Bow then usage item else 0),
      quantity = (if item_type item = Sword \<or> item_type item = Bow then 1 else ucast (usage item))\<rparr>"

fun put_first_empty :: "ItemSlot \<Rightarrow> ItemSlot list \<Rightarrow> ItemSlot list" where
  "put_first_empty new [] = []"
| "put_first_empty new (s # ss) = (if slot_empty s then new # ss else s # put_first_empty new ss)"

definition AddItem :: "Inventory \<Rightarrow> Item \<Rightarrow> Inventory" where
  "AddItem iv item = iv\<lparr>Storage := put_first_empty (slot_of_item item) (Storage iv)\<rparr>"

text \<open>\<^verbatim>\<open>RemoveItem\<close> compares names only: it does not look at the slot's \<^verbatim>\<open>empty\<close> flag.\<close>

fun remove_first_named :: "bytes \<Rightarrow> ItemSlot list \<Rightarrow> ItemSlot list res" where
  "remove_first_named name [] = Inr []"
| "remove_first_named name (s # ss) =
     res_bind (strcmp_eq (ItemName (slot_item s)) name) (\<lambda>same.
       if same then Inr (default_ItemSlot # ss)
       else res_bind (remove_first_named name ss) (\<lambda>ss'. Inr (s # ss')))"

definition RemoveItem :: "Inventory \<Rightarrow> Item \<Rightarrow> Inventory res" where
  "RemoveItem iv item =
     res_bind (remove_first_named (ItemName item) (Storage iv)) (\<lambda>ss. Inr (iv\<lparr>Storage := ss\<rparr>))"

fun find_type_from :: "u32 \<Rightarrow> ItemType \<Rightarrow> ItemSlot list \<Rightarrow> u32" where
  "find_type_from i t [] = InvalidID"
| "find_type_from i t (s # ss) =
     (if \<not> slot_empty s \<and> item_type (slot_item s) = t then i else find_type_from (i + 1) t ss)"

definition FindItem :: "Inventory \<Rightarrow> ItemType \<Rightarrow> u32" where
  "FindItem iv t = find_type_from 0 t (Storage iv)"

text \<open>The constructors from a list of items and from a list of slots.\<close>

definition Inventory_of_items :: "Item list \<Rightarrow> Inventory" where
  "Inventory_of_items items = foldl AddItem empty_Inventory items"

fun store_slots :: "nat \<Rightarrow> ItemSlot list \<Rightarrow> ItemSlot list \<Rightarrow> ItemSlot list res" where
  "store_slots i [] st = Inr st"
| "store_slots i (x # xs) st = res_bind (sa_set st i x) (store_slots (Suc i) xs)"

definition Inventory_of_slots :: "ItemSlot list \<Rightarrow> Inventory res" where
  "Inventory_of_slots slots =
     res_bind (store_slots 0 slots (Storage empty_Inventory)) (\<lambda>st. Inr \<lparr>Storage = st\<rparr>)"

text \<open>A slot of the storage by its 32-bit index, through \<^verbatim>\<open>operator[]\<close> and its assertion.\<close>

definition storage_at :: "Inventory \<Rightarrow> u32 \<Rightarrow> ItemSlot res" where
  "storage_at iv i = sa_get (Storage iv) (unat i)"

section \<open>Well-formed inventories\<close>

definition wf_Item :: "Item \<Rightarrow> bool" where
  "wf_Item it \<longleftrightarrow> length (ItemName it) = 75"

definition wf_Inventory :: "Inventory \<Rightarrow> bool" where
  "wf_Inventory iv \<longleftrightarrow>
     length (Storage iv) = MaxInventorySize \<and> list_all (\<lambda>s. wf_Item (slot_item s)) (Storage iv)"

lemma length_item_name [simp]: "length (item_name s) = 75"
  by (simp add: item_name_def)

lemma wf_default_Item [simp]: "wf_Item default_Item"
  by (simp add: wf_Item_def default_Item_def)

lemma wf_ItemTable: "it \<in> set ItemTable \<Longrightarrow> wf_Item it"
  by (auto simp: ItemTable_def wf_Item_def)

lemma wf_empty_Inventory [simp]: "wf_Inventory empty_Inventory"
  by (simp add: wf_Inventory_def empty_Inventory_def default_ItemSlot_def list_all_iff)

lemma length_put_first_empty [simp]: "length (put_first_empty new ss) = length ss"
  by (induction ss) simp_all

lemma set_put_first_empty: "set (put_first_empty new ss) \<subseteq> insert new (set ss)"
  by (induction ss) auto

lemma wf_AddItem:
  assumes "wf_Inventory iv" and "wf_Item item"
  shows "wf_Inventory (AddItem iv item)"
proof -
  have "wf_Item (slot_item (slot_of_item item))"
    using assms(2) by (simp add: slot_of_item_def)
  then show ?thesis using assms(1) set_put_first_empty [of "slot_of_item item" "Storage iv"]
    by (fastforce simp: wf_Inventory_def AddItem_def list_all_iff)
qed

lemma length_remove_first_named:
  "remove_first_named name ss = Inr ss' \<Longrightarrow> length ss' = length ss"
  by (induction ss arbitrary: ss') (auto split: if_splits)

lemma set_remove_first_named:
  "remove_first_named name ss = Inr ss' \<Longrightarrow> set ss' \<subseteq> insert default_ItemSlot (set ss)"
  by (induction ss arbitrary: ss') (auto split: if_splits)

lemma wf_RemoveItem:
  assumes "wf_Inventory iv" and "RemoveItem iv item = Inr iv'"
  shows "wf_Inventory iv'"
proof -
  from assms(2) obtain ss where r: "remove_first_named (ItemName item) (Storage iv) = Inr ss"
    and iv': "iv' = iv\<lparr>Storage := ss\<rparr>"
    by (auto simp: RemoveItem_def)
  have "wf_Item (slot_item default_ItemSlot)" by (simp add: default_ItemSlot_def)
  then show ?thesis
    using assms(1) length_remove_first_named [OF r] set_remove_first_named [OF r] iv'
    by (fastforce simp: wf_Inventory_def list_all_iff)
qed

section \<open>What the operations compute\<close>

definition has_free_slot :: "Inventory \<Rightarrow> bool" where
  "has_free_slot iv \<longleftrightarrow> list_ex slot_empty (Storage iv)"

lemma put_first_empty_split:
  "list_all (\<lambda>s. \<not> slot_empty s) pre \<Longrightarrow> slot_empty s \<Longrightarrow>
     put_first_empty new (pre @ s # post) = pre @ new # post"
  by (induction pre) auto

lemma put_first_empty_full:
  "list_all (\<lambda>s. \<not> slot_empty s) ss \<Longrightarrow> put_first_empty new ss = ss"
  by (induction ss) auto

lemma AddItem_full: "\<not> has_free_slot iv \<Longrightarrow> AddItem iv item = iv"
  by (simp add: AddItem_def has_free_slot_def put_first_empty_full list_all_iff list_ex_iff)

lemma AddItem_count:
  assumes "has_free_slot iv"
  shows "length (filter (\<lambda>s. \<not> slot_empty s) (Storage (AddItem iv item)))
           = Suc (length (filter (\<lambda>s. \<not> slot_empty s) (Storage iv)))"
proof -
  have "list_ex slot_empty ss \<Longrightarrow>
      length (filter (\<lambda>s. \<not> slot_empty s) (put_first_empty (slot_of_item item) ss))
        = Suc (length (filter (\<lambda>s. \<not> slot_empty s) ss))" for ss
    by (induction ss) (auto simp: slot_of_item_def)
  then show ?thesis using assms by (simp add: AddItem_def has_free_slot_def)
qed

text \<open>\<^verbatim>\<open>FindItem\<close>: the least index of an occupied slot with the type, or \<^verbatim>\<open>InvalidID\<close>.\<close>

definition holds_type :: "ItemType \<Rightarrow> ItemSlot \<Rightarrow> bool" where
  "holds_type t s \<longleftrightarrow> \<not> slot_empty s \<and> item_type (slot_item s) = t"

lemma find_type_from_spec:
  assumes "unat i + length ss < 2 ^ 32 - 1"
  shows "(find_type_from i t ss = InvalidID \<and> (\<forall>j < length ss. \<not> holds_type t (ss ! j))) \<or>
         (\<exists>j < length ss. find_type_from i t ss = i + word_of_nat j \<and> holds_type t (ss ! j) \<and>
            (\<forall>k < j. \<not> holds_type t (ss ! k)))"
  using assms
proof (induction ss arbitrary: i)
  case Nil
  then show ?case by simp
next
  case (Cons s ss)
  show ?case
  proof (cases "holds_type t s")
    case True
    then show ?thesis by (intro disjI2 exI [of _ 0]) (simp add: holds_type_def)
  next
    case False
    then have step: "find_type_from i t (s # ss) = find_type_from (i + 1) t ss"
      by (auto simp: holds_type_def)
    have "unat (i + 1) = Suc (unat i)"
      using Cons.prems by (simp add: unat_word_ariths)
    then have "unat (i + 1) + length ss < 2 ^ 32 - 1" using Cons.prems by simp
    from Cons.IH [OF this] show ?thesis
    proof
      assume "find_type_from (i + 1) t ss = InvalidID \<and> (\<forall>j < length ss. \<not> holds_type t (ss ! j))"
      then show ?thesis using step False by (auto simp: nth_Cons split: nat.splits)
    next
      assume "\<exists>j < length ss. find_type_from (i + 1) t ss = i + 1 + word_of_nat j
          \<and> holds_type t (ss ! j) \<and> (\<forall>k < j. \<not> holds_type t (ss ! k))"
      then obtain j where j: "j < length ss" "find_type_from (i + 1) t ss = i + 1 + word_of_nat j"
        "holds_type t (ss ! j)" "\<forall>k < j. \<not> holds_type t (ss ! k)" by blast
      then show ?thesis using step False
        by (intro disjI2 exI [of _ "Suc j"]) (auto simp: nth_Cons algebra_simps split: nat.splits)
    qed
  qed
qed

lemma FindItem_InvalidID_iff:
  assumes "wf_Inventory iv"
  shows "FindItem iv t = InvalidID \<longleftrightarrow> (\<forall>s \<in> set (Storage iv). \<not> holds_type t s)"
proof -
  have len: "length (Storage iv) = 20" using assms by (simp add: wf_Inventory_def MaxInventorySize_def)
  have small: "j < 20 \<Longrightarrow> (word_of_nat j :: u32) \<noteq> InvalidID" for j
  proof
    assume "j < 20" and "(word_of_nat j :: u32) = InvalidID"
    then have "unat (word_of_nat j :: u32) = unat InvalidID" by simp
    with \<open>j < 20\<close> show False by (simp add: unat_of_nat InvalidID_def)
  qed
  from find_type_from_spec [of 0 "Storage iv" t] len show ?thesis
    using small by (fastforce simp: FindItem_def in_set_conv_nth)
qed

lemma FindItem_found:
  assumes "wf_Inventory iv" and "FindItem iv t \<noteq> InvalidID"
  shows "unat (FindItem iv t) < MaxInventorySize"
    and "holds_type t (Storage iv ! unat (FindItem iv t))"
    and "k < unat (FindItem iv t) \<Longrightarrow> \<not> holds_type t (Storage iv ! k)"
proof -
  have len: "length (Storage iv) = 20"
    using assms by (simp add: wf_Inventory_def MaxInventorySize_def)
  from find_type_from_spec [of 0 "Storage iv" t] len assms(2) obtain j where
    j: "j < 20" "FindItem iv t = word_of_nat j" "holds_type t (Storage iv ! j)"
      "\<forall>k < j. \<not> holds_type t (Storage iv ! k)"
    by (auto simp: FindItem_def)
  have "unat (FindItem iv t) = j" using j(1,2) by (simp add: unat_of_nat)
  with j show "unat (FindItem iv t) < MaxInventorySize"
    and "holds_type t (Storage iv ! unat (FindItem iv t))"
    and "k < unat (FindItem iv t) \<Longrightarrow> \<not> holds_type t (Storage iv ! k)"
    by (simp_all add: MaxInventorySize_def)
qed


section \<open>Properties of the inventory\<close>

text \<open>
  \<^verbatim>\<open>FindItem\<close> returns the least index of an occupied slot of the type, and \<^verbatim>\<open>InvalidID\<close>
  exactly when there is none.
\<close>

theorem FindItem_least:
  assumes "wf_Inventory iv"
  shows "if \<exists>s \<in> set (Storage iv). holds_type t s
         then unat (FindItem iv t) < MaxInventorySize \<and>
              holds_type t (Storage iv ! unat (FindItem iv t)) \<and>
              (\<forall>k < unat (FindItem iv t). \<not> holds_type t (Storage iv ! k))
         else FindItem iv t = InvalidID"
proof (cases "FindItem iv t = InvalidID")
  case True
  then have "\<not> (\<exists>s \<in> set (Storage iv). holds_type t s)"
    using FindItem_InvalidID_iff [OF assms, of t] by blast
  then show ?thesis using True by simp
next
  case False
  then have "\<exists>s \<in> set (Storage iv). holds_type t s"
    using FindItem_InvalidID_iff [OF assms, of t] by blast
  then show ?thesis using FindItem_found [OF assms False] by simp
qed

theorem FindItem_least_witness:
  "FindItem (AddItem empty_Inventory (ItemTable ! 5)) Bow = InvalidID"
proof -
  have "wf_Inventory (AddItem empty_Inventory (ItemTable ! 5))"
    by (intro wf_AddItem) (simp_all add: wf_ItemTable ItemTable_def wf_Item_def)
  from FindItem_least [OF this, of Bow] show ?thesis
    by (auto simp: AddItem_def empty_Inventory_def MaxInventorySize_def eval_nat_numeral
        default_ItemSlot_def slot_of_item_def ItemTable_def holds_type_def split: if_splits)
qed

text \<open>
  Adding an item to a storage with a free slot fills the first free one and leaves the
  others; a full storage is left as it is; the storage stays well-formed.
\<close>

theorem AddItem_first_free:
  assumes "wf_Inventory iv" and "wf_Item item"
  shows "wf_Inventory (AddItem iv item) \<and>
         (if has_free_slot iv
          then \<exists>i < MaxInventorySize. slot_empty (Storage iv ! i) \<and>
                 (\<forall>j < i. \<not> slot_empty (Storage iv ! j)) \<and>
                 Storage (AddItem iv item) = (Storage iv)[i := slot_of_item item]
          else AddItem iv item = iv)"
proof (cases "has_free_slot iv")
  case True
  then have "\<exists>s \<in> set (Storage iv). slot_empty s" by (simp add: has_free_slot_def list_ex_iff)
  from split_list_first_prop [OF this] obtain pre s post where
    st: "Storage iv = pre @ s # post" "slot_empty s" "\<forall>x \<in> set pre. \<not> slot_empty x" by blast
  have "length pre < MaxInventorySize" using assms(1) st(1) by (simp add: wf_Inventory_def)
  moreover have "Storage (AddItem iv item) = (Storage iv)[length pre := slot_of_item item]"
    using st by (simp add: AddItem_def put_first_empty_split list_all_iff)
  ultimately show ?thesis using True wf_AddItem [OF assms] st
    by (simp only: if_True) (rule conjI, blast, rule exI [of _ "length pre"], simp add: nth_append)
next
  case False
  then show ?thesis using wf_AddItem [OF assms] by (simp add: AddItem_full)
qed

theorem AddItem_first_free_witness:
  "\<exists>i < MaxInventorySize. Storage (AddItem empty_Inventory (ItemTable ! 2))
      = (Storage empty_Inventory)[i := slot_of_item (ItemTable ! 2)]"
proof -
  have "has_free_slot empty_Inventory"
    by (simp add: has_free_slot_def empty_Inventory_def default_ItemSlot_def MaxInventorySize_def
        list_ex_iff)
  then show ?thesis
    using AddItem_first_free [of empty_Inventory "ItemTable ! 2"]
    by (auto simp: wf_ItemTable ItemTable_def wf_Item_def)
qed

text \<open>
  Removing an item compares the names as C strings: the first slot with that name is
  reset, whether or not it is occupied, and a storage without the name is left alone.
\<close>

theorem RemoveItem_effect:
  assumes "\<forall>s \<in> set (Storage iv). 0 \<in> set (ItemName (slot_item s))" and "0 \<in> set (ItemName item)"
  defines "named \<equiv> (\<lambda>s. c_string (ItemName (slot_item s)) = c_string (ItemName item))"
  shows "RemoveItem iv item = Inr (iv\<lparr>Storage :=
           (case List.extract named (Storage iv) of
              None \<Rightarrow> Storage iv
            | Some (pre, s, post) \<Rightarrow> pre @ default_ItemSlot # post)\<rparr>)"
proof -
  have "remove_first_named (ItemName item) ss = Inr (case List.extract named ss of
           None \<Rightarrow> ss | Some (pre, s, post) \<Rightarrow> pre @ default_ItemSlot # post)"
    if "\<forall>s \<in> set ss. 0 \<in> set (ItemName (slot_item s))" for ss
    using that
  proof (induction ss)
    case Nil
    then show ?case by (simp add: extract_Nil_code)
  next
    case (Cons s ss)
    then show ?case
      using strcmp_eq_c_string [of "ItemName (slot_item s)" "ItemName item"] assms(2)
      by (auto simp: extract_Cons_code named_def split: option.splits)
  qed
  then show ?thesis using assms(1) by (simp add: RemoveItem_def)
qed

theorem RemoveItem_effect_witness:
  "RemoveItem \<lparr>Storage = [default_ItemSlot, slot_of_item (ItemTable ! 2)]\<rparr> (ItemTable ! 2)
     = Inr \<lparr>Storage = [default_ItemSlot, default_ItemSlot]\<rparr>"
proof -
  let ?iv = "\<lparr>Storage = [default_ItemSlot, slot_of_item (ItemTable ! 2)]\<rparr>"
  have "\<forall>s \<in> set (Storage ?iv). 0 \<in> set (ItemName (slot_item s))" "0 \<in> set (ItemName (ItemTable ! 2))"
    by (simp_all add: default_ItemSlot_def default_Item_def slot_of_item_def ItemTable_def item_name_def)
  from RemoveItem_effect [OF this] show ?thesis
    by (simp add: extract_Cons_code extract_Nil_code c_string_def default_ItemSlot_def default_Item_def
        slot_of_item_def ItemTable_def item_name_def)
qed

end
