(* ===== verification/World.thy ===== *)
theory World
  imports VecMath Items "HOL-Library.AList"
begin

text \<open>
  The game world of spNetMETA.h: players, enemies, their actions, damage and attacks.

  \<^item> A pointer or reference to a player is the key of the player in \<^verbatim>\<open>PlayersList\<close>; a reference to an
    enemy is its index in \<^verbatim>\<open>EnemyList\<close>. An attack reads and writes the acting character's inventory
    and the victims through the world, so aliasing between them is kept.
  \<^item> \<^verbatim>\<open>PlayersList\<close> is an \<^verbatim>\<open>unordered_map\<close>: an association list whose order is the container's
    iteration order, which the standard leaves open: theorems are about a list in any order. Where a
    new player joins on the server the whole order may change (theory GameServer). A client's copy puts
    a new key last, and theorems about copies speak of the players as a map, whatever their order.
  \<^item> The kill callback has no effect on the world: its invocations are recorded in order.
\<close>

section \<open>Data\<close>

datatype EPlayerActionType = Move | Attack | EndTurn | OtherPlayerAction u8

record PlayerAction =
  ActionType :: EPlayerActionType
  PA_PlayerID :: u32
  PA_ActionInfo :: "i16 list"

datatype EEnemyActionType = EnemyMove | EnemyBaseAttack | OtherEnemyAction u8

record EnemyAction =
  actionType :: EEnemyActionType
  EA_EnemyID :: u32
  EA_ActionInfo :: "i16 list"

definition Tile_Grass :: u8 where "Tile_Grass = 0"

definition Tile_Hill :: u8 where "Tile_Hill = 4"

definition Map_Width :: nat where "Map_Width = 40"

definition Map_Height :: nat where "Map_Height = 40"

record AttackTarget =
  at_valid :: bool
  at_playerIDs :: "u32 list"
  at_EnemyIDs :: "u32 list"

record Player =
  Name :: bytes
  pID :: u32
  pHP :: i32
  pEquipedItemID :: u32
  pInventory :: Inventory
  pCoords :: CoordVec
  MaxTurns :: "4 word"
  CurrentTurns :: "4 word"

definition default_Player :: Player where
  "default_Player =
     \<lparr>Name = replicate MaxNameSize 0, pID = 0, pHP = 0, pEquipedItemID = 0,
      pInventory = empty_Inventory, pCoords = vec3_zero, MaxTurns = 0, CurrentTurns = 0\<rparr>"

record Enemy =
  etype :: u8
  faction :: u32
  eHP :: i32
  MaxActions :: u32
  eEquipedItemID :: u32
  einventory :: Inventory
  eCoords :: CoordVec

record GameWorld =
  PlayersList :: "(u32 \<times> Player) list"
  EnemyList :: "Enemy list"
  MapTiles :: bytes
  KillCallback :: bool
  kill_calls :: "(bool \<times> u32) list"

text \<open>\<^verbatim>\<open>EnemiesTable\<close>: the zombie with an iron sword, the bandit with a bow and fifty arrows.\<close>

definition table_slot :: "nat \<Rightarrow> u32 \<Rightarrow> ItemSlot" where
  "table_slot i q = \<lparr>slot_empty = False, slot_item = ItemTable ! i, Mods = 0, quantity = q\<rparr>"

definition inventory_with :: "ItemSlot list \<Rightarrow> Inventory" where
  "inventory_with slots =
     \<lparr>Storage = slots @ replicate (MaxInventorySize - length slots) default_ItemSlot\<rparr>"

definition EnemiesTable :: "Enemy list" where
  "EnemiesTable =
     [\<lparr>etype = 0, faction = 0, eHP = 17, MaxActions = 3, eEquipedItemID = 0,
       einventory = inventory_with [table_slot 5 1], eCoords = vec3_zero\<rparr>,
      \<lparr>etype = 1, faction = 1, eHP = 23, MaxActions = 2, eEquipedItemID = 0,
       einventory = inventory_with [table_slot 1 1, table_slot 3 50], eCoords = vec3_zero\<rparr>]"

section \<open>Player bookkeeping and damage\<close>

definition GetMaxTurnActions :: "Player \<Rightarrow> u8" where
  "GetMaxTurnActions p = ucast (MaxTurns p)"

definition GetCurrentTurnActions :: "Player \<Rightarrow> u8" where
  "GetCurrentTurnActions p = ucast (CurrentTurns p)"

text \<open>The assertion admits 16, the bit field keeps four bits.\<close>

definition SetCurrentTurnActions :: "u32 \<Rightarrow> Player \<Rightarrow> Player res" where
  "SetCurrentTurnActions n p =
     (if n \<le> 16 then Inr (p\<lparr>CurrentTurns := ucast n\<rparr>) else Inl AssertFailed)"

definition SetMaxTurnActions :: "u32 \<Rightarrow> Player \<Rightarrow> Player res" where
  "SetMaxTurnActions n p =
     (if n \<le> 16 then Inr (p\<lparr>MaxTurns := ucast n\<rparr>) else Inl AssertFailed)"

text \<open>
  The body both \<^verbatim>\<open>TakeDamage\<close> share: \<^verbatim>\<open>Damage >= HP\<close> compares \<^verbatim>\<open>uint32\<close> with \<^verbatim>\<open>int32\<close>, so \<^verbatim>\<open>HP\<close> is
  read as unsigned; the result tells whether any health is left.
\<close>

definition damaged_hp :: "u32 \<Rightarrow> i32 \<Rightarrow> i32" where
  "damaged_hp d hp = (if hp \<le> d then 0 else hp - d)"

definition Player_TakeDamage :: "u32 \<Rightarrow> Player \<Rightarrow> Player \<times> bool" where
  "Player_TakeDamage d p =
     (let hp = damaged_hp d (pHP p) in (p\<lparr>pHP := hp\<rparr>, 0 < sint hp))"

definition Enemy_TakeDamage :: "u32 \<Rightarrow> Enemy \<Rightarrow> Enemy \<times> bool" where
  "Enemy_TakeDamage d e =
     (let hp = damaged_hp d (eHP e) in (e\<lparr>eHP := hp\<rparr>, 0 < sint hp))"

section \<open>Finding targets\<close>

text \<open>\<^verbatim>\<open>CoordVec{ ActionInfo[1], ActionInfo[2], ActionInfo[3] }\<close>; the indices are within the array.\<close>

definition action_vec :: "i16 list \<Rightarrow> CoordVec" where
  "action_vec info = vec3_make (info ! 1) (info ! 2) (info ! 3)"

text \<open>The ids of the enemies that satisfy a condition, in list order.\<close>

definition enemy_ids_where :: "(Enemy \<Rightarrow> bool) \<Rightarrow> Enemy list \<Rightarrow> u32 list" where
  "enemy_ids_where P es = map (\<lambda>(i, e). word_of_nat i) (filter (\<lambda>(i, e). P e) (enumerate 0 es))"

text \<open>The ids, read from the players themselves, of those that satisfy a condition.\<close>

definition player_ids_where :: "(Player \<Rightarrow> bool) \<Rightarrow> (u32 \<times> Player) list \<Rightarrow> u32 list" where
  "player_ids_where P pl = map (pID \<circ> snd) (filter (\<lambda>(k, q). P q) pl)"

definition PlayerFindAttackTarget :: "GameWorld \<Rightarrow> Player \<Rightarrow> PlayerAction \<Rightarrow> AttackTarget" where
  "PlayerFindAttackTarget w player action =
     (let place = vec3_add (pCoords player) (action_vec (PA_ActionInfo action));
          ps = player_ids_where (\<lambda>q. pID q \<noteq> pID player \<and> vec3_eq_i16 (pCoords q) place)
                 (PlayersList w);
          es = enemy_ids_where (\<lambda>e. vec3_eq_i16 (eCoords e) place) (EnemyList w)
      in \<lparr>at_valid = (ps \<noteq> [] \<or> es \<noteq> []), at_playerIDs = ps, at_EnemyIDs = es\<rparr>)"

definition EnemyFindAttackTarget :: "GameWorld \<Rightarrow> Enemy \<Rightarrow> EnemyAction \<Rightarrow> AttackTarget" where
  "EnemyFindAttackTarget w enemy action =
     (let place = vec3_add (eCoords enemy) (action_vec (EA_ActionInfo action));
          ps = player_ids_where (\<lambda>q. vec3_eq_i16 (pCoords q) place) (PlayersList w);
          es = enemy_ids_where (\<lambda>e. faction e \<noteq> faction enemy \<and> vec3_eq_i16 (eCoords e) place)
                 (EnemyList w)
      in \<lparr>at_valid = (ps \<noteq> [] \<or> es \<noteq> []), at_playerIDs = ps, at_EnemyIDs = es\<rparr>)"

section \<open>Attacks\<close>

definition call_kill :: "bool \<Rightarrow> u32 \<Rightarrow> GameWorld \<Rightarrow> GameWorld" where
  "call_kill is_player i w =
     (if KillCallback w then w\<lparr>kill_calls := kill_calls w @ [(is_player, i)]\<rparr> else w)"

text \<open>
  The part of \<^verbatim>\<open>MakeAttack\<close> before the damage loops: nothing when the equipped slot is empty,
  otherwise the inventory after the shot and the damage. The assertion of \<^verbatim>\<open>operator[]\<close> fails for an
  equipped index outside the storage.
\<close>

definition shoot_arrow :: "Inventory \<Rightarrow> (Inventory \<times> u32) res" where
  "shoot_arrow iv =
     (let a = FindItem iv Arrow
      in if a \<noteq> InvalidID
         then res_bind (storage_at iv a) (\<lambda>s.
                let q = quantity s - 1;
                    s' = s\<lparr>quantity := q, slot_empty := (q = 0 \<or> slot_empty s)\<rparr>
                in Inr (iv\<lparr>Storage := (Storage iv)[unat a := s']\<rparr>, ucast (Power (slot_item s))))
         else Inr (iv, 0))"

definition weapon_strike :: "Inventory \<Rightarrow> u32 \<Rightarrow> (Inventory \<times> u32) option res" where
  "weapon_strike iv eq =
     res_bind (storage_at iv eq) (\<lambda>slot.
       if slot_empty slot then Inr None
       else (case item_type (slot_item slot) of
               Sword \<Rightarrow> Inr (Some (iv, ucast (Power (slot_item slot))))
             | Bow \<Rightarrow> res_bind (shoot_arrow iv) (\<lambda>r. Inr (Some r))
             | _ \<Rightarrow> Inr (Some (iv, 1))))"

text \<open>
  One victim of the damage loops. \<^verbatim>\<open>PlayersList[id]\<close> inserts a default player when the id is no key;
  \<^verbatim>\<open>EnemyList[id]\<close> is undefined past the end. The callback runs whatever \<^verbatim>\<open>TakeDamage\<close> returned.
\<close>

definition damage_player :: "u32 \<Rightarrow> u32 \<Rightarrow> GameWorld \<Rightarrow> GameWorld res" where
  "damage_player d i w =
     (let p = (case map_of (PlayersList w) i of Some p \<Rightarrow> p | None \<Rightarrow> default_Player)
      in Inr (call_kill True i
           (w\<lparr>PlayersList := AList.update i (fst (Player_TakeDamage d p)) (PlayersList w)\<rparr>)))"

definition damage_enemy :: "u32 \<Rightarrow> u32 \<Rightarrow> GameWorld \<Rightarrow> GameWorld res" where
  "damage_enemy d i w =
     (if unat i < length (EnemyList w)
      then Inr (call_kill False i
             (w\<lparr>EnemyList := (EnemyList w)
                  [unat i := fst (Enemy_TakeDamage d (EnemyList w ! unat i))]\<rparr>))
      else Inl Undefined)"

definition damage_targets :: "u32 \<Rightarrow> AttackTarget \<Rightarrow> GameWorld \<Rightarrow> GameWorld res" where
  "damage_targets d t w =
     res_bind (res_fold (damage_player d) (at_playerIDs t) w)
       (res_fold (damage_enemy d) (at_EnemyIDs t))"

definition Player_MakeAttack :: "u32 \<Rightarrow> AttackTarget \<Rightarrow> GameWorld \<Rightarrow> GameWorld res" where
  "Player_MakeAttack k t w =
     (case map_of (PlayersList w) k of
        None \<Rightarrow> Inl Undefined
      | Some p \<Rightarrow>
          res_bind (weapon_strike (pInventory p) (pEquipedItemID p)) (\<lambda>r.
            case r of
              None \<Rightarrow> Inr w
            | Some (iv, d) \<Rightarrow>
                damage_targets d t
                  (w\<lparr>PlayersList := AList.update k (p\<lparr>pInventory := iv\<rparr>) (PlayersList w)\<rparr>)))"

definition Enemy_MakeAttack :: "nat \<Rightarrow> AttackTarget \<Rightarrow> GameWorld \<Rightarrow> GameWorld res" where
  "Enemy_MakeAttack i t w =
     (if i < length (EnemyList w) then
        (let e = EnemyList w ! i
         in res_bind (weapon_strike (einventory e) (eEquipedItemID e)) (\<lambda>r.
              case r of
                None \<Rightarrow> Inr w
              | Some (iv, d) \<Rightarrow>
                  damage_targets d t (w\<lparr>EnemyList := (EnemyList w)[i := e\<lparr>einventory := iv\<rparr>]\<rparr>)))
      else Inl Undefined)"

section \<open>Actions\<close>

text \<open>
  The \<^verbatim>\<open>switch\<close> of \<^verbatim>\<open>MakeApprovedAction\<close>: the \<^verbatim>\<open>Move\<close> case has no \<^verbatim>\<open>break\<close> and runs on into the
  \<^verbatim>\<open>Attack\<close> case. After the switch one turn action is taken off, for every action type.
\<close>

definition spend_turn_action :: "u32 \<Rightarrow> GameWorld \<Rightarrow> GameWorld res" where
  "spend_turn_action k w =
     (case map_of (PlayersList w) k of
        None \<Rightarrow> Inl Undefined
      | Some p \<Rightarrow>
          res_bind (SetCurrentTurnActions (ucast (GetCurrentTurnActions p) - 1) p) (\<lambda>p'.
            Inr (w\<lparr>PlayersList := AList.update k p' (PlayersList w)\<rparr>)))"

definition move_player :: "u32 \<Rightarrow> CoordVec \<Rightarrow> GameWorld \<Rightarrow> GameWorld res" where
  "move_player k d w =
     (case map_of (PlayersList w) k of
        None \<Rightarrow> Inl Undefined
      | Some p \<Rightarrow>
          Inr (w\<lparr>PlayersList := AList.update k (p\<lparr>pCoords := vec3_add (pCoords p) d\<rparr>)
                                 (PlayersList w)\<rparr>))"

definition attack_by_player :: "u32 \<Rightarrow> PlayerAction \<Rightarrow> GameWorld \<Rightarrow> GameWorld res" where
  "attack_by_player k action w =
     (case map_of (PlayersList w) k of
        None \<Rightarrow> Inl Undefined
      | Some p \<Rightarrow> Player_MakeAttack k (PlayerFindAttackTarget w p action) w)"

definition MakeApprovedAction :: "u32 \<Rightarrow> PlayerAction \<Rightarrow> GameWorld \<Rightarrow> GameWorld res" where
  "MakeApprovedAction k action w =
     res_bind
       (case ActionType action of
          Move \<Rightarrow> res_bind (move_player k (action_vec (PA_ActionInfo action)) w)
                    (attack_by_player k action)
        | Attack \<Rightarrow> attack_by_player k action w
        | _ \<Rightarrow> Inr w)
       (spend_turn_action k)"

definition MakeEnemyAction :: "nat \<Rightarrow> EnemyAction \<Rightarrow> GameWorld \<Rightarrow> GameWorld res" where
  "MakeEnemyAction i action w =
     (if i < length (EnemyList w) then
        (let e = EnemyList w ! i
         in case actionType action of
              EnemyMove \<Rightarrow>
                Inr (w\<lparr>EnemyList := (EnemyList w)
                     [i := e\<lparr>eCoords := vec3_add (eCoords e) (action_vec (EA_ActionInfo action))\<rparr>]\<rparr>)
            | EnemyBaseAttack \<Rightarrow> Enemy_MakeAttack i (EnemyFindAttackTarget w e action) w
            | _ \<Rightarrow> Inr w)
      else Inl Undefined)"

end
