(* ===== verification/Layout.thy ===== *)
theory Layout
  imports Message World
begin

text \<open>
  The object representations of the structures that travel in messages: little-endian integers, the
  alignment of the x86-64 ABI, and the offsets of the members of \<^verbatim>\<open>Item\<close>, \<^verbatim>\<open>ItemSlot\<close>, \<^verbatim>\<open>Inventory\<close>,
  \<^verbatim>\<open>Player\<close>, \<^verbatim>\<open>Enemy\<close>, \<^verbatim>\<open>PlayerAction\<close>, \<^verbatim>\<open>EnemyAction\<close> and \<^verbatim>\<open>Map\<close> (spNetMETA.h). Padding is sent as
  zeros here (the program sends what the memory holds) and never read. Every codec interprets the
  locale \<open>pod\<close>.
\<close>

section \<open>Little-endian integers\<close>

primrec le_enc :: "nat \<Rightarrow> nat \<Rightarrow> bytes" where
  "le_enc 0 k = []"
| "le_enc (Suc n) k = word_of_nat k # le_enc n (k div 256)"

primrec le_dec :: "bytes \<Rightarrow> nat" where
  "le_dec [] = 0"
| "le_dec (b # bs) = unat b + 256 * le_dec bs"

lemma length_le_enc [simp]: "length (le_enc n k) = n"
  by (induction n arbitrary: k) simp_all

lemma le_dec_enc: "k < 256 ^ n \<Longrightarrow> le_dec (le_enc n k) = k"
proof (induction n arbitrary: k)
  case (Suc n)
  then have "k div 256 < 256 ^ n" by (simp add: less_mult_imp_div_less mult.commute)
  from Suc.IH [OF this] show ?case by (simp add: unat_of_nat)
qed simp

lemma word_of_nat_unat_id: "word_of_nat (unat w) = (w :: 'a::len word)"
  by simp

definition enc_u16 :: "u16 \<Rightarrow> bytes" where "enc_u16 w = le_enc 2 (unat w)"
definition dec_u16 :: "bytes \<Rightarrow> u16" where "dec_u16 bs = word_of_nat (le_dec bs)"
definition enc_u32 :: "u32 \<Rightarrow> bytes" where "enc_u32 w = le_enc 4 (unat w)"
definition dec_u32 :: "bytes \<Rightarrow> u32" where "dec_u32 bs = word_of_nat (le_dec bs)"
definition enc_u64 :: "u64 \<Rightarrow> bytes" where "enc_u64 w = le_enc 8 (unat w)"
definition dec_u64 :: "bytes \<Rightarrow> u64" where "dec_u64 bs = word_of_nat (le_dec bs)"

lemma length_enc_uint [simp]:
  "length (enc_u16 a) = 2" "length (enc_u32 b) = 4" "length (enc_u64 c) = 8"
  by (simp_all add: enc_u16_def enc_u32_def enc_u64_def)

lemma dec_enc_uint [simp]:
  "dec_u16 (enc_u16 a) = a" "dec_u32 (enc_u32 b) = b" "dec_u64 (enc_u64 c) = c"
proof -
  have "unat a < 256 ^ 2" "unat b < 256 ^ 4" "unat c < 256 ^ 8"
    using unsigned_less [of a, where 'a = nat] unsigned_less [of b, where 'a = nat]
      unsigned_less [of c, where 'a = nat] by simp_all
  then show "dec_u16 (enc_u16 a) = a" "dec_u32 (enc_u32 b) = b" "dec_u64 (enc_u64 c) = c"
    by (simp_all only: enc_u16_def dec_u16_def enc_u32_def dec_u32_def enc_u64_def dec_u64_def
        le_dec_enc word_of_nat_unat_id)
qed

interpretation u16_pod: pod enc_u16 dec_u16 2 "\<lambda>_. True"
  by unfold_locales simp_all

interpretation u32_pod: pod enc_u32 dec_u32 4 "\<lambda>_. True"
  by unfold_locales simp_all

interpretation u64_pod: pod enc_u64 dec_u64 8 "\<lambda>_. True"
  by unfold_locales simp_all

section \<open>Slices\<close>

definition slice :: "nat \<Rightarrow> nat \<Rightarrow> bytes \<Rightarrow> bytes" where
  "slice off n bs = take n (drop off bs)"

lemma slice_here [simp]: "length a = n \<Longrightarrow> slice 0 n (a @ b) = a"
  by (simp add: slice_def)

lemma slice_here_all [simp]: "length a = n \<Longrightarrow> slice 0 n a = a"
  by (simp add: slice_def)

lemma slice_later: "length a \<le> off \<Longrightarrow> slice off n (a @ b) = slice (off - length a) n b"
  by (simp add: slice_def)

lemma slice_chunks:
  assumes "\<forall>x \<in> set xs. length (f x) = n" and "i < length xs"
  shows "slice (n * i) n (concat (map f xs) @ rest) = f (xs ! i)"
  using assms
proof (induction xs arbitrary: i)
  case (Cons x xs)
  show ?case
  proof (cases i)
    case 0
    then show ?thesis using Cons.prems by simp
  next
    case (Suc j)
    then have "slice (n * i) n (concat (map f (x # xs)) @ rest) = slice (n * j) n (concat (map f xs) @ rest)"
      using Cons.prems by (simp add: slice_later)
    then show ?thesis using Cons.IH [of j] Cons.prems Suc by simp
  qed
qed simp

lemma length_chunks: "\<forall>x \<in> set xs. length (f x) = n \<Longrightarrow> length (concat (map f xs)) = n * length xs"
  by (induction xs) simp_all

section \<open>Structures\<close>

definition enc_bool :: "bool \<Rightarrow> bytes" where "enc_bool b = [if b then 1 else 0]"
definition dec_bool :: "bytes \<Rightarrow> bool" where "dec_bool bs \<longleftrightarrow> hd bs \<noteq> 0"

fun enc_ItemType :: "ItemType \<Rightarrow> u32" where
  "enc_ItemType NoItem = 0"
| "enc_ItemType Arrow = 1"
| "enc_ItemType Bow = 2"
| "enc_ItemType Sword = 3"
| "enc_ItemType Apple = 4"
| "enc_ItemType (OtherItem v) = v"

definition dec_ItemType :: "u32 \<Rightarrow> ItemType" where
  "dec_ItemType v =
     (if v = 0 then NoItem else if v = 1 then Arrow else if v = 2 then Bow
      else if v = 3 then Sword else if v = 4 then Apple else OtherItem v)"

definition ok_ItemType :: "ItemType \<Rightarrow> bool" where
  "ok_ItemType t \<longleftrightarrow> (case t of OtherItem v \<Rightarrow> v \<notin> {0, 1, 2, 3, 4} | _ \<Rightarrow> True)"

lemma dec_enc_ItemType [simp]: "ok_ItemType t \<Longrightarrow> dec_ItemType (enc_ItemType t) = t"
  by (cases t) (simp_all add: dec_ItemType_def ok_ItemType_def)

definition enc_Item :: "Item \<Rightarrow> bytes" where
  "enc_Item it = ItemName it @ [0] @ enc_u32 (enc_ItemType (item_type it)) @ [usage it, Power it] @ [0, 0]"

definition dec_Item :: "bytes \<Rightarrow> Item" where
  "dec_Item bs =
     \<lparr>ItemName = slice 0 75 bs, item_type = dec_ItemType (dec_u32 (slice 76 4 bs)),
      usage = hd (slice 80 1 bs), Power = hd (slice 81 1 bs)\<rparr>"

definition ok_Item :: "Item \<Rightarrow> bool" where
  "ok_Item it \<longleftrightarrow> wf_Item it \<and> ok_ItemType (item_type it)"

lemma pod_Item: "ok_Item it \<Longrightarrow> length (enc_Item it) = 84 \<and> dec_Item (enc_Item it) = it"
  by (simp add: ok_Item_def wf_Item_def enc_Item_def dec_Item_def slice_def eval_nat_numeral
      flip: Suc_numeral)


interpretation Item_pod: pod enc_Item dec_Item 84 ok_Item
  by unfold_locales (use pod_Item in auto)

definition enc_ItemSlot :: "ItemSlot \<Rightarrow> bytes" where
  "enc_ItemSlot s =
     enc_bool (slot_empty s) @ [0, 0, 0] @ enc_Item (slot_item s) @ [Mods s] @ [0, 0, 0] @ enc_u32 (quantity s)"

definition dec_ItemSlot :: "bytes \<Rightarrow> ItemSlot" where
  "dec_ItemSlot bs =
     \<lparr>slot_empty = dec_bool (slice 0 1 bs), slot_item = dec_Item (slice 4 84 bs),
      Mods = hd (slice 88 1 bs), quantity = dec_u32 (slice 92 4 bs)\<rparr>"

definition ok_ItemSlot :: "ItemSlot \<Rightarrow> bool" where
  "ok_ItemSlot s \<longleftrightarrow> ok_Item (slot_item s)"

lemma pod_ItemSlot: "ok_ItemSlot s \<Longrightarrow> length (enc_ItemSlot s) = 96 \<and> dec_ItemSlot (enc_ItemSlot s) = s"
  using pod_Item [of "slot_item s"]
  by (simp add: ok_ItemSlot_def enc_ItemSlot_def dec_ItemSlot_def slice_def enc_bool_def dec_bool_def)

interpretation ItemSlot_pod: pod enc_ItemSlot dec_ItemSlot 96 ok_ItemSlot
  by unfold_locales (use pod_ItemSlot in auto)

definition enc_Inventory :: "Inventory \<Rightarrow> bytes" where
  "enc_Inventory iv = concat (map enc_ItemSlot (Storage iv))"

definition dec_Inventory :: "bytes \<Rightarrow> Inventory" where
  "dec_Inventory bs = \<lparr>Storage = map (\<lambda>i. dec_ItemSlot (slice (96 * i) 96 bs)) [0..<MaxInventorySize]\<rparr>"

definition ok_Inventory :: "Inventory \<Rightarrow> bool" where
  "ok_Inventory iv \<longleftrightarrow> length (Storage iv) = MaxInventorySize \<and> list_all ok_ItemSlot (Storage iv)"

lemma pod_Inventory:
  assumes "ok_Inventory iv"
  shows "length (enc_Inventory iv) = 1920 \<and> dec_Inventory (enc_Inventory iv) = iv"
proof -
  have len: "\<forall>s \<in> set (Storage iv). length (enc_ItemSlot s) = 96"
    using assms pod_ItemSlot by (simp add: ok_Inventory_def list_all_iff)
  have n: "length (Storage iv) = 20" using assms by (simp add: ok_Inventory_def MaxInventorySize_def)
  have "dec_ItemSlot (slice (96 * i) 96 (enc_Inventory iv)) = Storage iv ! i" if "i < 20" for i
    using slice_chunks [OF len, of i "[]"] that n assms pod_ItemSlot
    by (simp add: enc_Inventory_def ok_Inventory_def list_all_length)
  then have "Storage (dec_Inventory (enc_Inventory iv)) = Storage iv"
    using n by (intro nth_equalityI) (simp_all add: dec_Inventory_def MaxInventorySize_def)
  then show ?thesis using length_chunks [OF len] n by (simp add: enc_Inventory_def)
qed

interpretation Inventory_pod: pod enc_Inventory dec_Inventory 1920 ok_Inventory
  by unfold_locales (use pod_Inventory in auto)

definition enc_CoordVec :: "CoordVec \<Rightarrow> bytes" where
  "enc_CoordVec v = enc_u16 (vx v) @ enc_u16 (vy v) @ enc_u16 (vz v)"

definition dec_CoordVec :: "bytes \<Rightarrow> CoordVec" where
  "dec_CoordVec bs =
     vec3_make (dec_u16 (slice 0 2 bs)) (dec_u16 (slice 2 2 bs)) (dec_u16 (slice 4 2 bs))"

lemma pod_CoordVec: "length (enc_CoordVec v) = 6 \<and> dec_CoordVec (enc_CoordVec v) = v"
  by (simp add: enc_CoordVec_def dec_CoordVec_def slice_def vec3_make_def)

interpretation CoordVec_pod: pod enc_CoordVec dec_CoordVec 6 "\<lambda>_. True"
  by unfold_locales (use pod_CoordVec in auto)

text \<open>The two bit fields of \<^verbatim>\<open>Player\<close> share a byte, \<^verbatim>\<open>MaxTurns\<close> in its low half.\<close>

definition enc_turns :: "4 word \<Rightarrow> 4 word \<Rightarrow> u8" where
  "enc_turns m c = (ucast m :: u8) OR push_bit 4 (ucast c)"

lemma dec_enc_turns [simp]:
  "(ucast (enc_turns m c) :: 4 word) = m" "(ucast (drop_bit 4 (enc_turns m c)) :: 4 word) = c"
  unfolding enc_turns_def by (rule bit_word_eqI; auto simp: bit_simps dest: bit_imp_le_length)+

definition enc_Player :: "Player \<Rightarrow> bytes" where
  "enc_Player p =
     Name p @ [0] @ enc_u32 (pID p) @ enc_u32 (pHP p) @ enc_u32 (pEquipedItemID p) @
     enc_Inventory (pInventory p) @ enc_CoordVec (pCoords p) @
     [enc_turns (MaxTurns p) (CurrentTurns p)] @ [0]"

definition dec_Player :: "bytes \<Rightarrow> Player" where
  "dec_Player bs =
     \<lparr>Name = slice 0 75 bs, pID = dec_u32 (slice 76 4 bs), pHP = dec_u32 (slice 80 4 bs),
      pEquipedItemID = dec_u32 (slice 84 4 bs), pInventory = dec_Inventory (slice 88 1920 bs),
      pCoords = dec_CoordVec (slice 2008 6 bs),
      MaxTurns = ucast (hd (slice 2014 1 bs)), CurrentTurns = ucast (drop_bit 4 (hd (slice 2014 1 bs)))\<rparr>"

definition ok_Player :: "Player \<Rightarrow> bool" where
  "ok_Player p \<longleftrightarrow> length (Name p) = MaxNameSize \<and> ok_Inventory (pInventory p)"

lemma pod_Player: "ok_Player p \<Longrightarrow> length (enc_Player p) = 2016 \<and> dec_Player (enc_Player p) = p"
  using pod_Inventory [of "pInventory p"] pod_CoordVec [of "pCoords p"]
  by (simp add: ok_Player_def enc_Player_def dec_Player_def slice_def MaxNameSize_def)

interpretation Player_pod: pod enc_Player dec_Player 2016 ok_Player
  by unfold_locales (use pod_Player in auto)

definition enc_Enemy :: "Enemy \<Rightarrow> bytes" where
  "enc_Enemy e =
     [etype e] @ [0, 0, 0] @ enc_u32 (faction e) @ enc_u32 (eHP e) @ enc_u32 (MaxActions e) @
     enc_u32 (eEquipedItemID e) @ enc_Inventory (einventory e) @ enc_CoordVec (eCoords e) @ [0, 0]"

definition dec_Enemy :: "bytes \<Rightarrow> Enemy" where
  "dec_Enemy bs =
     \<lparr>etype = hd (slice 0 1 bs), faction = dec_u32 (slice 4 4 bs), eHP = dec_u32 (slice 8 4 bs),
      MaxActions = dec_u32 (slice 12 4 bs), eEquipedItemID = dec_u32 (slice 16 4 bs),
      einventory = dec_Inventory (slice 20 1920 bs), eCoords = dec_CoordVec (slice 1940 6 bs)\<rparr>"

definition ok_Enemy :: "Enemy \<Rightarrow> bool" where
  "ok_Enemy e \<longleftrightarrow> ok_Inventory (einventory e)"

lemma pod_Enemy: "ok_Enemy e \<Longrightarrow> length (enc_Enemy e) = 1948 \<and> dec_Enemy (enc_Enemy e) = e"
  using pod_Inventory [of "einventory e"] pod_CoordVec [of "eCoords e"]
  by (simp add: ok_Enemy_def enc_Enemy_def dec_Enemy_def slice_def)

interpretation Enemy_pod: pod enc_Enemy dec_Enemy 1948 ok_Enemy
  by unfold_locales (use pod_Enemy in auto)

section \<open>Actions\<close>

fun enc_PlayerActionType :: "EPlayerActionType \<Rightarrow> u8" where
  "enc_PlayerActionType Move = 0"
| "enc_PlayerActionType Attack = 1"
| "enc_PlayerActionType EndTurn = 2"
| "enc_PlayerActionType (OtherPlayerAction v) = v"

definition dec_PlayerActionType :: "u8 \<Rightarrow> EPlayerActionType" where
  "dec_PlayerActionType v =
     (if v = 0 then Move else if v = 1 then Attack else if v = 2 then EndTurn else OtherPlayerAction v)"

fun enc_EnemyActionType :: "EEnemyActionType \<Rightarrow> u8" where
  "enc_EnemyActionType EnemyMove = 0"
| "enc_EnemyActionType EnemyBaseAttack = 1"
| "enc_EnemyActionType (OtherEnemyAction v) = v"

definition dec_EnemyActionType :: "u8 \<Rightarrow> EEnemyActionType" where
  "dec_EnemyActionType v =
     (if v = 0 then EnemyMove else if v = 1 then EnemyBaseAttack else OtherEnemyAction v)"

definition enc_info :: "i16 list \<Rightarrow> bytes" where
  "enc_info xs = concat (map enc_u16 xs)"

definition dec_info :: "bytes \<Rightarrow> i16 list" where
  "dec_info bs = map (\<lambda>i. dec_u16 (slice (2 * i) 2 bs)) [0..<4]"

lemma pod_info: "length xs = 4 \<Longrightarrow> length (enc_info xs) = 8 \<and> dec_info (enc_info xs) = xs"
proof -
  assume n: "length xs = 4"
  have len: "\<forall>x \<in> set xs. length (enc_u16 x) = 2" by simp
  have "dec_info (enc_info xs) = xs"
    using slice_chunks [OF len, of _ "[]"] n
    by (intro nth_equalityI) (simp_all add: dec_info_def enc_info_def)
  then show ?thesis using length_chunks [OF len] n by (simp add: enc_info_def)
qed

definition enc_PlayerAction :: "PlayerAction \<Rightarrow> bytes" where
  "enc_PlayerAction a =
     [enc_PlayerActionType (ActionType a)] @ [0, 0, 0] @ enc_u32 (PA_PlayerID a) @ enc_info (PA_ActionInfo a)"

definition dec_PlayerAction :: "bytes \<Rightarrow> PlayerAction" where
  "dec_PlayerAction bs =
     \<lparr>ActionType = dec_PlayerActionType (hd bs), PA_PlayerID = dec_u32 (slice 4 4 bs),
      PA_ActionInfo = dec_info (slice 8 8 bs)\<rparr>"

definition ok_PlayerAction :: "PlayerAction \<Rightarrow> bool" where
  "ok_PlayerAction a \<longleftrightarrow> length (PA_ActionInfo a) = 4 \<and>
     (case ActionType a of OtherPlayerAction v \<Rightarrow> v \<notin> {0, 1, 2} | _ \<Rightarrow> True)"

lemma pod_PlayerAction:
  "ok_PlayerAction a \<Longrightarrow> length (enc_PlayerAction a) = 16 \<and> dec_PlayerAction (enc_PlayerAction a) = a"
  using pod_info [of "PA_ActionInfo a"]
  by (cases "ActionType a")
    (simp_all add: ok_PlayerAction_def enc_PlayerAction_def dec_PlayerAction_def slice_def
      dec_PlayerActionType_def)

interpretation PlayerAction_pod: pod enc_PlayerAction dec_PlayerAction 16 ok_PlayerAction
  by unfold_locales (use pod_PlayerAction in auto)

definition enc_EnemyAction :: "EnemyAction \<Rightarrow> bytes" where
  "enc_EnemyAction a =
     [enc_EnemyActionType (actionType a)] @ [0, 0, 0] @ enc_u32 (EA_EnemyID a) @ enc_info (EA_ActionInfo a)"

definition dec_EnemyAction :: "bytes \<Rightarrow> EnemyAction" where
  "dec_EnemyAction bs =
     \<lparr>actionType = dec_EnemyActionType (hd bs), EA_EnemyID = dec_u32 (slice 4 4 bs),
      EA_ActionInfo = dec_info (slice 8 8 bs)\<rparr>"

definition ok_EnemyAction :: "EnemyAction \<Rightarrow> bool" where
  "ok_EnemyAction a \<longleftrightarrow> length (EA_ActionInfo a) = 4 \<and>
     (case actionType a of OtherEnemyAction v \<Rightarrow> v \<notin> {0, 1} | _ \<Rightarrow> True)"

lemma pod_EnemyAction:
  "ok_EnemyAction a \<Longrightarrow> length (enc_EnemyAction a) = 16 \<and> dec_EnemyAction (enc_EnemyAction a) = a"
  using pod_info [of "EA_ActionInfo a"]
  by (cases "actionType a")
    (simp_all add: ok_EnemyAction_def enc_EnemyAction_def dec_EnemyAction_def slice_def
      dec_EnemyActionType_def)

interpretation EnemyAction_pod: pod enc_EnemyAction dec_EnemyAction 16 ok_EnemyAction
  by unfold_locales (use pod_EnemyAction in auto)

text \<open>The map is its array of tiles.\<close>

interpretation Map_pod: pod "\<lambda>m :: bytes. m" "\<lambda>m. m" 1600 "\<lambda>m. length m = Map_Width * Map_Height"
  by unfold_locales (simp_all add: Map_Width_def Map_Height_def)


section \<open>What arrives\<close>

text \<open>Whatever bytes arrive, the decoded arrays have their sizes; no field is checked otherwise.\<close>

lemma length_slice: "off + n \<le> length bs \<Longrightarrow> length (slice off n bs) = n"
  by (simp add: slice_def)

lemma ok_dec_Inventory:
  assumes "length bs = 1920"
  shows "ok_Inventory (dec_Inventory bs)"
proof -
  have "ok_ItemSlot (dec_ItemSlot (slice (96 * i) 96 bs))" if "i < MaxInventorySize" for i
    using that assms
    by (simp add: dec_ItemSlot_def dec_Item_def ok_ItemSlot_def ok_Item_def wf_Item_def length_slice
        MaxInventorySize_def ok_ItemType_def dec_ItemType_def)
  then show ?thesis by (simp add: ok_Inventory_def dec_Inventory_def list_all_iff)
qed

lemma ok_wf_Inventory: "ok_Inventory iv \<Longrightarrow> wf_Inventory iv"
  by (simp add: ok_Inventory_def wf_Inventory_def ok_ItemSlot_def ok_Item_def list_all_iff)

lemma wf_dec_Inventory: "length bs = 1920 \<Longrightarrow> wf_Inventory (dec_Inventory bs)"
  by (rule ok_wf_Inventory [OF ok_dec_Inventory])

lemma ok_dec_Player_long: "2016 \<le> length bs \<Longrightarrow> ok_Player (dec_Player bs)"
  by (simp add: ok_Player_def dec_Player_def ok_dec_Inventory length_slice MaxNameSize_def)

lemma ok_dec_Player: "length bs = 2016 \<Longrightarrow> ok_Player (dec_Player bs)"
  by (simp add: ok_dec_Player_long)

lemma wf_dec_Player:
  assumes "length bs = 2016"
  shows "wf_Inventory (pInventory (dec_Player bs)) \<and> length (Name (dec_Player bs)) = MaxNameSize"
  using ok_dec_Player [OF assms] by (simp add: ok_Player_def ok_wf_Inventory)

lemma ok_AddItem:
  assumes "ok_Inventory iv" and "ok_Item item"
  shows "ok_Inventory (AddItem iv item)"
proof -
  have "ok_ItemSlot (slot_of_item item)" using assms(2) by (simp add: slot_of_item_def ok_ItemSlot_def)
  then show ?thesis using assms(1) set_put_first_empty [of "slot_of_item item" "Storage iv"]
    by (fastforce simp: ok_Inventory_def AddItem_def list_all_iff)
qed

lemma ok_ItemTable: "it \<in> set ItemTable \<Longrightarrow> ok_Item it"
  by (auto simp: ItemTable_def ok_Item_def wf_Item_def ok_ItemType_def)

lemma length_dec_info [simp]: "length (dec_info bs) = 4"
  by (simp add: dec_info_def)

lemma length_dec_PlayerAction [simp]: "length (PA_ActionInfo (dec_PlayerAction bs)) = 4"
  by (simp add: dec_PlayerAction_def)

section \<open>Properties of the wire format\<close>

interpretation id_then_action:
  pod_pair enc_u32 dec_u32 4 "\<lambda>_. True" enc_PlayerAction dec_PlayerAction 16 ok_PlayerAction ..

text \<open>
  Property C20. A player pushed on a message and popped from it is the same player, and the message
  is as it was: names, bit fields, coordinates and all twenty inventory slots survive the wire.
\<close>

theorem player_message_round_trip:
  assumes "wf_message m" and "ok_Player p"
  shows "res_bind (msg_pop 2016 (msg_push (enc_Player p) m)) (\<lambda>(bs, m'). Inr (dec_Player bs, m'))
           = Inr (p, m)"
  using assms by (rule Player_pod.pop_push)

theorem player_message_round_trip_witness:
  "res_bind (msg_pop 2016 (msg_push (enc_Player default_Player) (new_message 4)))
     (\<lambda>(bs, m'). Inr (dec_Player bs, m')) = Inr (default_Player, new_message 4)"
  by (rule player_message_round_trip)
    (simp_all add: ok_Player_def default_Player_def ok_Inventory_def empty_Inventory_def list_all_iff
      ok_ItemSlot_def default_ItemSlot_def ok_Item_def ok_ItemType_def default_Item_def wf_Item_def)

text \<open>
  Values of different types are popped in the opposite order of their pushes: an id
  pushed before an action comes out after it.
\<close>

theorem message_is_a_stack:
  assumes "wf_message m" and "ok_PlayerAction a" and "length (body m) + 4 < 2 ^ 32"
  shows "res_bind (msg_pop 16 (msg_push (enc_PlayerAction a) (msg_push (enc_u32 i) m))) (\<lambda>(bs, m').
           res_bind (msg_pop 4 m') (\<lambda>(cs, m''). Inr (dec_PlayerAction bs, dec_u32 cs, m''))) = Inr (a, i, m)"
  using assms by (intro id_then_action.stack_order) simp_all

theorem message_is_a_stack_witness:
  "res_bind (msg_pop 16 (msg_push (enc_PlayerAction \<lparr>ActionType = Move, PA_PlayerID = 7,
      PA_ActionInfo = [0, 1, - 1, 0]\<rparr>) (msg_push (enc_u32 7) (new_message 0)))) (\<lambda>(bs, m').
      res_bind (msg_pop 4 m') (\<lambda>(cs, m''). Inr (dec_PlayerAction bs, dec_u32 cs, m'')))
    = Inr (\<lparr>ActionType = Move, PA_PlayerID = 7, PA_ActionInfo = [0, 1, - 1, 0]\<rparr>, 7, new_message 0)"
  by (rule message_is_a_stack) (simp_all add: ok_PlayerAction_def, simp add: new_message_def)

text \<open>
  A message whose body is shorter than the value popped from it makes the size
  arithmetic wrap, and the copy reads outside the body.
\<close>

theorem short_message_faults:
  assumes "length (body m) < 16"
  shows "res_bind (msg_pop 16 m) (\<lambda>(bs, m'). Inr (dec_PlayerAction bs, m')) = Inl Undefined"
  using assms by (rule PlayerAction_pod.pop_short)

theorem short_message_faults_witness:
  "res_bind (msg_pop 16 (new_message 18)) (\<lambda>(bs, m'). Inr (dec_PlayerAction bs, m')) = Inl Undefined"
  by (rule short_message_faults) (simp add: new_message_def)

end
