(* ===== verification/TSQueue.thy ===== *)
theory TSQueue
  imports Prelude
begin

text \<open>
  SpNetCommon/src/spThreadSafeQueue.h: the queue that carries messages between the network thread
  and the game thread.

  \<^item> The operations under their lock, on the contents of the deque (a list, front first).
  \<^item> The locale \<open>fifo\<close>: what the connection and the server rely on.
  \<^item> The queue with its two mutexes and its condition variable as a transition system of the two
    threads that use it in the program: the network thread pushes, the game thread runs
    \<^verbatim>\<open>Update(-1, true)\<close>, that is \<^verbatim>\<open>wait()\<close> followed by \<^verbatim>\<open>empty()\<close>/\<^verbatim>\<open>pop_front()\<close> until the queue is empty.
\<close>

section \<open>The operations\<close>

text \<open>\<^verbatim>\<open>front()\<close> and the like on an empty deque are undefined.\<close>

definition q_front :: "'a list \<Rightarrow> 'a res" where
  "q_front q = (case q of [] \<Rightarrow> Inl Undefined | x # _ \<Rightarrow> Inr x)"

definition q_back :: "'a list \<Rightarrow> 'a res" where
  "q_back q = (if q = [] then Inl Undefined else Inr (last q))"

definition q_pop_front :: "'a list \<Rightarrow> ('a \<times> 'a list) res" where
  "q_pop_front q = (case q of [] \<Rightarrow> Inl Undefined | x # xs \<Rightarrow> Inr (x, xs))"

definition q_pop_back :: "'a list \<Rightarrow> ('a \<times> 'a list) res" where
  "q_pop_back q = (if q = [] then Inl Undefined else Inr (last q, butlast q))"

definition q_push_back :: "'a \<Rightarrow> 'a list \<Rightarrow> 'a list" where
  "q_push_back x q = q @ [x]"

definition q_push_front :: "'a \<Rightarrow> 'a list \<Rightarrow> 'a list" where
  "q_push_front x q = x # q"

definition q_empty :: "'a list \<Rightarrow> bool" where
  "q_empty q \<longleftrightarrow> q = []"

definition q_count :: "'a list \<Rightarrow> nat" where
  "q_count q = length q"

definition q_clear :: "'a list \<Rightarrow> 'a list" where
  "q_clear q = []"

definition q_destroy :: "'a list \<Rightarrow> 'a list" where
  "q_destroy q = q_clear q"

section \<open>The interface of a first-in first-out queue\<close>

locale fifo =
  fixes new :: 'q and push :: "'a \<Rightarrow> 'q \<Rightarrow> 'q" and pop :: "'q \<Rightarrow> ('a \<times> 'q) res"
    and emp :: "'q \<Rightarrow> bool" and items :: "'q \<Rightarrow> 'a list"
  assumes items_new: "items new = []"
    and items_push: "items (push x q) = items q @ [x]"
    and emp_items: "emp q \<longleftrightarrow> items q = []"
    and pop_items: "items q = x # xs \<Longrightarrow> \<exists>q'. pop q = Inr (x, q') \<and> items q' = xs"
begin

text \<open>Popping until the queue is empty, at most \<open>n\<close> times; the popped items in order.\<close>

primrec drain :: "nat \<Rightarrow> 'q \<Rightarrow> ('a list \<times> 'q) res" where
  "drain 0 q = Inr ([], q)"
| "drain (Suc n) q =
     (if emp q then Inr ([], q)
      else res_bind (pop q) (\<lambda>(x, q'). res_bind (drain n q') (\<lambda>(xs, q''). Inr (x # xs, q''))))"

lemma items_push_all: "items (fold push xs q) = items q @ xs"
  by (induction xs arbitrary: q) (simp_all add: items_push)

lemma drain_items:
  "\<exists>q'. drain n q = Inr (take n (items q), q') \<and> items q' = drop n (items q)"
proof (induction n arbitrary: q)
  case 0
  then show ?case by simp
next
  case (Suc n)
  show ?case
  proof (cases "items q")
    case Nil
    then show ?thesis by (simp add: emp_items [of q])
  next
    case (Cons x xs)
    from pop_items [OF this] obtain q' where q': "pop q = Inr (x, q')" "items q' = xs" by blast
    from Suc.IH [of q'] q'(2) obtain q'' where
      "drain n q' = Inr (take n xs, q'')" "items q'' = drop n xs" by auto
    then show ?thesis using Cons q' by (simp add: emp_items [of q])
  qed
qed

text \<open>What was pushed comes out in the order of the pushes, all of it, and the queue is empty then.\<close>

lemma drain_pushed:
  "\<exists>q'. drain (length xs) (fold push xs new) = Inr (xs, q') \<and> emp q'"
  using drain_items [of "length xs" "fold push xs new"]
  by (auto simp: items_push_all items_new emp_items)

end

interpretation thsq: fifo "[]" q_push_back q_pop_front q_empty "\<lambda>q. q"
  by unfold_locales (simp_all add: q_push_back_def q_pop_front_def q_empty_def)

section \<open>Two threads on one queue\<close>

text \<open>
  The game thread: \<open>W_\<close> places are in \<^verbatim>\<open>wait()\<close>, \<open>U_\<close> places in the loop of \<^verbatim>\<open>Update\<close>. A name says what
  the thread does next: lock \<^verbatim>\<open>muxQueue\<close> in \<^verbatim>\<open>empty()\<close> (\<open>W_empty\<close>), test and unlock (\<open>W_test\<close>), lock
  \<^verbatim>\<open>muxBlocking\<close> (\<open>W_block\<close>), go to sleep (\<open>W_wait\<close>), be asleep (\<open>W_sleep\<close>), lock \<^verbatim>\<open>muxBlocking\<close> again
  after a notification (\<open>W_wake\<close>), leave the scope of the lock (\<open>W_leave\<close>); lock, test, lock for
  \<^verbatim>\<open>pop_front()\<close>, pop and unlock in \<^verbatim>\<open>Update\<close>.
\<close>

datatype cplace = W_empty | W_test | W_block | W_wait | W_sleep | W_wake | W_leave
  | U_empty | U_test | U_pop | U_take

text \<open>The network thread: idle, or in \<^verbatim>\<open>push_back\<close> before each of its steps.\<close>

datatype 'a pplace = P_idle | P_lock 'a | P_add 'a | P_block | P_notify

datatype thread = GameThread | NetThread

record 'a qstate =
  q_items :: "'a list"
  muxQueue :: "thread option"
  muxBlocking :: "thread option"
  cplace :: cplace
  pplace :: "'a pplace"
  q_sent :: "'a list"
  q_taken :: "'a list"

definition qstart :: "'a qstate" where
  "qstart = \<lparr>q_items = [], muxQueue = None, muxBlocking = None, cplace = W_empty, pplace = P_idle,
             q_sent = [], q_taken = []\<rparr>"

text \<open>The steps of the network thread, \<^verbatim>\<open>push_back\<close>.\<close>

inductive net_step :: "'a qstate \<Rightarrow> 'a qstate \<Rightarrow> bool" where
  n_call: "pplace s = P_idle \<Longrightarrow> net_step s (s\<lparr>pplace := P_lock x\<rparr>)"
| n_lock: "pplace s = P_lock x \<Longrightarrow> muxQueue s = None \<Longrightarrow>
     net_step s (s\<lparr>pplace := P_add x, muxQueue := Some NetThread\<rparr>)"
| n_add: "pplace s = P_add x \<Longrightarrow>
     net_step s (s\<lparr>pplace := P_block, q_items := q_push_back x (q_items s), q_sent := q_sent s @ [x]\<rparr>)"
| n_block: "pplace s = P_block \<Longrightarrow> muxBlocking s = None \<Longrightarrow>
     net_step s (s\<lparr>pplace := P_notify, muxBlocking := Some NetThread\<rparr>)"
| n_notify: "pplace s = P_notify \<Longrightarrow>
     net_step s (s\<lparr>pplace := P_idle, muxBlocking := None, muxQueue := None,
                   cplace := (if cplace s = W_sleep then W_wake else cplace s)\<rparr>)"

text \<open>The steps of the game thread, \<^verbatim>\<open>wait()\<close> and the loop of \<^verbatim>\<open>Update\<close>.\<close>

inductive game_step :: "'a qstate \<Rightarrow> 'a qstate \<Rightarrow> bool" where
  g_empty: "cplace s = W_empty \<Longrightarrow> muxQueue s = None \<Longrightarrow>
     game_step s (s\<lparr>cplace := W_test, muxQueue := Some GameThread\<rparr>)"
| g_test: "cplace s = W_test \<Longrightarrow>
     game_step s (s\<lparr>cplace := (if q_empty (q_items s) then W_block else U_empty), muxQueue := None\<rparr>)"
| g_block: "cplace s = W_block \<Longrightarrow> muxBlocking s = None \<Longrightarrow>
     game_step s (s\<lparr>cplace := W_wait, muxBlocking := Some GameThread\<rparr>)"
| g_wait: "cplace s = W_wait \<Longrightarrow> game_step s (s\<lparr>cplace := W_sleep, muxBlocking := None\<rparr>)"
| g_wake: "cplace s = W_wake \<Longrightarrow> muxBlocking s = None \<Longrightarrow>
     game_step s (s\<lparr>cplace := W_leave, muxBlocking := Some GameThread\<rparr>)"
| g_leave: "cplace s = W_leave \<Longrightarrow> game_step s (s\<lparr>cplace := W_empty, muxBlocking := None\<rparr>)"
| u_empty: "cplace s = U_empty \<Longrightarrow> muxQueue s = None \<Longrightarrow>
     game_step s (s\<lparr>cplace := U_test, muxQueue := Some GameThread\<rparr>)"
| u_test: "cplace s = U_test \<Longrightarrow>
     game_step s (s\<lparr>cplace := (if q_empty (q_items s) then W_empty else U_pop), muxQueue := None\<rparr>)"
| u_pop: "cplace s = U_pop \<Longrightarrow> muxQueue s = None \<Longrightarrow>
     game_step s (s\<lparr>cplace := U_take, muxQueue := Some GameThread\<rparr>)"
| u_take: "cplace s = U_take \<Longrightarrow> q_pop_front (q_items s) = Inr (x, q) \<Longrightarrow>
     game_step s (s\<lparr>cplace := U_empty, q_items := q, q_taken := q_taken s @ [x], muxQueue := None\<rparr>)"

inductive q_reachable :: "'a qstate \<Rightarrow> bool" where
  q_init: "q_reachable qstart"
| q_net: "q_reachable s \<Longrightarrow> net_step s s' \<Longrightarrow> q_reachable s'"
| q_game: "q_reachable s \<Longrightarrow> game_step s s' \<Longrightarrow> q_reachable s'"

inductive_cases net_stepE: "net_step s s'"
inductive_cases game_stepE: "game_step s s'"

inductive_simps game_step_iff: "game_step s s'"
inductive_simps net_step_iff: "net_step s s'"

section \<open>Invariants\<close>

text \<open>
  Each mutex is held by the thread whose place is inside its scope; what was taken and what is in the
  queue are what was sent, in order; and \<^verbatim>\<open>pop_front\<close> is only called on a queue that has items.
\<close>

definition q_inv :: "'a qstate \<Rightarrow> bool" where
  "q_inv s \<longleftrightarrow>
     (muxQueue s = Some GameThread \<longleftrightarrow> cplace s \<in> {W_test, U_test, U_take}) \<and>
     (muxQueue s = Some NetThread \<longleftrightarrow> pplace s \<in> {P_block, P_notify} \<or> (\<exists>x. pplace s = P_add x)) \<and>
     (muxBlocking s = Some GameThread \<longleftrightarrow> cplace s \<in> {W_wait, W_leave}) \<and>
     (muxBlocking s = Some NetThread \<longleftrightarrow> pplace s = P_notify) \<and>
     q_taken s @ q_items s = q_sent s \<and>
     (cplace s \<in> {U_pop, U_take} \<longrightarrow> q_items s \<noteq> [])"

lemma q_inv_start: "q_inv qstart"
  by (simp add: q_inv_def qstart_def)

lemma q_inv_net: "q_inv s \<Longrightarrow> net_step s s' \<Longrightarrow> q_inv s'"
  by (erule net_stepE) (auto simp: q_inv_def q_push_back_def)

lemma q_inv_game: "q_inv s \<Longrightarrow> game_step s s' \<Longrightarrow> q_inv s'"
  by (erule game_stepE) (auto simp: q_inv_def q_empty_def q_pop_front_def split: list.splits)

lemma q_reachable_inv: "q_reachable s \<Longrightarrow> q_inv s"
  by (induction rule: q_reachable.induct) (auto intro: q_inv_start q_inv_net q_inv_game)


lemma q_inv_held:
  assumes "q_inv s"
  shows "cplace s \<in> {W_test, U_test, U_take} \<Longrightarrow> muxQueue s = Some GameThread"
    and "pplace s \<in> {P_block, P_notify} \<Longrightarrow> muxQueue s = Some NetThread"
    and "cplace s \<in> {W_wait, W_leave} \<Longrightarrow> muxBlocking s = Some GameThread"
    and "pplace s = P_notify \<Longrightarrow> muxBlocking s = Some NetThread"
  using assms unfolding q_inv_def by blast+

lemma q_inv_take:
  assumes "q_inv s" and "cplace s = U_take"
  shows "\<exists>x q. q_pop_front (q_items s) = Inr (x, q)"
  using assms by (cases "q_items s") (simp_all add: q_inv_def q_pop_front_def)

section \<open>Properties of the queue\<close>

text \<open>
  Property C14. However the two threads interleave, the mutexes exclude each other, what the game
  thread took followed by what is in the queue is exactly what the network thread sent, in order, and
  \<^verbatim>\<open>pop_front\<close> never runs on an empty queue.
\<close>

theorem queue_is_fifo:
  assumes "q_reachable s"
  shows "q_taken s @ q_items s = q_sent s \<and>
         \<not> (cplace s \<in> {W_test, U_test, U_take} \<and> pplace s \<in> {P_block, P_notify}) \<and>
         \<not> (cplace s \<in> {W_wait, W_leave} \<and> pplace s = P_notify) \<and>
         (cplace s = U_take \<longrightarrow> (\<exists>x q. q_pop_front (q_items s) = Inr (x, q)))"
proof -
  have iv: "q_inv s" by (rule q_reachable_inv [OF assms])
  have "q_taken s @ q_items s = q_sent s" using iv by (simp add: q_inv_def)
  moreover have "\<not> (cplace s \<in> {W_test, U_test, U_take} \<and> pplace s \<in> {P_block, P_notify})"
    using q_inv_held(1,2) [OF iv] by fastforce
  moreover have "\<not> (cplace s \<in> {W_wait, W_leave} \<and> pplace s = P_notify)"
    using q_inv_held(3,4) [OF iv] by fastforce
  moreover have "cplace s = U_take \<longrightarrow> (\<exists>x q. q_pop_front (q_items s) = Inr (x, q))"
    using q_inv_take [OF iv] by blast
  ultimately show ?thesis by blast
qed

text \<open>The run that loses a wake-up, state by state.\<close>

definition q_tested :: "'a qstate" where
  "q_tested = qstart\<lparr>cplace := W_block\<rparr>"

definition q_lost :: "'a \<Rightarrow> 'a qstate" where
  "q_lost x = qstart\<lparr>cplace := W_sleep, q_items := [x], q_sent := [x]\<rparr>"

lemma reach_tested: "q_reachable q_tested"
proof -
  have "q_reachable (qstart\<lparr>cplace := W_test, muxQueue := Some GameThread\<rparr>)"
    by (rule q_game [OF q_init], rule g_empty) (simp_all add: qstart_def)
  from q_game [OF this g_test] show ?thesis by (simp add: q_tested_def qstart_def q_empty_def)
qed

lemma reach_lost: "q_reachable (q_lost x)"
proof -
  have "q_reachable (q_tested\<lparr>pplace := P_lock x\<rparr>)"
    by (rule q_net [OF reach_tested], rule n_call) (simp add: q_tested_def qstart_def)
  from q_net [OF this n_lock [of _ x]]
  have "q_reachable (q_tested\<lparr>pplace := P_add x, muxQueue := Some NetThread\<rparr>)"
    by (simp add: q_tested_def qstart_def)
  from q_net [OF this n_add [of _ x]]
  have "q_reachable (q_tested\<lparr>pplace := P_block, muxQueue := Some NetThread, q_items := [x], q_sent := [x]\<rparr>)"
    by (simp add: q_tested_def qstart_def q_push_back_def)
  from q_net [OF this n_block]
  have "q_reachable (q_tested\<lparr>pplace := P_notify, muxQueue := Some NetThread, muxBlocking := Some NetThread,
      q_items := [x], q_sent := [x]\<rparr>)"
    by (simp add: q_tested_def qstart_def)
  from q_net [OF this n_notify]
  have "q_reachable (q_tested\<lparr>q_items := [x], q_sent := [x]\<rparr>)"
    by (simp add: q_tested_def qstart_def)
  from q_game [OF this g_block]
  have "q_reachable (qstart\<lparr>cplace := W_wait, muxBlocking := Some GameThread, q_items := [x], q_sent := [x]\<rparr>)"
    by (simp add: q_tested_def qstart_def)
  from q_game [OF this g_wait] show ?thesis by (simp add: q_lost_def qstart_def)
qed

text \<open>
  Property C16. \<^verbatim>\<open>wait()\<close> loses wake-ups: because it tests the queue under one mutex and sleeps under
  another without testing again, a run reaches a state where a sent message lies in the queue, the
  network thread is done with its push, and the game thread is asleep with no step of its own; only
  another push can wake it.
\<close>

theorem wait_loses_wakeup:
  "\<exists>s. q_reachable s \<and> q_items s = [x] \<and> q_taken s = [] \<and> cplace s = W_sleep \<and>
       pplace s = P_idle \<and> \<not> (\<exists>s'. game_step s s')"
proof (intro exI conjI)
  show "q_reachable (q_lost x)" by (rule reach_lost)
qed (auto simp: q_lost_def qstart_def elim: game_stepE)

text \<open>The game thread, when it holds a mutex the push waits for, can always make the step that frees it.\<close>

lemma game_frees_queue:
  assumes "q_inv s" and "cplace s \<in> {W_test, U_test, U_take}"
  shows "\<exists>s'. game_step s s' \<and> muxQueue s' = None"
proof -
  consider "cplace s = W_test" | "cplace s = U_test" | "cplace s = U_take" using assms(2) by blast
  then show ?thesis
  proof cases
    case 1
    from g_test [OF this] show ?thesis by - (rule exI, rule conjI, assumption, simp)
  next
    case 2
    from u_test [OF this] show ?thesis by - (rule exI, rule conjI, assumption, simp)
  next
    case 3
    then obtain x q where "q_pop_front (q_items s) = Inr (x, q)"
      using q_inv_take [OF assms(1)] by blast
    from u_take [OF 3 this] show ?thesis by - (rule exI, rule conjI, assumption, simp)
  qed
qed

lemma game_frees_blocking:
  assumes "cplace s \<in> {W_wait, W_leave}"
  shows "\<exists>s'. game_step s s' \<and> muxBlocking s' = None"
proof (cases "cplace s = W_wait")
  case True
  from g_wait [OF this] show ?thesis by - (rule exI, rule conjI, assumption, simp)
next
  case False
  then have "cplace s = W_leave" using assms by blast
  from g_leave [OF this] show ?thesis by - (rule exI, rule conjI, assumption, simp)
qed

text \<open>
  Property C17. A push in progress is never blocked for good: as long as it is not done, a step of
  one of the threads, other than a new push, is possible, and the holder of a mutex the push waits
  for can always release it.
\<close>

theorem push_never_deadlocks:
  assumes "q_reachable s" and "pplace s \<noteq> P_idle"
  shows "(\<exists>s'. net_step s s') \<or> (\<exists>s'. game_step s s' \<and> (muxQueue s' = None \<or> muxBlocking s' = None))"
proof (cases "pplace s")
  case P_idle
  with assms show ?thesis by simp
next
  case (P_lock x)
  have iv: "q_inv s" by (rule q_reachable_inv [OF assms(1)])
  show ?thesis
  proof (cases "muxQueue s = None")
    case True
    then show ?thesis using P_lock by (intro disjI1 exI) (rule n_lock)
  next
    case False
    then obtain t where t: "muxQueue s = Some t" by auto
    have "t = GameThread" using iv P_lock t by (cases t) (auto simp: q_inv_def)
    then have "cplace s \<in> {W_test, U_test, U_take}" using iv t by (simp add: q_inv_def)
    then show ?thesis using game_frees_queue [OF iv] by blast
  qed
next
  case (P_add x)
  then show ?thesis by (intro disjI1 exI) (rule n_add)
next
  case P_block
  have iv: "q_inv s" by (rule q_reachable_inv [OF assms(1)])
  show ?thesis
  proof (cases "muxBlocking s = None")
    case True
    then show ?thesis using P_block by (intro disjI1 exI) (rule n_block)
  next
    case False
    then obtain t where t: "muxBlocking s = Some t" by auto
    have "t = GameThread" using iv P_block t by (cases t) (auto simp: q_inv_def)
    then have "cplace s \<in> {W_wait, W_leave}" using iv t by (simp add: q_inv_def)
    then show ?thesis using game_frees_blocking by blast
  qed
next
  case P_notify
  then show ?thesis by (intro disjI1 exI) (rule n_notify)
qed

theorem queue_is_fifo_witness: "q_taken (q_lost 5) @ q_items (q_lost 5) = [5]"
  using queue_is_fifo [OF reach_lost [of 5]] by (simp add: q_lost_def)

theorem push_never_deadlocks_witness:
  "(\<exists>s'. net_step (q_tested\<lparr>pplace := P_lock (5::nat)\<rparr>) s') \<or>
   (\<exists>s'. game_step (q_tested\<lparr>pplace := P_lock (5::nat)\<rparr>) s' \<and> (muxQueue s' = None \<or> muxBlocking s' = None))"
proof (rule push_never_deadlocks)
  show "q_reachable (q_tested\<lparr>pplace := P_lock (5::nat)\<rparr>)"
    by (rule q_net [OF reach_tested], rule n_call) (simp add: q_tested_def qstart_def)
qed simp

end
