(* ===== verification/Connection.thy ===== *)
theory Connection
  imports Layout TSQueue
begin

text \<open>
  The class \<^verbatim>\<open>connection\<close> of SpNetCommon/src/spiderNet.h.

  asio (a vendored library) runs the completion handlers of one \<^verbatim>\<open>io_context\<close> one after the other. A
  connection is a record of its members and of what it has asked asio for: the tasks it has posted,
  the writes and the reads it has in flight. Each member function that starts an operation appends to
  those lists, each completion handler is a function of the connection, and asio is the order in which
  they are called: any theorem about a list of events holds for every such order. Bytes a completed
  write has handed to the socket are collected in \<open>wire\<close>.
\<close>

section \<open>State\<close>

datatype owner = OwnerServer | OwnerClient

datatype task = T_send message | T_close

datatype write_op = W_header | W_body | W_validation

datatype read_op = R_header | R_body | R_validation_server | R_validation_client

record connection =
  m_nOwnerType :: owner
  sock_open :: bool
  m_qMessagesOut :: "message list"
  m_msgTemporaryIn :: message
  m_nHandshakeOut :: u64
  m_nHandshakeIn :: u64
  m_nHandshakeCheck :: u64
  conn_id :: u32
  m_qMessagesIn :: "(u32 option \<times> message) list"
  posted :: "task list"
  writes :: "write_op list"
  reads :: "read_op list"
  wire :: "(write_op \<times> bytes) list"

text \<open>"Encrypt" data.\<close>

definition scramble :: "u64 \<Rightarrow> u64" where
  "scramble nInput =
     (let out = nInput XOR 0xDEADBEEFC0DECAFE;
          out' = drop_bit 4 (out AND 0xF0F0F0F0F0F0F0) OR push_bit 4 (out AND 0x0F0F0F0F0F0F0F)
      in out' XOR 0xC0DEFACE12345678)"

text \<open>\<open>now\<close> is the clock the server reads, \<open>qIn\<close> the queue of its owner; the socket is given open or not.\<close>

definition new_connection :: "owner \<Rightarrow> bool \<Rightarrow> u64 \<Rightarrow> (u32 option \<times> message) list \<Rightarrow> connection" where
  "new_connection parent is_open now qIn =
     \<lparr>m_nOwnerType = parent, sock_open = is_open, m_qMessagesOut = [], m_msgTemporaryIn = new_message 0,
      m_nHandshakeOut = (if parent = OwnerServer then now else 0), m_nHandshakeIn = 0,
      m_nHandshakeCheck = (if parent = OwnerServer then scramble now else 0),
      conn_id = 0, m_qMessagesIn = qIn, posted = [], writes = [], reads = [], wire = []\<rparr>"

definition IsConnected :: "connection \<Rightarrow> bool" where
  "IsConnected c = sock_open c"

definition close_socket :: "connection \<Rightarrow> connection" where
  "close_socket c = c\<lparr>sock_open := False\<rparr>"

definition post :: "task \<Rightarrow> connection \<Rightarrow> connection" where
  "post t c = c\<lparr>posted := posted c @ [t]\<rparr>"

definition Disconnect :: "connection \<Rightarrow> connection" where
  "Disconnect c = (if IsConnected c then post T_close c else c)"

definition Send :: "message \<Rightarrow> connection \<Rightarrow> connection" where
  "Send msg c = post (T_send msg) c"

section \<open>Writing\<close>

definition async_write :: "write_op \<Rightarrow> connection \<Rightarrow> connection" where
  "async_write op c = c\<lparr>writes := writes c @ [op]\<rparr>"

definition async_read :: "read_op \<Rightarrow> connection \<Rightarrow> connection" where
  "async_read op c = c\<lparr>reads := reads c @ [op]\<rparr>"

definition WriteHeader :: "connection \<Rightarrow> connection" where
  "WriteHeader c = async_write W_header c"

definition WriteBody :: "connection \<Rightarrow> connection" where
  "WriteBody c = async_write W_body c"

definition WriteValidation :: "connection \<Rightarrow> connection" where
  "WriteValidation c = async_write W_validation c"

text \<open>The task \<^verbatim>\<open>Send\<close> posts.\<close>

definition run_send :: "message \<Rightarrow> connection \<Rightarrow> connection" where
  "run_send msg c =
     (let bWritingMessage = \<not> q_empty (m_qMessagesOut c);
          c' = c\<lparr>m_qMessagesOut := q_push_back msg (m_qMessagesOut c)\<rparr>
      in if \<not> bWritingMessage then WriteHeader c' else c')"

definition run_task :: "task \<Rightarrow> connection \<Rightarrow> connection" where
  "run_task t c = (case t of T_send m \<Rightarrow> run_send m c | T_close \<Rightarrow> close_socket c)"

definition header_bytes :: "message \<Rightarrow> bytes" where
  "header_bytes m = enc_u32 (hid m) @ enc_u32 (hsize m)"

text \<open>The bytes a write operation sends, read from the members when it runs.\<close>

definition write_bytes :: "write_op \<Rightarrow> connection \<Rightarrow> bytes res" where
  "write_bytes op c =
     (case op of
        W_header \<Rightarrow> res_bind (q_front (m_qMessagesOut c)) (\<lambda>m. Inr (header_bytes m))
      | W_body \<Rightarrow> res_bind (q_front (m_qMessagesOut c)) (\<lambda>m. Inr (body m))
      | W_validation \<Rightarrow> Inr (enc_u64 (m_nHandshakeOut c)))"

text \<open>The part both write handlers share: the message is done, go on with the next one.\<close>

definition next_message :: "connection \<Rightarrow> connection res" where
  "next_message c =
     res_bind (q_pop_front (m_qMessagesOut c)) (\<lambda>(m, q).
       let c' = c\<lparr>m_qMessagesOut := q\<rparr>
       in Inr (if \<not> q_empty q then WriteHeader c' else c'))"

section \<open>Reading\<close>

definition ReadHeader :: "connection \<Rightarrow> connection" where
  "ReadHeader c = async_read R_header c"

definition ReadBody :: "connection \<Rightarrow> connection" where
  "ReadBody c = async_read R_body c"

definition AddToIncomingMessageQueue :: "connection \<Rightarrow> connection" where
  "AddToIncomingMessageQueue c =
     ReadHeader (c\<lparr>m_qMessagesIn := q_push_back
        (if m_nOwnerType c = OwnerServer then Some (conn_id c) else None, m_msgTemporaryIn c)
        (m_qMessagesIn c)\<rparr>)"

definition resize :: "nat \<Rightarrow> bytes \<Rightarrow> bytes" where
  "resize n bs = take n bs @ replicate (n - length bs) 0"

text \<open>The handlers of the writes: \<open>ok\<close> tells that \<^verbatim>\<open>ec\<close> is not set.\<close>

definition on_header_written :: "bool \<Rightarrow> connection \<Rightarrow> connection res" where
  "on_header_written ok c =
     (if \<not> ok then Inr (close_socket c)
      else res_bind (q_front (m_qMessagesOut c)) (\<lambda>m.
             if 0 < length (body m) then Inr (WriteBody c) else next_message c))"

definition on_body_written :: "bool \<Rightarrow> connection \<Rightarrow> connection res" where
  "on_body_written ok c = (if \<not> ok then Inr (close_socket c) else next_message c)"

definition on_validation_written :: "bool \<Rightarrow> connection \<Rightarrow> connection res" where
  "on_validation_written ok c =
     (if \<not> ok then Inr (close_socket c)
      else Inr (if m_nOwnerType c = OwnerClient then ReadHeader c else c))"

definition on_written :: "write_op \<Rightarrow> bool \<Rightarrow> connection \<Rightarrow> connection res" where
  "on_written op ok c =
     (case op of
        W_header \<Rightarrow> on_header_written ok c
      | W_body \<Rightarrow> on_body_written ok c
      | W_validation \<Rightarrow> on_validation_written ok c)"

lemmas on_written_defs = on_written_def on_header_written_def on_body_written_def on_validation_written_def

text \<open>How many bytes a read waits for.\<close>

definition read_size :: "read_op \<Rightarrow> connection \<Rightarrow> nat" where
  "read_size op c =
     (case op of R_header \<Rightarrow> 8 | R_body \<Rightarrow> length (body (m_msgTemporaryIn c)) | _ \<Rightarrow> 8)"

text \<open>
  The handlers of the reads: \<open>Some bs\<close> are the bytes that arrived, \<open>None\<close> an error. \<open>validated\<close> is
  the server's \<^verbatim>\<open>OnClientValidated\<close>, called on the connection.
\<close>

definition on_header_read :: "bytes option \<Rightarrow> connection \<Rightarrow> connection" where
  "on_header_read r c =
     (case r of
        None \<Rightarrow> close_socket c
      | Some bs \<Rightarrow>
          (let sz = dec_u32 (slice 4 4 bs);
               tmp = (m_msgTemporaryIn c)\<lparr>hid := dec_u32 (slice 0 4 bs), hsize := sz\<rparr>
           in if 0 < sz
              then ReadBody (c\<lparr>m_msgTemporaryIn := tmp\<lparr>body := resize (unat sz) (body tmp)\<rparr>\<rparr>)
              else AddToIncomingMessageQueue (c\<lparr>m_msgTemporaryIn := tmp\<rparr>)))"

definition on_body_read :: "bytes option \<Rightarrow> connection \<Rightarrow> connection" where
  "on_body_read r c =
     (case r of
        None \<Rightarrow> close_socket c
      | Some bs \<Rightarrow>
          AddToIncomingMessageQueue (c\<lparr>m_msgTemporaryIn := (m_msgTemporaryIn c)\<lparr>body := bs\<rparr>\<rparr>))"

definition on_server_validation_read ::
  "(connection \<Rightarrow> connection) \<Rightarrow> bytes option \<Rightarrow> connection \<Rightarrow> connection" where
  "on_server_validation_read validated r c =
     (case r of
        None \<Rightarrow> close_socket c
      | Some bs \<Rightarrow>
          (let c' = c\<lparr>m_nHandshakeIn := dec_u64 bs\<rparr>
           in if m_nOwnerType c = OwnerServer then
                (if m_nHandshakeIn c' = m_nHandshakeCheck c' then ReadHeader (validated c')
                 else close_socket c')
              else c'))"

definition on_client_validation_read :: "bytes option \<Rightarrow> connection \<Rightarrow> connection" where
  "on_client_validation_read r c =
     (case r of
        None \<Rightarrow> close_socket c
      | Some bs \<Rightarrow>
          (let c' = c\<lparr>m_nHandshakeIn := dec_u64 bs\<rparr>
           in if m_nOwnerType c = OwnerClient
              then WriteValidation (c'\<lparr>m_nHandshakeOut := scramble (m_nHandshakeIn c')\<rparr>)
              else c'))"

definition on_read :: "(connection \<Rightarrow> connection) \<Rightarrow> read_op \<Rightarrow> bytes option \<Rightarrow> connection \<Rightarrow> connection" where
  "on_read validated op r c =
     (case op of
        R_header \<Rightarrow> on_header_read r c
      | R_body \<Rightarrow> on_body_read r c
      | R_validation_server \<Rightarrow> on_server_validation_read validated r c
      | R_validation_client \<Rightarrow> on_client_validation_read r c)"

lemmas on_read_defs = on_read_def on_header_read_def on_body_read_def on_server_validation_read_def
  on_client_validation_read_def

section \<open>Connecting\<close>

definition ReadValidationServer :: "connection \<Rightarrow> connection" where
  "ReadValidationServer c = async_read R_validation_server c"

definition ReadValidationClient :: "connection \<Rightarrow> connection" where
  "ReadValidationClient c = async_read R_validation_client c"

definition ConnectToClient :: "u32 \<Rightarrow> connection \<Rightarrow> connection" where
  "ConnectToClient uid c =
     (if m_nOwnerType c = OwnerServer \<and> sock_open c
      then ReadValidationServer (WriteValidation (c\<lparr>conn_id := uid\<rparr>)) else c)"

text \<open>The handler of \<^verbatim>\<open>async_connect\<close>, which only a client starts.\<close>

definition on_connected :: "bool \<Rightarrow> connection \<Rightarrow> connection" where
  "on_connected ok c =
     (if m_nOwnerType c = OwnerClient \<and> ok then ReadValidationClient (c\<lparr>sock_open := True\<rparr>) else c)"

section \<open>Events\<close>

text \<open>
  What asio can do next: run the oldest posted task, complete any write in flight (its bytes are on
  the wire when it succeeds), or complete any read in flight.
\<close>

datatype event = E_task | E_write nat bool | E_read nat "bytes option"

definition remove_nth :: "nat \<Rightarrow> 'a list \<Rightarrow> 'a list" where
  "remove_nth i xs = take i xs @ drop (Suc i) xs"

definition step :: "(connection \<Rightarrow> connection) \<Rightarrow> event \<Rightarrow> connection \<Rightarrow> connection res" where
  "step validated ev c =
     (case ev of
        E_task \<Rightarrow> (case posted c of [] \<Rightarrow> Inr c | t # ts \<Rightarrow> Inr (run_task t (c\<lparr>posted := ts\<rparr>)))
      | E_write i ok \<Rightarrow>
          (if i < length (writes c) then
             (let op = writes c ! i; c' = c\<lparr>writes := remove_nth i (writes c)\<rparr>
              in if ok then res_bind (write_bytes op c) (\<lambda>bs.
                   on_written op True (c'\<lparr>wire := wire c @ [(op, bs)]\<rparr>))
                 else on_written op False c')
           else Inr c)
      | E_read i r \<Rightarrow>
          (if i < length (reads c) then
             Inr (on_read validated (reads c ! i) r (c\<lparr>reads := remove_nth i (reads c)\<rparr>))
           else Inr c))"

definition steps :: "(connection \<Rightarrow> connection) \<Rightarrow> event list \<Rightarrow> connection \<Rightarrow> connection res" where
  "steps validated evs c = res_fold (step validated) evs c"

end
