(* ===== verification/Protocol.thy ===== *)
theory Protocol
  imports Layout
begin

text \<open>
  The message identifiers of the game (\<^verbatim>\<open>ECustomMetaMSG\<close>, spNetMETA.h): an enumeration over
  \<^verbatim>\<open>uint32\<close>, numbered from zero in order. A received header may hold any other number too, so
  identifiers are words, not a closed datatype.
\<close>

named_theorems msg_ids

definition ServerAccept :: u32 where [msg_ids]: "ServerAccept = 0"
definition ServerDeny :: u32 where [msg_ids]: "ServerDeny = 1"
definition ServerPing :: u32 where [msg_ids]: "ServerPing = 2"
definition ClientAccepted :: u32 where [msg_ids]: "ClientAccepted = 3"
definition ClientRegisterOnServer :: u32 where [msg_ids]: "ClientRegisterOnServer = 4"
definition ClientRegisterFromServer :: u32 where [msg_ids]: "ClientRegisterFromServer = 5"
definition ClientUpdateMap :: u32 where [msg_ids]: "ClientUpdateMap = 6"
definition ClientInitEnemy :: u32 where [msg_ids]: "ClientInitEnemy = 7"
definition ClientAddPlayer :: u32 where [msg_ids]: "ClientAddPlayer = 8"
definition ClientJustCheck :: u32 where [msg_ids]: "ClientJustCheck = 9"
definition GameRemovePlayer :: u32 where [msg_ids]: "GameRemovePlayer = 10"
definition GameUpdatePlayer :: u32 where [msg_ids]: "GameUpdatePlayer = 11"
definition GamePlayerActionValidated :: u32 where [msg_ids]: "GamePlayerActionValidated = 12"
definition GamePlayerActionAborted :: u32 where [msg_ids]: "GamePlayerActionAborted = 13"
definition GameAITurnAction :: u32 where [msg_ids]: "GameAITurnAction = 14"
definition GamePlayerTurn :: u32 where [msg_ids]: "GamePlayerTurn = 15"
definition GameEndPlayerTurn :: u32 where [msg_ids]: "GameEndPlayerTurn = 16"
definition GameNextPlayerTurn :: u32 where [msg_ids]: "GameNextPlayerTurn = 17"
definition ServerGamePlayerActionApprove :: u32 where [msg_ids]: "ServerGamePlayerActionApprove = 18"
definition ServerShyConnectionCheck :: u32 where [msg_ids]: "ServerShyConnectionCheck = 19"
definition MessageAll :: u32 where [msg_ids]: "MessageAll = 20"
definition ServerMessage :: u32 where [msg_ids]: "ServerMessage = 21"

text \<open>A message of one value: \<^verbatim>\<open>msg.header.id = i; msg << data;\<close>\<close>

definition with_data :: "u32 \<Rightarrow> bytes \<Rightarrow> message" where
  "with_data i bs = msg_push bs (new_message i)"

lemma hid_with_data [simp]: "hid (with_data i bs) = i" "body (with_data i bs) = bs"
  by (simp_all add: with_data_def new_message_def)

text \<open>\<^verbatim>\<open>msg >> data\<close> for a value of a fixed size.\<close>

definition pop_data :: "(bytes \<Rightarrow> 'a) \<Rightarrow> nat \<Rightarrow> message \<Rightarrow> ('a \<times> message) res" where
  "pop_data dec n m = res_bind (msg_pop n m) (\<lambda>(bs, m'). Inr (dec bs, m'))"

text \<open>What is popped was decoded from enough bytes.\<close>

lemma pop_data_Inr:
  assumes "pop_data dec n m = Inr (x, m')"
  obtains bs where "n \<le> length bs" "x = dec bs"
proof -
  let ?i = "sz_sub (length (body m)) n"
  from assms have "?i + n \<le> length (body m)" "x = dec (drop ?i (body m))"
    by (auto simp: pop_data_def msg_pop_def Let_def split: if_splits)
  then show thesis by (intro that [of "drop ?i (body m)"]) auto
qed

lemma pop_data_short:
  assumes "length (body m) < n" and "n < 2 ^ 32"
  shows "pop_data dec n m = Inl Undefined"
proof -
  have "n < 2 ^ 64" using assms(2) by (rule less_trans) simp
  then show ?thesis unfolding pop_data_def msg_pop_short [OF assms(1) \<open>n < 2 ^ 64\<close>]
    by (simp only: res_bind_Inl)
qed

lemma pop_data_single:
  assumes "length bs = n" and "n < 2 ^ 32"
  shows "pop_data dec n (with_data i bs) = Inr (dec bs, new_message i)"
proof -
  have "length bs < 2 ^ 32" using assms by simp
  from msg_pop_push [OF wf_new_message this] assms(1) show ?thesis
    by (simp add: pop_data_def with_data_def)
qed

end
