(* ===== verification/ServerInterface.thy ===== *)
theory ServerInterface
  imports Connection Protocol
begin

text \<open>
  The class \<^verbatim>\<open>server_interface\<close> of SpNetCommon/src/spiderNet.h.

  A \<^verbatim>\<open>shared_ptr\<close> to a connection is the address of the connection in \<open>heap\<close>, or \<open>None\<close> for the null
  pointer; a copied pointer keeps its address when another copy is reset. The virtual functions a
  derived class overrides are arguments: \<open>disc\<close> is \<^verbatim>\<open>OnClientDisconnect\<close>, \<open>on_connect\<close> is
  \<^verbatim>\<open>OnClientConnect\<close>, \<open>on_message\<close> is \<^verbatim>\<open>OnMessage\<close>. The state is an extensible record, so that a derived
  class adds its members.
\<close>

section \<open>The model\<close>

record server_interface =
  heap :: "nat \<Rightarrow> connection"
  next_ref :: nat
  m_deqConnection :: "nat option list"
  s_qIn :: "(nat option \<times> message) list"
  nIDCounter :: u32
  accepts :: nat
  s_context_stopped :: bool
  s_thread_joinable :: bool

definition send_to :: "nat \<Rightarrow> message \<Rightarrow> 'z server_interface_scheme \<Rightarrow> 'z server_interface_scheme" where
  "send_to r m s = s\<lparr>heap := (heap s)(r := Send m (heap s r))\<rparr>"

definition connected :: "'z server_interface_scheme \<Rightarrow> nat \<Rightarrow> bool" where
  "connected s r = IsConnected (heap s r)"

definition GetID :: "'z server_interface_scheme \<Rightarrow> nat \<Rightarrow> u32" where
  "GetID s r = conn_id (heap s r)"

text \<open>\<^verbatim>\<open>erase(remove(begin, end, nullptr), end)\<close>.\<close>

definition erase_null :: "'z server_interface_scheme \<Rightarrow> 'z server_interface_scheme" where
  "erase_null s = s\<lparr>m_deqConnection := filter (\<lambda>c. c \<noteq> None) (m_deqConnection s)\<rparr>"

type_synonym 's handler = "nat option \<Rightarrow> 's \<Rightarrow> 's res"

text \<open>
  \<^verbatim>\<open>client.reset()\<close> comes before \<^verbatim>\<open>std::remove\<close>, so what is removed from the deque are its null
  pointers, not the client.
\<close>

definition MessageClient ::
  "'z server_interface_scheme handler \<Rightarrow> nat option \<Rightarrow> message \<Rightarrow> 'z server_interface_scheme
     \<Rightarrow> 'z server_interface_scheme res" where
  "MessageClient disc client m s =
     (case client of
        Some r \<Rightarrow> (if connected s r then Inr (send_to r m s)
                   else res_bind (disc client s) (\<lambda>s'. Inr (erase_null s')))
      | None \<Rightarrow> res_bind (disc client s) (\<lambda>s'. Inr (erase_null s')))"

text \<open>
  The loop over the deque. \<^verbatim>\<open>auto& client\<close> refers to the entry itself, which \<^verbatim>\<open>reset\<close> makes null. A
  callback that erases from the deque invalidates the loop's iterators.
\<close>

definition message_entry ::
  "'z server_interface_scheme handler \<Rightarrow> message \<Rightarrow> nat option \<Rightarrow> nat
     \<Rightarrow> 'z server_interface_scheme \<times> bool \<Rightarrow> ('z server_interface_scheme \<times> bool) res" where
  "message_entry disc m ignore i sb =
     (let s = fst sb; client = m_deqConnection s ! i
      in if (case client of Some r \<Rightarrow> connected s r | None \<Rightarrow> False)
         then Inr (if client \<noteq> ignore then send_to (the client) m s else s, snd sb)
         else res_bind (disc client s) (\<lambda>s'.
                if length (m_deqConnection s') = length (m_deqConnection s)
                then Inr (s'\<lparr>m_deqConnection := (m_deqConnection s')[i := None]\<rparr>, True)
                else Inl Undefined))"

definition MessageAllClients ::
  "'z server_interface_scheme handler \<Rightarrow> message \<Rightarrow> nat option \<Rightarrow> 'z server_interface_scheme
     \<Rightarrow> 'z server_interface_scheme res" where
  "MessageAllClients disc m ignore s =
     res_bind (res_fold (message_entry disc m ignore) [0..<length (m_deqConnection s)] (s, False))
       (\<lambda>(s', bInvalidClientExists). Inr (if bInvalidClientExists then erase_null s' else s'))"

text \<open>
  The handler of \<^verbatim>\<open>async_accept\<close> in \<^verbatim>\<open>WaitForClientConnection\<close>: \<open>ok\<close> tells that there was no error,
  \<open>now\<close> is the clock. It ends by waiting for the next connection.
\<close>

definition on_accept ::
  "(nat \<Rightarrow> 'z server_interface_scheme \<Rightarrow> bool \<times> 'z server_interface_scheme) \<Rightarrow> bool \<Rightarrow> u64
     \<Rightarrow> 'z server_interface_scheme \<Rightarrow> 'z server_interface_scheme" where
  "on_accept on_connect ok now s =
     (if ok then
        (let r = next_ref s;
             s1 = s\<lparr>heap := (heap s)(r := new_connection OwnerServer True now []), next_ref := Suc r\<rparr>
         in case on_connect r s1 of (allowed, s2) \<Rightarrow>
              if allowed
              then s2\<lparr>m_deqConnection := m_deqConnection s2 @ [Some r],
                      heap := (heap s2)(r := ConnectToClient (nIDCounter s2) (heap s2 r)),
                      nIDCounter := nIDCounter s2 + 1\<rparr>
              else s2)
      else s)"

text \<open>
  \<^verbatim>\<open>Start\<close> and \<^verbatim>\<open>Stop\<close>. \<open>accepts\<close> counts the accepts asio was asked for and has not completed; the handler
  above completes one and asks for the next. \<open>created\<close>: whether the thread could be created, which throws
  otherwise. Assigning to a thread that is still joinable terminates the program.
\<close>

definition WaitForClientConnection :: "'z server_interface_scheme \<Rightarrow> 'z server_interface_scheme" where
  "WaitForClientConnection s = s\<lparr>accepts := Suc (accepts s)\<rparr>"

definition server_Start :: "bool \<Rightarrow> 'z server_interface_scheme \<Rightarrow> (bool \<times> 'z server_interface_scheme) res" where
  "server_Start created s =
     (let s1 = WaitForClientConnection s
      in if \<not> created then Inr (False, s1)
         else if s_thread_joinable s1 then Inl Terminated
         else Inr (True, s1\<lparr>s_thread_joinable := True\<rparr>))"

definition server_Stop :: "'z server_interface_scheme \<Rightarrow> 'z server_interface_scheme" where
  "server_Stop s = s\<lparr>s_context_stopped := True, s_thread_joinable := False\<rparr>"

text \<open>
  The thread handles completions while the context is not stopped. Nobody calls \<^verbatim>\<open>restart()\<close>: a server
  that is started again after \<^verbatim>\<open>Stop\<close> reports success and handles nothing.
\<close>

definition server_serves :: "'z server_interface_scheme \<Rightarrow> bool" where
  "server_serves s \<longleftrightarrow> s_thread_joinable s \<and> \<not> s_context_stopped s \<and> 0 < accepts s"

lemma server_starts_once:
  assumes "\<not> s_thread_joinable s" and "\<not> s_context_stopped s"
  obtains s1 s2 where "server_Start True s = Inr (True, s1)" "server_serves s1"
    "server_Start True s1 = Inl Terminated" "server_Start True (server_Stop s1) = Inr (True, s2)"
    "\<not> server_serves s2" "0 < accepts s2"
  using assms by (simp add: server_Start_def server_Stop_def WaitForClientConnection_def server_serves_def)

text \<open>
  The thread of the context handles one event of a connection. What the connection pushes goes into the
  server's queue, with the pointer to the connection; its own \<open>m_qMessagesIn\<close> is the part of that queue it
  has just pushed.
\<close>

definition server_context_event ::
  "(connection \<Rightarrow> connection) \<Rightarrow> nat \<Rightarrow> event \<Rightarrow> 'z server_interface_scheme \<Rightarrow> 'z server_interface_scheme res" where
  "server_context_event validated r ev s =
     res_bind (step validated ev ((heap s r)\<lparr>m_qMessagesIn := []\<rparr>)) (\<lambda>k.
       Inr (s\<lparr>heap := (heap s)(r := k\<lparr>m_qMessagesIn := []\<rparr>),
              s_qIn := s_qIn s @ map (\<lambda>om. (Some r, snd om)) (m_qMessagesIn k)\<rparr>))"

text \<open>
  \<^verbatim>\<open>Update(nMaxMessages, bWait)\<close> after its wait (theory TSQueue): messages are popped and handled until
  the queue is empty, at most \<open>nMax\<close> of them.
\<close>

primrec Update ::
  "nat \<Rightarrow> (nat option \<Rightarrow> message \<Rightarrow> 'z server_interface_scheme \<Rightarrow> 'z server_interface_scheme res)
     \<Rightarrow> 'z server_interface_scheme \<Rightarrow> 'z server_interface_scheme res" where
  "Update 0 on_message s = Inr s"
| "Update (Suc nMax) on_message s =
     (if q_empty (s_qIn s) then Inr s
      else res_bind (q_pop_front (s_qIn s)) (\<lambda>(rm, q).
        res_bind (on_message (fst rm) (snd rm) (s\<lparr>s_qIn := q\<rparr>)) (Update nMax on_message)))"

section \<open>Sending to everybody\<close>

text \<open>All entries of the deque are live: then no callback is called.\<close>

definition all_live :: "'z server_interface_scheme \<Rightarrow> bool" where
  "all_live s \<longleftrightarrow> (\<forall>c \<in> set (m_deqConnection s). \<exists>r. c = Some r \<and> connected s r)"

definition send_all :: "message \<Rightarrow> nat option \<Rightarrow> nat option list \<Rightarrow> 'z server_interface_scheme
    \<Rightarrow> 'z server_interface_scheme" where
  "send_all m ignore cs s = fold (\<lambda>c s. if c \<noteq> ignore then send_to (the c) m s else s) cs s"

lemma connected_send_to [simp]: "connected (send_to r m s) r' = connected s r'"
  by (simp add: connected_def send_to_def IsConnected_def Send_def post_def)

lemma send_to_fields [simp]:
  "m_deqConnection (send_to r m s) = m_deqConnection s" "s_qIn (send_to r m s) = s_qIn s"
  "nIDCounter (send_to r m s) = nIDCounter s" "next_ref (send_to r m s) = next_ref s"
  "GetID (send_to r m s) r' = GetID s r'"
  by (simp_all add: send_to_def GetID_def Send_def post_def)

lemma send_to_more [simp]: "server_interface.more (send_to r m s) = server_interface.more s"
  by (simp add: send_to_def)

lemma all_live_send_to [simp]: "all_live (send_to r m s) = all_live s"
  by (simp add: all_live_def)

lemma send_all_fields [simp]:
  "m_deqConnection (send_all m ig cs s) = m_deqConnection s" "s_qIn (send_all m ig cs s) = s_qIn s"
  "connected (send_all m ig cs s) r' = connected s r'" "GetID (send_all m ig cs s) r' = GetID s r'"
  "server_interface.more (send_all m ig cs s) = server_interface.more s"
  "nIDCounter (send_all m ig cs s) = nIDCounter s" "next_ref (send_all m ig cs s) = next_ref s"
  by (induction cs arbitrary: s) (simp_all add: send_all_def)

lemma all_live_send_all [simp]: "all_live (send_all m ig cs s) = all_live s"
  by (simp add: all_live_def)

lemma MessageClient_live:
  "connected s r \<Longrightarrow> MessageClient disc (Some r) m s = Inr (send_to r m s)"
  by (simp add: MessageClient_def)

lemma MessageAllClients_live:
  assumes "all_live s"
  shows "MessageAllClients disc m ig s = Inr (send_all m ig (m_deqConnection s) s)"
proof -
  let ?d = "m_deqConnection s"
  have "res_fold (message_entry disc m ig) [k..<length ?d] (t, b) = Inr (send_all m ig (drop k ?d) t, b)"
    if "k \<le> length ?d" and "m_deqConnection t = ?d" and "all_live t" for k t b
    using that
  proof (induction "length ?d - k" arbitrary: k t)
    case 0
    then show ?case by (simp add: send_all_def)
  next
    case (Suc n)
    then have k: "k < length ?d" by simp
    then have "?d ! k \<in> set (m_deqConnection t)" using Suc.prems(2) by simp
    then obtain r where r: "?d ! k = Some r" "connected t r"
      using Suc.prems(3) by (auto simp: all_live_def)
    let ?t = "if ?d ! k \<noteq> ig then send_to (the (?d ! k)) m t else t"
    have step: "message_entry disc m ig k (t, b) = Inr (?t, b)"
      using r Suc.prems(2) by (simp add: message_entry_def Let_def)
    have "m_deqConnection ?t = ?d" "all_live ?t" using Suc.prems by simp_all
    from Suc.hyps(1) [of "Suc k" ?t] Suc.hyps(2) k this
    have "res_fold (message_entry disc m ig) [Suc k..<length ?d] (?t, b)
            = Inr (send_all m ig (drop (Suc k) ?d) ?t, b)" by simp
    moreover have "drop k ?d = ?d ! k # drop (Suc k) ?d" using k by (rule Cons_nth_drop_Suc [symmetric])
    ultimately show ?case using k step by (simp add: upt_conv_Cons send_all_def)
  qed
  from this [of 0 s False] assms show ?thesis by (simp add: MessageAllClients_def)
qed

text \<open>What each client was posted.\<close>

lemma posted_send_to: "posted (heap (send_to r m s) r') = posted (heap s r') @ (if r = r' then [T_send m] else [])"
  by (simp add: send_to_def Send_def post_def)

lemma posted_send_all:
  assumes "distinct cs" and "\<forall>c \<in> set cs. c \<noteq> None"
  shows "posted (heap (send_all m ig cs s) r) =
           posted (heap s r) @ (if Some r \<in> set cs \<and> Some r \<noteq> ig then [T_send m] else [])"
  using assms
proof (induction cs arbitrary: s)
  case Nil
  then show ?case by (simp add: send_all_def)
next
  case (Cons c cs)
  obtain r' where r': "c = Some r'" using Cons.prems by auto
  have "send_all m ig (c # cs) s = send_all m ig cs (if c \<noteq> ig then send_to r' m s else s)"
    using r' by (simp add: send_all_def)
  then show ?case using Cons r' by (auto simp: posted_send_to)
qed


text \<open>Messages for one client.\<close>

lemma posted_send_each:
  "posted (heap (fold (send_to r) ms s) r') = posted (heap s r') @ (if r = r' then map T_send ms else [])"
  by (induction ms arbitrary: s) (simp_all add: posted_send_to)

lemma send_each_fields [simp]:
  "m_deqConnection (fold (send_to r) ms s) = m_deqConnection s"
  "connected (fold (send_to r) ms s) r' = connected s r'" "GetID (fold (send_to r) ms s) r' = GetID s r'"
  by (induction ms arbitrary: s) simp_all

section \<open>Losing clients\<close>

definition live :: "'z server_interface_scheme \<Rightarrow> nat option \<Rightarrow> bool" where
  "live s c \<longleftrightarrow> (\<exists>r. c = Some r \<and> connected s r)"

text \<open>
  What the loop relies on when it calls \<^verbatim>\<open>OnClientDisconnect\<close>: on the clients for which \<open>calm\<close> holds
  the handler returns, leaves the deque and the sockets alone, and stays calm about the others. \<open>view\<close> is
  what a subclass keeps about its clients, and \<open>gone\<close> what the handler makes of it.
\<close>

locale disconnect_handler =
  fixes disc :: "'z server_interface_scheme handler"
    and quiet :: "nat option \<Rightarrow> 'z server_interface_scheme \<Rightarrow> bool"
    and view :: "'z server_interface_scheme \<Rightarrow> 'v" and gone :: "nat option \<Rightarrow> 'v \<Rightarrow> 'v"
  assumes returns: "quiet c s \<Longrightarrow> \<exists>s'. disc c s = Inr s'"
    and keeps_deque: "quiet c s \<Longrightarrow> disc c s = Inr s' \<Longrightarrow> m_deqConnection s' = m_deqConnection s"
    and keeps_sockets: "quiet c s \<Longrightarrow> disc c s = Inr s' \<Longrightarrow> connected s' r = connected s r"
    and stays_quiet: "quiet c s \<Longrightarrow> disc c s = Inr s' \<Longrightarrow> quiet c' s \<Longrightarrow> quiet c' s'"
    and quiet_send: "quiet c (send_to r m s) = quiet c s"
    and quiet_deque: "quiet c (s\<lparr>m_deqConnection := d\<rparr>) = quiet c s"
    and view_gone: "quiet c s \<Longrightarrow> disc c s = Inr s' \<Longrightarrow> view s' = gone c (view s)"
    and view_send: "view (send_to r m s) = view s"
    and view_deque: "view (s\<lparr>m_deqConnection := d\<rparr>) = view s"
begin

text \<open>Messaging a dead client leaves it in the deque.\<close>

lemma message_dead_client:
  assumes "\<not> connected s r" and "quiet (Some r) s"
  shows "\<exists>s'. MessageClient disc (Some r) m s = Inr s' \<and>
           m_deqConnection s' = filter (\<lambda>c. c \<noteq> None) (m_deqConnection s)"
proof -
  from returns [OF assms(2)] obtain s' where s': "disc (Some r) s = Inr s'" by blast
  with keeps_deque [OF assms(2) s'] assms(1) show ?thesis
    by (simp add: MessageClient_def erase_null_def)
qed

text \<open>Messaging everybody removes exactly the dead clients.\<close>

lemma message_entry_live:
  assumes "i < length (m_deqConnection s)" and "live s (m_deqConnection s ! i)"
  shows "\<exists>s'. message_entry disc m ig i (s, b) = Inr (s', b) \<and> m_deqConnection s' = m_deqConnection s \<and>
           (\<forall>r. connected s' r = connected s r) \<and> (\<forall>c. quiet c s' = quiet c s) \<and> view s' = view s"
  using assms by (auto simp: message_entry_def Let_def live_def quiet_send view_send)

lemma message_entry_dead:
  assumes "i < length (m_deqConnection s)" and dead: "\<not> live s (m_deqConnection s ! i)"
    and q: "quiet (m_deqConnection s ! i) s"
  shows "\<exists>s'. message_entry disc m ig i (s, b) = Inr (s', True) \<and>
           m_deqConnection s' = (m_deqConnection s)[i := None] \<and>
           (\<forall>r. connected s' r = connected s r) \<and> (\<forall>c. quiet c s \<longrightarrow> quiet c s') \<and>
           view s' = gone (m_deqConnection s ! i) (view s)"
proof -
  from returns [OF q] obtain s' where s': "disc (m_deqConnection s ! i) s = Inr s'" by blast
  have "message_entry disc m ig i (s, b)
      = Inr (s'\<lparr>m_deqConnection := (m_deqConnection s)[i := None]\<rparr>, True)"
    using dead s' keeps_deque [OF q s']
    by (auto simp: message_entry_def Let_def live_def split: option.splits)
  moreover have "connected (s'\<lparr>m_deqConnection := d\<rparr>) r = connected s r" for d r
    using keeps_sockets [OF q s'] by (simp add: connected_def)
  ultimately show ?thesis using stays_quiet [OF q s'] view_gone [OF q s'] by (simp add: quiet_deque view_deque)
qed

lemma message_entry_marks:
  assumes "i < length (m_deqConnection s)"
    and "\<not> live s (m_deqConnection s ! i) \<longrightarrow> quiet (m_deqConnection s ! i) s"
  shows "\<exists>s'. message_entry disc m ig i (s, b) = Inr (s', b \<or> \<not> live s (m_deqConnection s ! i)) \<and>
           m_deqConnection s' =
             (m_deqConnection s)[i := if live s (m_deqConnection s ! i) then m_deqConnection s ! i else None] \<and>
           (\<forall>r. connected s' r = connected s r) \<and> (\<forall>c. quiet c s \<longrightarrow> quiet c s') \<and>
           view s' = (if live s (m_deqConnection s ! i) then view s else gone (m_deqConnection s ! i) (view s))"
proof (cases "live s (m_deqConnection s ! i)")
  case True
  then show ?thesis using message_entry_live [OF assms(1) True, of m ig b] by auto
next
  case False
  then show ?thesis using message_entry_dead [OF assms(1) False, of m ig b] assms(2) by simp
qed

lemma message_all_loop:
  assumes "\<forall>c \<in> set d. \<not> live s c \<longrightarrow> quiet c s"
    and "k \<le> length d" and "m_deqConnection t = map (\<lambda>c. if live s c then c else None) (take k d) @ drop k d"
    and "\<forall>r. connected t r = connected s r" and "\<forall>c. quiet c s \<longrightarrow> quiet c t"
    and "view t = fold gone (filter (\<lambda>c. \<not> live s c) (take k d)) (view s)"
  shows "\<exists>t' b'. res_fold (message_entry disc m ig) [k..<length d] (t, b) = Inr (t', b') \<and>
           m_deqConnection t' = map (\<lambda>c. if live s c then c else None) d \<and>
           view t' = fold gone (filter (\<lambda>c. \<not> live s c) d) (view s) \<and>
           (b' \<longleftrightarrow> b \<or> (\<exists>c \<in> set (drop k d). \<not> live s c))"
  using assms(2-)
proof (induction "length d - k" arbitrary: k t b)
  case 0
  then show ?case by simp
next
  case (Suc n)
  then have k: "k < length d" by simp
  have len: "k < length (m_deqConnection t)" using Suc.prems(2) k by simp
  have at: "m_deqConnection t ! k = d ! k" using Suc.prems(2) k by (simp add: nth_append)
  have lv: "live t c = live s c" for c using Suc.prems(3) by (simp add: live_def)
  have dk: "drop k d = d ! k # drop (Suc k) d" using k by (rule Cons_nth_drop_Suc [symmetric])
  have tk: "take (Suc k) d = take k d @ [d ! k]" using k by (rule take_Suc_conv_app_nth)
  have "\<not> live t (m_deqConnection t ! k) \<longrightarrow> quiet (m_deqConnection t ! k) t"
    using assms(1) k at lv Suc.prems(4) by simp
  from message_entry_marks [OF len this, of m ig b] obtain t1 where
    t1: "message_entry disc m ig k (t, b) = Inr (t1, b \<or> \<not> live s (d ! k))"
      "m_deqConnection t1 = (m_deqConnection t)[k := if live s (d ! k) then d ! k else None]"
      "\<forall>r. connected t1 r = connected t r" "\<forall>c. quiet c t \<longrightarrow> quiet c t1"
      "view t1 = (if live s (d ! k) then view t else gone (d ! k) (view t))" by (auto simp: at lv)
  have d1: "m_deqConnection t1 = map (\<lambda>c. if live s c then c else None) (take (Suc k) d) @ drop (Suc k) d"
    using t1(2) Suc.prems(2) dk tk k by (simp add: list_update_append)
  have "\<forall>r. connected t1 r = connected s r" "\<forall>c. quiet c s \<longrightarrow> quiet c t1"
    "n = length d - Suc k" "Suc k \<le> length d"
    "view t1 = fold gone (filter (\<lambda>c. \<not> live s c) (take (Suc k) d)) (view s)"
    using t1(3-5) Suc.prems(3-5) Suc.hyps(2) k tk by simp_all
  from Suc.hyps(1) [OF this(3,4) d1 this(1,2,5), of "b \<or> \<not> live s (d ! k)"] obtain t' b' where
    "res_fold (message_entry disc m ig) [Suc k..<length d] (t1, b \<or> \<not> live s (d ! k)) = Inr (t', b')"
    "m_deqConnection t' = map (\<lambda>c. if live s c then c else None) d"
    "view t' = fold gone (filter (\<lambda>c. \<not> live s c) d) (view s)"
    "b' \<longleftrightarrow> (b \<or> \<not> live s (d ! k)) \<or> (\<exists>c \<in> set (drop (Suc k) d). \<not> live s c)" by blast
  then show ?case using t1(1) k dk by (auto simp: upt_conv_Cons)
qed

lemma message_all_purges:
  assumes "\<forall>c \<in> set (m_deqConnection s). \<not> live s c \<longrightarrow> quiet c s"
  shows "\<exists>s'. MessageAllClients disc m ig s = Inr s' \<and>
           m_deqConnection s' = filter (live s) (m_deqConnection s) \<and>
           view s' = fold gone (filter (\<lambda>c. \<not> live s c) (m_deqConnection s)) (view s)"
proof -
  let ?d = "m_deqConnection s"
  from message_all_loop [OF assms, of 0 s m ig False] obtain t' b' where
    t': "res_fold (message_entry disc m ig) [0..<length ?d] (s, False) = Inr (t', b')"
      "m_deqConnection t' = map (\<lambda>c. if live s c then c else None) ?d"
      "view t' = fold gone (filter (\<lambda>c. \<not> live s c) ?d) (view s)"
      "b' \<longleftrightarrow> (\<exists>c \<in> set ?d. \<not> live s c)" by auto
  have flt: "filter (\<lambda>c. c \<noteq> None) (map (\<lambda>c. if live s c then c else None) d) = filter (live s) d" for d
    by (induction d) (auto simp: live_def)
  show ?thesis
  proof (cases b')
    case True
    then show ?thesis using t' flt by (simp add: MessageAllClients_def erase_null_def view_deque)
  next
    case False
    then have "\<forall>c \<in> set ?d. live s c" using t'(4) by blast
    then have "filter (live s) ?d = ?d" "map (\<lambda>c. if live s c then c else None) ?d = ?d"
      by (simp_all add: map_idI)
    then show ?thesis using t' False by (simp add: MessageAllClients_def)
  qed
qed

end

text \<open>\<^verbatim>\<open>server_interface\<close>'s own handler does nothing.\<close>

definition default_OnClientDisconnect :: "'z server_interface_scheme handler" where
  "default_OnClientDisconnect client s = Inr s"

interpretation base_server: disconnect_handler default_OnClientDisconnect "\<lambda>c s. True" "\<lambda>s. ()" "\<lambda>c v. v"
  by unfold_locales (simp_all add: default_OnClientDisconnect_def)

end
