(* ===== verification/WorldInv.thy ===== *)
theory WorldInv
  imports World
begin

text \<open>
  Properties of the game world: what damage, target search and attacks compute, and the
  well-formedness invariant that every action keeps. The invariant says that a player's \<^verbatim>\<open>ID\<close> field
  is its key in \<^verbatim>\<open>PlayersList\<close> (so no attack inserts a default player), that health is never
  negative, and that inventories and the map have the sizes of their arrays.
\<close>

abbreviation players :: "GameWorld \<Rightarrow> u32 \<Rightarrow> Player option" where
  "players w \<equiv> map_of (PlayersList w)"

named_theorems world_simps

section \<open>Damage\<close>

lemma sint_nonneg_uint:
  fixes a :: "'a::len word"
  assumes "0 \<le> sint a"
  shows "uint a = sint a"
proof -
  have "sint a < 2 ^ LENGTH('a)"
    using sint_lt [of a] power_increasing [of "LENGTH('a) - 1" "LENGTH('a)" "2::int"] by linarith
  then show ?thesis using assms by (simp add: uint_sint take_bit_int_eq_self)
qed

lemma sint_of_small_uint:
  fixes a :: i32
  assumes "uint a < 2 ^ 31"
  shows "sint a = uint a"
proof -
  have "- (2 ^ 31) \<le> uint a" by (rule order_trans [OF _ uint_ge_0]) simp
  then show ?thesis using assms by (simp add: sint_uint signed_take_bit_int_eq_self)
qed

lemma sint_damaged_hp:
  assumes "0 \<le> sint hp"
  shows "sint (damaged_hp d hp) = max 0 (sint hp - uint d)"
proof (cases "hp \<le> d")
  case True
  then have "uint hp \<le> uint d" by (simp add: word_le_def)
  with True show ?thesis using sint_nonneg_uint [OF assms] by (simp add: damaged_hp_def)
next
  case False
  then have less: "uint d < uint hp" by (simp add: word_le_def)
  then have diff: "uint (hp - d) = uint hp - uint d"
    by (simp add: uint_sub_if')
  have "uint hp < 2 ^ 31" using sint_lt [of hp] sint_nonneg_uint [OF assms] by simp
  then have "uint (hp - d) < 2 ^ 31" using diff uint_ge_0 [of d] by linarith
  then have "sint (hp - d) = uint hp - uint d"
    using diff by (simp only: sint_of_small_uint)
  with False less show ?thesis using sint_nonneg_uint [OF assms] by (simp add: damaged_hp_def)
qed

lemma damaged_hp_nonneg: "0 \<le> sint hp \<Longrightarrow> 0 \<le> sint (damaged_hp d hp)"
  by (simp add: sint_damaged_hp)

lemma damaged_hp_decreases: "0 \<le> sint hp \<Longrightarrow> sint (damaged_hp d hp) \<le> sint hp"
  by (simp add: sint_damaged_hp)

section \<open>Well-formed worlds\<close>

definition wf_Player :: "u32 \<Rightarrow> Player \<Rightarrow> bool" where
  "wf_Player k p \<longleftrightarrow>
     pID p = k \<and> 0 \<le> sint (pHP p) \<and> wf_Inventory (pInventory p) \<and> length (Name p) = MaxNameSize"

definition wf_Enemy :: "Enemy \<Rightarrow> bool" where
  "wf_Enemy e \<longleftrightarrow> 0 \<le> sint (eHP e) \<and> wf_Inventory (einventory e)"

definition wf_world :: "GameWorld \<Rightarrow> bool" where
  "wf_world w \<longleftrightarrow>
     distinct (map fst (PlayersList w)) \<and>
     (\<forall>k p. players w k = Some p \<longrightarrow> wf_Player k p) \<and>
     list_all wf_Enemy (EnemyList w) \<and>
     length (MapTiles w) = Map_Width * Map_Height \<and>
     length (EnemyList w) < 2 ^ 32"

text \<open>What no action changes: who is in the game, how many enemies there are, and the map.\<close>

definition same_shape :: "GameWorld \<Rightarrow> GameWorld \<Rightarrow> bool" where
  "same_shape w w' \<longleftrightarrow>
     map fst (PlayersList w') = map fst (PlayersList w) \<and>
     length (EnemyList w') = length (EnemyList w) \<and> MapTiles w' = MapTiles w"

lemma same_shape_refl [simp]: "same_shape w w"
  by (simp add: same_shape_def)

lemma same_shape_trans: "same_shape a b \<Longrightarrow> same_shape b c \<Longrightarrow> same_shape a c"
  by (simp add: same_shape_def)

lemma dom_players: "dom (players w) = set (map fst (PlayersList w))"
  by (simp add: dom_map_of_conv_image_fst)

lemma same_shape_dom: "same_shape w w' \<Longrightarrow> dom (players w') = dom (players w)"
  by (simp only: dom_players same_shape_def)

lemma wf_world_player: "wf_world w \<Longrightarrow> players w k = Some p \<Longrightarrow> wf_Player k p"
  by (simp add: wf_world_def)

lemma wf_world_enemy: "wf_world w \<Longrightarrow> i < length (EnemyList w) \<Longrightarrow> wf_Enemy (EnemyList w ! i)"
  by (simp add: wf_world_def list_all_length)

text \<open>The two ways an action writes the world: one player, or one enemy.\<close>

lemma players_update [world_simps]:
  "players (w\<lparr>PlayersList := AList.update k p (PlayersList w)\<rparr>) = (players w)(k \<mapsto> p)"
  by (simp add: update_conv')

lemma update_same: "map_of al k = Some v \<Longrightarrow> AList.update k v al = al"
  by (induction al) (auto split: if_splits)

lemma same_shape_update_player [world_simps]:
  "k \<in> dom (players w) \<Longrightarrow> same_shape w (w\<lparr>PlayersList := AList.update k p (PlayersList w)\<rparr>)"
  by (auto simp: same_shape_def dom_players update_keys)

lemma wf_world_update_player:
  "wf_world w \<Longrightarrow> wf_Player k p \<Longrightarrow>
     wf_world (w\<lparr>PlayersList := AList.update k p (PlayersList w)\<rparr>)"
  by (auto simp: wf_world_def update_conv' distinct_update split: if_splits)

lemma same_shape_update_enemy [world_simps]:
  "same_shape w (w\<lparr>EnemyList := (EnemyList w)[i := e]\<rparr>)"
  by (simp add: same_shape_def)

lemma wf_world_update_enemy:
  "wf_world w \<Longrightarrow> wf_Enemy e \<Longrightarrow> wf_world (w\<lparr>EnemyList := (EnemyList w)[i := e]\<rparr>)"
  by (auto simp: wf_world_def list_all_iff dest: nth_mem_update)

lemma call_kill_simps [simp]:
  "PlayersList (call_kill b i w) = PlayersList w" "EnemyList (call_kill b i w) = EnemyList w"
  "MapTiles (call_kill b i w) = MapTiles w" "KillCallback (call_kill b i w) = KillCallback w"
  by (simp_all add: call_kill_def)

lemma wf_world_call_kill [simp]: "wf_world (call_kill b i w) = wf_world w"
  by (simp add: wf_world_def)

lemma same_shape_call_kill [simp]: "same_shape w (call_kill b i w') = same_shape w w'"
  by (simp add: same_shape_def)

section \<open>Attack targets\<close>

definition targets_ok :: "GameWorld \<Rightarrow> AttackTarget \<Rightarrow> bool" where
  "targets_ok w t \<longleftrightarrow>
     set (at_playerIDs t) \<subseteq> dom (players w) \<and> distinct (at_playerIDs t) \<and>
     (\<forall>i \<in> set (at_EnemyIDs t). unat i < length (EnemyList w)) \<and> distinct (at_EnemyIDs t)"

lemma in_enemy_ids_where:
  "i \<in> set (enemy_ids_where P es) \<longleftrightarrow> (\<exists>j < length es. i = word_of_nat j \<and> P (es ! j))"
  by (force simp: enemy_ids_where_def in_set_enumerate_eq)

lemma enemy_ids_where_bound:
  assumes "length es < 2 ^ 32" and "i \<in> set (enemy_ids_where P es)"
  shows "unat i < length es" and "P (es ! unat i)"
proof -
  from assms(2) obtain j where j: "j < length es" "i = word_of_nat j" "P (es ! j)"
    by (auto simp: in_enemy_ids_where)
  then have "unat i = j" using assms(1) by (simp add: unat_of_nat)
  with j show "unat i < length es" and "P (es ! unat i)" by simp_all
qed

lemma distinct_enemy_ids_where:
  assumes "length es < 2 ^ 32"
  shows "distinct (enemy_ids_where P es)"
proof -
  let ?js = "map fst (filter (\<lambda>(i, e). P e) (enumerate 0 es))"
  have eq: "enemy_ids_where P es = map word_of_nat ?js"
    by (simp add: enemy_ids_where_def case_prod_beta' comp_def)
  have sub: "set ?js \<subseteq> {..< length es}"
    by (auto simp: in_set_enumerate_eq)
  have "inj_on (word_of_nat :: nat \<Rightarrow> u32) {..< 2 ^ 32}"
    by (rule inj_on_inverseI [where g = unat]) (simp add: unat_of_nat)
  moreover have "set ?js \<subseteq> {..< 2 ^ 32}" using sub assms by fastforce
  ultimately have "inj_on (word_of_nat :: nat \<Rightarrow> u32) (set ?js)" by (rule inj_on_subset)
  moreover have "distinct ?js"
    by (rule distinct_map_filter) (simp add: enumerate_eq_zip)
  ultimately show ?thesis by (simp only: eq distinct_map)
qed

lemma in_player_ids_where:
  assumes "wf_world w"
  shows "k \<in> set (player_ids_where P (PlayersList w)) \<longleftrightarrow> (\<exists>q. players w k = Some q \<and> P q)"
proof -
  have d: "distinct (map fst (PlayersList w))" using assms by (simp add: wf_world_def)
  have idk: "(k', q) \<in> set (PlayersList w) \<Longrightarrow> pID q = k'" for k' q
    using wf_world_player [OF assms, of k' q] d by (simp add: wf_Player_def)
  show ?thesis using idk d by (force simp: player_ids_where_def map_of_eq_Some_iff)
qed

lemma distinct_player_ids_where:
  assumes "wf_world w"
  shows "distinct (player_ids_where P (PlayersList w))"
proof -
  have d: "distinct (map fst (PlayersList w))" using assms by (simp add: wf_world_def)
  have "(k', q) \<in> set (PlayersList w) \<Longrightarrow> pID q = k'" for k' q
    using wf_world_player [OF assms, of k' q] d by (simp add: wf_Player_def)
  then have "player_ids_where P (PlayersList w) = map fst (filter (\<lambda>(k, q). P q) (PlayersList w))"
    by (auto simp: player_ids_where_def)
  then show ?thesis using d by (simp add: distinct_map_filter)
qed

lemma PlayerFindAttackTarget_player:
  assumes "wf_world w"
  shows "k \<in> set (at_playerIDs (PlayerFindAttackTarget w p a)) \<longleftrightarrow>
           (\<exists>q. players w k = Some q \<and> k \<noteq> pID p \<and>
                vec3_eq_i16 (pCoords q) (vec3_add (pCoords p) (action_vec (PA_ActionInfo a))))"
  using in_player_ids_where [OF assms] wf_world_player [OF assms]
  by (fastforce simp: PlayerFindAttackTarget_def Let_def wf_Player_def)

lemma EnemyFindAttackTarget_player:
  assumes "wf_world w"
  shows "k \<in> set (at_playerIDs (EnemyFindAttackTarget w e a)) \<longleftrightarrow>
           (\<exists>q. players w k = Some q \<and>
                vec3_eq_i16 (pCoords q) (vec3_add (eCoords e) (action_vec (EA_ActionInfo a))))"
  using in_player_ids_where [OF assms] by (simp add: EnemyFindAttackTarget_def Let_def)

lemma enemy_ids_where_unat:
  assumes "length es < 2 ^ 32" and "j < length es"
  shows "j \<in> unat ` set (enemy_ids_where P es) \<longleftrightarrow> P (es ! j)"
proof
  assume "j \<in> unat ` set (enemy_ids_where P es)"
  then obtain i where "i \<in> set (enemy_ids_where P es)" "j = unat i" by blast
  then show "P (es ! j)" using enemy_ids_where_bound(2) [OF assms(1)] by blast
next
  assume "P (es ! j)"
  then have "word_of_nat j \<in> set (enemy_ids_where P es)"
    using assms(2) by (auto simp: in_enemy_ids_where)
  moreover have "unat (word_of_nat j :: u32) = j" using assms by (simp add: unat_of_nat)
  ultimately show "j \<in> unat ` set (enemy_ids_where P es)" by force
qed

lemma PlayerFindAttackTarget_enemy:
  assumes "length (EnemyList w) < 2 ^ 32" and "j < length (EnemyList w)"
  shows "j \<in> unat ` set (at_EnemyIDs (PlayerFindAttackTarget w p a)) \<longleftrightarrow>
           vec3_eq_i16 (eCoords (EnemyList w ! j)) (vec3_add (pCoords p) (action_vec (PA_ActionInfo a)))"
  using enemy_ids_where_unat [OF assms] by (simp add: PlayerFindAttackTarget_def Let_def)

lemma PlayerFindAttackTarget_ok:
  assumes "wf_world w"
  shows "targets_ok w (PlayerFindAttackTarget w p a)"
proof -
  have len: "length (EnemyList w) < 2 ^ 32" using assms by (simp add: wf_world_def)
  show ?thesis
    using distinct_player_ids_where [OF assms] in_player_ids_where [OF assms]
      distinct_enemy_ids_where [OF len] enemy_ids_where_bound [OF len]
    by (auto simp: targets_ok_def PlayerFindAttackTarget_def Let_def)
qed

lemma EnemyFindAttackTarget_ok:
  assumes "wf_world w"
  shows "targets_ok w (EnemyFindAttackTarget w e a)"
proof -
  have len: "length (EnemyList w) < 2 ^ 32" using assms by (simp add: wf_world_def)
  show ?thesis
    using distinct_player_ids_where [OF assms] in_player_ids_where [OF assms]
      distinct_enemy_ids_where [OF len] enemy_ids_where_bound [OF len]
    by (auto simp: targets_ok_def EnemyFindAttackTarget_def Let_def)
qed


section \<open>A sample world\<close>

text \<open>
  A concrete well-formed world, on which the properties are instantiated: two armed players, the
  zombie of \<^verbatim>\<open>EnemiesTable\<close> at the origin and its bandit far away.
\<close>

definition sample_player :: "u32 \<Rightarrow> CoordVec \<Rightarrow> Player" where
  "sample_player k c =
     \<lparr>Name = replicate MaxNameSize 0, pID = k, pHP = 45, pEquipedItemID = 0,
      pInventory = inventory_with [table_slot 5 1], pCoords = c, MaxTurns = 4, CurrentTurns = 4\<rparr>"

definition sample_world :: GameWorld where
  "sample_world =
     \<lparr>PlayersList = [(10000, sample_player 10000 (vec3_make 4 2 0)),
                     (10001, sample_player 10001 (vec3_make 5 2 0))],
      EnemyList = [EnemiesTable ! 0, (EnemiesTable ! 1)\<lparr>eCoords := vec3_make 20 20 0\<rparr>],
      MapTiles = replicate (Map_Width * Map_Height) Tile_Grass,
      KillCallback = True, kill_calls = []\<rparr>"

lemma wf_inventory_with:
  "length ss \<le> MaxInventorySize \<Longrightarrow> list_all (\<lambda>s. wf_Item (slot_item s)) ss \<Longrightarrow>
     wf_Inventory (inventory_with ss)"
  by (auto simp: wf_Inventory_def inventory_with_def default_ItemSlot_def list_all_iff)

lemma wf_table_slot: "i < length ItemTable \<Longrightarrow> wf_Item (slot_item (table_slot i q))"
  by (simp add: table_slot_def wf_ItemTable)

lemma length_ItemTable [simp]: "length ItemTable = 6"
  by (simp add: ItemTable_def)

lemma wf_EnemiesTable: "e \<in> set EnemiesTable \<Longrightarrow> wf_Enemy (e\<lparr>eCoords := c\<rparr>)"
  by (auto simp: EnemiesTable_def wf_Enemy_def MaxInventorySize_def
      intro!: wf_inventory_with wf_table_slot)

lemma wf_sample_world [simp]: "wf_world sample_world"
proof -
  have "wf_Inventory (inventory_with [table_slot 5 1])"
    by (rule wf_inventory_with) (simp_all add: MaxInventorySize_def wf_table_slot)
  then have p: "wf_Player k (sample_player k c)" for k c
    by (simp add: wf_Player_def sample_player_def)
  have e: "wf_Enemy (EnemiesTable ! 0)" "wf_Enemy ((EnemiesTable ! 1)\<lparr>eCoords := c\<rparr>)" for c
    using wf_EnemiesTable [of "EnemiesTable ! 0" vec3_zero] wf_EnemiesTable [of "EnemiesTable ! 1" c]
    by (simp_all add: EnemiesTable_def)
  show ?thesis using p e by (simp add: wf_world_def sample_world_def)
qed

end
