(* ===== verification/Combat.thy ===== *)
theory Combat
  imports WorldInv
begin

text \<open>
  What attacks and actions do to a well-formed world: the damage loops hit each target once and
  nobody else, a weapon yields its damage and at most one arrow, and every approved action of a
  player with turns left returns a well-formed world.
\<close>

section \<open>The damage loops\<close>

text \<open>
  \<open>struck d t w w'\<close>: the world after every target of \<open>t\<close> took the damage \<open>d\<close>, each exactly once;
  the callback ran for each target in order, whether or not the blow was deadly.
\<close>

definition struck :: "u32 \<Rightarrow> AttackTarget \<Rightarrow> GameWorld \<Rightarrow> GameWorld \<Rightarrow> bool" where
  "struck d t w w' \<longleftrightarrow>
     same_shape w w' \<and> KillCallback w' = KillCallback w \<and>
     (\<forall>k. players w' k =
        (if k \<in> set (at_playerIDs t) then map_option (fst \<circ> Player_TakeDamage d) (players w k)
         else players w k)) \<and>
     (\<forall>j < length (EnemyList w). EnemyList w' ! j =
        (if j \<in> unat ` set (at_EnemyIDs t) then fst (Enemy_TakeDamage d (EnemyList w ! j))
         else EnemyList w ! j)) \<and>
     kill_calls w' = kill_calls w @
        (if KillCallback w then map (Pair True) (at_playerIDs t) @ map (Pair False) (at_EnemyIDs t)
         else [])"

lemma damage_player_key:
  assumes "k \<in> dom (players w)"
  shows "\<exists>p. players w k = Some p \<and> damage_player d k w =
           Inr (call_kill True k
             (w\<lparr>PlayersList := AList.update k (fst (Player_TakeDamage d p)) (PlayersList w)\<rparr>))"
  using assms by (auto simp: damage_player_def)

lemma damage_players_struck:
  assumes "set ids \<subseteq> dom (players w)" and "distinct ids"
  shows "\<exists>w'. res_fold (damage_player d) ids w = Inr w' \<and>
           struck d \<lparr>at_valid = b, at_playerIDs = ids, at_EnemyIDs = []\<rparr> w w'"
  using assms
proof (induction ids arbitrary: w)
  case Nil
  then show ?case by (simp add: struck_def)
next
  case (Cons k ids)
  from Cons.prems obtain p where p: "players w k = Some p"
    and step: "damage_player d k w = Inr (call_kill True k
        (w\<lparr>PlayersList := AList.update k (fst (Player_TakeDamage d p)) (PlayersList w)\<rparr>))"
    (is "_ = Inr ?v") using damage_player_key [of k w d] by auto
  have shape: "same_shape w ?v"
    using p by (simp add: same_shape_update_player domI)
  then have "set ids \<subseteq> dom (players ?v)"
    using Cons.prems same_shape_dom [OF shape] by simp
  from Cons.IH [OF this] Cons.prems obtain w' where
    run: "res_fold (damage_player d) ids ?v = Inr w'"
    and st: "struck d \<lparr>at_valid = b, at_playerIDs = ids, at_EnemyIDs = []\<rparr> ?v w'" by auto
  have "struck d \<lparr>at_valid = b, at_playerIDs = k # ids, at_EnemyIDs = []\<rparr> w w'"
    using st shape p Cons.prems(2) same_shape_trans [OF shape]
    by (auto simp: struck_def update_conv' call_kill_def split: if_splits)
  with step run show ?case by simp
qed

lemma damage_enemies_struck:
  assumes "\<forall>i \<in> set ids. unat i < length (EnemyList w)" and "distinct ids"
  shows "\<exists>w'. res_fold (damage_enemy d) ids w = Inr w' \<and>
           struck d \<lparr>at_valid = b, at_playerIDs = [], at_EnemyIDs = ids\<rparr> w w'"
  using assms
proof (induction ids arbitrary: w)
  case Nil
  then show ?case by (simp add: struck_def)
next
  case (Cons i ids)
  let ?v = "call_kill False i
     (w\<lparr>EnemyList := (EnemyList w)[unat i := fst (Enemy_TakeDamage d (EnemyList w ! unat i))]\<rparr>)"
  have step: "damage_enemy d i w = Inr ?v"
    using Cons.prems by (simp add: damage_enemy_def)
  from Cons.IH [of ?v] Cons.prems obtain w' where
    run: "res_fold (damage_enemy d) ids ?v = Inr w'"
    and st: "struck d \<lparr>at_valid = b, at_playerIDs = [], at_EnemyIDs = ids\<rparr> ?v w'" by auto
  have "unat i \<notin> unat ` set ids" using Cons.prems by (auto simp flip: word_unat_eq_iff)
  then have "struck d \<lparr>at_valid = b, at_playerIDs = [], at_EnemyIDs = i # ids\<rparr> w w'"
    using st Cons.prems
    by (auto simp: struck_def same_shape_def call_kill_def nth_list_update split: if_splits)
  with step run show ?case by simp
qed

lemma damage_targets_struck:
  assumes "targets_ok w t"
  shows "\<exists>w'. damage_targets d t w = Inr w' \<and> struck d t w w'"
proof -
  from assms damage_players_struck [of "at_playerIDs t" w d "at_valid t"] obtain v where
    v: "res_fold (damage_player d) (at_playerIDs t) w = Inr v"
    and st1: "struck d \<lparr>at_valid = at_valid t, at_playerIDs = at_playerIDs t, at_EnemyIDs = []\<rparr> w v"
    by (auto simp: targets_ok_def)
  have "length (EnemyList v) = length (EnemyList w)"
    using st1 by (simp add: struck_def same_shape_def)
  with assms damage_enemies_struck [of "at_EnemyIDs t" v d "at_valid t"] obtain w' where
    w': "res_fold (damage_enemy d) (at_EnemyIDs t) v = Inr w'"
    and st2: "struck d \<lparr>at_valid = at_valid t, at_playerIDs = [], at_EnemyIDs = at_EnemyIDs t\<rparr> v w'"
    by (auto simp: targets_ok_def)
  have "struck d t w w'"
    using st1 st2 by (auto simp: struck_def same_shape_def)
  with v w' show ?thesis by (simp add: damage_targets_def)
qed

lemma wf_Player_TakeDamage: "wf_Player k p \<Longrightarrow> wf_Player k (fst (Player_TakeDamage d p))"
  by (simp add: wf_Player_def Player_TakeDamage_def Let_def damaged_hp_nonneg)

lemma wf_Enemy_TakeDamage: "wf_Enemy e \<Longrightarrow> wf_Enemy (fst (Enemy_TakeDamage d e))"
  by (simp add: wf_Enemy_def Enemy_TakeDamage_def Let_def damaged_hp_nonneg)

lemma struck_wf:
  assumes "wf_world w" and "struck d t w w'"
  shows "wf_world w'"
proof -
  have "wf_Player k p'" if "players w' k = Some p'" for k p'
    using that assms wf_Player_TakeDamage
    by (auto simp: struck_def wf_world_def split: if_splits)
  moreover have "list_all wf_Enemy (EnemyList w')"
    using assms wf_Enemy_TakeDamage by (auto simp: struck_def same_shape_def wf_world_def list_all_length)
  ultimately show ?thesis using assms by (simp add: struck_def same_shape_def wf_world_def)
qed

section \<open>Weapons\<close>

lemma storage_at_wf:
  "wf_Inventory iv \<Longrightarrow> unat i < MaxInventorySize \<Longrightarrow> storage_at iv i = Inr (Storage iv ! unat i)"
  by (simp add: storage_at_def wf_Inventory_def)

lemma wf_Inventory_update:
  "wf_Inventory iv \<Longrightarrow> wf_Item (slot_item s) \<Longrightarrow> wf_Inventory (iv\<lparr>Storage := (Storage iv)[i := s]\<rparr>)"
  by (auto simp: wf_Inventory_def list_all_iff dest: nth_mem_update)

lemma wf_Inventory_item:
  "wf_Inventory iv \<Longrightarrow> i < MaxInventorySize \<Longrightarrow> wf_Item (slot_item (Storage iv ! i))"
  by (simp add: wf_Inventory_def list_all_length)

text \<open>A shot takes one arrow from the first stack, and empties the slot with the last one.\<close>

lemma shoot_arrow_hit:
  assumes "wf_Inventory iv" and "FindItem iv Arrow \<noteq> InvalidID"
  defines "a \<equiv> unat (FindItem iv Arrow)"
  defines "s \<equiv> Storage iv ! a"
  shows "shoot_arrow iv =
           Inr (iv\<lparr>Storage := (Storage iv)[a := s\<lparr>quantity := quantity s - 1,
                                                 slot_empty := (quantity s = 1)\<rparr>]\<rparr>,
                ucast (Power (slot_item s)))"
  using FindItem_found [OF assms(1,2)] storage_at_wf [OF assms(1), of "FindItem iv Arrow"] assms(2)
  by (simp add: shoot_arrow_def Let_def a_def s_def holds_type_def)

lemma shoot_arrow_total:
  assumes "wf_Inventory iv"
  shows "\<exists>iv' d. shoot_arrow iv = Inr (iv', d) \<and> wf_Inventory iv'"
proof (cases "FindItem iv Arrow = InvalidID")
  case True
  then show ?thesis using assms by (simp add: shoot_arrow_def Let_def)
next
  case False
  show ?thesis
    using shoot_arrow_hit [OF assms False] FindItem_found(1) [OF assms False] assms
    by (auto intro!: wf_Inventory_update wf_Inventory_item)
qed

lemma weapon_strike_total:
  assumes "wf_Inventory iv" and "unat eq < MaxInventorySize"
  shows "\<exists>r. weapon_strike iv eq = Inr r \<and> (case r of None \<Rightarrow> True | Some (iv', d) \<Rightarrow> wf_Inventory iv')"
  using assms shoot_arrow_total [OF assms(1)]
  by (auto simp: weapon_strike_def storage_at_wf split: ItemType.splits)

lemma weapon_strike_bad_index:
  assumes "wf_Inventory iv" and "MaxInventorySize \<le> unat eq"
  shows "weapon_strike iv eq = Inl AssertFailed"
  using assms by (simp add: weapon_strike_def storage_at_def sa_get_fault wf_Inventory_def)

section \<open>Attacks and approved actions\<close>

lemma targets_ok_shape: "same_shape w w' \<Longrightarrow> targets_ok w t \<Longrightarrow> targets_ok w' t"
  using same_shape_dom [of w w'] by (simp add: targets_ok_def same_shape_def)

lemma Player_MakeAttack_wf:
  assumes "wf_world w" and p: "players w k = Some p" and "unat (pEquipedItemID p) < MaxInventorySize"
    and t: "targets_ok w t" and self: "k \<notin> set (at_playerIDs t)"
  shows "\<exists>w' iv. Player_MakeAttack k t w = Inr w' \<and> wf_world w' \<and> same_shape w w' \<and>
           wf_Inventory iv \<and> players w' k = Some (p\<lparr>pInventory := iv\<rparr>)"
proof -
  have wp: "wf_Player k p" using assms by (blast intro: wf_world_player)
  then have wi: "wf_Inventory (pInventory p)" by (simp add: wf_Player_def)
  from weapon_strike_total [OF wi assms(3)] obtain r where
    r: "weapon_strike (pInventory p) (pEquipedItemID p) = Inr r"
      "case r of None \<Rightarrow> True | Some (iv', d) \<Rightarrow> wf_Inventory iv'" by blast
  show ?thesis
  proof (cases r)
    case None
    then show ?thesis using r p wi \<open>wf_world w\<close>
      by (intro exI [of _ w] exI [of _ "pInventory p"]) (simp add: Player_MakeAttack_def)
  next
    case (Some x)
    obtain iv d where x: "x = (iv, d)" by fastforce
    let ?v = "w\<lparr>PlayersList := AList.update k (p\<lparr>pInventory := iv\<rparr>) (PlayersList w)\<rparr>"
    have shape: "same_shape w ?v" using p by (simp add: same_shape_update_player domI)
    have wv: "wf_world ?v"
      using \<open>wf_world w\<close> wp r(2) Some x by (intro wf_world_update_player) (simp_all add: wf_Player_def)
    from damage_targets_struck [OF targets_ok_shape [OF shape t], of d] obtain w' where
      w': "damage_targets d t ?v = Inr w'" "struck d t ?v w'" by blast
    have "players w' k = Some (p\<lparr>pInventory := iv\<rparr>)"
      using w'(2) self by (simp add: struck_def update_conv')
    moreover have "same_shape w w'"
      using w'(2) shape by (auto simp: struck_def intro: same_shape_trans)
    ultimately show ?thesis
      using w' struck_wf [OF wv w'(2)] r Some x p by (auto simp: Player_MakeAttack_def)
  qed
qed

lemma Enemy_MakeAttack_wf:
  assumes "wf_world w" and i: "i < length (EnemyList w)"
    and "unat (eEquipedItemID (EnemyList w ! i)) < MaxInventorySize" and t: "targets_ok w t"
  shows "\<exists>w'. Enemy_MakeAttack i t w = Inr w' \<and> wf_world w' \<and> same_shape w w'"
proof -
  let ?e = "EnemyList w ! i"
  have we: "wf_Enemy ?e" using assms by (blast intro: wf_world_enemy)
  then have wi: "wf_Inventory (einventory ?e)" by (simp add: wf_Enemy_def)
  from weapon_strike_total [OF wi assms(3)] obtain r where
    r: "weapon_strike (einventory ?e) (eEquipedItemID ?e) = Inr r"
      "case r of None \<Rightarrow> True | Some (iv', d) \<Rightarrow> wf_Inventory iv'" by blast
  show ?thesis
  proof (cases r)
    case None
    then show ?thesis using r i \<open>wf_world w\<close>
      by (intro exI [of _ w]) (simp add: Enemy_MakeAttack_def Let_def)
  next
    case (Some x)
    obtain iv d where x: "x = (iv, d)" by fastforce
    let ?v = "w\<lparr>EnemyList := (EnemyList w)[i := ?e\<lparr>einventory := iv\<rparr>]\<rparr>"
    have wv: "wf_world ?v"
      using \<open>wf_world w\<close> we r(2) Some x by (intro wf_world_update_enemy) (simp_all add: wf_Enemy_def)
    from damage_targets_struck [OF targets_ok_shape [OF same_shape_update_enemy t], of d] obtain w' where
      w': "damage_targets d t ?v = Inr w'" "struck d t ?v w'" by blast
    have "same_shape w w'"
      using w'(2) by (auto simp: struck_def same_shape_def)
    then show ?thesis
      using w' struck_wf [OF wv w'(2)] r Some x i by (auto simp: Enemy_MakeAttack_def Let_def)
  qed
qed

lemma attack_by_player_wf:
  assumes "wf_world w" and "players w k = Some p" and "unat (pEquipedItemID p) < MaxInventorySize"
  shows "\<exists>w' iv. attack_by_player k a w = Inr w' \<and> wf_world w' \<and> same_shape w w' \<and>
           wf_Inventory iv \<and> players w' k = Some (p\<lparr>pInventory := iv\<rparr>)"
proof -
  have "pID p = k" using wf_world_player [OF assms(1,2)] by (simp add: wf_Player_def)
  then have "k \<notin> set (at_playerIDs (PlayerFindAttackTarget w p a))"
    by (simp add: PlayerFindAttackTarget_player [OF assms(1)])
  from Player_MakeAttack_wf [OF assms PlayerFindAttackTarget_ok [OF assms(1)] this] assms(2)
  show ?thesis by (simp add: attack_by_player_def)
qed

lemma move_player_wf:
  assumes "wf_world w" and "players w k = Some p"
  shows "\<exists>w'. move_player k d w = Inr w' \<and> wf_world w' \<and> same_shape w w' \<and>
           players w' = (players w)(k \<mapsto> p\<lparr>pCoords := vec3_add (pCoords p) d\<rparr>)"
proof -
  have "wf_Player k (p\<lparr>pCoords := vec3_add (pCoords p) d\<rparr>)"
    using wf_world_player [OF assms] by (simp add: wf_Player_def)
  then show ?thesis using assms
    by (simp add: move_player_def world_simps wf_world_update_player domI update_conv')
qed

text \<open>The position a player has after the switch of \<^verbatim>\<open>MakeApprovedAction\<close>.\<close>

definition moved_to :: "PlayerAction \<Rightarrow> Player \<Rightarrow> CoordVec" where
  "moved_to a p =
     (if ActionType a = Move then vec3_add (pCoords p) (action_vec (PA_ActionInfo a)) else pCoords p)"

lemma MakeApprovedAction_switch:
  assumes "wf_world w" and p: "players w k = Some p" and eq: "unat (pEquipedItemID p) < MaxInventorySize"
  shows "\<exists>w' iv. (case ActionType a of
             Move \<Rightarrow> res_bind (move_player k (action_vec (PA_ActionInfo a)) w) (attack_by_player k a)
           | Attack \<Rightarrow> attack_by_player k a w
           | _ \<Rightarrow> Inr w) = Inr w' \<and> wf_world w' \<and> same_shape w w' \<and> wf_Inventory iv \<and>
           players w' k = Some (p\<lparr>pCoords := moved_to a p, pInventory := iv\<rparr>)"
proof (cases "ActionType a")
  case Move
  from move_player_wf [OF assms(1) p, of "action_vec (PA_ActionInfo a)"] obtain v where
    v: "move_player k (action_vec (PA_ActionInfo a)) w = Inr v" "wf_world v" "same_shape w v"
      "players v k = Some (p\<lparr>pCoords := moved_to a p\<rparr>)"
    by (auto simp: moved_to_def Move)
  from attack_by_player_wf [OF v(2,4), of a] eq obtain w' iv where
    "attack_by_player k a v = Inr w'" "wf_world w'" "same_shape v w'" "wf_Inventory iv"
    "players w' k = Some (p\<lparr>pCoords := moved_to a p, pInventory := iv\<rparr>)" by auto
  with v Move show ?thesis by (auto intro: same_shape_trans)
next
  case Attack
  from attack_by_player_wf [OF assms, of a] Attack show ?thesis by (auto simp: moved_to_def)
qed (use assms wf_world_player [OF assms(1) p] in
      \<open>force simp: moved_to_def wf_Player_def intro!: exI [of _ w] exI [of _ "pInventory p"]\<close>)+

lemma ucast_turns_minus_one:
  fixes c :: "4 word"
  assumes "c \<noteq> 0"
  shows "(ucast (ucast c :: u8) - 1 :: u32) \<le> 16"
    and "ucast (ucast (ucast c :: u8) - 1 :: u32) = c - 1"
proof -
  have u: "uint (ucast (ucast c :: u8) :: u32) = uint c"
    by (simp add: uint_up_ucast is_up)
  have c1: "1 \<le> uint c" using assms by (simp add: word_neq_0_conv word_less_def)
  then have m: "uint (ucast (ucast c :: u8) - 1 :: u32) = uint c - 1"
    using u by (simp add: uint_sub_if')
  then show "(ucast (ucast c :: u8) - 1 :: u32) \<le> 16"
    using uint_lt2p [of c] by (simp add: word_le_def)
  have "ucast (ucast (ucast c :: u8) - 1 :: u32) = (word_of_int (uint c - 1) :: 4 word)"
    using m by (simp add: ucast_eq [of "ucast (ucast c :: u8) - 1 :: u32"])
  then show "ucast (ucast (ucast c :: u8) - 1 :: u32) = c - 1" by simp
qed

lemma GetCurrentTurnActions_0 [simp]: "GetCurrentTurnActions p = 0 \<longleftrightarrow> CurrentTurns p = 0"
proof -
  have "uint (ucast (CurrentTurns p) :: u8) = uint (CurrentTurns p)" by (simp add: uint_up_ucast is_up)
  then show ?thesis by (simp only: GetCurrentTurnActions_def word_uint_eq_iff unsigned_0)
qed

lemma spend_turn_action_Inr:
  assumes "players w k = Some p" and "CurrentTurns p \<noteq> 0"
  shows "spend_turn_action k w =
           Inr (w\<lparr>PlayersList := AList.update k (p\<lparr>CurrentTurns := CurrentTurns p - 1\<rparr>) (PlayersList w)\<rparr>)"
  using assms ucast_turns_minus_one [of "CurrentTurns p"]
  by (simp add: spend_turn_action_def SetCurrentTurnActions_def GetCurrentTurnActions_def)

lemma spend_turn_action_fault:
  "players w k = Some p \<Longrightarrow> CurrentTurns p = 0 \<Longrightarrow> spend_turn_action k w = Inl AssertFailed"
  by (simp add: spend_turn_action_def SetCurrentTurnActions_def GetCurrentTurnActions_def word_le_def uint_word_of_int_eq unsigned_minus_1_eq_mask mask_eq_exp_minus_1)

text \<open>The full effect of an approved action on a player with turns left.\<close>

lemma MakeApprovedAction_wf:
  assumes "wf_world w" and p: "players w k = Some p"
    and eq: "unat (pEquipedItemID p) < MaxInventorySize" and turns: "CurrentTurns p \<noteq> 0"
  shows "\<exists>w' iv. MakeApprovedAction k a w = Inr w' \<and> wf_world w' \<and> same_shape w w' \<and>
           players w' k = Some (p\<lparr>pCoords := moved_to a p, pInventory := iv,
                                   CurrentTurns := CurrentTurns p - 1\<rparr>)"
proof -
  from MakeApprovedAction_switch [OF assms(1-3), of a] obtain v iv where
    v: "(case ActionType a of
             Move \<Rightarrow> res_bind (move_player k (action_vec (PA_ActionInfo a)) w) (attack_by_player k a)
           | Attack \<Rightarrow> attack_by_player k a w
           | _ \<Rightarrow> Inr w) = Inr v" "wf_world v" "same_shape w v" "wf_Inventory iv"
      and pv: "players v k = Some (p\<lparr>pCoords := moved_to a p, pInventory := iv\<rparr>)" by blast
  let ?p = "p\<lparr>pCoords := moved_to a p, pInventory := iv, CurrentTurns := CurrentTurns p - 1\<rparr>"
  have spend: "spend_turn_action k v = Inr (v\<lparr>PlayersList := AList.update k ?p (PlayersList v)\<rparr>)"
    using spend_turn_action_Inr [OF pv] turns by simp
  have "wf_Player k ?p"
    using wf_world_player [OF v(2) pv] by (simp add: wf_Player_def)
  then have "wf_world (v\<lparr>PlayersList := AList.update k ?p (PlayersList v)\<rparr>)"
    using v(2) by (simp add: wf_world_update_player)
  moreover have "same_shape w (v\<lparr>PlayersList := AList.update k ?p (PlayersList v)\<rparr>)"
    using v(3) pv by (auto intro: same_shape_trans same_shape_update_player)
  ultimately show ?thesis using v(1) spend by (auto simp: MakeApprovedAction_def update_conv')
qed

text \<open>With no turns left the decrement wraps and the assertion of the setter fails.\<close>

lemma MakeApprovedAction_no_turns:
  assumes "wf_world w" and p: "players w k = Some p"
    and eq: "unat (pEquipedItemID p) < MaxInventorySize" and turns: "CurrentTurns p = 0"
  shows "MakeApprovedAction k a w = Inl AssertFailed"
proof -
  from MakeApprovedAction_switch [OF assms(1-3), of a] obtain v iv where
    "(case ActionType a of
             Move \<Rightarrow> res_bind (move_player k (action_vec (PA_ActionInfo a)) w) (attack_by_player k a)
           | Attack \<Rightarrow> attack_by_player k a w
           | _ \<Rightarrow> Inr w) = Inr v"
    "players v k = Some (p\<lparr>pCoords := moved_to a p, pInventory := iv\<rparr>)" by blast
  then show ?thesis using turns spend_turn_action_fault by (simp add: MakeApprovedAction_def)
qed

lemma MakeEnemyAction_wf:
  assumes "wf_world w" and i: "i < length (EnemyList w)"
    and "unat (eEquipedItemID (EnemyList w ! i)) < MaxInventorySize"
  shows "\<exists>w'. MakeEnemyAction i a w = Inr w' \<and> wf_world w' \<and> same_shape w w'"
proof (cases "actionType a")
  case EnemyMove
  let ?e = "EnemyList w ! i"
  have "wf_Enemy (?e\<lparr>eCoords := vec3_add (eCoords ?e) (action_vec (EA_ActionInfo a))\<rparr>)"
    using wf_world_enemy [OF assms(1) i] by (simp add: wf_Enemy_def)
  then show ?thesis using EnemyMove assms
    by (simp add: MakeEnemyAction_def Let_def wf_world_update_enemy world_simps)
next
  case EnemyBaseAttack
  then show ?thesis
    using Enemy_MakeAttack_wf [OF assms EnemyFindAttackTarget_ok [OF assms(1)]] i
    by (simp add: MakeEnemyAction_def Let_def)
qed (use assms in \<open>simp add: MakeEnemyAction_def Let_def\<close>)


section \<open>What an attack and an action do, end to end\<close>

text \<open>
  The reference the attack is compared with. What a weapon does: nothing from an empty slot; a sword
  strikes with its power; a bow takes one arrow off the first stack of arrows and strikes with the
  arrow's power, or strikes for nothing when there is no arrow; anything else strikes for one.
\<close>

definition weapon_use :: "Inventory \<Rightarrow> u32 \<Rightarrow> (Inventory \<times> u32) option" where
  "weapon_use iv eq =
     (let s = Storage iv ! unat eq; a = unat (FindItem iv Arrow); arrows = Storage iv ! a
      in if slot_empty s then None
         else if item_type (slot_item s) = Sword then Some (iv, ucast (Power (slot_item s)))
         else if item_type (slot_item s) = Bow then
           (if FindItem iv Arrow = InvalidID then Some (iv, 0)
            else Some (iv\<lparr>Storage := (Storage iv)[a := arrows\<lparr>quantity := quantity arrows - 1,
                                                              slot_empty := (quantity arrows = 1)\<rparr>]\<rparr>,
                       ucast (Power (slot_item arrows))))
         else Some (iv, 1))"

text \<open>What that does to the player under key \<open>k'\<close>, to an enemy, and whom the kill callback hears of.\<close>

definition player_after :: "(Inventory \<times> u32) option \<Rightarrow> u32 \<Rightarrow> CoordVec \<Rightarrow> u32 \<Rightarrow> Player \<Rightarrow> Player" where
  "player_after use k place k' q =
     (case use of None \<Rightarrow> q
      | Some (iv, d) \<Rightarrow> if k' = k then q\<lparr>pInventory := iv\<rparr>
                       else if vec3_eq_i16 (pCoords q) place then q\<lparr>pHP := damaged_hp d (pHP q)\<rparr> else q)"

definition enemy_after :: "(Inventory \<times> u32) option \<Rightarrow> CoordVec \<Rightarrow> Enemy \<Rightarrow> Enemy" where
  "enemy_after use place e =
     (case use of None \<Rightarrow> e
      | Some (iv, d) \<Rightarrow> if vec3_eq_i16 (eCoords e) place then e\<lparr>eHP := damaged_hp d (eHP e)\<rparr> else e)"

definition calls_after :: "(Inventory \<times> u32) option \<Rightarrow> u32 \<Rightarrow> CoordVec \<Rightarrow> GameWorld \<Rightarrow> (bool \<times> u32) list" where
  "calls_after use k place w =
     (if KillCallback w \<and> use \<noteq> None
      then map (\<lambda>(k', q). (True, k'))
             (filter (\<lambda>(k', q). k' \<noteq> k \<and> vec3_eq_i16 (pCoords q) place) (PlayersList w)) @
           map (\<lambda>(i, e). (False, word_of_nat i))
             (filter (\<lambda>(i, e). vec3_eq_i16 (eCoords e) place) (enumerate 0 (EnemyList w)))
      else [])"

lemma after_nothing [simp]:
  "player_after None k place k' = id" "enemy_after None place = id" "calls_after None k place w = []"
  by (simp_all add: player_after_def [abs_def] enemy_after_def [abs_def] calls_after_def id_def)

lemma weapon_strike_use:
  assumes "wf_Inventory iv" and "unat eq < MaxInventorySize"
  shows "weapon_strike iv eq = Inr (weapon_use iv eq)"
proof (cases "FindItem iv Arrow = InvalidID")
  case True
  then show ?thesis
    using assms by (simp add: weapon_strike_def weapon_use_def Let_def storage_at_wf shoot_arrow_def split: ItemType.splits)
next
  case False
  from shoot_arrow_hit [OF assms(1) this] show ?thesis
    using assms False by (simp add: weapon_strike_def weapon_use_def Let_def storage_at_wf split: ItemType.splits)
qed

lemma targets_calls:
  assumes "wf_world w" and "pID p = k"
  shows "map (Pair True) (at_playerIDs (PlayerFindAttackTarget w p a)) @
         map (Pair False) (at_EnemyIDs (PlayerFindAttackTarget w p a)) =
         map (\<lambda>(k', q). (True, k')) (filter (\<lambda>(k', q). k' \<noteq> k \<and>
             vec3_eq_i16 (pCoords q) (vec3_add (pCoords p) (action_vec (PA_ActionInfo a)))) (PlayersList w)) @
         map (\<lambda>(i, e). (False, word_of_nat i)) (filter (\<lambda>(i, e).
             vec3_eq_i16 (eCoords e) (vec3_add (pCoords p) (action_vec (PA_ActionInfo a)))) (enumerate 0 (EnemyList w)))"
proof -
  have id: "pID q = k'" if "(k', q) \<in> set (PlayersList w)" for k' q
    using assms(1) that by (auto simp: wf_world_def wf_Player_def dest: map_of_is_SomeI)
  then have "map (Pair True) (player_ids_where (\<lambda>q. pID q \<noteq> k \<and> P q) (PlayersList w)) =
      map (\<lambda>(k', q). (True, k')) (filter (\<lambda>(k', q). k' \<noteq> k \<and> P q) (PlayersList w))" for P
    unfolding player_ids_where_def map_map by (intro map_cong filter_cong) auto
  then show ?thesis
    using assms(2) by (simp add: PlayerFindAttackTarget_def Let_def enemy_ids_where_def case_prod_unfold)
qed

text \<open>An attack is its reference.\<close>

lemma attack_by_player_exact:
  fixes a :: PlayerAction
  assumes "wf_world w" and p: "players w k = Some p" and eq: "unat (pEquipedItemID p) < MaxInventorySize"
  defines "use \<equiv> weapon_use (pInventory p) (pEquipedItemID p)"
    and "place \<equiv> vec3_add (pCoords p) (action_vec (PA_ActionInfo a))"
  shows "\<exists>w'. attack_by_player k a w = Inr w' \<and> KillCallback w' = KillCallback w \<and>
           (\<forall>k'. players w' k' = map_option (player_after use k place k') (players w k')) \<and>
           EnemyList w' = map (enemy_after use place) (EnemyList w) \<and>
           kill_calls w' = kill_calls w @ calls_after use k place w"
proof -
  let ?t = "PlayerFindAttackTarget w p a"
  have wp: "wf_Player k p" using assms(1) p by (rule wf_world_player)
  have len: "length (EnemyList w) < 2 ^ 32" using assms(1) by (simp add: wf_world_def)
  have strike: "weapon_strike (pInventory p) (pEquipedItemID p) = Inr use"
    using weapon_strike_use [OF _ eq] wp by (simp add: use_def wf_Player_def)
  have calls: "map (Pair True) (at_playerIDs ?t) @ map (Pair False) (at_EnemyIDs ?t) =
      calls_after use k place w" if "KillCallback w" "use \<noteq> None"
    using targets_calls [OF assms(1), of p k a] wp that by (simp add: calls_after_def place_def wf_Player_def)
  show ?thesis
  proof (cases use)
    case None
    then show ?thesis using strike p
      by (simp add: attack_by_player_def Player_MakeAttack_def option.map_id)
  next
    case (Some x)
    obtain iv d where x: "x = (iv, d)" by fastforce
    let ?v = "w\<lparr>PlayersList := AList.update k (p\<lparr>pInventory := iv\<rparr>) (PlayersList w)\<rparr>"
    have "same_shape w ?v" using p by (simp add: same_shape_update_player domI)
    from damage_targets_struck [OF targets_ok_shape [OF this PlayerFindAttackTarget_ok [OF assms(1)]], of d p a]
    obtain w' where w': "damage_targets d ?t ?v = Inr w'" "struck d ?t ?v w'" by blast
    have run: "attack_by_player k a w = Inr w'"
      using strike p w'(1) Some x by (simp add: attack_by_player_def Player_MakeAttack_def)
    have "players w' k' = map_option (player_after use k place k') (players w k')" for k'
      using w'(2) wp p Some x PlayerFindAttackTarget_player [OF assms(1), of k' p a]
      by (cases "players w k'")
         (auto simp: struck_def update_conv' player_after_def place_def Player_TakeDamage_def Let_def wf_Player_def)
    moreover have "EnemyList w' = map (enemy_after use place) (EnemyList w)"
      using w'(2) Some x PlayerFindAttackTarget_enemy [OF len, of _ p a]
      by (auto intro!: nth_equalityI
          simp: struck_def same_shape_def enemy_after_def place_def Enemy_TakeDamage_def Let_def)
    moreover have "kill_calls w' = kill_calls w @ calls_after use k place w" "KillCallback w' = KillCallback w"
      using w'(2) calls Some by (auto simp: struck_def calls_after_def)
    ultimately show ?thesis using run by blast
  qed
qed

lemma filter_update_other:
  "filter (\<lambda>(k', q). k' \<noteq> k \<and> P q) (AList.update k v al) = filter (\<lambda>(k', q). k' \<noteq> k \<and> P q) al"
  by (induction al) auto

text \<open>The switch of the handler: a move, then the attack from the new place; an attack; or nothing.\<close>

definition action_use :: "PlayerAction \<Rightarrow> Player \<Rightarrow> (Inventory \<times> u32) option" where
  "action_use a p = (if ActionType a = Move \<or> ActionType a = Attack
     then weapon_use (pInventory p) (pEquipedItemID p) else None)"

lemma approved_switch_exact:
  fixes a :: PlayerAction
  assumes "wf_world w" and p: "players w k = Some p" and eq: "unat (pEquipedItemID p) < MaxInventorySize"
  defines "use \<equiv> action_use a p"
    and "place \<equiv> vec3_add (moved_to a p) (action_vec (PA_ActionInfo a))"
  shows "\<exists>w'. (case ActionType a of
             Move \<Rightarrow> res_bind (move_player k (action_vec (PA_ActionInfo a)) w) (attack_by_player k a)
           | Attack \<Rightarrow> attack_by_player k a w
           | _ \<Rightarrow> Inr w) = Inr w' \<and> KillCallback w' = KillCallback w \<and>
           players w' k = Some (player_after use k place k (p\<lparr>pCoords := moved_to a p\<rparr>)) \<and>
           (\<forall>k'. k' \<noteq> k \<longrightarrow> players w' k' = map_option (player_after use k place k') (players w k')) \<and>
           EnemyList w' = map (enemy_after use place) (EnemyList w) \<and>
           kill_calls w' = kill_calls w @ calls_after use k place w"
proof (cases "ActionType a")
  case Move
  let ?q = "p\<lparr>pCoords := moved_to a p\<rparr>"
  let ?v = "w\<lparr>PlayersList := AList.update k ?q (PlayersList w)\<rparr>"
  have mv: "move_player k (action_vec (PA_ActionInfo a)) w = Inr ?v"
    using p Move by (simp add: move_player_def moved_to_def)
  with move_player_wf [OF assms(1) p, of "action_vec (PA_ActionInfo a)"] have "wf_world ?v" by simp
  from attack_by_player_exact [OF this, of k ?q a] eq Move obtain w' where
    "attack_by_player k a ?v = Inr w'" "KillCallback w' = KillCallback ?v"
    "\<forall>k'. players w' k' = map_option (player_after use k place k') (players ?v k')"
    "EnemyList w' = map (enemy_after use place) (EnemyList ?v)"
    "kill_calls w' = kill_calls ?v @ calls_after use k place ?v"
    by (auto simp: update_conv' use_def action_use_def place_def)
  moreover have "calls_after use k place ?v = calls_after use k place w"
    by (simp add: calls_after_def filter_update_other del: not_None_eq)
  ultimately show ?thesis using mv Move by (auto simp: update_conv')
next
  case Attack
  then have "moved_to a p = pCoords p" by (simp add: moved_to_def)
  with attack_by_player_exact [OF assms(1) p eq, of a] Attack p show ?thesis
    by (auto simp: use_def action_use_def place_def)
qed (simp_all add: p use_def action_use_def moved_to_def option.map_id)

text \<open>
  Property C5. The effect of an approved action on everybody, whatever its kind. With turns left: a
  move puts the player at its new place and, the case having no \<^verbatim>\<open>break\<close>, then attacks from there; an
  attack attacks from where it stands; any other kind does neither. The attack is the weapon's: the
  player's inventory after it, the damage on exactly the other players and the enemies on the
  attacked place, nobody else touched, the kill callback called for exactly those hit. One turn
  is taken off in every case. With no turns left the decrement wraps and the setter's assertion fails.
\<close>

theorem approved_action_effect:
  assumes "wf_world w" and "players w k = Some p" and "unat (pEquipedItemID p) < MaxInventorySize"
  shows "if CurrentTurns p = 0 then MakeApprovedAction k a w = Inl AssertFailed
         else \<exists>w'. MakeApprovedAction k a w = Inr w' \<and> wf_world w' \<and> same_shape w w' \<and>
           (let use = action_use a p;
                place = vec3_add (moved_to a p) (action_vec (PA_ActionInfo a))
            in players w' k = Some ((player_after use k place k p)
                  \<lparr>pCoords := moved_to a p, CurrentTurns := CurrentTurns p - 1\<rparr>) \<and>
               (\<forall>k'. k' \<noteq> k \<longrightarrow> players w' k' = map_option (player_after use k place k') (players w k')) \<and>
               EnemyList w' = map (enemy_after use place) (EnemyList w) \<and>
               KillCallback w' = KillCallback w \<and>
               kill_calls w' = kill_calls w @ calls_after use k place w)"
proof (cases "CurrentTurns p = 0")
  case False
  let ?use = "action_use a p" and ?place = "vec3_add (moved_to a p) (action_vec (PA_ActionInfo a))"
  from approved_switch_exact [OF assms, of a] obtain v where
    sw: "(case ActionType a of
             Move \<Rightarrow> res_bind (move_player k (action_vec (PA_ActionInfo a)) w) (attack_by_player k a)
           | Attack \<Rightarrow> attack_by_player k a w
           | _ \<Rightarrow> Inr w) = Inr v" "KillCallback v = KillCallback w"
      "players v k = Some (player_after ?use k ?place k (p\<lparr>pCoords := moved_to a p\<rparr>))"
      "\<forall>k'. k' \<noteq> k \<longrightarrow> players v k' = map_option (player_after ?use k ?place k') (players w k')"
      "EnemyList v = map (enemy_after ?use ?place) (EnemyList w)"
      "kill_calls v = kill_calls w @ calls_after ?use k ?place w" by blast
  have "CurrentTurns (player_after ?use k ?place k (p\<lparr>pCoords := moved_to a p\<rparr>)) = CurrentTurns p"
    by (simp add: player_after_def split: option.splits)
  with False spend_turn_action_Inr [OF sw(3)] sw(1) have
    run: "MakeApprovedAction k a w = Inr (v\<lparr>PlayersList := AList.update k
      ((player_after ?use k ?place k (p\<lparr>pCoords := moved_to a p\<rparr>))\<lparr>CurrentTurns := CurrentTurns p - 1\<rparr>)
      (PlayersList v)\<rparr>)" by (simp add: MakeApprovedAction_def)
  have "(player_after ?use k ?place k (p\<lparr>pCoords := moved_to a p\<rparr>))\<lparr>CurrentTurns := CurrentTurns p - 1\<rparr> =
      (player_after ?use k ?place k p)\<lparr>pCoords := moved_to a p, CurrentTurns := CurrentTurns p - 1\<rparr>"
    by (simp add: player_after_def split: option.splits)
  with run sw MakeApprovedAction_wf [OF assms False, of a] False show ?thesis
    by (auto simp: Let_def update_conv')
qed (use MakeApprovedAction_no_turns [OF assms, of a] in simp)

definition sample_step :: PlayerAction where
  "sample_step = \<lparr>ActionType = Move, PA_PlayerID = 10000, PA_ActionInfo = [0, 1, 0, 0]\<rparr>"

lemma sample_player_at:
  "players sample_world 10000 = Some (sample_player 10000 (vec3_make 4 2 0))"
  by (simp add: sample_world_def)

lemma sample_equipped: "unat (pEquipedItemID (sample_player k c)) < MaxInventorySize"
  by (simp add: sample_player_def MaxInventorySize_def)

theorem approved_action_effect_witness:
  "\<exists>w'. MakeApprovedAction 10000 sample_step sample_world = Inr w' \<and> wf_world w' \<and>
     players w' 10000 = Some ((sample_player 10000 (vec3_make 5 2 0))\<lparr>CurrentTurns := 3\<rparr>)"
proof -
  let ?p = "sample_player 10000 (vec3_make 4 2 0)"
  have slot: "Storage (pInventory ?p) ! unat (pEquipedItemID ?p) = table_slot 5 1"
    by (simp add: sample_player_def inventory_with_def)
  have "item_type (slot_item (table_slot 5 1)) = Sword" by (simp add: table_slot_def ItemTable_def)
  with slot have "weapon_use (pInventory ?p) (pEquipedItemID ?p) =
      (if slot_empty (table_slot 5 1) then None
       else Some (pInventory ?p, ucast (Power (slot_item (table_slot 5 1)))))"
    by (simp add: weapon_use_def Let_def)
  then have "(player_after (action_use sample_step ?p) k pl k ?p)\<lparr>pCoords := c, CurrentTurns := n\<rparr> =
      ?p\<lparr>pCoords := c, CurrentTurns := n\<rparr>" for k pl c n
    by (simp add: player_after_def action_use_def sample_step_def)
  with approved_action_effect [OF wf_sample_world sample_player_at sample_equipped, of sample_step]
  show ?thesis
    by (auto simp: Let_def sample_player_def moved_to_def sample_step_def action_vec_def vec3_add_def vec3_make_def)
qed

lemma sword_strike:
  assumes "wf_Inventory iv" and "unat eq < MaxInventorySize"
    and "\<not> slot_empty (Storage iv ! unat eq)"
    and "item_type (slot_item (Storage iv ! unat eq)) = Sword"
  shows "weapon_strike iv eq = Inr (Some (iv, ucast (Power (slot_item (Storage iv ! unat eq)))))"
  using assms by (simp add: weapon_strike_def storage_at_wf)

text \<open>
  Property C13. A blow with a sword takes the sword's power off the health of exactly the other
  players and the enemies that stand on the attacked place, once each, and changes nobody else.
\<close>

theorem sword_attack_effect:
  assumes "wf_world w" and p: "players w k = Some p"
    and eq: "unat (pEquipedItemID p) < MaxInventorySize"
    and weapon: "\<not> slot_empty (Storage (pInventory p) ! unat (pEquipedItemID p))"
      "item_type (slot_item (Storage (pInventory p) ! unat (pEquipedItemID p))) = Sword"
  shows "\<exists>w'. attack_by_player k a w = Inr w' \<and>
      (let place = vec3_add (pCoords p) (action_vec (PA_ActionInfo a));
           d = ucast (Power (slot_item (Storage (pInventory p) ! unat (pEquipedItemID p))))
       in (\<forall>k'. players w' k' = map_option (\<lambda>q.
                 if k' \<noteq> k \<and> vec3_eq_i16 (pCoords q) place then q\<lparr>pHP := damaged_hp d (pHP q)\<rparr> else q)
               (players w k')) \<and>
          EnemyList w' = map (\<lambda>e. if vec3_eq_i16 (eCoords e) place
                                  then e\<lparr>eHP := damaged_hp d (eHP e)\<rparr> else e) (EnemyList w))"
proof -
  let ?t = "PlayerFindAttackTarget w p a"
  let ?place = "vec3_add (pCoords p) (action_vec (PA_ActionInfo a))"
  define d :: u32 where "d = ucast (Power (slot_item (Storage (pInventory p) ! unat (pEquipedItemID p))))"
  have wp: "wf_Player k p" using assms(1) p by (rule wf_world_player)
  have len: "length (EnemyList w) < 2 ^ 32" using assms(1) by (simp add: wf_world_def)
  have self: "w\<lparr>PlayersList := AList.update k (p\<lparr>pInventory := pInventory p\<rparr>) (PlayersList w)\<rparr> = w"
    using p by (simp add: update_same)
  from damage_targets_struck [OF PlayerFindAttackTarget_ok [OF assms(1)], of d p a] obtain w' where
    w': "damage_targets d ?t w = Inr w'" "struck d ?t w w'" by blast
  have run: "attack_by_player k a w = Inr w'"
    using p self w'(1) sword_strike [OF _ eq weapon] wp
    by (simp add: attack_by_player_def Player_MakeAttack_def wf_Player_def d_def)
  have "players w' k' = map_option (\<lambda>q.
          if k' \<noteq> k \<and> vec3_eq_i16 (pCoords q) ?place then q\<lparr>pHP := damaged_hp d (pHP q)\<rparr> else q)
          (players w k')" for k'
    using w'(2) wp PlayerFindAttackTarget_player [OF assms(1), of k' p a]
    by (cases "players w k'") (auto simp: struck_def Player_TakeDamage_def Let_def wf_Player_def)
  moreover have "EnemyList w' = map (\<lambda>e. if vec3_eq_i16 (eCoords e) ?place
                    then e\<lparr>eHP := damaged_hp d (eHP e)\<rparr> else e) (EnemyList w)"
  proof (rule nth_equalityI)
    show "length (EnemyList w') = length (map (\<lambda>e. if vec3_eq_i16 (eCoords e) ?place
                    then e\<lparr>eHP := damaged_hp d (eHP e)\<rparr> else e) (EnemyList w))"
      using w'(2) by (simp add: struck_def same_shape_def)
    fix j assume "j < length (EnemyList w')"
    then have j: "j < length (EnemyList w)" using w'(2) by (simp add: struck_def same_shape_def)
    have "j \<in> unat ` set (at_EnemyIDs ?t) \<longleftrightarrow> vec3_eq_i16 (eCoords (EnemyList w ! j)) ?place"
      using PlayerFindAttackTarget_enemy [OF len j, of p a] by simp
    then show "EnemyList w' ! j = map (\<lambda>e. if vec3_eq_i16 (eCoords e) ?place
                    then e\<lparr>eHP := damaged_hp d (eHP e)\<rparr> else e) (EnemyList w) ! j"
      using w'(2) j by (simp add: struck_def Enemy_TakeDamage_def Let_def)
  qed
  ultimately show ?thesis using run unfolding Let_def d_def by blast
qed


definition sample_blow :: PlayerAction where
  "sample_blow = \<lparr>ActionType = Attack, PA_PlayerID = 10000, PA_ActionInfo = [0, 1, 0, 0]\<rparr>"

theorem sword_attack_effect_witness:
  "\<exists>w'. attack_by_player 10000 sample_blow sample_world = Inr w' \<and>
     map_option (sint \<circ> pHP) (players w' 10001) = Some 42 \<and>
     map_option (sint \<circ> pHP) (players w' 10000) = Some 45"
proof -
  let ?p = "sample_player 10000 (vec3_make 4 2 0)"
  have slot: "Storage (pInventory ?p) ! unat (pEquipedItemID ?p) = table_slot 5 1"
    by (simp add: sample_player_def inventory_with_def)
  have "\<not> slot_empty (table_slot 5 1)" "item_type (slot_item (table_slot 5 1)) = Sword"
    and pow: "ucast (Power (slot_item (table_slot 5 1))) = (3::u32)"
    by (simp_all add: table_slot_def ItemTable_def)
  from sword_attack_effect [OF wf_sample_world sample_player_at sample_equipped, unfolded slot,
      OF this(1,2), of sample_blow] obtain w' where
    w': "attack_by_player 10000 sample_blow sample_world = Inr w'"
    and hit: "\<forall>k'. players w' k' = map_option (\<lambda>q. if k' \<noteq> 10000 \<and>
        vec3_eq_i16 (pCoords q) (vec3_add (pCoords ?p) (action_vec (PA_ActionInfo sample_blow)))
        then q\<lparr>pHP := damaged_hp 3 (pHP q)\<rparr> else q) (players sample_world k')"
    unfolding Let_def pow by blast
  have place: "vec3_add (pCoords ?p) (action_vec (PA_ActionInfo sample_blow)) = vec3_make 5 2 0"
    by (simp add: sample_player_def sample_blow_def action_vec_def vec3_add_def vec3_make_def)
  have q: "players sample_world 10001 = Some (sample_player 10001 (vec3_make 5 2 0))"
    by (simp add: sample_world_def)
  have "map_option (sint \<circ> pHP) (players w' 10001) = Some 42"
    using hit q unfolding place by (simp add: sample_player_def damaged_hp_def)
  moreover have "map_option (sint \<circ> pHP) (players w' 10000) = Some 45"
    using hit sample_player_at by (simp add: sample_player_def)
  ultimately show ?thesis using w' by blast
qed

text \<open>
  Damage takes the health down to at least zero, and by exactly its amount while the
  health lasts, although the code compares the signed health as an unsigned number.
\<close>

theorem damage_bounds:
  assumes "0 \<le> sint (pHP p)" and "0 \<le> sint (eHP e)"
  shows "sint (pHP (fst (Player_TakeDamage d p))) = max 0 (sint (pHP p) - uint d) \<and>
         (snd (Player_TakeDamage d p) \<longleftrightarrow> uint d < sint (pHP p)) \<and>
         sint (eHP (fst (Enemy_TakeDamage d e))) = max 0 (sint (eHP e) - uint d) \<and>
         (snd (Enemy_TakeDamage d e) \<longleftrightarrow> uint d < sint (eHP e))"
  using assms by (auto simp: Player_TakeDamage_def Enemy_TakeDamage_def Let_def sint_damaged_hp)

theorem damage_bounds_witness:
  "sint (pHP (fst (Player_TakeDamage 50 (sample_player 1 vec3_zero)))) = 0 \<and>
   \<not> snd (Player_TakeDamage 50 (sample_player 1 vec3_zero))"
  using damage_bounds [of "sample_player 1 vec3_zero" "EnemiesTable ! 0" 50]
  by (simp add: sample_player_def EnemiesTable_def)

text \<open>
  Shooting a bow uses the first stack of arrows: it does its power in damage, loses one
  arrow, becomes empty with the last one, and every other slot stays as it was; with no arrows the
  shot does no damage and changes nothing.
\<close>

theorem bow_shot_effect:
  assumes "wf_Inventory iv"
  shows "if \<forall>s \<in> set (Storage iv). \<not> holds_type Arrow s then shoot_arrow iv = Inr (iv, 0)
         else (\<exists>a < MaxInventorySize. holds_type Arrow (Storage iv ! a) \<and>
                (\<forall>b < a. \<not> holds_type Arrow (Storage iv ! b)) \<and>
                shoot_arrow iv = Inr (iv\<lparr>Storage := (Storage iv)[a := (Storage iv ! a)
                    \<lparr>quantity := quantity (Storage iv ! a) - 1,
                     slot_empty := quantity (Storage iv ! a) = 1\<rparr>]\<rparr>,
                  ucast (Power (slot_item (Storage iv ! a)))))"
proof (cases "FindItem iv Arrow = InvalidID")
  case True
  then show ?thesis using FindItem_InvalidID_iff [OF assms, of Arrow]
    by (simp add: shoot_arrow_def Let_def)
next
  case False
  then have "\<not> (\<forall>s \<in> set (Storage iv). \<not> holds_type Arrow s)"
    using FindItem_InvalidID_iff [OF assms, of Arrow] by blast
  then show ?thesis
    using FindItem_found [OF assms False] shoot_arrow_hit [OF assms False]
    by (simp only: if_False) blast
qed

theorem bow_shot_effect_witness:
  "\<exists>iv' d. shoot_arrow (einventory (EnemiesTable ! 1)) = Inr (iv', d)"
proof -
  have "wf_Inventory (einventory (EnemiesTable ! 1))"
    using wf_EnemiesTable [of "EnemiesTable ! 1" vec3_zero] by (simp add: EnemiesTable_def wf_Enemy_def)
  from bow_shot_effect [OF this] show ?thesis by (auto split: if_splits)
qed

text \<open>
  An attack with an equipped index outside the storage stops the program at the
  assertion of the storage; the index of a player is whatever its client sent when it registered.
\<close>

theorem attack_bad_equip_faults:
  assumes "wf_world w" and "players w k = Some p" and "MaxInventorySize \<le> unat (pEquipedItemID p)"
  shows "attack_by_player k a w = Inl AssertFailed"
  using assms wf_world_player [OF assms(1,2)]
  by (simp add: attack_by_player_def Player_MakeAttack_def weapon_strike_bad_index wf_Player_def)

theorem attack_bad_equip_faults_witness:
  "attack_by_player 10000 sample_blow (sample_world\<lparr>PlayersList :=
     AList.update 10000 ((sample_player 10000 vec3_zero)\<lparr>pEquipedItemID := 20\<rparr>)
       (PlayersList sample_world)\<rparr>) = Inl AssertFailed"
proof (rule attack_bad_equip_faults [where p = "(sample_player 10000 vec3_zero)\<lparr>pEquipedItemID := 20\<rparr>"])
  have "wf_Player 10000 ((sample_player 10000 vec3_zero)\<lparr>pEquipedItemID := 20\<rparr>)"
    using wf_world_player [OF wf_sample_world sample_player_at]
    by (simp add: wf_Player_def sample_player_def)
  then show "wf_world (sample_world\<lparr>PlayersList :=
     AList.update 10000 ((sample_player 10000 vec3_zero)\<lparr>pEquipedItemID := 20\<rparr>)
       (PlayersList sample_world)\<rparr>)"
    by (rule wf_world_update_player [OF wf_sample_world])
qed (simp_all add: update_conv' MaxInventorySize_def)

end
