(* ===== verification/EnemyAI.thy ===== *)
theory EnemyAI
  imports Combat
begin

text \<open>
  The enemy turn of the server (\<^verbatim>\<open>CustomServer::MakeAITurn\<close> in AsciiTerra_Server/GameServer.cpp),
  without the messages it sends at its end (theory GameServer).

  The \<^verbatim>\<open>while (LeftedAction != 0)\<close> loop of an enemy has a branch that changes nothing, so it may
  run forever: it is modelled with fuel, one unit per iteration, and \<open>OutOfFuel\<close> for every fuel
  means that the server never leaves the loop. \<open>ai_plan\<close> is the abstract loop over the integer
  displacement to the target; it tells exactly when the loop ends and which actions it takes.
\<close>

section \<open>The model\<close>

subsection \<open>Equipment and target selection\<close>

text \<open>\<^verbatim>\<open>Enemy.EquipedItemID == InvalidID || Storage[EquipedItemID].empty\<close>: then look for a weapon.\<close>

definition needs_weapon :: "Enemy \<Rightarrow> bool res" where
  "needs_weapon e =
     (if eEquipedItemID e = InvalidID then Inr True
      else res_bind (storage_at (einventory e) (eEquipedItemID e)) (\<lambda>s. Inr (slot_empty s)))"

definition best_weapon :: "Inventory \<Rightarrow> u32" where
  "best_weapon iv =
     (let SwordID = FindItem iv Sword; BowID = FindItem iv Bow; ArrowID = FindItem iv Arrow
      in if SwordID \<noteq> InvalidID then SwordID
         else if BowID \<noteq> InvalidID then (if ArrowID \<noteq> InvalidID then BowID else InvalidID)
         else InvalidID)"

definition equip_enemy :: "Enemy \<Rightarrow> Enemy res" where
  "equip_enemy e =
     res_bind (needs_weapon e) (\<lambda>b.
       Inr (if b then e\<lparr>eEquipedItemID := best_weapon (einventory e)\<rparr> else e))"

record ai_target =
  BestAttackCandidate :: u32
  DistanceToTarget :: i16
  IsItPlayer :: bool
  TargetCoords :: CoordVec

definition no_target :: ai_target where
  "no_target =
     \<lparr>BestAttackCandidate = InvalidID, DistanceToTarget = word_of_nat (Map_Width * Map_Height),
      IsItPlayer = False, TargetCoords = vec3_zero\<rparr>"

definition consider_candidate :: "Enemy \<Rightarrow> bool \<Rightarrow> u32 \<Rightarrow> CoordVec \<Rightarrow> ai_target \<Rightarrow> ai_target res" where
  "consider_candidate e is_player i coords t =
     res_bind (vec3_Lenght_i16 (vec3_sub coords (eCoords e))) (\<lambda>dist.
       Inr (if sint dist < sint (DistanceToTarget t)
            then \<lparr>BestAttackCandidate = i, DistanceToTarget = dist, IsItPlayer = is_player,
                  TargetCoords = coords\<rparr>
            else t))"

definition choose_target :: "GameWorld \<Rightarrow> Enemy \<Rightarrow> ai_target res" where
  "choose_target w e =
     res_bind (res_fold (\<lambda>(k, p). consider_candidate e True (pID p) (pCoords p)) (PlayersList w) no_target)
       (\<lambda>t. if \<not> IsItPlayer t \<or> 5 < sint (DistanceToTarget t)
             then res_fold (\<lambda>(i, oe) t. if faction e \<noteq> faction oe
                              then consider_candidate e False (word_of_nat i) (eCoords oe) t else Inr t)
                    (enumerate 0 (EnemyList w)) t
             else Inr t)"

subsection \<open>The action loop of one enemy\<close>

definition move_action :: "u32 \<Rightarrow> nat \<Rightarrow> i16 \<Rightarrow> EnemyAction" where
  "move_action i axis s =
     \<lparr>actionType = EnemyMove, EA_EnemyID = i, EA_ActionInfo = (replicate 4 0)[axis := s]\<rparr>"

definition attack_action :: "u32 \<Rightarrow> int \<Rightarrow> int \<Rightarrow> EnemyAction" where
  "attack_action i xd yd =
     \<lparr>actionType = EnemyBaseAttack, EA_EnemyID = i,
      EA_ActionInfo = [0, word_of_int xd, word_of_int yd, 0]\<rparr>"

definition step_sign :: "int \<Rightarrow> i16" where
  "step_sign d = (if 0 < d then 1 else - 1)"

text \<open>
  \<open>i\<close> is the position of the enemy in \<^verbatim>\<open>EnemyList\<close>, \<open>active\<close> the counter \<^verbatim>\<open>ActiveEnemyID\<close> the actions
  are labelled with, \<open>cand\<close> the chosen target's id. Each unit of fuel is one iteration.
\<close>

fun ai_loop :: "nat \<Rightarrow> nat \<Rightarrow> u32 \<Rightarrow> u32 \<Rightarrow> u32 \<Rightarrow> CoordVec \<Rightarrow> GameWorld \<Rightarrow> EnemyAction list
                  \<Rightarrow> (GameWorld \<times> EnemyAction list) res" where
  "ai_loop 0 i active cand left target w acts = Inl OutOfFuel"
| "ai_loop (Suc n) i active cand left target w acts =
     (if left = 0 then Inr (w, acts)
      else if cand = InvalidID then Inr (w, acts)
      else res_bind (vec3_Lenght_i16 (vec3_sub target (eCoords (EnemyList w ! i)))) (\<lambda>dist.
        let xd = sint (vx target) - sint (vx (eCoords (EnemyList w ! i)));
            yd = sint (vy target) - sint (vy (eCoords (EnemyList w ! i)))
        in if 1 < sint dist then
             (if xd \<noteq> 0 then
                (let a = move_action active 1 (step_sign xd)
                 in res_bind (MakeEnemyAction i a w) (\<lambda>w'.
                      ai_loop n i active cand (left - 1)
                        (vec3_sub_assign_scalar target (step_sign xd)) w' (acts @ [a])))
              else if yd \<noteq> 0 then
                (let a = move_action active 2 (step_sign yd)
                 in res_bind (MakeEnemyAction i a w) (\<lambda>w'.
                      ai_loop n i active cand (left - 1)
                        (vec3_sub_assign_scalar target (step_sign yd)) w' (acts @ [a])))
              else ai_loop n i active cand left target w acts)
           else
             (let a = attack_action active xd yd
              in res_bind (MakeEnemyAction i a w) (\<lambda>w'.
                   ai_loop n i active cand (left - 1) target w' (acts @ [a])))))"

declare ai_loop.simps(2) [simp del]

subsection \<open>The turn of all enemies\<close>

record ai_state =
  ai_world :: GameWorld
  ai_acts :: "EnemyAction list"
  ActiveEnemyID :: u32
  EnemyListDirt :: bool

text \<open>
  The body of the loop over \<^verbatim>\<open>EnemyList\<close>. For a dead enemy, \<^verbatim>\<open>continue\<close> skips the increment of
  \<^verbatim>\<open>ActiveEnemyID\<close> at the end of the body.
\<close>

definition enemy_turn :: "nat \<Rightarrow> nat \<Rightarrow> ai_state \<Rightarrow> ai_state res" where
  "enemy_turn fuel i s =
     (let w = ai_world s; e = EnemyList w ! i
      in if eHP e = 0 then Inr (s\<lparr>EnemyListDirt := True\<rparr>)
         else res_bind (equip_enemy e) (\<lambda>e'.
           let w' = w\<lparr>EnemyList := (EnemyList w)[i := e']\<rparr>
           in res_bind (choose_target w' e') (\<lambda>t.
                res_bind (ai_loop fuel i (ActiveEnemyID s) (BestAttackCandidate t) (MaxActions e')
                            (TargetCoords t) w' (ai_acts s)) (\<lambda>(w'', acts).
                  Inr (s\<lparr>ai_world := w'', ai_acts := acts, ActiveEnemyID := ActiveEnemyID s + 1\<rparr>)))))"

definition enemies_turn :: "nat \<Rightarrow> GameWorld \<Rightarrow> ai_state res" where
  "enemies_turn fuel w =
     res_fold (enemy_turn fuel) [0..<length (EnemyList w)]
       \<lparr>ai_world = w, ai_acts = [], ActiveEnemyID = 0, EnemyListDirt = False\<rparr>"

text \<open>The last step of the turn: when a dead enemy was seen, the living are copied to a new list.\<close>

definition bury_dead :: "bool \<Rightarrow> GameWorld \<Rightarrow> GameWorld" where
  "bury_dead dirt w =
     (if dirt then w\<lparr>EnemyList := filter (\<lambda>e. 0 < sint (eHP e)) (EnemyList w)\<rparr> else w)"

section \<open>The abstract loop\<close>

text \<open>
  What the loop does, on the displacement \<open>(dx, dy, dz)\<close> from the enemy to the target the loop
  keeps. A step along one axis moves the enemy by one and also takes the step off \<^emph>\<open>every\<close>
  component of the target, because \<^verbatim>\<open>TargetCoords -= s\<close> selects the scalar overload. \<open>None\<close>: the
  loop is stuck above or below its target and never ends.
\<close>

datatype ai_act = StepX int | StepY int | Hit int int

fun ai_plan :: "nat \<Rightarrow> int \<times> int \<times> int \<Rightarrow> ai_act list option" where
  "ai_plan 0 d = Some []"
| "ai_plan (Suc m) (dx, dy, dz) =
     (if dx * dx + dy * dy + dz * dz < 4
      then map_option ((#) (Hit dx dy)) (ai_plan m (dx, dy, dz))
      else if dx \<noteq> 0
      then map_option ((#) (StepX (sgn dx))) (ai_plan m (dx - 2 * sgn dx, dy - sgn dx, dz - sgn dx))
      else if dy \<noteq> 0
      then map_option ((#) (StepY (sgn dy))) (ai_plan m (dx - sgn dy, dy - 2 * sgn dy, dz - sgn dy))
      else None)"

fun act_of :: "u32 \<Rightarrow> ai_act \<Rightarrow> EnemyAction" where
  "act_of i (StepX s) = move_action i 1 (word_of_int s)"
| "act_of i (StepY s) = move_action i 2 (word_of_int s)"
| "act_of i (Hit x y) = attack_action i x y"

text \<open>A loop of at most two actions always ends; one of three is stuck for exactly two targets.\<close>

lemma ai_plan_two: "m \<le> 2 \<Longrightarrow> ai_plan m (dx, dy, 0) \<noteq> None"
proof -
  assume "m \<le> 2"
  then consider "m = 0" | "m = Suc 0" | "m = Suc (Suc 0)" by linarith
  then show ?thesis
  proof cases
    case 2
    then show ?thesis by (cases "dx = 0"; cases "dy = 0") auto
  next
    case 3
    then show ?thesis
      by (cases "dx = 0"; cases "dy = 0") (auto simp: sgn_if split: if_splits)
  qed simp
qed


lemma ai_plan_length: "ai_plan m d = Some as \<Longrightarrow> length as = m"
  by (induction m d arbitrary: "as" rule: ai_plan.induct) (auto split: if_splits)

section \<open>The loop and its plan\<close>

definition inside :: "int \<Rightarrow> CoordVec \<Rightarrow> bool" where
  "inside b v \<longleftrightarrow> \<bar>sint (vx v)\<bar> \<le> b \<and> \<bar>sint (vy v)\<bar> \<le> b \<and> \<bar>sint (vz v)\<bar> \<le> b"

definition disp :: "CoordVec \<Rightarrow> CoordVec \<Rightarrow> int \<times> int \<times> int" where
  "disp t c = (sint (vx t) - sint (vx c), sint (vy t) - sint (vy c), sint (vz t) - sint (vz c))"

lemma sint_small_add:
  fixes a :: i16
  assumes "\<bar>sint a\<bar> \<le> 104" and "\<bar>s\<bar> \<le> 104"
  shows "sint (a + word_of_int s) = sint a + s"
proof -
  have "sint (word_of_int (sint a + s) :: i16) = sint a + s"
    by (rule sint_i16_of_int) (use assms in linarith)+
  moreover have "a + word_of_int s = word_of_int (sint a + s)" by simp
  ultimately show ?thesis by (simp only:)
qed

lemma sint_small_sub:
  fixes a b :: i16
  assumes "\<bar>sint a\<bar> \<le> 52" and "\<bar>sint b\<bar> \<le> 52"
  shows "sint (a - b) = sint a - sint b"
proof -
  have "sint (word_of_int (sint a - sint b) :: i16) = sint a - sint b"
    by (rule sint_i16_of_int) (use assms in linarith)+
  moreover have "a - b = word_of_int (sint a - sint b)" by simp
  ultimately show ?thesis by (simp only:)
qed

text \<open>The test \<^verbatim>\<open>DistanceToTarget > 1\<close> on coordinates of the size of the map.\<close>

lemma Lenght_far_iff:
  assumes "inside 52 t" and "inside 52 c" and "disp t c = (dx, dy, dz)"
  shows "\<exists>d. vec3_Lenght_i16 (vec3_sub t c) = Inr d \<and>
             (1 < sint d \<longleftrightarrow> \<not> dx * dx + dy * dy + dz * dz < 4)"
proof -
  let ?v = "vec3_sub t c"
  let ?q = "dx * dx + dy * dy + dz * dz"
  have comp: "sint (vx ?v) = dx" "sint (vy ?v) = dy" "sint (vz ?v) = dz"
    using assms by (auto simp: vec3_sub_def disp_def inside_def sint_small_sub)
  have bnd: "\<bar>dx\<bar> \<le> 104" "\<bar>dy\<bar> \<le> 104" "\<bar>dz\<bar> \<le> 104"
    using assms by (auto simp: disp_def inside_def)
  have len: "vec3_Lenght_i16 ?v = Inr (word_of_nat (isqrt (nat ?q)))"
    using vec3_Lenght_small [of ?v] bnd by (simp add: comp power2_eq_square)
  have q0: "0 \<le> ?q" by simp
  have sq: "\<bar>x\<bar> \<le> 104 \<Longrightarrow> x * x \<le> 10816" for x :: int
    using power_mono [of "\<bar>x\<bar>" 104 2] by (simp add: power2_eq_square)
  have "nat ?q < Suc 180 * Suc 180"
    using sq [OF bnd(1)] sq [OF bnd(2)] sq [OF bnd(3)] by simp
  then have r: "isqrt (nat ?q) \<le> 180" by (simp only: isqrt_le_iff)
  have "sint (word_of_nat (isqrt (nat ?q)) :: i16) = int (isqrt (nat ?q))"
    using sint_i16_of_int [of "int (isqrt (nat ?q))"] r by simp
  moreover have "isqrt (nat ?q) \<le> 1 \<longleftrightarrow> ?q < 4"
    using q0 by (simp add: isqrt_le_iff nat_less_iff)
  ultimately show ?thesis using len by (intro exI conjI) auto
qed

text \<open>
  What the actions of one enemy leave alone: the position of every player and of every other enemy,
  and everybody's weapon. \<open>armed\<close>: the equipped slot exists, is occupied, and is not a stack of
  arrows, so no shot can empty it.
\<close>

definition armed :: "Enemy \<Rightarrow> bool" where
  "armed e \<longleftrightarrow>
     unat (eEquipedItemID e) < MaxInventorySize \<and>
     \<not> slot_empty (Storage (einventory e) ! unat (eEquipedItemID e)) \<and>
     item_type (slot_item (Storage (einventory e) ! unat (eEquipedItemID e))) \<noteq> Arrow"

definition same_stance :: "Enemy \<Rightarrow> Enemy \<Rightarrow> bool" where
  "same_stance e e' \<longleftrightarrow>
     eEquipedItemID e' = eEquipedItemID e \<and> MaxActions e' = MaxActions e \<and>
     faction e' = faction e \<and> (armed e \<longrightarrow> armed e')"

definition calm :: "nat \<Rightarrow> GameWorld \<Rightarrow> GameWorld \<Rightarrow> bool" where
  "calm i w w' \<longleftrightarrow>
     same_shape w w' \<and>
     (\<forall>k. map_option pCoords (players w' k) = map_option pCoords (players w k)) \<and>
     (\<forall>j < length (EnemyList w). same_stance (EnemyList w ! j) (EnemyList w' ! j) \<and>
        (j \<noteq> i \<longrightarrow> eCoords (EnemyList w' ! j) = eCoords (EnemyList w ! j)))"

lemma calm_refl [simp]: "calm i w w"
  by (simp add: calm_def same_stance_def)

lemma calm_trans: "calm i a b \<Longrightarrow> calm i b c \<Longrightarrow> calm i a c"
  by (auto simp: calm_def same_shape_def same_stance_def)

lemma calm_shape: "calm i w w' \<Longrightarrow> same_shape w w'"
  by (simp add: calm_def)

lemma struck_calm:
  assumes "struck d t w w'"
  shows "calm i w w'"
    and "j < length (EnemyList w) \<Longrightarrow> eCoords (EnemyList w' ! j) = eCoords (EnemyList w ! j)"
  using assms
  by (auto simp: struck_def calm_def same_stance_def armed_def Enemy_TakeDamage_def
      Player_TakeDamage_def Let_def option.map_comp comp_def cong: option.map_cong)

text \<open>A shot leaves an equipped weapon that is no arrow in its slot.\<close>

lemma weapon_strike_armed:
  assumes "weapon_strike iv eq = Inr (Some (iv', d))" and "wf_Inventory iv"
    and "armed (e\<lparr>eEquipedItemID := eq, einventory := iv\<rparr>)"
  shows "armed (e\<lparr>eEquipedItemID := eq, einventory := iv'\<rparr>)"
proof (cases "iv' = iv")
  case False
  then have shot: "shoot_arrow iv = Inr (iv', d)"
    using assms(1) by (auto simp: weapon_strike_def split: if_splits ItemType.splits)
  have found: "FindItem iv Arrow \<noteq> InvalidID"
    using shot False by (auto simp: shoot_arrow_def Let_def)
  have "unat (FindItem iv Arrow) \<noteq> unat eq"
    using FindItem_found(2) [OF assms(2) found] assms(3) by (auto simp: armed_def holds_type_def)
  then show ?thesis using shoot_arrow_hit [OF assms(2) found] shot assms(3)
    by (auto simp: armed_def)
qed (use assms in simp)

lemma enemy_attack_step:
  assumes "wf_world w" and i: "i < length (EnemyList w)"
    and "unat (eEquipedItemID (EnemyList w ! i)) < MaxInventorySize"
    and a: "actionType a = EnemyBaseAttack"
  shows "\<exists>w'. MakeEnemyAction i a w = Inr w' \<and> wf_world w' \<and> calm i w w' \<and>
           eCoords (EnemyList w' ! i) = eCoords (EnemyList w ! i)"
proof -
  let ?e = "EnemyList w ! i"
  let ?t = "EnemyFindAttackTarget w ?e a"
  have t: "targets_ok w ?t" by (rule EnemyFindAttackTarget_ok [OF assms(1)])
  have wi: "wf_Inventory (einventory ?e)"
    using wf_world_enemy [OF assms(1) i] by (simp add: wf_Enemy_def)
  from Enemy_MakeAttack_wf [OF assms(1) i assms(3) t] obtain w' where
    w': "Enemy_MakeAttack i ?t w = Inr w'" "wf_world w'" by blast
  from weapon_strike_total [OF wi assms(3)] obtain r where
    r: "weapon_strike (einventory ?e) (eEquipedItemID ?e) = Inr r" by blast
  have "calm i w w' \<and> eCoords (EnemyList w' ! i) = eCoords (EnemyList w ! i)"
  proof (cases r)
    case None
    then show ?thesis using w'(1) r i by (simp add: Enemy_MakeAttack_def Let_def)
  next
    case (Some x)
    obtain iv d where x: "x = (iv, d)" by fastforce
    let ?e' = "?e\<lparr>einventory := iv\<rparr>"
    let ?v = "w\<lparr>EnemyList := (EnemyList w)[i := ?e']\<rparr>"
    have "armed ?e \<longrightarrow> armed ?e'"
      using weapon_strike_armed [of "einventory ?e" "eEquipedItemID ?e" iv d ?e] r Some x wi by simp
    then have "calm i w ?v"
      using i by (auto simp: calm_def same_stance_def world_simps nth_list_update)
    moreover from damage_targets_struck
      [OF targets_ok_shape [OF same_shape_update_enemy [of w i ?e'] t], of d]
    have st: "struck d ?t ?v w'" using w'(1) r Some x i by (auto simp: Enemy_MakeAttack_def Let_def)
    ultimately show ?thesis
      using struck_calm(1) [OF st, of i] struck_calm(2) [OF st, of i] i by (auto intro: calm_trans)
  qed
  with w' a i show ?thesis by (auto simp: MakeEnemyAction_def Let_def)
qed

lemma enemy_move_step:
  assumes "wf_world w" and i: "i < length (EnemyList w)" and a: "actionType a = EnemyMove"
  defines "c' \<equiv> vec3_add (eCoords (EnemyList w ! i)) (action_vec (EA_ActionInfo a))"
  shows "\<exists>w'. MakeEnemyAction i a w = Inr w' \<and> wf_world w' \<and> calm i w w' \<and>
           EnemyList w' ! i = (EnemyList w ! i)\<lparr>eCoords := c'\<rparr>"
proof -
  have "wf_Enemy ((EnemyList w ! i)\<lparr>eCoords := c'\<rparr>)"
    using wf_world_enemy [OF assms(1) i] by (simp add: wf_Enemy_def)
  then show ?thesis using assms
    by (auto simp: MakeEnemyAction_def Let_def wf_world_update_enemy world_simps calm_def
        same_stance_def armed_def nth_list_update)
qed

lemma inside_mono: "inside b v \<Longrightarrow> b \<le> b' \<Longrightarrow> inside b' v"
  by (auto simp: inside_def)

lemma step_sign_sgn: "d \<noteq> 0 \<Longrightarrow> step_sign d = word_of_int (sgn d)"
  by (simp add: step_sign_def sgn_if)

lemma word_of_sgn: "(word_of_int (sgn d) :: i16) = (if d = 0 then 0 else step_sign d)"
  by (simp add: step_sign_def sgn_if)

text \<open>The two walking steps, on the target and on the enemy.\<close>

lemma sgn_abs_le: "\<bar>sgn (d::int)\<bar> \<le> 1"
  by (simp add: sgn_if)

lemma sgn_values: "sgn (d::int) = - 1 \<or> sgn d = 0 \<or> sgn d = 1"
  by (simp add: sgn_if)

lemma target_step:
  assumes "inside b t" and "b \<le> 100"
  shows "inside (b + 1) (vec3_sub_assign_scalar t (word_of_int (sgn d)))"
    and "sint (vx (vec3_sub_assign_scalar t (word_of_int (sgn d)))) = sint (vx t) - sgn d"
    and "sint (vy (vec3_sub_assign_scalar t (word_of_int (sgn d)))) = sint (vy t) - sgn d"
    and "sint (vz (vec3_sub_assign_scalar t (word_of_int (sgn d)))) = sint (vz t) - sgn d"
proof -
  have s: "sint (a - word_of_int (sgn d)) = sint a - sgn d" if "\<bar>sint a\<bar> \<le> b" for a :: i16
    using sint_small_add [of a "- sgn d"] that assms(2) sgn_abs_le [of d] by simp
  show "sint (vx (vec3_sub_assign_scalar t (word_of_int (sgn d)))) = sint (vx t) - sgn d"
    "sint (vy (vec3_sub_assign_scalar t (word_of_int (sgn d)))) = sint (vy t) - sgn d"
    "sint (vz (vec3_sub_assign_scalar t (word_of_int (sgn d)))) = sint (vz t) - sgn d"
    using assms(1) s by (simp_all add: vec3_sub_assign_scalar_def inside_def)
  then show "inside (b + 1) (vec3_sub_assign_scalar t (word_of_int (sgn d)))"
    using assms(1) sgn_values [of d] by (auto simp: inside_def)
qed

lemma action_vec_move:
  "action_vec (EA_ActionInfo (move_action k 1 s)) = vec3_make s 0 0"
  "action_vec (EA_ActionInfo (move_action k 2 s)) = vec3_make 0 s 0"
  by (simp_all add: action_vec_def move_action_def eval_nat_numeral)

lemma actionType_move [simp]: "actionType (move_action k ax s) = EnemyMove"
  by (simp add: move_action_def)

lemma actionType_attack [simp]: "actionType (attack_action k x y) = EnemyBaseAttack"
  by (simp add: attack_action_def)

lemma walker_step:
  assumes "inside b c" and "b \<le> 100"
  shows "inside (b + 1) (vec3_add c (vec3_make (word_of_int (sgn d)) 0 0))"
    and "inside (b + 1) (vec3_add c (vec3_make 0 (word_of_int (sgn d)) 0))"
    and "sint (vx c + word_of_int (sgn d)) = sint (vx c) + sgn d"
    and "sint (vy c + word_of_int (sgn d)) = sint (vy c) + sgn d"
proof -
  have s: "sint (a + word_of_int (sgn d)) = sint a + sgn d" if "\<bar>sint a\<bar> \<le> b" for a :: i16
    using sint_small_add [of a "sgn d"] that assms(2) sgn_abs_le [of d] by simp
  show "sint (vx c + word_of_int (sgn d)) = sint (vx c) + sgn d"
    "sint (vy c + word_of_int (sgn d)) = sint (vy c) + sgn d"
    using assms(1) s by (simp_all add: inside_def)
  then show "inside (b + 1) (vec3_add c (vec3_make (word_of_int (sgn d)) 0 0))"
    "inside (b + 1) (vec3_add c (vec3_make 0 (word_of_int (sgn d)) 0))"
    using assms(1) sgn_values [of d] by (auto simp: inside_def vec3_add_def vec3_make_def)
qed


text \<open>
  The loop follows its plan: it performs exactly the planned actions when there are any fuel units
  beyond one per action, and when there is no plan, no amount of fuel lets it return.
\<close>

definition walked :: "nat \<Rightarrow> CoordVec \<Rightarrow> CoordVec \<Rightarrow> bool" where
  "walked m c c' \<longleftrightarrow>
     \<bar>sint (vx c') - sint (vx c)\<bar> \<le> int m \<and> \<bar>sint (vy c') - sint (vy c)\<bar> \<le> int m \<and> vz c' = vz c"

lemma walked_refl [simp]: "walked m c c"
  by (simp add: walked_def)

lemma walked_step: "walked (Suc 0) a b \<Longrightarrow> walked m b c \<Longrightarrow> walked (Suc m) a c"
  by (auto simp: walked_def)

lemma walked_mono: "walked m c c' \<Longrightarrow> m \<le> n \<Longrightarrow> walked n c c'"
  unfolding walked_def by linarith

lemma walked_within: "walked m c c' \<Longrightarrow> inside b c \<Longrightarrow> inside (b + int m) c'"
  by (auto simp: walked_def inside_def)

definition ai_pre :: "int \<Rightarrow> nat \<Rightarrow> nat \<Rightarrow> CoordVec \<Rightarrow> GameWorld \<Rightarrow> bool" where
  "ai_pre b m i target w \<longleftrightarrow>
     wf_world w \<and> i < length (EnemyList w) \<and>
     unat (eEquipedItemID (EnemyList w ! i)) < MaxInventorySize \<and>
     0 \<le> b \<and> b + int m \<le> 52 \<and> inside b target \<and> inside b (eCoords (EnemyList w ! i))"

definition ai_result :: "int \<Rightarrow> nat \<Rightarrow> nat \<Rightarrow> nat \<Rightarrow> u32 \<Rightarrow> u32 \<Rightarrow> u32 \<Rightarrow> CoordVec \<Rightarrow> GameWorld
    \<Rightarrow> EnemyAction list \<Rightarrow> bool" where
  "ai_result b m n i active cand left target w acts \<longleftrightarrow>
     (case ai_plan m (disp target (eCoords (EnemyList w ! i))) of
        None \<Rightarrow> ai_loop n i active cand left target w acts = Inl OutOfFuel
      | Some plan \<Rightarrow> m < n \<longrightarrow>
          (\<exists>w'. ai_loop n i active cand left target w acts = Inr (w', acts @ map (act_of active) plan) \<and>
                wf_world w' \<and> calm i w w' \<and>
                walked m (eCoords (EnemyList w ! i)) (eCoords (EnemyList w' ! i))))"

lemma unat_pred: "left \<noteq> 0 \<Longrightarrow> unat left = Suc m \<Longrightarrow> unat (left - 1 :: u32) = m"
  by (simp add: unat_minus_one)

lemma ai_loop_ready:
  assumes "unat left = Suc m" and "cand \<noteq> InvalidID" and pre: "ai_pre b (Suc m) i target w"
    and d: "disp target (eCoords (EnemyList w ! i)) = (dx, dy, dz)"
  shows "ai_loop (Suc n) i active cand left target w acts =
     (if \<not> dx * dx + dy * dy + dz * dz < 4 then
        (if dx \<noteq> 0 then
           (let a = move_action active 1 (step_sign dx)
            in res_bind (MakeEnemyAction i a w) (\<lambda>w'. ai_loop n i active cand (left - 1)
                 (vec3_sub_assign_scalar target (step_sign dx)) w' (acts @ [a])))
         else if dy \<noteq> 0 then
           (let a = move_action active 2 (step_sign dy)
            in res_bind (MakeEnemyAction i a w) (\<lambda>w'. ai_loop n i active cand (left - 1)
                 (vec3_sub_assign_scalar target (step_sign dy)) w' (acts @ [a])))
         else ai_loop n i active cand left target w acts)
      else
        (let a = attack_action active dx dy
         in res_bind (MakeEnemyAction i a w) (\<lambda>w'.
              ai_loop n i active cand (left - 1) target w' (acts @ [a]))))"
proof -
  have "inside 52 target" "inside 52 (eCoords (EnemyList w ! i))"
    using pre by (auto simp: ai_pre_def intro: inside_mono)
  from Lenght_far_iff [OF this d] obtain dist where
    "vec3_Lenght_i16 (vec3_sub target (eCoords (EnemyList w ! i))) = Inr dist"
    "1 < sint dist \<longleftrightarrow> \<not> dx * dx + dy * dy + dz * dz < 4" by blast
  moreover have "left \<noteq> 0" using assms(1) by auto
  moreover have "sint (vx target) - sint (vx (eCoords (EnemyList w ! i))) = dx"
    "sint (vy target) - sint (vy (eCoords (EnemyList w ! i))) = dy"
    using d by (simp_all add: disp_def)
  ultimately show ?thesis using assms(2) by (simp add: ai_loop.simps(2) Let_def)
qed

lemma ai_step_x:
  assumes pre: "ai_pre b (Suc m) i target w"
    and d: "disp target (eCoords (EnemyList w ! i)) = (dx, dy, dz)" and "dx \<noteq> 0"
  shows "\<exists>w'. MakeEnemyAction i (move_action k 1 (step_sign dx)) w = Inr w' \<and> calm i w w' \<and>
           walked (Suc 0) (eCoords (EnemyList w ! i)) (eCoords (EnemyList w' ! i)) \<and>
           ai_pre (b + 1) m i (vec3_sub_assign_scalar target (step_sign dx)) w' \<and>
           disp (vec3_sub_assign_scalar target (step_sign dx)) (eCoords (EnemyList w' ! i))
             = (dx - 2 * sgn dx, dy - sgn dx, dz - sgn dx)"
proof -
  let ?a = "move_action k 1 (step_sign dx)"
  have sg: "step_sign dx = word_of_int (sgn dx)" using assms(3) by (rule step_sign_sgn)
  from pre have w: "wf_world w" "i < length (EnemyList w)" and b: "b \<le> 100"
    and eq: "unat (eEquipedItemID (EnemyList w ! i)) < MaxInventorySize"
    and wt: "inside b target" and wc: "inside b (eCoords (EnemyList w ! i))"
    and m: "0 \<le> b" "b + int (Suc m) \<le> 52"
    by (simp_all add: ai_pre_def)
  from enemy_move_step [OF w actionType_move, of k 1 "step_sign dx", unfolded action_vec_move]
  obtain w' where
    w': "MakeEnemyAction i ?a w = Inr w'" "wf_world w'" "calm i w w'"
      "EnemyList w' ! i = (EnemyList w ! i)\<lparr>eCoords := vec3_add (eCoords (EnemyList w ! i))
          (vec3_make (step_sign dx) 0 0)\<rparr>"
    by blast
  have i': "i < length (EnemyList w')" using w'(3) w(2) by (simp add: calm_def same_shape_def)
  note ts = target_step [OF wt b, of dx]
  note ws = walker_step [OF wc b, of dx]
  have "ai_pre (b + 1) m i (vec3_sub_assign_scalar target (step_sign dx)) w'"
    unfolding ai_pre_def using w' i' eq w m ts(1) ws(1) by (simp add: sg)
  moreover have "disp (vec3_sub_assign_scalar target (step_sign dx)) (eCoords (EnemyList w' ! i))
             = (dx - 2 * sgn dx, dy - sgn dx, dz - sgn dx)"
    using d ts(2-4) ws(3) w'(4) by (simp add: sg disp_def vec3_add_def vec3_make_def)
  moreover have "walked (Suc 0) (eCoords (EnemyList w ! i)) (eCoords (EnemyList w' ! i))"
    using ws(3) w'(4) sgn_abs_le [of dx] by (simp add: sg walked_def vec3_add_def vec3_make_def)
  ultimately show ?thesis using w' by blast
qed

lemma ai_step_y:
  assumes pre: "ai_pre b (Suc m) i target w"
    and d: "disp target (eCoords (EnemyList w ! i)) = (dx, dy, dz)" and "dy \<noteq> 0"
  shows "\<exists>w'. MakeEnemyAction i (move_action k 2 (step_sign dy)) w = Inr w' \<and> calm i w w' \<and>
           walked (Suc 0) (eCoords (EnemyList w ! i)) (eCoords (EnemyList w' ! i)) \<and>
           ai_pre (b + 1) m i (vec3_sub_assign_scalar target (step_sign dy)) w' \<and>
           disp (vec3_sub_assign_scalar target (step_sign dy)) (eCoords (EnemyList w' ! i))
             = (dx - sgn dy, dy - 2 * sgn dy, dz - sgn dy)"
proof -
  let ?a = "move_action k 2 (step_sign dy)"
  have sg: "step_sign dy = word_of_int (sgn dy)" using assms(3) by (rule step_sign_sgn)
  from pre have w: "wf_world w" "i < length (EnemyList w)" and b: "b \<le> 100"
    and eq: "unat (eEquipedItemID (EnemyList w ! i)) < MaxInventorySize"
    and wt: "inside b target" and wc: "inside b (eCoords (EnemyList w ! i))"
    and m: "0 \<le> b" "b + int (Suc m) \<le> 52"
    by (simp_all add: ai_pre_def)
  from enemy_move_step [OF w actionType_move, of k 2 "step_sign dy", unfolded action_vec_move]
  obtain w' where
    w': "MakeEnemyAction i ?a w = Inr w'" "wf_world w'" "calm i w w'"
      "EnemyList w' ! i = (EnemyList w ! i)\<lparr>eCoords := vec3_add (eCoords (EnemyList w ! i))
          (vec3_make 0 (step_sign dy) 0)\<rparr>"
    by blast
  have i': "i < length (EnemyList w')" using w'(3) w(2) by (simp add: calm_def same_shape_def)
  note ts = target_step [OF wt b, of dy]
  note ws = walker_step [OF wc b, of dy]
  have "ai_pre (b + 1) m i (vec3_sub_assign_scalar target (step_sign dy)) w'"
    unfolding ai_pre_def using w' i' eq w m ts(1) ws(2) by (simp add: sg)
  moreover have "disp (vec3_sub_assign_scalar target (step_sign dy)) (eCoords (EnemyList w' ! i))
             = (dx - sgn dy, dy - 2 * sgn dy, dz - sgn dy)"
    using d ts(2-4) ws(4) w'(4) by (simp add: sg disp_def vec3_add_def vec3_make_def)
  moreover have "walked (Suc 0) (eCoords (EnemyList w ! i)) (eCoords (EnemyList w' ! i))"
    using ws(4) w'(4) sgn_abs_le [of dy] by (simp add: sg walked_def vec3_add_def vec3_make_def)
  ultimately show ?thesis using w' by blast
qed

lemma ai_step_hit:
  assumes pre: "ai_pre b (Suc m) i target w"
  shows "\<exists>w'. MakeEnemyAction i (attack_action k x y) w = Inr w' \<and> calm i w w' \<and>
           ai_pre (b + 1) m i target w' \<and> eCoords (EnemyList w' ! i) = eCoords (EnemyList w ! i)"
proof -
  from pre have w: "wf_world w" "i < length (EnemyList w)"
      "unat (eEquipedItemID (EnemyList w ! i)) < MaxInventorySize"
    by (simp_all add: ai_pre_def)
  from enemy_attack_step [OF w actionType_attack, of k x y] obtain w' where
    w': "MakeEnemyAction i (attack_action k x y) w = Inr w'" "wf_world w'" "calm i w w'"
      "eCoords (EnemyList w' ! i) = eCoords (EnemyList w ! i)" by blast
  moreover have "same_stance (EnemyList w ! i) (EnemyList w' ! i)"
    using w'(3) w(2) by (simp add: calm_def)
  moreover have "i < length (EnemyList w')" using w'(3) w(2) by (simp add: calm_def same_shape_def)
  ultimately show ?thesis using pre
    by (intro exI [of _ w']) (auto simp: ai_pre_def same_stance_def intro: inside_mono)
qed

lemma ai_result_cont:
  assumes "ai_result (b + 1) m n i active cand left' target' w' (acts @ [act_of active a])"
    and "calm i w w'" and "walked (Suc 0) (eCoords (EnemyList w ! i)) (eCoords (EnemyList w' ! i))"
    and "ai_loop (Suc n) i active cand left target w acts
           = ai_loop n i active cand left' target' w' (acts @ [act_of active a])"
    and "ai_plan (Suc m) (disp target (eCoords (EnemyList w ! i)))
           = map_option ((#) a) (ai_plan m (disp target' (eCoords (EnemyList w' ! i))))"
  shows "ai_result b (Suc m) (Suc n) i active cand left target w acts"
  using assms by (auto simp: ai_result_def algebra_simps split: option.splits elim: calm_trans walked_step)

text \<open>One iteration, when the iterations after it follow the plan.\<close>

lemma ai_loop_iteration:
  assumes left: "unat left = Suc m'" and cand: "cand \<noteq> InvalidID" and pre: "ai_pre b (Suc m') i target w"
    and next_iteration: "\<And>b' target' w' acts'. ai_pre b' m' i target' w' \<Longrightarrow>
      ai_result b' m' n i active cand (left - 1) target' w' acts'"
    and here: "ai_result b (Suc m') n i active cand left target w acts"
  shows "ai_result b (Suc m') (Suc n) i active cand left target w acts"
proof -
  obtain dx dy dz where d: "disp target (eCoords (EnemyList w ! i)) = (dx, dy, dz)"
    by (metis prod_cases3)
  note run = ai_loop_ready [OF left cand pre d, of n active acts]
  consider (hit) "dx * dx + dy * dy + dz * dz < 4"
    | (x) "\<not> dx * dx + dy * dy + dz * dz < 4" "dx \<noteq> 0"
    | (y) "\<not> dx * dx + dy * dy + dz * dz < 4" "dx = 0" "dy \<noteq> 0"
    | (stuck) "\<not> dx * dx + dy * dy + dz * dz < 4" "dx = 0" "dy = 0" by blast
  then show ?thesis
  proof cases
    case hit
    from ai_step_hit [OF pre, of active dx dy] obtain w' where
      w': "MakeEnemyAction i (attack_action active dx dy) w = Inr w'" "calm i w w'"
        "ai_pre (b + 1) m' i target w'" "eCoords (EnemyList w' ! i) = eCoords (EnemyList w ! i)" by blast
    show ?thesis
      by (rule ai_result_cont [where a = "Hit dx dy", OF next_iteration [OF w'(3)] w'(2)])
        (use hit w' d run in simp_all)
  next
    case x
    from ai_step_x [OF pre d x(2), of active] obtain w' where
      w': "MakeEnemyAction i (move_action active 1 (step_sign dx)) w = Inr w'" "calm i w w'"
        "walked (Suc 0) (eCoords (EnemyList w ! i)) (eCoords (EnemyList w' ! i))"
        "ai_pre (b + 1) m' i (vec3_sub_assign_scalar target (step_sign dx)) w'"
        "disp (vec3_sub_assign_scalar target (step_sign dx)) (eCoords (EnemyList w' ! i))
           = (dx - 2 * sgn dx, dy - sgn dx, dz - sgn dx)" by blast
    show ?thesis
      by (rule ai_result_cont [where a = "StepX (sgn dx)", OF next_iteration [OF w'(4)] w'(2,3)])
        (use x w' d run in \<open>simp_all add: step_sign_sgn\<close>)
  next
    case y
    from ai_step_y [OF pre d y(3), of active] obtain w' where
      w': "MakeEnemyAction i (move_action active 2 (step_sign dy)) w = Inr w'" "calm i w w'"
        "walked (Suc 0) (eCoords (EnemyList w ! i)) (eCoords (EnemyList w' ! i))"
        "ai_pre (b + 1) m' i (vec3_sub_assign_scalar target (step_sign dy)) w'"
        "disp (vec3_sub_assign_scalar target (step_sign dy)) (eCoords (EnemyList w' ! i))
           = (dx - sgn dy, dy - 2 * sgn dy, dz - sgn dy)" by blast
    show ?thesis
      by (rule ai_result_cont [where a = "StepY (sgn dy)", OF next_iteration [OF w'(4)] w'(2,3)])
        (use y w' d run in \<open>simp_all add: step_sign_sgn\<close>)
  next
    case stuck
    have "n = 0 \<or> ai_loop n i active cand left target w acts = Inl OutOfFuel"
      using here stuck d by (simp add: ai_result_def)
    then show ?thesis using stuck d run by (auto simp: ai_result_def)
  qed
qed

lemma ai_loop_follows_plan:
  assumes "unat left = m" and "cand \<noteq> InvalidID" and "ai_pre b m i target w"
  shows "ai_result b m n i active cand left target w acts"
  using assms
proof (induction n arbitrary: b m left target w acts)
  case 0
  then show ?case by (simp add: ai_result_def split: option.splits)
next
  case (Suc n b m left target w acts)
  show ?case
  proof (cases m)
    case 0
    then have "left = 0" using Suc.prems(1) by (simp add: unat_eq_zero)
    then show ?thesis using 0 Suc.prems(3) by (simp add: ai_result_def ai_loop.simps(2) ai_pre_def)
  next
    case (Suc m')
    have left': "unat (left - 1) = m'" using Suc.prems(1) Suc by (intro unat_pred) auto
    show ?thesis
      unfolding Suc
      by (rule ai_loop_iteration [OF Suc.prems(1) [unfolded Suc] Suc.prems(2) Suc.prems(3) [unfolded Suc]
            Suc.IH [OF left' Suc.prems(2)] Suc.IH [OF Suc.prems(1) [unfolded Suc] Suc.prems(2) Suc.prems(3) [unfolded Suc]]])
  qed
qed


section \<open>When the enemy loop ends\<close>

lemma ai_plan_three_hang: "ai_plan 3 (4, 2, 0) = None" "ai_plan 3 (- 4, - 2, 0) = None"
  by (simp_all add: eval_nat_numeral)

lemma ai_plan_stuck_first:
  "ai_plan (Suc 0) (dx, dy, dz) = None \<longleftrightarrow> dx = 0 \<and> dy = 0 \<and> 4 \<le> dz * dz"
  by auto

lemma ai_plan_stuck_second:
  assumes "dz * dz \<le> 1"
  shows "ai_plan (Suc (Suc 0)) (dx, dy, dz) = None \<longleftrightarrow>
           (\<exists>s \<in> {-1, 1}. dx = 2 * s \<and> dy = s \<and> dz = - s)"
proof -
  have "dz = -1 \<or> dz = 0 \<or> dz = 1"
  proof -
    have "dz * dz < 2 * 2" using assms by simp
    then have "\<bar>dz\<bar> < 2" using abs_square_less_1 power_less_imp_less_base [of "\<bar>dz\<bar>" 2 2]
      by (simp add: power2_eq_square)
    then show ?thesis by linarith
  qed
  then show ?thesis
    by (elim disjE; cases "0 < dx"; cases "dx = 0"; cases "0 < dy"; cases "dy = 0")
      (auto simp: sgn_if add_eq_0_iff2 split: if_splits)
qed


lemma ai_plan_three:
  "ai_plan 3 (dx, dy, 0) = None \<longleftrightarrow> (dx, dy) \<in> {(4, 2), (- 4, - 2)}"
proof -
  have three: "(3::nat) = Suc (Suc (Suc 0))" by simp
  have two: "ai_plan (Suc (Suc 0)) (x, y, 0) \<noteq> None" for x y by (rule ai_plan_two) simp
  have step: "ai_plan 3 (dx, dy, 0) =
     (if dx * dx + dy * dy < 4 then map_option ((#) (Hit dx dy)) (ai_plan (Suc (Suc 0)) (dx, dy, 0))
      else if dx \<noteq> 0 then map_option ((#) (StepX (sgn dx)))
        (ai_plan (Suc (Suc 0)) (dx - 2 * sgn dx, dy - sgn dx, 0 - sgn dx))
      else if dy \<noteq> 0 then map_option ((#) (StepY (sgn dy)))
        (ai_plan (Suc (Suc 0)) (dx - sgn dy, dy - 2 * sgn dy, 0 - sgn dy))
      else None)"
    unfolding three by (subst ai_plan.simps(2)) simp
  have sq: "(0 - sgn d) * (0 - sgn d) \<le> 1" for d :: int by (simp add: sgn_if)
  show ?thesis
    unfolding step
    using two [of dx dy] ai_plan_stuck_second [OF sq [of dx], of "dx - 2 * sgn dx" "dy - sgn dx"]
      ai_plan_stuck_second [OF sq [of dy], of "dx - sgn dy" "dy - 2 * sgn dy"]
    by (cases "0 < dx"; cases "dx = 0"; cases "0 < dy"; cases "dy = 0") (auto simp del: ai_plan.simps)
qed

end
