(* ===== verification/EnemyTurn.thy ===== *)
theory EnemyTurn
  imports EnemyAI
begin

text \<open>
  Properties of the enemy turn: which target an enemy picks, when its action loop ends, what its
  attacks aim at, and that a turn over the whole enemy list returns or hangs but never faults.
\<close>

section \<open>Choosing a target\<close>

text \<open>A candidate the search has looked at: a player, or an enemy of another faction, by position.\<close>

lemma Lenght_within:
  assumes "inside 52 t" and "inside 52 c"
  shows "\<exists>d. vec3_Lenght_i16 (vec3_sub t c) = Inr d"
  using Lenght_far_iff [OF assms] by (metis prod_cases3)

definition ai_nearer :: "Enemy \<Rightarrow> ai_target \<Rightarrow> CoordVec \<Rightarrow> bool" where
  "ai_nearer e t c \<longleftrightarrow>
     (\<exists>d. vec3_Lenght_i16 (vec3_sub c (eCoords e)) = Inr d \<and> sint (DistanceToTarget t) \<le> sint d)"

definition ai_at :: "Enemy \<Rightarrow> ai_target \<Rightarrow> bool" where
  "ai_at e t \<longleftrightarrow>
     vec3_Lenght_i16 (vec3_sub (TargetCoords t) (eCoords e)) = Inr (DistanceToTarget t)"

lemma consider_candidate_within:
  assumes "inside 52 c" and "inside 52 (eCoords e)"
  shows "\<exists>t'. consider_candidate e b i c t = Inr t' \<and> ai_nearer e t' c \<and>
           sint (DistanceToTarget t') \<le> sint (DistanceToTarget t) \<and>
           (t' = t \<or> ai_at e t' \<and> IsItPlayer t' = b \<and> BestAttackCandidate t' = i \<and>
             TargetCoords t' = c)"
proof -
  from Lenght_within [OF assms] obtain d where "vec3_Lenght_i16 (vec3_sub c (eCoords e)) = Inr d" ..
  then show ?thesis by (auto simp: consider_candidate_def ai_nearer_def ai_at_def)
qed

lemma ai_nearer_mono:
  "ai_nearer e t c \<Longrightarrow> sint (DistanceToTarget t') \<le> sint (DistanceToTarget t) \<Longrightarrow> ai_nearer e t' c"
  by (auto simp: ai_nearer_def)

text \<open>The candidates a search over a list has considered, and the target it leaves.\<close>

definition picked :: "Enemy \<Rightarrow> bool \<Rightarrow> (u32 \<times> CoordVec) list \<Rightarrow> ai_target \<Rightarrow> ai_target \<Rightarrow> bool" where
  "picked e b cs t t' \<longleftrightarrow>
     (\<forall>(i, c) \<in> set cs. ai_nearer e t' c) \<and>
     sint (DistanceToTarget t') \<le> sint (DistanceToTarget t) \<and>
     (t' = t \<or> ai_at e t' \<and> IsItPlayer t' = b \<and> (BestAttackCandidate t', TargetCoords t') \<in> set cs)"

lemma pick_step:
  assumes "inside 52 c" and "inside 52 (eCoords e)"
  shows "\<exists>t'. consider_candidate e b i c t = Inr t' \<and> picked e b [(i, c)] t t'"
  using consider_candidate_within [OF assms, of b i t] by (auto simp: picked_def)

lemma picked_append:
  "picked e b cs t t' \<Longrightarrow> picked e b cs' t' t'' \<Longrightarrow> picked e b (cs @ cs') t t''"
  by (fastforce simp: picked_def elim: ai_nearer_mono)

lemma picked_nil: "picked e b [] t t"
  by (simp add: picked_def)

lemma pick_players:
  assumes "inside 52 (eCoords e)" and "\<forall>(k, p) \<in> set ps. inside 52 (pCoords p)"
  shows "\<exists>t'. res_fold (\<lambda>(k, p). consider_candidate e True (pID p) (pCoords p)) ps t = Inr t' \<and>
           picked e True (map (\<lambda>(k, p). (pID p, pCoords p)) ps) t t'"
  using assms(2)
proof (induction ps arbitrary: t)
  case Nil
  then show ?case by (simp add: picked_nil)
next
  case (Cons x ps)
  obtain k p where x: "x = (k, p)" by fastforce
  with Cons.prems have "inside 52 (pCoords p)" by simp
  from pick_step [OF this assms(1), of True "pID p" t] obtain s where
    s: "consider_candidate e True (pID p) (pCoords p) t = Inr s"
      "picked e True [(pID p, pCoords p)] t s" by blast
  from Cons.IH [of s] Cons.prems obtain t' where
    "res_fold (\<lambda>(k, p). consider_candidate e True (pID p) (pCoords p)) ps s = Inr t'"
    "picked e True (map (\<lambda>(k, p). (pID p, pCoords p)) ps) s t'" by auto
  then show ?case using s x picked_append [OF s(2)] by simp
qed

text \<open>The enemies of other factions, with their positions in the list.\<close>

definition foes :: "Enemy \<Rightarrow> (nat \<times> Enemy) list \<Rightarrow> (u32 \<times> CoordVec) list" where
  "foes e es = map (\<lambda>(i, o'). (word_of_nat i, eCoords o')) (filter (\<lambda>(i, o'). faction e \<noteq> faction o') es)"

lemma pick_enemies:
  assumes "inside 52 (eCoords e)" and "\<forall>(i, o') \<in> set es. inside 52 (eCoords o')"
  shows "\<exists>t'. res_fold (\<lambda>(i, oe) t. if faction e \<noteq> faction oe
                 then consider_candidate e False (word_of_nat i) (eCoords oe) t else Inr t) es t = Inr t' \<and>
           picked e False (foes e es) t t'"
  using assms(2)
proof (induction es arbitrary: t)
  case Nil
  then show ?case by (simp add: picked_nil foes_def)
next
  case (Cons x es)
  let ?f = "\<lambda>(i, oe) t. if faction e \<noteq> faction oe
                 then consider_candidate e False (word_of_nat i) (eCoords oe) t else Inr t"
  obtain i oe where x: "x = (i, oe)" by fastforce
  with Cons.prems have "inside 52 (eCoords oe)" by simp
  from pick_step [OF this assms(1), of False "word_of_nat i" t] obtain s where
    s: "?f x t = Inr s" "picked e False (foes e [x]) t s"
    using x picked_nil [of e False t] by (cases "faction e = faction oe") (auto simp: foes_def)
  from Cons.IH [of s] Cons.prems obtain t' where
    t': "res_fold ?f es s = Inr t'" "picked e False (foes e es) s t'" by auto
  have "foes e (x # es) = foes e [x] @ foes e es" by (simp add: foes_def)
  then show ?case using s(1) t' picked_append [OF s(2) t'(2)] by (auto simp only: res_fold.simps res_bind_Inr)
qed


definition ai_field :: "GameWorld \<Rightarrow> bool" where
  "ai_field w \<longleftrightarrow>
     (\<forall>(k, p) \<in> set (PlayersList w). inside 40 (pCoords p)) \<and>
     (\<forall>e \<in> set (EnemyList w). inside 43 (eCoords e))"

definition found_player :: "GameWorld \<Rightarrow> ai_target \<Rightarrow> bool" where
  "found_player w t \<longleftrightarrow>
     (\<exists>(k, p) \<in> set (PlayersList w). BestAttackCandidate t = pID p \<and> TargetCoords t = pCoords p)"

definition found_foe :: "GameWorld \<Rightarrow> Enemy \<Rightarrow> ai_target \<Rightarrow> bool" where
  "found_foe w e t \<longleftrightarrow>
     (\<exists>(i, o') \<in> set (enumerate 0 (EnemyList w)). faction o' \<noteq> faction e \<and>
        BestAttackCandidate t = word_of_nat i \<and> TargetCoords t = eCoords o')"

lemma found_foeI:
  assumes "(BestAttackCandidate t, TargetCoords t) \<in> set (foes e (enumerate 0 (EnemyList w)))"
  shows "found_foe w e t"
proof -
  from assms obtain i o' where "(i, o') \<in> set (enumerate 0 (EnemyList w))" "faction o' \<noteq> faction e"
    "BestAttackCandidate t = word_of_nat i" "TargetCoords t = eCoords o'"
    by (auto simp: foes_def)
  then show ?thesis unfolding found_foe_def by blast
qed

lemma within_field:
  assumes "ai_field w"
  shows "\<forall>(k, p) \<in> set (PlayersList w). inside 52 (pCoords p)"
    and "\<forall>(i, o') \<in> set (enumerate n (EnemyList w)). inside 52 (eCoords o')"
proof -
  show "\<forall>(k, p) \<in> set (PlayersList w). inside 52 (pCoords p)"
    using assms by (auto simp: ai_field_def intro: inside_mono)
  have "inside 52 (eCoords o')" if "(i, o') \<in> set (enumerate n (EnemyList w))" for i o'
  proof -
    have "o' \<in> set (EnemyList w)" using that by (auto simp: in_set_enumerate_eq)
    then show ?thesis using assms by (auto simp: ai_field_def intro: inside_mono)
  qed
  then show "\<forall>(i, o') \<in> set (enumerate n (EnemyList w)). inside 52 (eCoords o')" by blast
qed

lemma choose_target_cases:
  assumes "inside 52 (eCoords e)" and "ai_field w"
  shows "\<exists>t. choose_target w e = Inr t \<and>
           (\<forall>(k, p) \<in> set (PlayersList w). ai_nearer e t (pCoords p)) \<and>
           (t = no_target \<or> ai_at e t \<and> (if IsItPlayer t then found_player w t else found_foe w e t)) \<and>
           ((\<not> IsItPlayer t \<or> 5 < sint (DistanceToTarget t)) \<longrightarrow>
              (\<forall>o' \<in> set (EnemyList w). faction o' \<noteq> faction e \<longrightarrow> ai_nearer e t (eCoords o')))"
proof -
  let ?ps = "map (\<lambda>(k, p). (pID p, pCoords p)) (PlayersList w)"
  let ?es = "enumerate 0 (EnemyList w)"
  from pick_players [OF assms(1) within_field(1) [OF assms(2)], of no_target] obtain t where
    t: "res_fold (\<lambda>(k, p). consider_candidate e True (pID p) (pCoords p)) (PlayersList w) no_target = Inr t"
      "picked e True ?ps no_target t" by blast
  have np: "\<not> IsItPlayer no_target" by (simp add: no_target_def)
  have pl: "t = no_target \<or> ai_at e t \<and> IsItPlayer t \<and> found_player w t"
    using t(2) by (auto simp: picked_def found_player_def)
  have pn: "\<forall>(k, p) \<in> set (PlayersList w). ai_nearer e t (pCoords p)"
    using t(2) by (auto simp: picked_def)
  show ?thesis
  proof (cases "\<not> IsItPlayer t \<or> 5 < sint (DistanceToTarget t)")
    case True
    from pick_enemies [OF assms(1) within_field(2) [OF assms(2), of 0], of t] obtain u where
      u: "choose_target w e = Inr u" "picked e False (foes e ?es) t u"
      using True t(1) by (auto simp: choose_target_def)
    have foe: "ai_nearer e u (eCoords o')" if "o' \<in> set (EnemyList w)" "faction o' \<noteq> faction e" for o'
    proof -
      from that(1) obtain i where "i < length (EnemyList w)" "EnemyList w ! i = o'"
        by (auto simp: in_set_conv_nth)
      then have "(i, o') \<in> set ?es" by (auto simp: in_set_enumerate_eq)
      then show ?thesis using u(2) that(2) by (auto simp: picked_def foes_def)
    qed
    have "u = t \<or> ai_at e u \<and> \<not> IsItPlayer u \<and> found_foe w e u"
      using u(2) by (auto simp: picked_def intro: found_foeI)
    moreover have "\<forall>(k, p) \<in> set (PlayersList w). ai_nearer e u (pCoords p)"
      using u(2) pn by (auto simp: picked_def elim: ai_nearer_mono)
    ultimately show ?thesis using u(1) foe pl by auto
  next
    case False
    then show ?thesis using t(1) pl pn np by (auto simp: choose_target_def)
  qed
qed

text \<open>
  Property C23. On a field of the size of the map, the search of \<^verbatim>\<open>MakeAITurn\<close> returns a target no
  player is nearer than; the target is the default one, or a player, or an enemy of another faction,
  at exactly the recorded distance; and when it is no player within five tiles, no enemy of another
  faction is nearer either.
\<close>

theorem choose_target_nearest:
  assumes "inside 52 (eCoords e)" and "ai_field w"
  shows "\<exists>t. choose_target w e = Inr t \<and>
           (\<forall>(k, p) \<in> set (PlayersList w). ai_nearer e t (pCoords p)) \<and>
           (t = no_target \<or> ai_at e t \<and> (if IsItPlayer t then found_player w t else found_foe w e t)) \<and>
           ((\<not> IsItPlayer t \<or> 5 < sint (DistanceToTarget t)) \<longrightarrow>
              (\<forall>o' \<in> set (EnemyList w). faction o' \<noteq> faction e \<longrightarrow> ai_nearer e t (eCoords o')))"
  by (rule choose_target_cases [OF assms])

lemma ai_field_sample [simp]: "ai_field sample_world"
  by (simp add: ai_field_def sample_world_def sample_player_def EnemiesTable_def inside_def
      vec3_make_def vec3_zero_def)

theorem choose_target_nearest_witness:
  "\<exists>t. choose_target sample_world (EnemiesTable ! 0) = Inr t \<and>
       (\<forall>(k, p) \<in> set (PlayersList sample_world). ai_nearer (EnemiesTable ! 0) t (pCoords p))"
proof -
  have "inside 52 (eCoords (EnemiesTable ! 0))" by (simp add: EnemiesTable_def inside_def vec3_zero_def)
  from choose_target_nearest [OF this ai_field_sample] show ?thesis by blast
qed

section \<open>When the loop of an enemy ends\<close>

text \<open>
  Property C1. The action loop of an enemy with at most three actions, chasing a target on its own
  level, returns, unless it has three actions and the target is exactly at \<open>(4, 2)\<close> or
  \<open>(-4, -2)\<close> from it: then the loop never ends, and the server thread with it.
\<close>

theorem ai_loop_returns_iff:
  assumes "unat left \<le> 3" and "cand \<noteq> InvalidID" and "ai_pre b (unat left) i target w"
    and "disp target (eCoords (EnemyList w ! i)) = (dx, dy, 0)"
  shows "(\<exists>n r. ai_loop n i active cand left target w acts = Inr r) \<longleftrightarrow>
           \<not> (unat left = 3 \<and> (dx, dy) \<in> {(4, 2), (- 4, - 2)})"
proof -
  have plan: "ai_plan (unat left) (dx, dy, 0) = None \<longleftrightarrow>
      unat left = 3 \<and> (dx, dy) \<in> {(4, 2), (- 4, - 2)}"
  proof (cases "unat left = 3")
    case True
    show ?thesis using ai_plan_three [of dx dy] by (simp only: True simp_thms)
  next
    case False
    then have "unat left \<le> 2" using assms(1) by simp
    from ai_plan_two [OF this] False show ?thesis by simp
  qed
  have res: "ai_result b (unat left) n i active cand left target w acts" for n
    by (rule ai_loop_follows_plan [OF refl assms(2,3)])
  show ?thesis
  proof (cases "ai_plan (unat left) (dx, dy, 0)")
    case None
    then show ?thesis using res plan assms(4) by (simp add: ai_result_def)
  next
    case (Some as)
    then show ?thesis using res [of "Suc (unat left)"] plan assms(4) by (auto simp: ai_result_def)
  qed
qed

lemma sample_zombie_pre: "ai_pre 40 3 0 (vec3_make 4 2 0) sample_world"
proof -
  have "EnemyList sample_world ! 0 = EnemiesTable ! 0" "0 < length (EnemyList sample_world)"
    by (simp_all add: sample_world_def)
  then show ?thesis
    by (simp add: ai_pre_def) (simp add: EnemiesTable_def inside_def vec3_make_def vec3_zero_def MaxInventorySize_def)
qed

theorem ai_loop_returns_iff_witness:
  "\<not> (\<exists>n r. ai_loop n 0 0 10000 3 (vec3_make 4 2 0) sample_world [] = Inr r)"
proof -
  have "disp (vec3_make 4 2 0) (eCoords (EnemyList sample_world ! 0)) = (4, 2, 0)"
    by (simp add: disp_def vec3_make_def sample_world_def EnemiesTable_def vec3_zero_def)
  from ai_loop_returns_iff [of 3 10000 40 0 "vec3_make 4 2 0" sample_world 4 2 0 "[]"] this
  show ?thesis by (simp add: sample_zombie_pre InvalidID_def)
qed


text \<open>
  Property C2. The action loop implements its plan: with one unit of fuel more than actions it
  performs exactly the planned actions, keeps the world well-formed, moves nobody else, and never
  walks further than its actions; without a plan no amount of fuel lets it return.
\<close>

theorem ai_loop_refines_plan:
  assumes "cand \<noteq> InvalidID" and "ai_pre b (unat left) i target w"
  shows "case ai_plan (unat left) (disp target (eCoords (EnemyList w ! i))) of
      None \<Rightarrow> ai_loop n i active cand left target w acts = Inl OutOfFuel
    | Some plan \<Rightarrow> \<exists>w'. ai_loop (Suc (unat left) + n) i active cand left target w acts
          = Inr (w', acts @ map (act_of active) plan) \<and>
        length plan = unat left \<and> wf_world w' \<and> calm i w w' \<and>
        walked (unat left) (eCoords (EnemyList w ! i)) (eCoords (EnemyList w' ! i))"
  using ai_loop_follows_plan [OF refl assms, of n active acts]
    ai_loop_follows_plan [OF refl assms, of "Suc (unat left) + n" active acts]
  by (auto simp: ai_result_def dest: ai_plan_length split: option.splits)

theorem ai_loop_refines_plan_witness:
  "\<exists>w'. ai_loop 4 0 0 10000 3 (vec3_make 3 0 0) sample_world []
          = Inr (w', map (act_of 0) [StepX 1, Hit 1 (- 1), Hit 1 (- 1)])"
proof -
  have d: "disp (vec3_make 3 0 0) (eCoords (EnemyList sample_world ! 0)) = (3, 0, 0)"
    by (simp add: disp_def vec3_make_def sample_world_def EnemiesTable_def vec3_zero_def)
  have "ai_plan 3 (3, 0, 0) = Some [StepX 1, Hit 1 (- 1), Hit 1 (- 1)]"
    by (simp add: eval_nat_numeral)
  moreover have "ai_pre 40 3 0 (vec3_make 3 0 0) sample_world"
    using sample_zombie_pre by (simp add: ai_pre_def inside_def vec3_make_def)
  moreover have u: "unat (3::u32) = 3" and c: "(10000::u32) \<noteq> InvalidID" by (simp_all add: InvalidID_def)
  ultimately have "\<exists>w'. ai_loop (Suc 3 + 0) 0 0 10000 3 (vec3_make 3 0 0) sample_world []
          = Inr (w', [] @ map (act_of 0) [StepX 1, Hit 1 (- 1), Hit 1 (- 1)])"
    using ai_loop_refines_plan [of 10000 40 3 0 "vec3_make 3 0 0" sample_world 0 0 "[]", unfolded u d]
    by (auto simp del: act_of.simps ai_plan.simps)
  moreover have "Suc 3 + 0 = (4::nat)" by simp
  ultimately show ?thesis by (simp only: append_Nil)
qed

text \<open>
  An enemy with two actions that has to walk first never aims its blow at its target:
  the loop takes the step off every component of the target it remembers, so the planned blow
  differs from the displacement that is left after the step.
\<close>

theorem ai_walk_then_hit_misses:
  "ai_plan 2 (dx, dy, 0) \<noteq> Some [StepX sx, Hit (dx - sx) (dy)] \<and>
   ai_plan 2 (dx, dy, 0) \<noteq> Some [StepY sy, Hit dx (dy - sy)]"
  by (auto simp: eval_nat_numeral sgn_if split: if_splits)

section \<open>The turn of the whole list\<close>

text \<open>
  \<open>ai_ready n w\<close>: every enemy is armed and has at most three actions, everybody stands on the map's
  scale, and the enemies from position \<open>n\<close> on have not walked yet.
\<close>

definition ai_ready :: "nat \<Rightarrow> GameWorld \<Rightarrow> bool" where
  "ai_ready n w \<longleftrightarrow>
     wf_world w \<and> ai_field w \<and>
     (\<forall>e \<in> set (EnemyList w). armed e \<and> unat (MaxActions e) \<le> 3) \<and>
     (\<forall>e \<in> set (drop n (EnemyList w)). inside 40 (eCoords e))"

lemma equip_armed:
  assumes "armed e" and "wf_Enemy e"
  shows "equip_enemy e = Inr e"
proof -
  have "eEquipedItemID e \<noteq> InvalidID"
    using assms(1) by (auto simp: armed_def InvalidID_def MaxInventorySize_def)
  then show ?thesis using assms
    by (simp add: equip_enemy_def needs_weapon_def storage_at_wf armed_def wf_Enemy_def)
qed


lemma calm_within:
  assumes "calm i w w'" and "j < length (EnemyList w)" and "j \<noteq> i" and "inside b (eCoords (EnemyList w ! j))"
  shows "inside b (eCoords (EnemyList w' ! j))"
  using assms by (simp add: calm_def)

lemma calm_players_within:
  assumes "calm i w w'" and "wf_world w" and "wf_world w'"
    and "\<forall>(k, p) \<in> set (PlayersList w). inside b (pCoords p)"
  shows "\<forall>(k, p) \<in> set (PlayersList w'). inside b (pCoords p)"
proof -
  have dist: "distinct (map fst (PlayersList w))" "distinct (map fst (PlayersList w'))"
    using assms(2,3) by (simp_all add: wf_world_def)
  have "inside b (pCoords p')" if "(k, p') \<in> set (PlayersList w')" for k p'
  proof -
    have "players w' k = Some p'" using that dist by simp
    then have "map_option pCoords (players w k) = Some (pCoords p')"
      using assms(1) unfolding calm_def by (metis option.simps(9))
    then obtain p where "players w k = Some p" "pCoords p = pCoords p'" by auto
    then show ?thesis using assms(4) map_of_SomeD by fastforce
  qed
  then show ?thesis by blast
qed

text \<open>One pass of the loop over the enemies, on a field where everybody is ready.\<close>

lemma ai_ready_step:
  assumes r: "ai_ready n w" and n: "n < length (EnemyList w)"
    and c: "calm n w w'" "wf_world w'" "walked 3 (eCoords (EnemyList w ! n)) (eCoords (EnemyList w' ! n))"
  shows "ai_ready (Suc n) w'"
proof -
  have len: "length (EnemyList w') = length (EnemyList w)"
    using c(1) by (simp add: calm_def same_shape_def)
  have now: "inside 40 (eCoords (EnemyList w ! n))"
    using r n by (simp add: ai_ready_def flip: Cons_nth_drop_Suc)
  have others: "inside b (eCoords (EnemyList w' ! j))"
    if "j < length (EnemyList w)" "j \<noteq> n" "inside b (eCoords (EnemyList w ! j))" for j b
    using that calm_within [OF c(1)] by blast
  have mover: "inside 43 (eCoords (EnemyList w' ! n))"
    using walked_within [OF c(3) now] by simp
  have "inside 43 (eCoords (EnemyList w' ! j))" if "j < length (EnemyList w)" for j
    using that others [OF that] mover r by (cases "j = n") (auto simp: ai_ready_def ai_field_def)
  moreover have "inside 40 (eCoords (EnemyList w' ! j))" if "Suc n \<le> j" "j < length (EnemyList w)" for j
  proof -
    have "EnemyList w ! j \<in> set (drop n (EnemyList w))"
      using that nth_mem [of "j - n" "drop n (EnemyList w)"] by simp
    then show ?thesis using that others [of j 40] r by (simp add: ai_ready_def)
  qed
  moreover have "armed (EnemyList w' ! j) \<and> unat (MaxActions (EnemyList w' ! j)) \<le> 3"
    if "j < length (EnemyList w)" for j
    using that r c(1) by (simp add: ai_ready_def calm_def same_stance_def)
  moreover have "\<forall>(k, p) \<in> set (PlayersList w'). inside 40 (pCoords p)"
    using r by (intro calm_players_within [OF c(1) _ c(2)]) (simp_all add: ai_ready_def ai_field_def)
  ultimately show ?thesis
    using c(2) len by (auto simp: ai_ready_def ai_field_def in_set_conv_nth)
qed

lemma ai_ready_skip:
  assumes "ai_ready n w"
  shows "ai_ready (Suc n) w"
  using assms set_drop_subset_set_drop [of n "Suc n" "EnemyList w"] by (auto simp: ai_ready_def)

text \<open>What one enemy's turn ends in: a ready world, or a loop that never ends.\<close>

definition ai_ends :: "nat \<Rightarrow> nat \<Rightarrow> ai_state res \<Rightarrow> bool" where
  "ai_ends l n r \<longleftrightarrow>
     (case r of Inl f \<Rightarrow> f = OutOfFuel
      | Inr s \<Rightarrow> ai_ready n (ai_world s) \<and> length (EnemyList (ai_world s)) = l)"

lemma choose_target_within:
  assumes "ai_field w" and "choose_target w e = Inr t" and "inside 52 (eCoords e)"
  shows "inside 43 (TargetCoords t)"
proof -
  from choose_target_cases [OF assms(3,1)] assms(2)
  have "t = no_target \<or> found_player w t \<or> found_foe w e t" by (auto split: if_splits)
  then show ?thesis
  proof (elim disjE)
    assume "t = no_target"
    then show ?thesis by (simp add: no_target_def inside_def vec3_zero_def)
  next
    assume "found_player w t"
    then obtain k p where "(k, p) \<in> set (PlayersList w)" "TargetCoords t = pCoords p"
      by (auto simp: found_player_def)
    then have "inside 40 (TargetCoords t)" using assms(1) by (auto simp: ai_field_def)
    then show ?thesis by (rule inside_mono) simp
  next
    assume "found_foe w e t"
    then obtain i where "i < length (EnemyList w)" "TargetCoords t = eCoords (EnemyList w ! i)"
      by (auto simp: found_foe_def in_set_enumerate_eq)
    then show ?thesis using assms(1) by (simp add: ai_field_def)
  qed
qed

text \<open>The action loop of an enemy with a target, from a ready field.\<close>

lemma ai_loop_on_ready_field:
  assumes r: "ai_ready i w" and i: "i < length (EnemyList w)" and fuel: "3 < fuel"
    and cand: "cand \<noteq> InvalidID" and target: "inside 43 target"
  shows "ai_loop fuel i active cand (MaxActions (EnemyList w ! i)) target w acts = Inl OutOfFuel \<or>
    (\<exists>w' acts'. ai_loop fuel i active cand (MaxActions (EnemyList w ! i)) target w acts = Inr (w', acts') \<and>
       ai_ready (Suc i) w' \<and> length (EnemyList w') = length (EnemyList w))"
proof -
  let ?e = "EnemyList w ! i"
  let ?n = "unat (MaxActions ?e)"
  from r i have w: "wf_world w" and e: "armed ?e" "?n \<le> 3" by (simp_all add: ai_ready_def)
  have now: "inside 43 (eCoords ?e)"
    by (rule inside_mono [of 40]) (use r i in \<open>simp_all add: ai_ready_def flip: Cons_nth_drop_Suc\<close>)
  have "43 + int ?n \<le> 52" using e(2) by linarith
  then have pre: "ai_pre 43 ?n i target w"
    using e(1) w i now target by (simp add: ai_pre_def armed_def)
  note res = ai_loop_follows_plan [OF refl cand pre, of fuel active acts]
  show ?thesis
  proof (cases "ai_plan ?n (disp target (eCoords ?e))")
    case None
    then show ?thesis using res by (simp add: ai_result_def)
  next
    case (Some plan)
    have "?n < fuel" using e(2) fuel by simp
    with Some res obtain w' acts' where w':
      "ai_loop fuel i active cand (MaxActions ?e) target w acts = Inr (w', acts')"
      "wf_world w'" "calm i w w'" "walked ?n (eCoords ?e) (eCoords (EnemyList w' ! i))"
      by (auto simp: ai_result_def)
    have "walked 3 (eCoords ?e) (eCoords (EnemyList w' ! i))" using w'(4) e(2) by (simp add: walked_mono)
    then show ?thesis using ai_ready_step [OF r i w'(3,2)] w'(1,3)
      by (auto simp: calm_def same_shape_def)
  qed
qed

lemma enemy_turn_ends:
  assumes r: "ai_ready i (ai_world s)" and i: "i < length (EnemyList (ai_world s))" and fuel: "3 < fuel"
  shows "ai_ends (length (EnemyList (ai_world s))) (Suc i) (enemy_turn fuel i s)"
proof (cases "eHP (EnemyList (ai_world s) ! i) = 0")
  case True
  then show ?thesis using ai_ready_skip [OF r] by (simp add: enemy_turn_def Let_def ai_ends_def)
next
  case False
  let ?w = "ai_world s"
  let ?e = "EnemyList ?w ! i"
  from r i have w: "wf_world ?w" "ai_field ?w" and e: "armed ?e"
    by (simp_all add: ai_ready_def)
  have eq: "equip_enemy ?e = Inr ?e"
    by (rule equip_armed [OF e(1) wf_world_enemy [OF w(1) i]])
  have same: "?w\<lparr>EnemyList := (EnemyList ?w)[i := ?e]\<rparr> = ?w" by simp
  have now: "inside 40 (eCoords ?e)" using r i by (simp add: ai_ready_def flip: Cons_nth_drop_Suc)
  then have now52: "inside 52 (eCoords ?e)" by (rule inside_mono) simp
  from choose_target_cases [OF now52 w(2)] obtain t where t: "choose_target ?w ?e = Inr t" by blast
  have wt: "inside 43 (TargetCoords t)" by (rule choose_target_within [OF w(2) t now52])
  define left cand where "left = MaxActions ?e" and "cand = BestAttackCandidate t"
  define run where "run = ai_loop fuel i (ActiveEnemyID s) cand left (TargetCoords t) ?w (ai_acts s)"
  have turn: "enemy_turn fuel i s = res_bind run (\<lambda>(w'', acts).
      Inr (s\<lparr>ai_world := w'', ai_acts := acts, ActiveEnemyID := ActiveEnemyID s + 1\<rparr>))"
    using False eq t same by (simp add: enemy_turn_def Let_def run_def left_def cand_def)
  have fin: "run = Inl OutOfFuel \<or> (\<exists>w' acts. run = Inr (w', acts) \<and> ai_ready (Suc i) w' \<and>
      length (EnemyList w') = length (EnemyList ?w))"
  proof (cases "cand = InvalidID")
    case True
    then have "run = Inl OutOfFuel \<or> run = Inr (?w, ai_acts s)"
      by (cases fuel) (simp_all add: run_def ai_loop.simps(2))
    then show ?thesis using ai_ready_skip [OF r] by blast
  next
    case False
    then show ?thesis using ai_loop_on_ready_field [OF r i fuel _ wt] by (simp add: run_def left_def)
  qed
  then show ?thesis by (auto simp: turn ai_ends_def)
qed

text \<open>
  Property C3. On a ready field, with fuel for four iterations per enemy, the turn of all enemies
  leaves a well-formed world where everybody is still armed, or one of the enemies is stuck in its
  loop; no assertion fails and no undefined behaviour is reached.
\<close>

theorem enemies_turn_safe:
  assumes "ai_ready 0 w" and "3 < fuel"
  shows "case enemies_turn fuel w of
      Inl f \<Rightarrow> f = OutOfFuel
    | Inr s \<Rightarrow> wf_world (ai_world s) \<and> (\<forall>e \<in> set (EnemyList (ai_world s)). armed e) \<and>
        length (EnemyList (ai_world s)) = length (EnemyList w)"
proof -
  define n where "n = length (EnemyList w)"
  have run: "case res_fold (enemy_turn fuel) [k..<n] s of
      Inl f \<Rightarrow> f = OutOfFuel
    | Inr s' \<Rightarrow> ai_ready n (ai_world s') \<and> length (EnemyList (ai_world s')) = n"
    if "k \<le> n" and "ai_ready k (ai_world s)" and "length (EnemyList (ai_world s)) = n" for k s
    using that
  proof (induction "n - k" arbitrary: k s)
    case 0
    then show ?case by simp
  next
    case (Suc m)
    then have k: "k < n" by simp
    have ends: "ai_ends n (Suc k) (enemy_turn fuel k s)"
      using enemy_turn_ends [OF Suc.prems(2) _ assms(2)] Suc.prems(3) k by simp
    show ?case
    proof (cases "enemy_turn fuel k s")
      case (Inl f)
      then show ?thesis using ends k by (simp add: ai_ends_def upt_conv_Cons)
    next
      case (Inr s')
      then show ?thesis
        using Suc.hyps(1) [of "Suc k" s'] Suc.hyps(2) ends k by (simp add: ai_ends_def upt_conv_Cons)
    qed
  qed
  show ?thesis
    using run [of 0 "\<lparr>ai_world = w, ai_acts = [], ActiveEnemyID = 0, EnemyListDirt = False\<rparr>"] assms(1)
    by (auto simp: enemies_turn_def n_def ai_ready_def split: sum.splits)
qed


theorem enemies_turn_safe_witness:
  "case enemies_turn 4 sample_world of
      Inl f \<Rightarrow> f = OutOfFuel
    | Inr s \<Rightarrow> wf_world (ai_world s) \<and> (\<forall>e \<in> set (EnemyList (ai_world s)). armed e) \<and>
        length (EnemyList (ai_world s)) = length (EnemyList sample_world)"
proof -
  have "ai_ready 0 sample_world"
    by (simp add: ai_ready_def) (simp add: sample_world_def EnemiesTable_def armed_def inside_def
        vec3_make_def vec3_zero_def inventory_with_def table_slot_def ItemTable_def MaxInventorySize_def)
  then show ?thesis by (rule enemies_turn_safe) simp
qed

end
