(* ===== verification/GameServer.thy ===== *)
theory GameServer
  imports ServerInterface EnemyTurn
begin

text \<open>
  The game server, \<^verbatim>\<open>CustomServer\<close> of AsciiTerra_Server/GameServer.cpp, on top of the server interface
  and the game world.

  \<^item> \<^verbatim>\<open>rand()\<close> is a stream of numbers and a position in it: theorems hold for every stream.
  \<^item> \<^verbatim>\<open>PlayersList\<close> is an \<^verbatim>\<open>unordered_map\<close>: a new key may change the order of iteration altogether.
    \<open>hash_order\<close> ranks the keys after each insertion (insertions are told apart by the position in
    the random stream, as every registration draws from it): theorems hold for every ranking.
    Assigning to a key that is there and erasing a key keep the order, as the standard says.
  \<^item> \<^verbatim>\<open>OnClientDisconnect\<close>, \<^verbatim>\<open>ChooseNextPlayerForTurn\<close>, \<^verbatim>\<open>MakeAITurn\<close> and \<^verbatim>\<open>MessageClient\<close> call each
    other. The cycle is cut at \<^verbatim>\<open>OnClientDisconnect\<close>, which has fuel, one unit per nested call;
    \<open>OutOfFuel\<close> for every fuel is a recursion without end.
  \<^item> \<open>F\<close> is the fuel of the enemy action loops (theory EnemyAI).
  \<^item> Logging is left out, except for the dereferences it performs.
\<close>

section \<open>State\<close>

record custom_server = server_interface +
  gameWorld :: GameWorld
  GarbageIDs :: "u32 list"
  CurrentPlayerID :: u32
  rands :: "nat \<Rightarrow> nat"
  hash_order :: "nat \<Rightarrow> u32 \<Rightarrow> nat"
  rpos :: nat

definition rand :: "custom_server \<Rightarrow> nat \<times> custom_server" where
  "rand s = (rands s (rpos s), s\<lparr>rpos := Suc (rpos s)\<rparr>)"

abbreviation s_players :: "custom_server \<Rightarrow> (u32 \<times> Player) list" where
  "s_players s \<equiv> PlayersList (gameWorld s)"

definition set_players :: "(u32 \<times> Player) list \<Rightarrow> custom_server \<Rightarrow> custom_server" where
  "set_players ps s = s\<lparr>gameWorld := (gameWorld s)\<lparr>PlayersList := ps\<rparr>\<rparr>"

text \<open>\<^verbatim>\<open>PlayersList.insert_or_assign(k, p)\<close>, with the ranking of the keys should \<open>k\<close> be new.\<close>

definition insert_player :: "(u32 \<Rightarrow> nat) \<Rightarrow> u32 \<Rightarrow> Player \<Rightarrow> (u32 \<times> Player) list \<Rightarrow> (u32 \<times> Player) list" where
  "insert_player rank k p ps =
     (if k \<in> fst ` set ps then AList.update k p ps
      else sort_key (\<lambda>(k', q). rank k') (AList.update k p ps))"

section \<open>Generating the world\<close>

definition gen_tile :: "nat \<Rightarrow> nat \<Rightarrow> custom_server \<times> bytes \<Rightarrow> custom_server \<times> bytes" where
  "gen_tile height width st =
     (let (s, tiles) = st; i = width + height * Map_Width
      in if width = 0 \<or> width = Map_Width - 1 \<or> height = 0 \<or> height = Map_Height - 1
         then (s, tiles[i := Tile_Hill])
         else (let (r, s') = rand s in (s', tiles[i := word_of_nat (r mod unat Tile_Hill)])))"

definition GenerateMap :: "custom_server \<Rightarrow> custom_server" where
  "GenerateMap s =
     (let (s', tiles) =
        fold (\<lambda>height. fold (gen_tile height) [0..<Map_Width]) [0..<Map_Height]
          (s, MapTiles (gameWorld s))
      in s'\<lparr>gameWorld := (gameWorld s')\<lparr>MapTiles := tiles\<rparr>\<rparr>)"

definition gen_enemy :: "custom_server \<Rightarrow> custom_server" where
  "gen_enemy s =
     (let (t, s1) = rand s; (x, s2) = rand s1; (y, s3) = rand s2;
          e = (EnemiesTable ! (t mod 2))
                \<lparr>eCoords := vec3_make (word_of_nat (x mod 25 + 1)) (word_of_nat (y mod 25 + 1)) 0\<rparr>
      in s3\<lparr>gameWorld := (gameWorld s3)\<lparr>EnemyList := EnemyList (gameWorld s3) @ [e]\<rparr>\<rparr>)"

definition GenerateEnemies :: "custom_server \<Rightarrow> custom_server" where
  "GenerateEnemies s = (let (n, s') = rand s in (gen_enemy ^^ (n mod 25)) s')"

text \<open>The constructor; the tiles start with what the memory held.\<close>

definition CustomServer :: "bytes \<Rightarrow> (nat \<Rightarrow> nat) \<Rightarrow> (nat \<Rightarrow> u32 \<Rightarrow> nat) \<Rightarrow> custom_server" where
  "CustomServer memory rs ho =
     GenerateEnemies (GenerateMap
       \<lparr>heap = \<lambda>_. new_connection OwnerServer False 0 [], next_ref = 0, m_deqConnection = [], s_qIn = [],
        nIDCounter = 10000, accepts = 0, s_context_stopped = False, s_thread_joinable = False,
        gameWorld = \<lparr>PlayersList = [], EnemyList = [], MapTiles = memory, KillCallback = False,
                     kill_calls = []\<rparr>,
        GarbageIDs = [], CurrentPlayerID = 0, rands = rs, hash_order = ho, rpos = 0\<rparr>)"

section \<open>Connecting and registering\<close>

definition OnClientConnect :: "nat \<Rightarrow> custom_server \<Rightarrow> bool \<times> custom_server" where
  "OnClientConnect r s = (True, send_to r (new_message ServerAccept) s)"

text \<open>\<^verbatim>\<open>OnClientValidated\<close>, on the connection it is called with.\<close>

definition OnClientValidated :: "connection \<Rightarrow> connection" where
  "OnClientValidated c = Send (new_message ClientAccepted) c"

text \<open>
  \<^verbatim>\<open>for (i = 0; i < rand() % 5; i++) AddItem(ItemTable[rand() % 5])\<close>; \<open>k\<close> is \<open>5 - i\<close>: the condition is
  false for \<open>i = 4\<close> at the latest.
\<close>

primrec give_items :: "nat \<Rightarrow> Inventory \<Rightarrow> custom_server \<Rightarrow> Inventory \<times> custom_server" where
  "give_items 0 iv s = (iv, s)"
| "give_items (Suc k) iv s =
     (let (n, s1) = rand s
      in if 5 - Suc k < n mod 5
         then (let (m, s2) = rand s1 in give_items k (AddItem iv (ItemTable ! (m mod 5))) s2)
         else (iv, s1))"

text \<open>
  The spawn loop runs once: the two inner loops only \<^verbatim>\<open>continue\<close> themselves, and the flag is set at the
  end of the body.
\<close>

definition ClientOnRegister :: "Player \<Rightarrow> nat \<Rightarrow> custom_server \<Rightarrow> (Player \<times> custom_server) res" where
  "ClientOnRegister playerInfo client s =
     (let (x, s1) = rand s; (y, s2) = rand s1;
          p = playerInfo
            \<lparr>pID := GetID s client,
             pCoords := vec3_make (word_of_int (int (x mod Map_Width) - 1))
                          (word_of_int (int (y mod Map_Height) - 1)) 0\<rparr>
      in res_bind (SetMaxTurnActions 4 p) (\<lambda>p1. res_bind (SetCurrentTurnActions 4 p1) (\<lambda>p2.
           let (iv, s3) = give_items 5 (pInventory p2) s2
           in Inr (p2\<lparr>pHP := 45, pInventory := iv\<rparr>, s3))))"

section \<open>Turns\<close>

definition MakeAITurn :: "nat \<Rightarrow> custom_server handler \<Rightarrow> custom_server \<Rightarrow> custom_server res" where
  "MakeAITurn F disc s =
     res_bind (enemies_turn F (gameWorld s)) (\<lambda>a.
     res_bind (res_fold (\<lambda>action.
         MessageAllClients disc (with_data GameAITurnAction (enc_EnemyAction action)) None)
         (ai_acts a) (s\<lparr>gameWorld := ai_world a\<rparr>)) (\<lambda>s'.
     Inr (s'\<lparr>gameWorld := bury_dead (EnemyListDirt a) (gameWorld s')\<rparr>)))"

text \<open>The player after a key in the iteration order; \<open>None\<close> when the key is the last one.\<close>

fun next_player :: "u32 \<Rightarrow> (u32 \<times> Player) list \<Rightarrow> Player option res" where
  "next_player k [] = Inl Undefined"
| "next_player k ((k', p) # ps) =
     (if k = k' then Inr (case ps of [] \<Rightarrow> None | (_, q) # _ \<Rightarrow> Some q) else next_player k ps)"

definition first_player :: "(u32 \<times> Player) list \<Rightarrow> Player res" where
  "first_player ps = (case ps of [] \<Rightarrow> Inl Undefined | (_, p) # _ \<Rightarrow> Inr p)"

definition choose_current :: "nat \<Rightarrow> custom_server handler \<Rightarrow> nat option \<Rightarrow> custom_server \<Rightarrow> custom_server res" where
  "choose_current F disc client s =
     (case client of
        None \<Rightarrow> res_bind (first_player (s_players s)) (\<lambda>p. Inr (s\<lparr>CurrentPlayerID := pID p\<rparr>))
      | Some r \<Rightarrow>
          res_bind (next_player (GetID s r) (s_players s)) (\<lambda>n.
            case n of
              None \<Rightarrow> res_bind (MakeAITurn F disc s) (\<lambda>s'.
                 res_bind (first_player (s_players s')) (\<lambda>p. Inr (s'\<lparr>CurrentPlayerID := pID p\<rparr>)))
            | Some q \<Rightarrow> Inr (s\<lparr>CurrentPlayerID := pID q\<rparr>)))"

text \<open>
  The loop that tells the player on turn: it dereferences every entry of the deque up to the first
  whose id matches.
\<close>

fun find_client :: "custom_server \<Rightarrow> u32 \<Rightarrow> nat option list \<Rightarrow> nat option res" where
  "find_client s i [] = Inr None"
| "find_client s i (None # cs) = Inl NullDeref"
| "find_client s i (Some r # cs) = (if GetID s r = i then Inr (Some r) else find_client s i cs)"

definition refresh_turns :: "custom_server \<Rightarrow> custom_server res" where
  "refresh_turns s =
     (case map_of (s_players s) (CurrentPlayerID s) of
        None \<Rightarrow> Inl OutOfRange
      | Some p \<Rightarrow>
          res_bind (SetCurrentTurnActions (ucast (GetMaxTurnActions p)) p) (\<lambda>p'.
            Inr (set_players (AList.update (CurrentPlayerID s) p' (s_players s)) s)))"

definition ChooseNextPlayerForTurn ::
  "nat \<Rightarrow> custom_server handler \<Rightarrow> nat option \<Rightarrow> custom_server \<Rightarrow> custom_server res" where
  "ChooseNextPlayerForTurn F disc client s =
     (if s_players s = [] then Inr s
      else res_bind (choose_current F disc client s) (\<lambda>s1.
           res_bind (find_client s1 (CurrentPlayerID s1) (m_deqConnection s1)) (\<lambda>c.
           res_bind (case c of None \<Rightarrow> Inr s1
                     | Some r \<Rightarrow> MessageClient disc (Some r) (new_message GamePlayerTurn) s1)
             refresh_turns)))"

definition client_gone :: "(nat option \<Rightarrow> custom_server \<Rightarrow> custom_server res) \<Rightarrow> custom_server handler" where
  "client_gone choose_next client s =
     (case client of
        None \<Rightarrow> Inl NullDeref
      | Some r \<Rightarrow>
          (let i = GetID s r
           in if i \<in> fst ` set (s_players s) then
                res_bind (if i = CurrentPlayerID s then choose_next (Some r) s else Inr s) (\<lambda>s'.
                  Inr ((set_players (AList.delete i (s_players s')) s')
                         \<lparr>GarbageIDs := GarbageIDs s' @ [i]\<rparr>))
              else Inr s))"

primrec OnClientDisconnect :: "nat \<Rightarrow> nat \<Rightarrow> custom_server handler" where
  "OnClientDisconnect F 0 client s = Inl OutOfFuel"
| "OnClientDisconnect F (Suc n) client s =
     client_gone (ChooseNextPlayerForTurn F (OnClientDisconnect F n)) client s"

definition ShyCheckAllPlayers :: "nat \<Rightarrow> nat \<Rightarrow> custom_server \<Rightarrow> custom_server res" where
  "ShyCheckAllPlayers F n s =
     MessageAllClients (OnClientDisconnect F n) (new_message ServerShyConnectionCheck) None s"

section \<open>Checking actions\<close>

text \<open>
  The bounds of a move are compared with \<^verbatim>\<open>>\<close>, so a coordinate equal to the width or height reaches
  the map's assertion.
\<close>

definition CheckPlayerAction :: "PlayerAction \<Rightarrow> custom_server \<Rightarrow> bool res" where
  "CheckPlayerAction action s =
     (case map_of (s_players s) (PA_PlayerID action) of
        None \<Rightarrow> Inl OutOfRange
      | Some p \<Rightarrow>
          if sint (pHP p) \<le> 0 then Inr False
          else (case ActionType action of
                  Attack \<Rightarrow> Inr (at_valid (PlayerFindAttackTarget (gameWorld s) p action))
                | Move \<Rightarrow>
                    (let c = vec3_add (pCoords p) (action_vec (PA_ActionInfo action));
                         x = sint (vx c); y = sint (vy c)
                     in if x < 0 \<or> int Map_Width < x \<or> y < 0 \<or> int Map_Height < y then Inr False
                        else res_bind (sa_get (MapTiles (gameWorld s)) (nat (x + y * int Map_Width)))
                               (\<lambda>t. Inr (t \<noteq> Tile_Hill)))
                | _ \<Rightarrow> Inr False))"

end
