(* ===== verification/Timer.thy ===== *)
theory Timer
  imports Prelude
begin

text \<open>
  SpNetCommon/src/Timer.h: durations between two points of the clock, which counts nanoseconds in
  64 bits (\<open>int\<close> here). The count is cast to the 32-bit result type before it is divided, except for
  minutes and hours, where it is divided by a billion first.
\<close>

datatype timeFormat = nanoscnds | microscnds | miliscnds | scnds | mints | hrs

text \<open>Division of signed integers truncates towards zero.\<close>

definition tdiv :: "int \<Rightarrow> int \<Rightarrow> int" where
  "tdiv a b = sgn a * sgn b * (\<bar>a\<bar> div \<bar>b\<bar>)"

definition tt_calcDuration :: "int \<Rightarrow> int \<Rightarrow> timeFormat \<Rightarrow> u32" where
  "tt_calcDuration start fin fmt =
     (let duration = fin - start
      in case fmt of
           nanoscnds \<Rightarrow> word_of_int duration
         | microscnds \<Rightarrow> word_of_int duration div 1000
         | miliscnds \<Rightarrow> word_of_int duration div 1000000
         | scnds \<Rightarrow> word_of_int duration div 1000000000
         | mints \<Rightarrow> word_of_int (tdiv duration 1000000000) div 60
         | hrs \<Rightarrow> word_of_int (tdiv duration 1000000000) div (60 * 60))"

record tt_Timer =
  startTime :: int
  endTime :: int

definition tt_Count :: "int \<Rightarrow> tt_Timer \<Rightarrow> int \<times> tt_Timer" where
  "tt_Count now t = (now, t\<lparr>startTime := now\<rparr>)"

definition tt_Stop :: "int \<Rightarrow> timeFormat \<Rightarrow> tt_Timer \<Rightarrow> u32 \<times> tt_Timer" where
  "tt_Stop now fmt t = (tt_calcDuration (startTime t) now fmt, t\<lparr>endTime := now\<rparr>)"

definition tt_GetTimeCount :: "timeFormat \<Rightarrow> tt_Timer \<Rightarrow> u32" where
  "tt_GetTimeCount fmt t = tt_calcDuration (startTime t) (endTime t) fmt"

definition tt_GetTimeCountNow :: "int \<Rightarrow> timeFormat \<Rightarrow> tt_Timer \<Rightarrow> u32" where
  "tt_GetTimeCountNow now fmt t = tt_calcDuration (startTime t) now fmt"

lemma uint_duration: "uint (word_of_int d :: u32) = d mod 2 ^ 32"
  by (simp add: uint_word_of_int)

text \<open>
  A duration in milliseconds is the nanosecond count modulo \<open>2 ^ 32\<close>, divided by a
  million: exact below \<open>2 ^ 32\<close> nanoseconds, and never more than 4294.
\<close>

theorem duration_ms_wraps:
  "uint (tt_calcDuration start fin miliscnds) = (fin - start) mod 2 ^ 32 div 1000000 \<and>
   uint (tt_calcDuration start fin miliscnds) \<le> 4294 \<and>
   (0 \<le> fin - start \<and> fin - start < 2 ^ 32 \<longrightarrow>
      uint (tt_calcDuration start fin miliscnds) = (fin - start) div 1000000)"
proof -
  have u: "uint (tt_calcDuration start fin miliscnds) = (fin - start) mod 2 ^ 32 div 1000000"
    by (simp add: tt_calcDuration_def Let_def uint_div_distrib uint_duration del: of_int_diff)
  have "(fin - start) mod 2 ^ 32 < 2 ^ 32" by simp
  then have "(fin - start) mod 2 ^ 32 div 1000000 \<le> 4294" by simp
  with u show ?thesis by simp
qed

theorem duration_ms_wraps_witness:
  "uint (tt_calcDuration 0 5000000000 miliscnds) = 705 \<and> uint (tt_calcDuration 0 1500000000 miliscnds) = 1500"
  using duration_ms_wraps [of 0 5000000000] duration_ms_wraps [of 0 1500000000] by simp

end
