(* ===== verification/ServerLoop.thy ===== *)
theory ServerLoop
  imports GameServer Timer
begin

text \<open>
  The message handler of the game server (\<^verbatim>\<open>CustomServer::OnMessage\<close>) and its main loop (\<^verbatim>\<open>Run\<close>).

  A range-based loop over a container that a nested call may change is modelled with what the standard
  says about its iterators: a push to \<^verbatim>\<open>GarbageIDs\<close> invalidates the loop over it, the erasure of the
  player a loop stands on invalidates that loop, and an index past the end of \<^verbatim>\<open>EnemyList\<close> is undefined.
\<close>

section \<open>The model\<close>

definition flush_garbage :: "custom_server handler \<Rightarrow> custom_server \<Rightarrow> custom_server res" where
  "flush_garbage disc s =
     (if GarbageIDs s = [] then Inr s
      else res_bind (res_fold (\<lambda>pid t.
             res_bind (MessageAllClients disc (with_data GameRemovePlayer (enc_u32 pid)) None t) (\<lambda>t'.
               if length (GarbageIDs t') = length (GarbageIDs t) then Inr t' else Inl Undefined))
             (GarbageIDs s) s)
           (\<lambda>t. Inr (t\<lparr>GarbageIDs := []\<rparr>)))"

definition send_enemies :: "custom_server handler \<Rightarrow> nat \<Rightarrow> custom_server \<Rightarrow> custom_server res" where
  "send_enemies disc r s =
     res_fold (\<lambda>i t. if i < length (EnemyList (gameWorld t))
                     then MessageClient disc (Some r)
                            (with_data ClientInitEnemy (enc_Enemy (EnemyList (gameWorld t) ! i))) t
                     else Inl Undefined)
       [0..<length (EnemyList (gameWorld s))] s"

definition send_others :: "custom_server handler \<Rightarrow> nat \<Rightarrow> u32 \<Rightarrow> custom_server \<Rightarrow> custom_server res" where
  "send_others disc r self s =
     res_fold (\<lambda>k t. case map_of (s_players t) k of
                  None \<Rightarrow> Inr t
                | Some p \<Rightarrow>
                    if pID p = self then Inr t
                    else res_bind (MessageClient disc (Some r) (with_data ClientAddPlayer (enc_Player p)) t)
                           (\<lambda>t'. if k \<in> fst ` set (s_players t') then Inr t' else Inl Undefined))
       (map fst (s_players s)) s"

definition on_register :: "nat \<Rightarrow> custom_server handler \<Rightarrow> nat option \<Rightarrow> message \<Rightarrow> custom_server
    \<Rightarrow> custom_server res" where
  "on_register F disc client msg s =
     res_bind (pop_data dec_Player 2016 msg) (\<lambda>(p0, _).
     case client of
       None \<Rightarrow> Inl NullDeref
     | Some r \<Rightarrow>
         res_bind (ClientOnRegister p0 r s) (\<lambda>(p, s1).
         let s2 = set_players (insert_player (hash_order s1 (rpos s1)) (pID p) p (s_players s1)) s1
         in res_bind (MessageClient disc client (with_data ClientRegisterFromServer (enc_Player p)) s2) (\<lambda>s3.
            res_bind (MessageClient disc client (with_data ClientUpdateMap (MapTiles (gameWorld s2))) s3) (\<lambda>s4.
            res_bind (send_enemies disc r s4) (\<lambda>s5.
            res_bind (MessageAllClients disc (with_data ClientAddPlayer (enc_Player p)) client s5) (\<lambda>s6.
            res_bind (send_others disc r (pID p) s6) (\<lambda>s7.
            if CurrentPlayerID s7 = 0 then ChooseNextPlayerForTurn F disc None s7 else Inr s7)))))))"

definition perform_action :: "nat \<Rightarrow> custom_server handler \<Rightarrow> nat \<Rightarrow> PlayerAction \<Rightarrow> custom_server
    \<Rightarrow> custom_server res" where
  "perform_action F disc r action s =
     (let i = GetID s r
      in res_bind (MakeApprovedAction i action (gameWorld s)) (\<lambda>w.
         res_bind (MessageAllClients disc
             (with_data GamePlayerActionValidated (enc_PlayerAction (action\<lparr>PA_PlayerID := i\<rparr>))) None
             (s\<lparr>gameWorld := w\<rparr>)) (\<lambda>s2.
         case map_of (s_players s2) i of
           None \<Rightarrow> Inl Undefined
         | Some p \<Rightarrow>
             if GetCurrentTurnActions p = 0
             then res_bind (MessageClient disc (Some r) (new_message GameEndPlayerTurn) s2) (\<lambda>s3.
                  res_bind (ChooseNextPlayerForTurn F disc (Some r) s3) (\<lambda>s4.
                    MessageAllClients disc
                      (with_data GameNextPlayerTurn (enc_u32 (CurrentPlayerID s4))) None s4))
             else Inr s2)))"

definition on_action :: "nat \<Rightarrow> custom_server handler \<Rightarrow> nat option \<Rightarrow> message \<Rightarrow> custom_server
    \<Rightarrow> custom_server res" where
  "on_action F disc client msg s =
     res_bind (pop_data dec_PlayerAction 16 msg) (\<lambda>(action, _).
     case client of
       None \<Rightarrow> Inl NullDeref
     | Some r \<Rightarrow>
         (let refuse = MessageClient disc (Some r)
                (with_data GamePlayerActionAborted (enc_PlayerAction action)) s
          in if GetID s r = CurrentPlayerID s then
               (case map_of (s_players s) (GetID s r) of
                  None \<Rightarrow> refuse
                | Some p \<Rightarrow>
                    if 0 < GetCurrentTurnActions p
                    then res_bind (CheckPlayerAction action s) (\<lambda>ok.
                           if ok then perform_action F disc r action s else refuse)
                    else refuse)
             else refuse))"

definition on_message_all :: "custom_server handler \<Rightarrow> nat option \<Rightarrow> custom_server \<Rightarrow> custom_server res" where
  "on_message_all disc client s =
     (case client of
        None \<Rightarrow> Inl NullDeref
      | Some r \<Rightarrow>
          (if GetID s r \<in> fst ` set (s_players s)
           then MessageAllClients disc (with_data ServerMessage (enc_u32 (GetID s r))) client s
           else Inl OutOfRange))"

definition OnMessage :: "nat \<Rightarrow> nat \<Rightarrow> nat option \<Rightarrow> message \<Rightarrow> custom_server \<Rightarrow> custom_server res" where
  "OnMessage F n client msg s0 =
     (let disc = OnClientDisconnect F n
      in res_bind (flush_garbage disc s0) (\<lambda>s.
           if hid msg = ClientRegisterOnServer then on_register F disc client msg s
           else if hid msg = ClientJustCheck then Inr s
           else if hid msg = ServerGamePlayerActionApprove then on_action F disc client msg s
           else if hid msg = GameUpdatePlayer then MessageAllClients disc msg client s
           else if hid msg = ServerPing then
             (case client of None \<Rightarrow> Inl NullDeref | Some r \<Rightarrow> Inr (send_to r msg s))
           else if hid msg = MessageAll then on_message_all disc client s
           else Inr s))"

text \<open>
  One iteration of \<^verbatim>\<open>Run\<close>: \<open>elapsed\<close> is what \<^verbatim>\<open>tt_calcDuration\<close> returned; up to \<open>k\<close> messages are
  handled (\<^verbatim>\<open>Update(-1, true)\<close> stops when the queue is empty).
\<close>

definition Run_iteration :: "nat \<Rightarrow> nat \<Rightarrow> nat \<Rightarrow> u32 \<Rightarrow> custom_server \<Rightarrow> custom_server res" where
  "Run_iteration F n k elapsed s =
     res_bind (if 1000 < elapsed then ShyCheckAllPlayers F n s else Inr s) (Update k (OnMessage F n))"

end
