(* ===== verification/ServerProps.thy ===== *)
theory ServerProps
  imports ServerLoop
begin

text \<open>
  Properties of the game server: the world it starts with, registration, the turn protocol, refused
  and malformed actions, and what happens when clients go away.
\<close>

section \<open>What sending leaves alone\<close>

lemma send_to_game [simp]:
  "gameWorld (send_to r m s) = gameWorld s" "GarbageIDs (send_to r m s) = GarbageIDs s"
  "CurrentPlayerID (send_to r m s) = CurrentPlayerID s" "rands (send_to r m s) = rands s"
  "rpos (send_to r m s) = rpos s"
  by (simp_all add: send_to_def)

lemma send_all_game [simp]:
  "gameWorld (send_all m ig cs s) = gameWorld s" "GarbageIDs (send_all m ig cs s) = GarbageIDs s"
  "CurrentPlayerID (send_all m ig cs s) = CurrentPlayerID s" "rands (send_all m ig cs s) = rands s"
  "rpos (send_all m ig cs s) = rpos s"
  by (induction cs arbitrary: s) (simp_all add: send_all_def)

text \<open>The server's view of its clients does not depend on the game.\<close>

lemma game_updates [simp]:
  "connected (s\<lparr>gameWorld := w\<rparr>) r = connected s r" "GetID (s\<lparr>gameWorld := w\<rparr>) r = GetID s r"
  "all_live (s\<lparr>gameWorld := w\<rparr>) = all_live s"
  "connected (s\<lparr>CurrentPlayerID := i\<rparr>) r = connected s r"
  "GetID (s\<lparr>CurrentPlayerID := i\<rparr>) r = GetID s r" "all_live (s\<lparr>CurrentPlayerID := i\<rparr>) = all_live s"
  "connected (s\<lparr>GarbageIDs := g\<rparr>) r = connected s r" "GetID (s\<lparr>GarbageIDs := g\<rparr>) r = GetID s r"
  "connected (s\<lparr>rpos := j\<rparr>) r = connected s r" "GetID (s\<lparr>rpos := j\<rparr>) r = GetID s r"
  "all_live (s\<lparr>rpos := j\<rparr>) = all_live s"
  by (simp_all add: connected_def GetID_def all_live_def)

lemma set_players_simps [simp]:
  "connected (set_players ps s) r = connected s r" "GetID (set_players ps s) r = GetID s r"
  "all_live (set_players ps s) = all_live s" "m_deqConnection (set_players ps s) = m_deqConnection s"
  "CurrentPlayerID (set_players ps s) = CurrentPlayerID s" "GarbageIDs (set_players ps s) = GarbageIDs s"
  "gameWorld (set_players ps s) = (gameWorld s)\<lparr>PlayersList := ps\<rparr>"
  by (simp_all add: set_players_def)

lemma flush_nothing [simp]: "GarbageIDs s = [] \<Longrightarrow> flush_garbage disc s = Inr s"
  by (simp add: flush_garbage_def)

lemmas ids_differ = msg_ids

section \<open>Actions out of turn\<close>

lemma pop_data_exact:
  assumes "length (body m) = n" and "n < 2 ^ 32"
  shows "\<exists>m'. pop_data dec n m = Inr (dec (body m), m')"
proof -
  have "(n::nat) < 2 ^ 64" using assms(2) by (rule less_trans) simp
  then show ?thesis using assms msg_pop_enough [of n m] by (simp add: pop_data_def)
qed

lemma out_of_turn_run:
  assumes "GarbageIDs s = []" and "connected s r" and "hid msg = ServerGamePlayerActionApprove"
    and "length (body msg) = 16" and "GetID s r \<noteq> CurrentPlayerID s"
  shows "OnMessage F n (Some r) msg s =
           Inr (send_to r (with_data GamePlayerActionAborted (enc_PlayerAction (dec_PlayerAction (body msg)))) s)"
proof -
  from pop_data_exact [OF assms(4), of dec_PlayerAction] obtain m' where
    "pop_data dec_PlayerAction 16 msg = Inr (dec_PlayerAction (body msg), m')" by auto
  then show ?thesis using assms
    by (simp add: OnMessage_def Let_def on_action_def MessageClient_live msg_ids)
qed

text \<open>
  Property C25. The action of a client that is not the player on turn changes nothing in the game: the
  client is sent the action back as aborted, and nobody else is sent anything.
\<close>

theorem action_out_of_turn_refused:
  assumes "GarbageIDs s = []" and "connected s r" and "hid msg = ServerGamePlayerActionApprove"
    and "length (body msg) = 16" and "GetID s r \<noteq> CurrentPlayerID s"
  shows "OnMessage F n (Some r) msg s =
           Inr (send_to r (with_data GamePlayerActionAborted (enc_PlayerAction (dec_PlayerAction (body msg)))) s)"
  by (rule out_of_turn_run [OF assms])

section \<open>A sample server\<close>

definition sample_conn :: "u32 \<Rightarrow> bool \<Rightarrow> connection" where
  "sample_conn i b = (new_connection OwnerServer b 0 [])\<lparr>conn_id := i\<rparr>"

text \<open>Two clients with the players of the sample world; the first is on turn.\<close>

definition sample_server :: custom_server where
  "sample_server =
     \<lparr>heap = \<lambda>r. sample_conn (if r = 0 then 10000 else 10001) True, next_ref = 2,
      m_deqConnection = [Some 0, Some 1], s_qIn = [], nIDCounter = 10002,
      accepts = 1, s_context_stopped = False, s_thread_joinable = True, gameWorld = sample_world,
      GarbageIDs = [], CurrentPlayerID = 10000, rands = \<lambda>i. i, hash_order = \<lambda>_. unat, rpos = 0\<rparr>"

lemma sample_server_simps [simp]:
  "GarbageIDs sample_server = []" "connected sample_server r" "CurrentPlayerID sample_server = 10000"
  "GetID sample_server r = (if r = 0 then 10000 else 10001)" "gameWorld sample_server = sample_world"
  "m_deqConnection sample_server = [Some 0, Some 1]" "all_live sample_server"
  by (simp_all add: sample_server_def connected_def GetID_def IsConnected_def sample_conn_def
      new_connection_def all_live_def)

definition sample_request :: "PlayerAction \<Rightarrow> message" where
  "sample_request a = with_data ServerGamePlayerActionApprove (enc_PlayerAction a)"

lemma sample_request_simps [simp]:
  "hid (sample_request a) = ServerGamePlayerActionApprove" "body (sample_request a) = enc_PlayerAction a"
  by (simp_all add: sample_request_def)

lemma ok_sample_actions [simp]: "ok_PlayerAction sample_step" "ok_PlayerAction sample_blow"
  by (simp_all add: ok_PlayerAction_def sample_step_def sample_blow_def)

theorem action_out_of_turn_refused_witness:
  "OnMessage 4 1 (Some 1) (sample_request sample_step) sample_server =
     Inr (send_to 1 (with_data GamePlayerActionAborted (enc_PlayerAction sample_step)) sample_server)"
  using action_out_of_turn_refused [of sample_server 1 "sample_request sample_step" 4 1]
  by (simp add: pod_PlayerAction)

section \<open>Malformed actions\<close>

text \<open>
  The id inside an action is the client's word: when the player on turn names a player
  that does not exist, \<^verbatim>\<open>at()\<close> throws out of the message handler, which nothing catches.
\<close>

theorem unknown_player_id_throws:
  assumes "GarbageIDs s = []" and "hid msg = ServerGamePlayerActionApprove" and "length (body msg) = 16"
    and "GetID s r = CurrentPlayerID s" and "map_of (s_players s) (GetID s r) = Some p"
    and "CurrentTurns p \<noteq> 0" and "PA_PlayerID (dec_PlayerAction (body msg)) \<notin> dom (players (gameWorld s))"
  shows "OnMessage F n (Some r) msg s = Inl OutOfRange"
proof -
  from pop_data_exact [OF assms(3), of dec_PlayerAction] obtain m' where
    m': "pop_data dec_PlayerAction 16 msg = Inr (dec_PlayerAction (body msg), m')" by auto
  have "CheckPlayerAction (dec_PlayerAction (body msg)) s = Inl OutOfRange"
    using assms(7) by (simp add: CheckPlayerAction_def domIff)
  moreover have "0 < GetCurrentTurnActions p"
    using assms(6) by (simp add: word_neq_0_conv [symmetric])
  ultimately show ?thesis using assms(1-5) m'
    by (simp add: OnMessage_def Let_def on_action_def msg_ids)
qed


theorem unknown_player_id_throws_witness:
  "OnMessage 4 1 (Some 0) (sample_request (sample_blow\<lparr>PA_PlayerID := 5\<rparr>)) sample_server = Inl OutOfRange"
proof -
  have ok: "ok_PlayerAction (sample_blow\<lparr>PA_PlayerID := 5\<rparr>)"
    by (simp add: ok_PlayerAction_def sample_blow_def)
  have "players sample_world 5 = None" by (simp add: sample_world_def)
  then show ?thesis
    using unknown_player_id_throws [of sample_server "sample_request (sample_blow\<lparr>PA_PlayerID := 5\<rparr>)" 0
        "sample_player 10000 (vec3_make 4 2 0)" 4 1] pod_PlayerAction [OF ok] sample_player_at
    by (simp add: domIff) (simp add: sample_player_def)
qed

text \<open>
  Property C26. The check of a move looks at where the move ends and not at how long it is: a place
  inside the map is accepted unless its tile is a hill, a place outside is refused, but the row below
  the last one, and the place right of the last tile, pass the comparison and stop the server at the
  map's assertion.
\<close>

theorem move_check_exact:
  assumes "map_of (s_players s) (PA_PlayerID a) = Some p" and "0 < sint (pHP p)"
    and "ActionType a = Move" and "length (MapTiles (gameWorld s)) = Map_Width * Map_Height"
    and "sint (vx (vec3_add (pCoords p) (action_vec (PA_ActionInfo a)))) = x"
    and "sint (vy (vec3_add (pCoords p) (action_vec (PA_ActionInfo a)))) = y"
  shows "CheckPlayerAction a s =
     (if x < 0 \<or> 40 < x \<or> y < 0 \<or> 40 < y then Inr False
      else if y = 40 \<or> (x = 40 \<and> y = 39) then Inl AssertFailed
      else Inr (MapTiles (gameWorld s) ! nat (x + y * 40) \<noteq> Tile_Hill))"
proof -
  have base: "CheckPlayerAction a s =
     (if x < 0 \<or> 40 < x \<or> y < 0 \<or> 40 < y then Inr False
      else res_bind (sa_get (MapTiles (gameWorld s)) (nat (x + y * 40))) (\<lambda>t. Inr (t \<noteq> Tile_Hill)))"
    using assms by (simp add: CheckPlayerAction_def Let_def Map_Width_def Map_Height_def)
  have "nat (x + y * 40) < 1600 \<longleftrightarrow> \<not> (y = 40 \<or> (x = 40 \<and> y = 39))"
    if "0 \<le> x" "x \<le> 40" "0 \<le> y" "y \<le> 40" using that by auto
  then show ?thesis unfolding base using assms(4)
    by (auto simp: sa_get_def Map_Width_def Map_Height_def)
qed

theorem move_check_exact_witness:
  "CheckPlayerAction (sample_step\<lparr>PA_ActionInfo := [0, 0, 38, 0]\<rparr>) sample_server = Inl AssertFailed"
proof -
  have "PA_PlayerID (sample_step\<lparr>PA_ActionInfo := [0, 0, 38, 0]\<rparr>) = 10000" by (simp add: sample_step_def)
  then show ?thesis
    using move_check_exact [of sample_server "sample_step\<lparr>PA_ActionInfo := [0, 0, 38, 0]\<rparr>"
        "sample_player 10000 (vec3_make 4 2 0)" 4 40] sample_player_at
    by (simp add: sample_player_def sample_step_def action_vec_def vec3_add_def vec3_make_def sample_world_def)
qed

section \<open>Approved actions and the turn\<close>

lemma on_action_approved:
  assumes "GarbageIDs s = []" and "hid msg = ServerGamePlayerActionApprove" and "length (body msg) = 16"
    and "GetID s r = CurrentPlayerID s" and "map_of (s_players s) (GetID s r) = Some p"
    and "CurrentTurns p \<noteq> 0" and "CheckPlayerAction (dec_PlayerAction (body msg)) s = Inr True"
  shows "OnMessage F n (Some r) msg s
           = perform_action F (OnClientDisconnect F n) r (dec_PlayerAction (body msg)) s"
proof -
  from pop_data_exact [OF assms(3), of dec_PlayerAction] obtain m' where
    m': "pop_data dec_PlayerAction 16 msg = Inr (dec_PlayerAction (body msg), m')" by auto
  moreover have "0 < GetCurrentTurnActions p"
    using assms(6) by (simp add: word_neq_0_conv [symmetric])
  ultimately show ?thesis using assms
    by (simp add: OnMessage_def Let_def on_action_def msg_ids)
qed

lemma approved_action_run:
  assumes "GarbageIDs s = []" and "all_live s" and "hid msg = ServerGamePlayerActionApprove"
    and "length (body msg) = 16" and "GetID s r = CurrentPlayerID s"
    and "map_of (s_players s) (GetID s r) = Some p" and "wf_world (gameWorld s)"
    and "unat (pEquipedItemID p) < MaxInventorySize" and "CurrentTurns p \<notin> {0, 1}"
    and "CheckPlayerAction (dec_PlayerAction (body msg)) s = Inr True"
  shows "\<exists>w'. MakeApprovedAction (GetID s r) (dec_PlayerAction (body msg)) (gameWorld s) = Inr w' \<and>
           wf_world w' \<and>
           OnMessage F n (Some r) msg s = Inr (send_all
             (with_data GamePlayerActionValidated
               (enc_PlayerAction ((dec_PlayerAction (body msg))\<lparr>PA_PlayerID := GetID s r\<rparr>)))
             None (m_deqConnection s) (s\<lparr>gameWorld := w'\<rparr>))"
proof -
  let ?a = "dec_PlayerAction (body msg)"
  have t0: "CurrentTurns p \<noteq> 0" using assms(9) by simp
  from MakeApprovedAction_wf [OF assms(7,6,8) t0, of ?a] obtain w' iv where
    w': "MakeApprovedAction (GetID s r) ?a (gameWorld s) = Inr w'" "wf_world w'"
      "players w' (GetID s r) = Some (p\<lparr>pCoords := moved_to ?a p, pInventory := iv,
          CurrentTurns := CurrentTurns p - 1\<rparr>)" by blast
  have "CurrentTurns p - 1 \<noteq> 0" using assms(9) by simp
  then have "perform_action F (OnClientDisconnect F n) r ?a s = Inr (send_all
             (with_data GamePlayerActionValidated (enc_PlayerAction (?a\<lparr>PA_PlayerID := GetID s r\<rparr>)))
             None (m_deqConnection s) (s\<lparr>gameWorld := w'\<rparr>))"
    using w' assms(2) by (simp add: perform_action_def Let_def MessageAllClients_live)
  then show ?thesis
    using on_action_approved [OF assms(1,3,4,5,6) t0 assms(10)] w'(1,2) by simp
qed

lemma SetCurrent_max:
  "SetCurrentTurnActions (ucast (GetMaxTurnActions q)) q = Inr (q\<lparr>CurrentTurns := MaxTurns q\<rparr>)"
proof -
  have u: "uint (ucast (ucast (MaxTurns q) :: u8) :: u32) = uint (MaxTurns q)"
    by (simp add: uint_up_ucast is_up)
  then have le: "(ucast (ucast (MaxTurns q) :: u8) :: u32) \<le> 16"
    using uint_lt2p [of "MaxTurns q"] by (simp add: word_le_def)
  have "(ucast (ucast (ucast (MaxTurns q) :: u8) :: u32) :: 4 word) = MaxTurns q"
    using u by (simp add: ucast_eq [of "ucast (ucast (MaxTurns q) :: u8) :: u32"])
  with le show ?thesis by (simp add: SetCurrentTurnActions_def GetMaxTurnActions_def)
qed

text \<open>The player after a key, by its key alone.\<close>

fun next_key :: "u32 \<Rightarrow> u32 list \<Rightarrow> u32 option option" where
  "next_key k [] = None"
| "next_key k (k' # ks) = (if k = k' then Some (case ks of [] \<Rightarrow> None | j # _ \<Rightarrow> Some j) else next_key k ks)"

lemma next_player_key:
  assumes "next_key k (map fst ps) = Some (Some j)" and "distinct (map fst ps)"
    and "\<forall>(k', p) \<in> set ps. pID p = k'"
  shows "\<exists>q. next_player k ps = Inr (Some q) \<and> map_of ps j = Some q \<and> pID q = j"
  using assms
proof (induction k ps rule: next_player.induct)
  case (2 k k' p ps)
  show ?case
  proof (cases "k = k'")
    case True
    with 2 obtain q ps' where ps: "ps = (j, q) # ps'" by (cases ps) auto
    then show ?thesis using True 2(3,4) by auto
  next
    case False
    with 2 obtain q where q: "next_player k ps = Inr (Some q)" "map_of ps j = Some q" "pID q = j"
      by auto
    then have "j \<in> fst ` set ps" using map_of_SomeD [OF q(2)] by force
    then have "j \<noteq> k'" using 2(3) by (auto simp: image_iff)
    then show ?thesis using q False by auto
  qed
qed simp

lemma wf_world_ids: "wf_world w \<Longrightarrow> \<forall>(k, p) \<in> set (PlayersList w). pID p = k"
  by (auto simp: wf_world_def wf_Player_def)

lemma find_client_live:
  assumes "\<forall>c \<in> set cs. \<exists>r. c = Some r \<and> connected s r"
  shows "\<exists>c. find_client s i cs = Inr c \<and> (\<forall>r. c = Some r \<longrightarrow> connected s r)"
  using assms by (induction cs) auto

lemma find_client_some: "find_client s i cs = Inr (Some r) \<Longrightarrow> Some r \<in> set cs \<and> GetID s r = i"
  by (induction cs rule: find_client.induct [of _ s i]) (auto split: if_splits)

lemma find_client_none: "find_client s i cs = Inr None \<Longrightarrow> Some r \<in> set cs \<Longrightarrow> GetID s r \<noteq> i"
  by (induction cs rule: find_client.induct [of _ s i]) (auto split: if_splits)

text \<open>Every entry of the list of clients has an id of its own.\<close>

definition ids_apart :: "custom_server \<Rightarrow> bool" where
  "ids_apart s \<longleftrightarrow> distinct (map (map_option (GetID s)) (m_deqConnection s))"

lemma ids_apartD:
  assumes "ids_apart s" and "Some a \<in> set (m_deqConnection s)" and "Some b \<in> set (m_deqConnection s)"
    and "GetID s a = GetID s b"
  shows "a = b"
proof -
  have "inj_on (map_option (GetID s)) (set (m_deqConnection s))" using assms(1) by (simp add: ids_apart_def distinct_map)
  from inj_onD [OF this, of "Some a" "Some b"] assms(2-4) show ?thesis by simp
qed

lemma ids_apart_distinct: "ids_apart s \<Longrightarrow> distinct (m_deqConnection s)"
  by (simp add: ids_apart_def distinct_map)

text \<open>
  Passing the turn from a player to the one after it in the list, when all clients are live: the next
  player is on turn with all its actions, and nothing else changes in the game.
\<close>

lemma ChooseNext_passes:
  assumes live: "all_live s" and wf: "wf_world (gameWorld s)"
    and nxt: "next_key (GetID s r) (map fst (s_players s)) = Some (Some j)"
  shows "\<exists>s' q. ChooseNextPlayerForTurn F disc (Some r) s = Inr s' \<and> map_of (s_players s) j = Some q \<and>
           CurrentPlayerID s' = j \<and> all_live s' \<and> m_deqConnection s' = m_deqConnection s \<and>
           GarbageIDs s' = GarbageIDs s \<and>
           gameWorld s' = (gameWorld s)\<lparr>PlayersList :=
             AList.update j (q\<lparr>CurrentTurns := MaxTurns q\<rparr>) (s_players s)\<rparr> \<and>
           (ids_apart s \<longrightarrow> (\<forall>r'. Some r' \<in> set (m_deqConnection s) \<longrightarrow> posted (heap s' r') =
              posted (heap s r') @ (if GetID s r' = j then [T_send (new_message GamePlayerTurn)] else [])))"
proof -
  have d: "distinct (map fst (s_players s))" using wf by (simp add: wf_world_def)
  from next_player_key [OF nxt d wf_world_ids [OF wf]] obtain q where
    q: "next_player (GetID s r) (s_players s) = Inr (Some q)" "map_of (s_players s) j = Some q" "pID q = j"
    by blast
  have ne: "s_players s \<noteq> []" using q(2) by auto
  let ?s1 = "s\<lparr>CurrentPlayerID := j\<rparr>"
  have cur: "choose_current F disc (Some r) s = Inr ?s1"
    using q by (simp add: choose_current_def)
  have lv: "\<forall>c \<in> set (m_deqConnection s). \<exists>r. c = Some r \<and> connected ?s1 r"
    using live by (simp add: all_live_def)
  from find_client_live [OF lv, of j] obtain c where
    c: "find_client ?s1 j (m_deqConnection s) = Inr c" "\<forall>r. c = Some r \<longrightarrow> connected ?s1 r" by blast
  define s2 where "s2 = (case c of None \<Rightarrow> ?s1 | Some r' \<Rightarrow> send_to r' (new_message GamePlayerTurn) ?s1)"
  have s2: "(case c of None \<Rightarrow> Inr ?s1
             | Some r' \<Rightarrow> MessageClient disc (Some r') (new_message GamePlayerTurn) ?s1) = Inr s2"
    using c(2) by (cases c) (simp_all add: s2_def MessageClient_live)
  have s2f: "gameWorld s2 = gameWorld s" "CurrentPlayerID s2 = j" "all_live s2"
    "m_deqConnection s2 = m_deqConnection s" "GarbageIDs s2 = GarbageIDs s"
    using live by (cases c; simp add: s2_def)+
  have turns: "SetCurrentTurnActions (ucast (GetMaxTurnActions q)) q = Inr (q\<lparr>CurrentTurns := MaxTurns q\<rparr>)"
    by (rule SetCurrent_max)
  have "refresh_turns s2 = Inr (set_players (AList.update j (q\<lparr>CurrentTurns := MaxTurns q\<rparr>) (s_players s)) s2)"
    using q(2) s2f turns by (simp add: refresh_turns_def)
  then have "ChooseNextPlayerForTurn F disc (Some r) s
      = Inr (set_players (AList.update j (q\<lparr>CurrentTurns := MaxTurns q\<rparr>) (s_players s)) s2)"
    using ne cur c(1) s2 by (simp add: ChooseNextPlayerForTurn_def)
  moreover have "posted (heap s2 r') = posted (heap s r') @
      (if GetID s r' = j then [T_send (new_message GamePlayerTurn)] else [])"
    if "ids_apart s" "Some r' \<in> set (m_deqConnection s)" for r'
  proof (cases c)
    case None
    then show ?thesis using find_client_none [of ?s1 j _ r', OF _ that(2)] c(1) by (auto simp: s2_def)
  next
    case (Some r0)
    then have r0: "Some r0 \<in> set (m_deqConnection s)" "GetID s r0 = j"
      using find_client_some [of ?s1 j _ r0] c(1) by auto
    then have "GetID s r' = j \<longleftrightarrow> r0 = r'" using ids_apartD [OF that r0(1)] by auto
    then show ?thesis using Some by (simp add: s2_def posted_send_to)
  qed
  ultimately show ?thesis using q(2) s2f by (simp add: set_players_def)
qed

text \<open>The last action of a turn: what happens to the world, and what every client of the list is posted.\<close>

definition turn_posts :: "custom_server \<Rightarrow> PlayerAction \<Rightarrow> nat \<Rightarrow> u32 \<Rightarrow> nat \<Rightarrow> message list" where
  "turn_posts s a r j r' =
     [with_data GamePlayerActionValidated (enc_PlayerAction (a\<lparr>PA_PlayerID := GetID s r\<rparr>))] @
     (if r' = r then [new_message GameEndPlayerTurn] else []) @
     (if GetID s r' = j then [new_message GamePlayerTurn] else []) @
     [with_data GameNextPlayerTurn (enc_u32 j)]"

lemma last_action_run:
  assumes "GarbageIDs s = []" and live: "all_live s" and "hid msg = ServerGamePlayerActionApprove"
    and "length (body msg) = 16" and "GetID s r = CurrentPlayerID s" and "connected s r"
    and "map_of (s_players s) (GetID s r) = Some p" and "wf_world (gameWorld s)"
    and "unat (pEquipedItemID p) < MaxInventorySize" and "CurrentTurns p = 1"
    and "CheckPlayerAction (dec_PlayerAction (body msg)) s = Inr True"
    and nxt: "next_key (GetID s r) (map fst (s_players s)) = Some (Some j)"
  shows "\<exists>s' w' q. OnMessage F n (Some r) msg s = Inr s' \<and> CurrentPlayerID s' = j \<and>
           MakeApprovedAction (GetID s r) (dec_PlayerAction (body msg)) (gameWorld s) = Inr w' \<and>
           players w' j = Some q \<and> gameWorld s' = w'\<lparr>PlayersList :=
             AList.update j (q\<lparr>CurrentTurns := MaxTurns q\<rparr>) (PlayersList w')\<rparr> \<and>
           wf_world (gameWorld s') \<and> m_deqConnection s' = m_deqConnection s \<and> GarbageIDs s' = [] \<and>
           length (EnemyList (gameWorld s')) = length (EnemyList (gameWorld s)) \<and>
           (ids_apart s \<longrightarrow> (\<forall>r'. Some r' \<in> set (m_deqConnection s) \<longrightarrow> posted (heap s' r') =
              posted (heap s r') @ map T_send (turn_posts s (dec_PlayerAction (body msg)) r j r')))"
proof -
  let ?a = "dec_PlayerAction (body msg)" and ?disc = "OnClientDisconnect F n"
  let ?v = "with_data GamePlayerActionValidated (enc_PlayerAction (?a\<lparr>PA_PlayerID := GetID s r\<rparr>))"
  let ?n = "with_data GameNextPlayerTurn (enc_u32 j)" and ?deq = "m_deqConnection s"
  have t0: "CurrentTurns p \<noteq> 0" using assms(10) by simp
  from MakeApprovedAction_wf [OF assms(8,7,9) t0, of ?a] obtain w' where
    w': "MakeApprovedAction (GetID s r) ?a (gameWorld s) = Inr w'" "wf_world w'" "same_shape (gameWorld s) w'"
    by blast
  define s2 where "s2 = send_all ?v None ?deq (s\<lparr>gameWorld := w'\<rparr>)"
  define s3 where "s3 = send_to r (new_message GameEndPlayerTurn) s2"
  have s3: "all_live s3" "gameWorld s3 = w'" "GetID s3 = GetID s" "GarbageIDs s3 = []" "m_deqConnection s3 = ?deq"
    using live assms(1) by (simp_all add: s3_def s2_def fun_eq_iff)
  have "next_key (GetID s3 r) (map fst (s_players s3)) = Some (Some j)"
    using nxt w'(3) s3 by (simp add: same_shape_def)
  from ChooseNext_passes [OF s3(1) _ this, of F ?disc] w'(2) s3(2) obtain s4 q where
    s4: "ChooseNextPlayerForTurn F ?disc (Some r) s3 = Inr s4" "players w' j = Some q"
      "CurrentPlayerID s4 = j" "all_live s4" "m_deqConnection s4 = ?deq" "GarbageIDs s4 = []"
      "gameWorld s4 = w'\<lparr>PlayersList := AList.update j (q\<lparr>CurrentTurns := MaxTurns q\<rparr>) (PlayersList w')\<rparr>" and
    told: "ids_apart s3 \<Longrightarrow> \<forall>r'. Some r' \<in> set ?deq \<longrightarrow> posted (heap s4 r') =
      posted (heap s3 r') @ (if GetID s r' = j then [T_send (new_message GamePlayerTurn)] else [])"
    using s3 by auto
  define s5 where "s5 = send_all ?n None ?deq s4"
  have con: "connected s2 r" using assms(6) by (simp add: s2_def)
  have "OnMessage F n (Some r) msg s = perform_action F ?disc r ?a s"
    by (rule on_action_approved [OF assms(1,3,4,5,7) t0 assms(11)])
  also have "\<dots> = Inr s5"
    using w' live assms(10) s4(1,3-6) con MakeApprovedAction_wf [OF assms(8,7,9) t0, of ?a]
    by (auto simp: perform_action_def Let_def MessageAllClients_live MessageClient_live s2_def [symmetric]
        s3_def [symmetric] s5_def)
  finally have run: "OnMessage F n (Some r) msg s = Inr s5" .
  have "wf_Player j (q\<lparr>CurrentTurns := MaxTurns q\<rparr>)"
    using wf_world_player [OF w'(2) s4(2)] by (simp add: wf_Player_def)
  then have wf: "wf_world (gameWorld s4)" using s4(7) w'(2) by (simp add: wf_world_update_player)
  have posts: "posted (heap s5 r') = posted (heap s r') @ map T_send (turn_posts s ?a r j r')"
    if ids: "ids_apart s" and r': "Some r' \<in> set ?deq" for r'
  proof -
    note each = posted_send_all [OF ids_apart_distinct [OF ids], of _ None]
    have full: "\<forall>c \<in> set ?deq. c \<noteq> None" using live by (auto simp: all_live_def)
    have "posted (heap s3 r') = posted (heap s r') @ [T_send ?v] @
        (if r' = r then [T_send (new_message GameEndPlayerTurn)] else [])"
      using r' by (simp add: s3_def s2_def posted_send_to each [OF full])
    moreover have "ids_apart s3" using ids s3(3,5) by (simp add: ids_apart_def)
    ultimately show ?thesis
      using told r' by (simp add: s5_def each [OF full] turn_posts_def)
  qed
  have "length (EnemyList (gameWorld s5)) = length (EnemyList (gameWorld s))"
    using s4(7) w'(3) by (simp add: same_shape_def s5_def)
  then show ?thesis using run posts wf s4(2-7) w'(1)
    by (intro exI [of _ s5] exI [of _ w'] exI [of _ q]) (simp add: s5_def)
qed

text \<open>
  Property C31. With the last action of a turn the action is performed, the player after the sender in
  the list comes on turn with all its actions, and nothing else changes in the world, which stays
  well-formed. Every client is told, in this order: the action, under the sender's id; the sender alone,
  that its turn is over; the next player alone, that it is on turn; and who is on turn.
\<close>

theorem last_action_passes_turn:
  assumes "GarbageIDs s = []" and live: "all_live s" and "hid msg = ServerGamePlayerActionApprove"
    and "length (body msg) = 16" and "GetID s r = CurrentPlayerID s" and "connected s r"
    and "map_of (s_players s) (GetID s r) = Some p" and "wf_world (gameWorld s)"
    and "unat (pEquipedItemID p) < MaxInventorySize" and "CurrentTurns p = 1"
    and "CheckPlayerAction (dec_PlayerAction (body msg)) s = Inr True"
    and nxt: "next_key (GetID s r) (map fst (s_players s)) = Some (Some j)"
    and ids: "distinct (map (map_option (GetID s)) (m_deqConnection s))"
  shows "\<exists>s' w' q. OnMessage F n (Some r) msg s = Inr s' \<and> CurrentPlayerID s' = j \<and>
           MakeApprovedAction (GetID s r) (dec_PlayerAction (body msg)) (gameWorld s) = Inr w' \<and>
           players w' j = Some q \<and> gameWorld s' = w'\<lparr>PlayersList :=
             AList.update j (q\<lparr>CurrentTurns := MaxTurns q\<rparr>) (PlayersList w')\<rparr> \<and>
           wf_world (gameWorld s') \<and> m_deqConnection s' = m_deqConnection s \<and> GarbageIDs s' = [] \<and>
           (\<forall>r'. Some r' \<in> set (m_deqConnection s) \<longrightarrow> posted (heap s' r') = posted (heap s r') @ map T_send
              ([with_data GamePlayerActionValidated
                  (enc_PlayerAction ((dec_PlayerAction (body msg))\<lparr>PA_PlayerID := GetID s r\<rparr>))] @
               (if r' = r then [new_message GameEndPlayerTurn] else []) @
               (if GetID s r' = j then [new_message GamePlayerTurn] else []) @
               [with_data GameNextPlayerTurn (enc_u32 j)]))"
proof -
  have "ids_apart s" using ids by (simp add: ids_apart_def)
  then show ?thesis
    using last_action_run [OF assms(1-12), of F n] unfolding turn_posts_def [symmetric] by blast
qed

definition last_turn_world :: GameWorld where
  "last_turn_world = sample_world\<lparr>PlayersList := AList.update 10000
      ((sample_player 10000 (vec3_make 4 2 0))\<lparr>CurrentTurns := 1\<rparr>) (PlayersList sample_world)\<rparr>"

lemma wf_last_turn_world: "wf_world last_turn_world"
proof -
  have "wf_Player 10000 ((sample_player 10000 (vec3_make 4 2 0))\<lparr>CurrentTurns := 1\<rparr>)"
    using wf_world_player [OF wf_sample_world sample_player_at] by (simp add: wf_Player_def)
  then show ?thesis unfolding last_turn_world_def by (rule wf_world_update_player [OF wf_sample_world])
qed

lemma last_turn_players:
  "PlayersList last_turn_world = [(10000, (sample_player 10000 (vec3_make 4 2 0))\<lparr>CurrentTurns := 1\<rparr>),
     (10001, sample_player 10001 (vec3_make 5 2 0))]"
  "MapTiles last_turn_world = replicate 1600 Tile_Grass"
  by (simp_all add: last_turn_world_def sample_world_def Map_Width_def Map_Height_def)

theorem last_action_passes_turn_witness:
  "\<exists>s'. OnMessage 4 1 (Some 0) (sample_request sample_step) (sample_server\<lparr>gameWorld := last_turn_world\<rparr>)
        = Inr s' \<and> CurrentPlayerID s' = 10001 \<and>
     posted (heap s' 1) = posted (heap sample_server 1) @ map T_send
       [with_data GamePlayerActionValidated (enc_PlayerAction (sample_step\<lparr>PA_PlayerID := 10000\<rparr>)),
        new_message GamePlayerTurn, with_data GameNextPlayerTurn (enc_u32 10001)]"
proof -
  let ?s = "sample_server\<lparr>gameWorld := last_turn_world\<rparr>" and ?m = "sample_request sample_step"
  let ?p = "(sample_player 10000 (vec3_make 4 2 0))\<lparr>CurrentTurns := 1\<rparr>"
  have "CheckPlayerAction sample_step ?s = Inr True"
    by (simp add: CheckPlayerAction_def last_turn_players sample_step_def sample_player_def action_vec_def
        vec3_add_def vec3_make_def Map_Width_def Map_Height_def sa_get_def Tile_Grass_def Tile_Hill_def Let_def)
  then have "GarbageIDs ?s = []" "all_live ?s" "hid ?m = ServerGamePlayerActionApprove" "length (body ?m) = 16"
    "GetID ?s 0 = CurrentPlayerID ?s" "connected ?s 0" "map_of (s_players ?s) (GetID ?s 0) = Some ?p"
    "wf_world (gameWorld ?s)" "unat (pEquipedItemID ?p) < MaxInventorySize" "CurrentTurns ?p = 1"
    "CheckPlayerAction (dec_PlayerAction (body ?m)) ?s = Inr True"
    "next_key (GetID ?s 0) (map fst (s_players ?s)) = Some (Some 10001)"
    "distinct (map (map_option (GetID ?s)) (m_deqConnection ?s))"
    using pod_PlayerAction [of sample_step] wf_last_turn_world sample_equipped [of 10000 "vec3_make 4 2 0"]
    by (simp_all add: last_turn_players)
  from last_action_passes_turn [OF this, of 4 1] pod_PlayerAction [of sample_step] show ?thesis by auto
qed

section \<open>Registering\<close>

lemma give_items_ok:
  "ok_Inventory iv \<Longrightarrow> ok_Inventory (fst (give_items k iv s)) \<and>
     (\<exists>j. snd (give_items k iv s) = s\<lparr>rpos := j\<rparr>)"
proof (induction k arbitrary: iv s)
  case 0
  then show ?case by (auto intro: exI [of _ "rpos s"])
next
  case (Suc k)
  have "m mod 5 < length ItemTable" for m by (simp add: less_le_trans [of _ 5])
  then have it: "ok_Item (ItemTable ! (m mod 5))" for m by (simp add: ok_ItemTable)
  let ?n = "rands s (rpos s)" and ?m = "rands s (Suc (rpos s))"
  show ?case
  proof (cases "5 - Suc k < ?n mod 5")
    case True
    have "ok_Inventory (AddItem iv (ItemTable ! (?m mod 5)))"
      using Suc.prems it by (rule ok_AddItem)
    from Suc.IH [OF this, of "s\<lparr>rpos := Suc (Suc (rpos s))\<rparr>"] show ?thesis
      using True by (auto simp: rand_def)
  next
    case False
    then show ?thesis using Suc.prems by (auto simp: rand_def intro: exI [of _ "Suc (rpos s)"])
  qed
qed

lemma spawn_coord:
  "- 1 \<le> sint (word_of_nat (x mod 40) - 1 :: i16)" "sint (word_of_nat (x mod 40) - 1 :: i16) \<le> 38"
proof -
  define n where "n = int (x mod 40)"
  have n: "0 \<le> n" "n \<le> 39" by (simp_all add: n_def)
  have w: "(word_of_nat (x mod 40) - 1 :: i16) = word_of_int (n - 1)" by (simp add: n_def)
  have "sint (word_of_int (n - 1) :: i16) = n - 1" by (rule sint_i16_of_int) (use n in linarith)+
  then show "- 1 \<le> sint (word_of_nat (x mod 40) - 1 :: i16)"
    "sint (word_of_nat (x mod 40) - 1 :: i16) \<le> 38"
    unfolding w using n by linarith+
qed

text \<open>What registration makes of the player a client sends.\<close>

definition registered :: "u32 \<Rightarrow> Player \<Rightarrow> Player \<Rightarrow> bool" where
  "registered i p0 p \<longleftrightarrow>
     pID p = i \<and> pHP p = 45 \<and> MaxTurns p = 4 \<and> CurrentTurns p = 4 \<and> Name p = Name p0 \<and>
     pEquipedItemID p = pEquipedItemID p0 \<and> wf_Inventory (pInventory p) \<and>
     - 1 \<le> sint (vx (pCoords p)) \<and> sint (vx (pCoords p)) \<le> 38 \<and>
     - 1 \<le> sint (vy (pCoords p)) \<and> sint (vy (pCoords p)) \<le> 38 \<and> vz (pCoords p) = 0"

lemma ClientOnRegister_spec:
  assumes "ok_Player p0"
  shows "\<exists>p j. ClientOnRegister p0 r s = Inr (p, s\<lparr>rpos := j\<rparr>) \<and> registered (GetID s r) p0 p \<and> ok_Player p"
proof -
  have ok: "ok_Inventory (pInventory p0)" "length (Name p0) = MaxNameSize"
    using assms by (simp_all add: ok_Player_def)
  obtain iv s3 where g: "give_items 5 (pInventory p0) (s\<lparr>rpos := Suc (Suc (rpos s))\<rparr>) = (iv, s3)"
    by fastforce
  from give_items_ok [OF ok(1), of 5 "s\<lparr>rpos := Suc (Suc (rpos s))\<rparr>"] g obtain j where
    iv: "ok_Inventory iv" "s3 = s\<lparr>rpos := j\<rparr>" by auto
  show ?thesis using g iv ok(2) ok_wf_Inventory [OF iv(1)]
    by (auto simp: ClientOnRegister_def rand_def Let_def SetMaxTurnActions_def SetCurrentTurnActions_def
        registered_def Map_Width_def Map_Height_def vec3_make_def spawn_coord ok_Player_def)
qed

text \<open>Messages change nothing of the game, whoever gets them.\<close>

lemma send_each_game [simp]:
  "gameWorld (fold (send_to r) ms s) = gameWorld s" "CurrentPlayerID (fold (send_to r) ms s) = CurrentPlayerID s"
  by (induction ms arbitrary: s) simp_all

lemma send_enemies_live:
  assumes "connected s r"
  shows "send_enemies disc r s
           = Inr (fold (send_to r) (map (\<lambda>e. with_data ClientInitEnemy (enc_Enemy e)) (EnemyList (gameWorld s))) s)"
proof -
  let ?es = "EnemyList (gameWorld s)" and ?m = "\<lambda>e. with_data ClientInitEnemy (enc_Enemy e)"
  have "send_enemies disc r s = Inr (fold (\<lambda>i. send_to r (?m (?es ! i))) [0..<length ?es] s)"
    unfolding send_enemies_def
    by (rule res_fold_Inr [where I = "\<lambda>t. connected t r \<and> gameWorld t = gameWorld s"])
      (use assms in \<open>auto simp: MessageClient_live\<close>)
  also have "fold (\<lambda>i. send_to r (?m (?es ! i))) [0..<length ?es] = fold (send_to r) (map (\<lambda>i. ?m (?es ! i)) [0..<length ?es])"
    by (simp add: fold_map comp_def)
  also have "map (\<lambda>i. ?m (?es ! i)) [0..<length ?es] = map ?m (map ((!) ?es) [0..<length ?es])"
    by simp
  finally show ?thesis by (simp only: map_nth)
qed

lemma send_others_live:
  assumes "connected s r" and "distinct (map fst (s_players s))"
  shows "send_others disc r i s = Inr (fold (send_to r)
           (map (\<lambda>(k, p). with_data ClientAddPlayer (enc_Player p)) (filter (\<lambda>(k, p). pID p \<noteq> i) (s_players s))) s)"
proof -
  let ?m = "\<lambda>p. with_data ClientAddPlayer (enc_Player p)"
  let ?g = "\<lambda>k t. case players (gameWorld s) k of None \<Rightarrow> t | Some p \<Rightarrow> if pID p = i then t else send_to r (?m p) t"
  have "send_others disc r i s = Inr (fold ?g (map fst (s_players s)) s)"
    unfolding send_others_def
    by (rule res_fold_Inr [where I = "\<lambda>t. connected t r \<and> gameWorld t = gameWorld s"])
      (use assms(1) in \<open>auto simp: MessageClient_live split: option.splits\<close>)
  also have "fold ?g (map fst (s_players s)) s
      = fold (\<lambda>x. if pID (snd x) \<noteq> i then send_to r (?m (snd x)) else id) (s_players s) s"
    unfolding fold_map using assms(2)
    by (intro fold_cong refl) (auto simp: fun_eq_iff map_of_is_SomeI)
  also have "\<dots> = fold (\<lambda>x. send_to r (?m (snd x))) (filter (\<lambda>x. pID (snd x) \<noteq> i) (s_players s)) s"
    by (simp add: fold_filter)
  finally show ?thesis by (simp add: fold_map comp_def split_def)
qed

text \<open>What is sent when the player \<open>p\<close> was registered from the connection \<open>r\<close>: first to \<open>r\<close>, then to the others.\<close>

definition greeting :: "GameWorld \<Rightarrow> Player \<Rightarrow> message list" where
  "greeting w p =
     with_data ClientRegisterFromServer (enc_Player p) # with_data ClientUpdateMap (MapTiles w) #
     map (\<lambda>e. with_data ClientInitEnemy (enc_Enemy e)) (EnemyList w)"

section \<open>Registering\<close>

text \<open>A player put in, whatever the order of the map afterwards.\<close>

lemma map_of_sort_key:
  fixes ps :: "('k \<times> 'v) list"
  shows "map_of (sort_key (\<lambda>(k, q). f k) ps) = map_of ps"
proof
  fix k
  let ?g = "\<lambda>(k, q). f k" and ?at = "\<lambda>x :: 'k \<times> 'v. fst x = k"
  have one: "map_of xs k = map_of (filter ?at xs) k" for xs :: "('k \<times> 'v) list"
    by (induction xs) auto
  have ranked: "filter ?at xs = filter ?at (filter (\<lambda>x. ?g x = f k) xs)" for xs :: "('k \<times> 'v) list"
    unfolding filter_filter by (rule filter_cong) auto
  have "filter ?at (sort_key ?g ps) = filter ?at ps"
    unfolding ranked [of "sort_key ?g ps"] sort_key_stable ranked [of ps, symmetric] ..
  then show "map_of (sort_key ?g ps) k = map_of ps k" unfolding one [of "sort_key ?g ps"] by (simp add: one [symmetric])
qed

lemma insert_player_map [simp]:
  "map_of (insert_player rank k p ps) = (map_of ps)(k \<mapsto> p)"
  by (simp add: insert_player_def map_of_sort_key update_conv')

lemma insert_player_set [simp]:
  "set (insert_player rank k p ps) = set (AList.update k p ps)"
  by (simp add: insert_player_def)

lemma insert_player_keys [simp]:
  "fst ` set (insert_player rank k p ps) = insert k (fst ` set ps)"
  using dom_update [of k p ps] by simp

lemma insert_player_distinct [simp]:
  "distinct (map fst (insert_player rank k p ps)) = distinct (map fst ps)"
proof -
  have "distinct (map fst (insert_player rank k p ps)) = distinct (map fst (AList.update k p ps))"
    by (simp add: insert_player_def distinct_map)
  then show ?thesis by (simp add: update_keys)
qed

lemma wf_world_insert_player:
  "wf_world w \<Longrightarrow> wf_Player k p \<Longrightarrow> wf_world (w\<lparr>PlayersList := insert_player rank k p (PlayersList w)\<rparr>)"
  by (simp add: wf_world_def)

definition introductions :: "GameWorld \<Rightarrow> Player \<Rightarrow> message list" where
  "introductions w p =
     map (\<lambda>(k, q). with_data ClientAddPlayer (enc_Player q)) (filter (\<lambda>(k, q). pID q \<noteq> pID p) (PlayersList w))"

definition welcomed :: "nat \<Rightarrow> Player \<Rightarrow> custom_server \<Rightarrow> custom_server" where
  "welcomed r p s =
     fold (send_to r) (introductions (gameWorld s) p)
       (send_all (with_data ClientAddPlayer (enc_Player p)) (Some r) (m_deqConnection s)
         (fold (send_to r) (greeting (gameWorld s) p) s))"

lemma welcomed_game [simp]:
  "gameWorld (welcomed r p s) = gameWorld s" "CurrentPlayerID (welcomed r p s) = CurrentPlayerID s"
  "m_deqConnection (welcomed r p s) = m_deqConnection s"
  by (simp_all add: welcomed_def)

lemma registration_run:
  assumes "GarbageIDs s = []" and live: "all_live s" and "connected s r" and wf: "wf_world (gameWorld s)"
    and "hid msg = ClientRegisterOnServer" and len: "length (body msg) = 2016" and "CurrentPlayerID s \<noteq> 0"
  obtains p s2 rank where "OnMessage F n (Some r) msg s = Inr (welcomed r p s2)"
    "registered (GetID s r) (dec_Player (body msg)) p" "ok_Player p" "wf_world (gameWorld s2)"
    "gameWorld s2 = (gameWorld s)\<lparr>PlayersList := insert_player rank (GetID s r) p (s_players s)\<rparr>"
    "CurrentPlayerID s2 = CurrentPlayerID s" "m_deqConnection s2 = m_deqConnection s" "heap s2 = heap s"
    "GarbageIDs s2 = []"
proof -
  let ?p0 = "dec_Player (body msg)" and ?disc = "OnClientDisconnect F n"
  from pop_data_exact [OF len, of dec_Player] obtain m' where
    m': "pop_data dec_Player 2016 msg = Inr (?p0, m')" by auto
  from ClientOnRegister_spec [OF ok_dec_Player [OF len], of r s] obtain p j where
    p: "ClientOnRegister ?p0 r s = Inr (p, s\<lparr>rpos := j\<rparr>)" "registered (GetID s r) ?p0 p" "ok_Player p" by blast
  have pid: "pID p = GetID s r" using p(2) by (simp add: registered_def)
  define rank where "rank = hash_order s j"
  define s2 where "s2 = set_players (insert_player rank (GetID s r) p (s_players s)) (s\<lparr>rpos := j\<rparr>)"
  have s2: "gameWorld s2 = (gameWorld s)\<lparr>PlayersList := insert_player rank (GetID s r) p (s_players s)\<rparr>"
    "CurrentPlayerID s2 = CurrentPlayerID s" "m_deqConnection s2 = m_deqConnection s"
    "connected s2 r" "all_live s2" "heap s2 = heap s" "GarbageIDs s2 = []"
    using assms(1,3) live by (simp_all add: s2_def set_players_def)
  have "wf_Player (GetID s r) p"
    using p(2,3) by (simp add: registered_def wf_Player_def ok_Player_def)
  then have w2: "wf_world (gameWorld s2)" using wf by (simp add: s2(1) wf_world_insert_player)
  then have keys: "distinct (map fst (s_players s2))" by (simp add: wf_world_def)
  have tiles: "MapTiles (gameWorld s2) = MapTiles (gameWorld s)" by (simp add: s2(1))
  have "OnMessage F n (Some r) msg s = on_register F ?disc (Some r) msg s"
    using assms(1,5) by (simp add: OnMessage_def Let_def)
  also have "\<dots> = Inr (welcomed r p s2)"
    using m' p(1) pid s2(2-5) keys assms(7)
    by (simp add: tiles on_register_def MessageClient_live Let_def rank_def [symmetric] s2_def [symmetric] send_enemies_live
        MessageAllClients_live all_live_def send_others_live welcomed_def greeting_def introductions_def)
  finally show thesis using that p(2,3) w2 s2 by blast
qed

text \<open>
  Property C33. Registering, while somebody is on turn and all clients are live, adds exactly one player
  to the game, under the id of the connection: with 45 health, four actions, a place from \<open>-1\<close> to
  \<open>38\<close> on both axes and a well-formed inventory, but with the name and the equipped index its client
  sent; the world stays well-formed and nobody else changes. The new client is posted its player, the map,
  every enemy and every other player, in this order; every other client is posted the new player, and
  nobody is posted anything else.
\<close>

theorem registration_effect:
  assumes "GarbageIDs s = []" and "all_live s" and "connected s r" and "wf_world (gameWorld s)"
    and "hid msg = ClientRegisterOnServer" and "length (body msg) = 2016" and "CurrentPlayerID s \<noteq> 0"
    and "distinct (m_deqConnection s)"
  shows "\<exists>s' p. OnMessage F n (Some r) msg s = Inr s' \<and> registered (GetID s r) (dec_Player (body msg)) p \<and>
           players (gameWorld s') = (players (gameWorld s))(GetID s r \<mapsto> p) \<and>
           EnemyList (gameWorld s') = EnemyList (gameWorld s) \<and> MapTiles (gameWorld s') = MapTiles (gameWorld s) \<and>
           wf_world (gameWorld s') \<and> CurrentPlayerID s' = CurrentPlayerID s \<and>
           m_deqConnection s' = m_deqConnection s \<and>
           posted (heap s' r) = posted (heap s r) @ map T_send
             ([with_data ClientRegisterFromServer (enc_Player p), with_data ClientUpdateMap (MapTiles (gameWorld s))] @
              map (\<lambda>e. with_data ClientInitEnemy (enc_Enemy e)) (EnemyList (gameWorld s)) @
              map (\<lambda>(k, q). with_data ClientAddPlayer (enc_Player q))
                (filter (\<lambda>(k, q). k \<noteq> GetID s r) (s_players s'))) \<and>
           (\<forall>r'. r' \<noteq> r \<longrightarrow> posted (heap s' r') = posted (heap s r') @
              (if Some r' \<in> set (m_deqConnection s) then [T_send (with_data ClientAddPlayer (enc_Player p))] else []))"
proof -
  from registration_run [OF assms(1-7), of F n] obtain p s2 rank where
    run: "OnMessage F n (Some r) msg s = Inr (welcomed r p s2)" and
    p: "registered (GetID s r) (dec_Player (body msg)) p" and wf: "wf_world (gameWorld s2)" and
    w: "gameWorld s2 = (gameWorld s)\<lparr>PlayersList := insert_player rank (GetID s r) p (s_players s)\<rparr>" and
    same: "CurrentPlayerID s2 = CurrentPlayerID s" "m_deqConnection s2 = m_deqConnection s" "heap s2 = heap s" by blast
  have full: "\<forall>c \<in> set (m_deqConnection s). c \<noteq> None" using assms(2) by (auto simp: all_live_def)
  have "pID p = GetID s r" using p by (simp add: registered_def)
  then have "filter (\<lambda>(k, q). pID q \<noteq> pID p) (s_players s2) = filter (\<lambda>(k, q). k \<noteq> GetID s r) (s_players s2)"
    using wf wf_world_player [OF wf] by (intro filter_cong) (auto simp: wf_Player_def wf_world_def)
  then have intro: "introductions (gameWorld s2) p = map (\<lambda>(k, q). with_data ClientAddPlayer (enc_Player q))
      (filter (\<lambda>(k, q). k \<noteq> GetID s r) (s_players (welcomed r p s2)))" by (simp add: introductions_def)
  have "posted (heap (welcomed r p s2) r) = posted (heap s r) @
      map T_send (greeting (gameWorld s2) p @ introductions (gameWorld s2) p)"
    by (simp add: welcomed_def same posted_send_each posted_send_all [OF assms(8) full])
  moreover have "posted (heap (welcomed r p s2) r') = posted (heap s r') @
      (if Some r' \<in> set (m_deqConnection s) then [T_send (with_data ClientAddPlayer (enc_Player p))] else [])"
    if "r' \<noteq> r" for r'
    using that by (simp add: welcomed_def same posted_send_each posted_send_all [OF assms(8) full])
  moreover have "greeting (gameWorld s2) p = [with_data ClientRegisterFromServer (enc_Player p),
      with_data ClientUpdateMap (MapTiles (gameWorld s))] @
      map (\<lambda>e. with_data ClientInitEnemy (enc_Enemy e)) (EnemyList (gameWorld s))"
    by (simp add: greeting_def w)
  ultimately show ?thesis using run p wf same w unfolding intro
    by (intro exI [of _ "welcomed r p s2"] exI [of _ p]) (simp add: w)
qed

lemma ok_inventory_with:
  "length ss \<le> MaxInventorySize \<Longrightarrow> list_all ok_ItemSlot ss \<Longrightarrow> ok_Inventory (inventory_with ss)"
  by (auto simp: ok_Inventory_def inventory_with_def list_all_iff ok_ItemSlot_def ok_Item_def
      ok_ItemType_def default_ItemSlot_def default_Item_def wf_Item_def)

lemma ok_table_slot: "i < length ItemTable \<Longrightarrow> ok_ItemSlot (table_slot i q)"
  by (simp add: ok_ItemSlot_def table_slot_def ok_ItemTable)

lemma ok_sample_player: "ok_Player (sample_player k c)"
  using ok_inventory_with [of "[table_slot 5 1]"] ok_table_slot [of 5 1]
  by (simp add: ok_Player_def sample_player_def MaxInventorySize_def ItemTable_def)

theorem registration_effect_witness:
  "\<exists>s' p. OnMessage 4 1 (Some 1) (with_data ClientRegisterOnServer (enc_Player (sample_player 7 vec3_zero)))
       sample_server = Inr s' \<and> registered 10001 (dec_Player (enc_Player (sample_player 7 vec3_zero))) p \<and>
       players (gameWorld s') 10001 = Some p \<and>
       posted (heap s' 0) = posted (heap sample_server 0) @ [T_send (with_data ClientAddPlayer (enc_Player p))]"
  using registration_effect [of sample_server 1
      "with_data ClientRegisterOnServer (enc_Player (sample_player 7 vec3_zero))" 4 1]
    pod_Player [OF ok_sample_player, of 7 vec3_zero]
  by (auto simp: update_conv')

end
