(* ===== verification/Wire.thy ===== *)
theory Wire
  imports Connection
begin

text \<open>
  What a connection guarantees on the wire: the write side hands the socket the frames of the sent
  messages in order, with at most one message operation in flight; the read side turns such a stream
  back into messages; the handshake accepts exactly the right answer.
\<close>

section \<open>The write side\<close>

definition frame :: "message \<Rightarrow> bytes" where
  "frame m = header_bytes m @ body m"

text \<open>The message operations in flight, and the message bytes on the wire (the handshake apart).\<close>

definition m_ops :: "connection \<Rightarrow> write_op list" where
  "m_ops c = filter (\<lambda>w. w \<noteq> W_validation) (writes c)"

definition m_wire :: "connection \<Rightarrow> bytes" where
  "m_wire c = concat (map snd (filter (\<lambda>(w, bs). w \<noteq> W_validation) (wire c)))"

text \<open>\<open>ms\<close>: the messages whose send task has run, \<open>d\<close>: those of them that are done.\<close>

definition write_inv :: "message list \<Rightarrow> connection \<Rightarrow> bool" where
  "write_inv ms c \<longleftrightarrow>
     (\<exists>d. ms = d @ m_qMessagesOut c \<and>
        (m_qMessagesOut c = [] \<and> m_ops c = [] \<and> m_wire c = concat (map frame d) \<or>
         m_qMessagesOut c \<noteq> [] \<and> m_ops c = [W_header] \<and> m_wire c = concat (map frame d) \<or>
         m_qMessagesOut c \<noteq> [] \<and> m_ops c = [W_body] \<and> body (hd (m_qMessagesOut c)) \<noteq> [] \<and>
           m_wire c = concat (map frame d) @ header_bytes (hd (m_qMessagesOut c))))"

definition task_messages :: "event \<Rightarrow> connection \<Rightarrow> message list" where
  "task_messages ev c =
     (case ev of E_task \<Rightarrow> (case posted c of T_send m # _ \<Rightarrow> [m] | _ \<Rightarrow> []) | _ \<Rightarrow> [])"

fun sent_in :: "(connection \<Rightarrow> connection) \<Rightarrow> event list \<Rightarrow> connection \<Rightarrow> message list" where
  "sent_in v [] c = []"
| "sent_in v (ev # evs) c =
     task_messages ev c @ (case step v ev c of Inr c' \<Rightarrow> sent_in v evs c' | Inl _ \<Rightarrow> [])"

text \<open>A server whose \<^verbatim>\<open>OnClientValidated\<close> only sends messages, as the game's does.\<close>

definition posts_only :: "(connection \<Rightarrow> connection) \<Rightarrow> bool" where
  "posts_only v \<longleftrightarrow> (\<forall>c. \<exists>ts. v c = c\<lparr>posted := posted c @ ts\<rparr>)"

fun no_write_error :: "event \<Rightarrow> bool" where
  "no_write_error (E_write i ok) = ok"
| "no_write_error _ = True"

lemma filter_remove_nth:
  assumes "i < length xs"
  shows "P (xs ! i) \<Longrightarrow> filter P xs = [y] \<Longrightarrow> filter P (remove_nth i xs) = [] \<and> xs ! i = y"
    and "\<not> P (xs ! i) \<Longrightarrow> filter P (remove_nth i xs) = filter P xs"
proof -
  let ?a = "take i xs" and ?x = "xs ! i" and ?b = "drop (Suc i) xs"
  have xs: "filter P xs = filter P ?a @ filter P [?x] @ filter P ?b"
    using id_take_nth_drop [OF assms] by (metis append_Cons append_Nil filter_append)
  show "P ?x \<Longrightarrow> filter P xs = [y] \<Longrightarrow> filter P (remove_nth i xs) = [] \<and> ?x = y"
    using xs by (cases "filter P ?a") (simp_all add: remove_nth_def)
  show "\<not> P ?x \<Longrightarrow> filter P (remove_nth i xs) = filter P xs"
    using xs by (simp add: remove_nth_def)
qed

lemma write_inv_frame:
  "m_qMessagesOut c' = m_qMessagesOut c \<Longrightarrow> m_ops c' = m_ops c \<Longrightarrow> m_wire c' = m_wire c \<Longrightarrow>
     write_inv ms c' = write_inv ms c"
  by (simp add: write_inv_def)

lemmas conn_defs = async_write_def async_read_def WriteHeader_def WriteBody_def WriteValidation_def
  ReadHeader_def ReadBody_def ReadValidationServer_def ReadValidationClient_def close_socket_def
  post_def AddToIncomingMessageQueue_def

lemmas q_defs = q_empty_def q_push_back_def q_pop_front_def q_front_def

lemma write_inv_send:
  assumes "write_inv ms c"
  shows "write_inv (ms @ [m]) (run_send m c)"
proof (cases "m_qMessagesOut c = []")
  case True
  then show ?thesis using assms
    by (simp add: write_inv_def run_send_def conn_defs q_defs m_ops_def m_wire_def)
next
  case False
  from assms obtain d where d: "ms = d @ m_qMessagesOut c"
    "m_ops c = [W_header] \<and> m_wire c = concat (map frame d) \<or>
     m_ops c = [W_body] \<and> body (hd (m_qMessagesOut c)) \<noteq> [] \<and>
       m_wire c = concat (map frame d) @ header_bytes (hd (m_qMessagesOut c))"
    using False by (auto simp: write_inv_def)
  have "run_send m c = c\<lparr>m_qMessagesOut := m_qMessagesOut c @ [m]\<rparr>"
    using False by (simp add: run_send_def q_defs)
  moreover have "m_ops (c\<lparr>m_qMessagesOut := q\<rparr>) = m_ops c" "m_wire (c\<lparr>m_qMessagesOut := q\<rparr>) = m_wire c" for q
    by (simp_all add: m_ops_def m_wire_def)
  ultimately show ?thesis using d False
    by (auto simp: write_inv_def intro!: exI [of _ d])
qed

lemma next_message_ok:
  assumes "m_qMessagesOut c \<noteq> []" and "m_ops c = []" and "m_wire c = concat (map frame (d @ [hd (m_qMessagesOut c)]))"
  shows "\<exists>c'. next_message c = Inr c' \<and> write_inv (d @ m_qMessagesOut c) c'"
proof -
  obtain m q where q: "m_qMessagesOut c = m # q" using assms(1) by (cases "m_qMessagesOut c") auto
  show ?thesis using assms q
    by (cases q)
      (auto simp: next_message_def q_defs conn_defs write_inv_def m_ops_def m_wire_def
        intro!: exI [of _ "d @ [m]"])
qed

lemma write_inv_validation:
  assumes iv: "write_inv ms c" and i: "i < length (writes c)" and op: "writes c ! i = W_validation"
  shows "\<exists>c'. step v (E_write i True) c = Inr c' \<and> write_inv ms c'"
proof -
  define c1 where "c1 = c\<lparr>writes := remove_nth i (writes c)\<rparr>"
  have run: "step v (E_write i True) c = on_written W_validation True
      (c1\<lparr>wire := wire c @ [(W_validation, enc_u64 (m_nHandshakeOut c))]\<rparr>)"
    using i op by (simp add: step_def Let_def write_bytes_def c1_def)
  have "m_ops c1 = m_ops c"
    using filter_remove_nth(2) [OF i, of "\<lambda>w. w \<noteq> W_validation"] op by (simp add: m_ops_def c1_def)
  then have "write_inv ms (c1\<lparr>wire := wire c @ [(W_validation, bs)]\<rparr>)" for bs
    using iv by (subst write_inv_frame [of _ c]) (simp_all add: c1_def m_ops_def m_wire_def)
  moreover have "write_inv ms (ReadHeader c') = write_inv ms c'" for c'
    by (rule write_inv_frame) (simp_all add: conn_defs m_ops_def m_wire_def)
  ultimately show ?thesis unfolding run by (simp add: on_written_defs)
qed

text \<open>Of a message operation in flight: which message it writes, and what is already on the wire.\<close>

lemma write_inv_in_flight:
  assumes iv: "write_inv ms c" and i: "i < length (writes c)" and "writes c ! i \<noteq> W_validation"
  obtains d m q where "ms = d @ m # q" "m_qMessagesOut c = m # q"
    "m_ops (c\<lparr>writes := remove_nth i (writes c)\<rparr>) = []"
    "writes c ! i = W_header \<and> m_wire c = concat (map frame d) \<or>
     writes c ! i = W_body \<and> m_wire c = concat (map frame d) @ header_bytes m"
proof -
  let ?op = "writes c ! i"
  from iv obtain d where d: "ms = d @ m_qMessagesOut c"
    "m_qMessagesOut c = [] \<and> m_ops c = [] \<or>
     m_qMessagesOut c \<noteq> [] \<and> m_ops c = [W_header] \<and> m_wire c = concat (map frame d) \<or>
     m_qMessagesOut c \<noteq> [] \<and> m_ops c = [W_body] \<and> body (hd (m_qMessagesOut c)) \<noteq> [] \<and>
       m_wire c = concat (map frame d) @ header_bytes (hd (m_qMessagesOut c))"
    by (auto simp: write_inv_def)
  have "?op \<in> set (m_ops c)" using assms(3) i by (simp add: m_ops_def)
  then have ne: "m_qMessagesOut c \<noteq> []" "m_ops c = [?op]" using d(2) by auto
  obtain m q where q: "m_qMessagesOut c = m # q" using ne(1) by (cases "m_qMessagesOut c") auto
  have "m_ops (c\<lparr>writes := remove_nth i (writes c)\<rparr>) = []"
    using filter_remove_nth(1) [OF i, of "\<lambda>w. w \<noteq> W_validation" ?op] assms(3) ne(2)
    by (simp add: m_ops_def)
  then show thesis using d ne q by (intro that [of d m q]) auto
qed

lemma write_inv_written:
  assumes iv: "write_inv ms c" and i: "i < length (writes c)"
  shows "\<exists>c'. step v (E_write i True) c = Inr c' \<and> write_inv ms c'"
proof (cases "writes c ! i = W_validation")
  case True
  then show ?thesis by (rule write_inv_validation [OF iv i])
next
  case False
  define c1 where "c1 = c\<lparr>writes := remove_nth i (writes c)\<rparr>"
  from write_inv_in_flight [OF iv i False] obtain d m q where
    ms: "ms = d @ m # q" and q: "m_qMessagesOut c = m # q" and ops1: "m_ops c1 = []" and
    op: "writes c ! i = W_header \<and> m_wire c = concat (map frame d) \<or>
     writes c ! i = W_body \<and> m_wire c = concat (map frame d) @ header_bytes m"
    unfolding c1_def by metis
  from op show ?thesis
  proof (elim disjE conjE)
    assume h: "writes c ! i = W_header" "m_wire c = concat (map frame d)"
    define c2 where "c2 = c1\<lparr>wire := wire c @ [(W_header, header_bytes m)]\<rparr>"
    have c2: "m_qMessagesOut c2 = m # q" "m_ops c2 = []" "m_wire c2 = concat (map frame d) @ header_bytes m"
      using ops1 q h by (auto simp: c2_def c1_def m_ops_def m_wire_def)
    have run: "step v (E_write i True) c =
        (if 0 < length (body m) then Inr (WriteBody c2) else next_message c2)"
      using i h q c2(1) by (simp add: step_def Let_def write_bytes_def on_written_defs q_defs c2_def c1_def)
    show ?thesis
    proof (cases "body m = []")
      case True
      then show ?thesis using next_message_ok [of c2 d] c2 ms run by (simp add: frame_def)
    next
      case False
      then have "write_inv ms (WriteBody c2)"
        using c2 ms by (auto simp: write_inv_def conn_defs m_ops_def m_wire_def intro!: exI [of _ d])
      then show ?thesis using run False by simp
    qed
  next
    assume b: "writes c ! i = W_body" "m_wire c = concat (map frame d) @ header_bytes m"
    define c2 where "c2 = c1\<lparr>wire := wire c @ [(W_body, body m)]\<rparr>"
    have c2: "m_qMessagesOut c2 = m # q" "m_ops c2 = []"
        "m_wire c2 = concat (map frame d) @ header_bytes m @ body m"
      using ops1 q b by (auto simp: c2_def c1_def m_ops_def m_wire_def)
    have run: "step v (E_write i True) c = next_message c2"
      using i b q by (simp add: step_def Let_def write_bytes_def on_written_defs q_defs c2_def c1_def)
    then show ?thesis using next_message_ok [of c2 d] c2 ms by (simp add: frame_def)
  qed
qed

lemma write_inv_read:
  assumes v: "posts_only v" and "write_inv ms c"
  shows "write_inv ms (on_read v op r (c\<lparr>reads := rs\<rparr>))"
proof -
  have posts: "\<exists>ts. v c' = c'\<lparr>posted := posted c' @ ts\<rparr>" for c'
    using v by (simp add: posts_only_def)
  define c1 where "c1 = on_read v op r (c\<lparr>reads := rs\<rparr>)"
  have "m_qMessagesOut c1 = m_qMessagesOut c \<and> m_ops c1 = m_ops c \<and> m_wire c1 = m_wire c"
  proof (cases "\<exists>bs. op = R_validation_server \<and> r = Some bs \<and> m_nOwnerType c = OwnerServer \<and>
      dec_u64 bs = m_nHandshakeCheck c")
    case True
    then obtain bs where bs: "op = R_validation_server" "r = Some bs" "m_nOwnerType c = OwnerServer"
      "dec_u64 bs = m_nHandshakeCheck c" by blast
    obtain ts where "v (c\<lparr>reads := rs, m_nHandshakeIn := dec_u64 bs\<rparr>)
        = c\<lparr>reads := rs, m_nHandshakeIn := dec_u64 bs, posted := posted c @ ts\<rparr>"
      using posts [of "c\<lparr>reads := rs, m_nHandshakeIn := dec_u64 bs\<rparr>"] by auto
    then show ?thesis using bs
      by (simp add: c1_def on_read_defs conn_defs m_ops_def m_wire_def)
  next
    case False
    then show ?thesis
      by (cases op; cases r)
        (auto simp: c1_def on_read_defs conn_defs m_ops_def m_wire_def Let_def)
  qed
  then show ?thesis using assms(2) by (subst write_inv_frame [of _ c]) (simp_all add: c1_def)
qed

lemma write_inv_step:
  assumes v: "posts_only v" and iv: "write_inv ms c" and ok: "no_write_error ev"
  shows "\<exists>c'. step v ev c = Inr c' \<and> write_inv (ms @ task_messages ev c) c'"
proof (cases ev)
  case E_task
  show ?thesis
  proof (cases "posted c")
    case Nil
    then show ?thesis using iv E_task by (simp add: step_def task_messages_def)
  next
    case (Cons t ts)
    have "write_inv ms (c\<lparr>posted := ts\<rparr>)" using iv
      by (subst write_inv_frame [of _ c]) (simp_all add: m_ops_def m_wire_def)
    moreover have "write_inv ms (close_socket c') = write_inv ms c'" for c'
      by (rule write_inv_frame) (simp_all add: conn_defs m_ops_def m_wire_def)
    ultimately show ?thesis using E_task Cons write_inv_send
      by (cases t) (simp_all add: step_def task_messages_def run_task_def)
  qed
next
  case (E_write i b)
  then show ?thesis using iv ok write_inv_written [OF iv, of i v]
    by (cases "i < length (writes c)") (simp_all add: task_messages_def step_def)
next
  case (E_read i r)
  then show ?thesis using iv write_inv_read [OF v iv]
    by (cases "i < length (reads c)") (simp_all add: task_messages_def step_def)
qed

lemma write_inv_steps:
  assumes v: "posts_only v" and "write_inv ms c" and "list_all no_write_error evs"
  shows "\<exists>c'. steps v evs c = Inr c' \<and> write_inv (ms @ sent_in v evs c) c'"
  using assms(2,3)
proof (induction evs arbitrary: ms c)
  case Nil
  then show ?case by (simp add: steps_def)
next
  case (Cons ev evs)
  from write_inv_step [OF v Cons.prems(1), of ev] Cons.prems(2) obtain c1 where
    c1: "step v ev c = Inr c1" "write_inv (ms @ task_messages ev c) c1" by auto
  from Cons.IH [OF c1(2)] Cons.prems(2) obtain c' where
    "steps v evs c1 = Inr c'" "write_inv ((ms @ task_messages ev c) @ sent_in v evs c1) c'" by auto
  then show ?case using c1(1) by (simp add: steps_def)
qed

lemma write_inv_new: "write_inv [] (new_connection own b n q)"
  by (simp add: write_inv_def new_connection_def m_ops_def m_wire_def)

text \<open>
  Property C37. Whatever order asio completes the operations in, as long as no write fails, no handler
  touches an empty queue, at most one message operation is in flight, and the message bytes on the
  wire are the complete frames of a prefix of the sent messages, followed by at most the header of
  the next one; when the queue is empty, everything sent is on the wire.
\<close>

theorem wire_carries_sent_messages:
  assumes "posts_only v" and "list_all no_write_error evs"
  shows "\<exists>c d. steps v evs (new_connection own b n qIn) = Inr c \<and>
           sent_in v evs (new_connection own b n qIn) = d @ m_qMessagesOut c \<and>
           length (m_ops c) \<le> 1 \<and>
           (m_wire c = concat (map frame d) \<or>
            m_wire c = concat (map frame d) @ header_bytes (hd (m_qMessagesOut c)))"
  using write_inv_steps [OF assms(1) write_inv_new assms(2), of own b n qIn]
  by (fastforce simp: write_inv_def)

theorem wire_carries_sent_messages_witness:
  "\<exists>c d. steps (\<lambda>c. c) [E_task] (new_connection OwnerClient True 0 []) = Inr c \<and>
     sent_in (\<lambda>c. c) [E_task] (new_connection OwnerClient True 0 []) = d @ m_qMessagesOut c"
proof -
  have "posts_only (\<lambda>c. c)" by (simp add: posts_only_def) (metis append_Nil2 connection.surjective connection.update_convs(10))
  from wire_carries_sent_messages [OF this, of "[E_task]" OwnerClient True 0 "[]"] show ?thesis by auto
qed

section \<open>The read side\<close>

text \<open>
  Feeding a stream to the reader: the read in flight completes when its bytes are there; one unit of
  fuel per read.
\<close>

fun feed :: "nat \<Rightarrow> bytes \<Rightarrow> connection \<Rightarrow> bytes \<times> connection" where
  "feed 0 bs c = (bs, c)"
| "feed (Suc n) bs c =
     (case reads c of
        [] \<Rightarrow> (bs, c)
      | op # ops \<Rightarrow>
          (let k = read_size op c
           in if k \<le> length bs
              then feed n (drop k bs) (on_read (\<lambda>c. c) op (Some (take k bs)) (c\<lparr>reads := ops\<rparr>))
              else (bs, c)))"

text \<open>
  What the reader makes of a stream of messages: each message, except that one without a body gets
  the body of the message before it, because the temporary message keeps it.
\<close>

fun as_received :: "bytes \<Rightarrow> message list \<Rightarrow> message list" where
  "as_received old [] = []"
| "as_received old (m # ms) =
     (let m' = (if body m = [] then m\<lparr>body := old\<rparr> else m) in m' # as_received (body m') ms)"

definition remote_of :: "connection \<Rightarrow> u32 option" where
  "remote_of c = (if m_nOwnerType c = OwnerServer then Some (conn_id c) else None)"

lemma enc_dec_header:
  "dec_u32 (slice 0 4 (header_bytes m)) = hid m" "dec_u32 (slice 4 4 (header_bytes m)) = hsize m"
  by (simp_all add: header_bytes_def slice_def)

lemma length_header [simp]: "length (header_bytes m) = 8"
  by (simp add: header_bytes_def)

lemma length_resize [simp]: "length (resize n bs) = n"
  by (simp add: resize_def)

lemma feed_frame:
  assumes "reads c = [R_header]" and "wf_message m"
  shows "\<exists>c' k. k \<le> 2 \<and> (\<forall>n. feed (k + n) (frame m @ rest) c = feed n rest c') \<and>
           reads c' = [R_header] \<and> remote_of c' = remote_of c \<and>
           m_msgTemporaryIn c' = hd (as_received (body (m_msgTemporaryIn c)) [m]) \<and>
           m_qMessagesIn c' = m_qMessagesIn c @ [(remote_of c, m_msgTemporaryIn c')]"
proof (cases "body m = []")
  case True
  then have sz: "hsize m = 0" using assms(2) by (simp add: wf_message_def)
  let ?c1 = "on_read (\<lambda>c. c) R_header (Some (header_bytes m)) (c\<lparr>reads := []\<rparr>)"
  have "feed (1 + n) (frame m @ rest) c = feed n rest ?c1" for n
    using assms(1) True by (simp add: frame_def read_size_def)
  moreover have "reads ?c1 = [R_header]" "remote_of ?c1 = remote_of c"
    "m_msgTemporaryIn ?c1 = m\<lparr>body := body (m_msgTemporaryIn c)\<rparr>"
    "m_qMessagesIn ?c1 = m_qMessagesIn c @ [(remote_of c, m_msgTemporaryIn ?c1)]"
    using sz by (simp_all add: on_read_defs enc_dec_header conn_defs q_defs remote_of_def Let_def)
  ultimately show ?thesis using True
    by (intro exI [of _ ?c1] exI [of _ 1]) simp
next
  case False
  then have sz: "unat (hsize m) = length (body m)" "0 < hsize m"
    using assms(2) by (auto simp: wf_message_def unat_of_nat word_neq_0_conv [symmetric] word_unat_eq_iff)
  define c1 where "c1 = on_read (\<lambda>c. c) R_header (Some (header_bytes m)) (c\<lparr>reads := []\<rparr>)"
  have c1: "reads c1 = [R_body]" "m_nOwnerType c1 = m_nOwnerType c" "conn_id c1 = conn_id c" "m_qMessagesIn c1 = m_qMessagesIn c"
    "m_msgTemporaryIn c1 = \<lparr>hid = hid m, hsize = hsize m,
        body = resize (length (body m)) (body (m_msgTemporaryIn c))\<rparr>"
    using sz by (simp_all add: c1_def on_read_defs enc_dec_header conn_defs remote_of_def Let_def)
  define c2 where "c2 = on_read (\<lambda>c. c) R_body (Some (body m)) (c1\<lparr>reads := []\<rparr>)"
  have "feed (2 + n) (frame m @ rest) c = feed n rest c2" for n
  proof -
    have "feed (2 + n) (frame m @ rest) c = feed (Suc n) (body m @ rest) c1"
      using assms(1) by (simp add: frame_def read_size_def c1_def)
    also have "\<dots> = feed n rest c2"
      using c1 by (simp add: read_size_def c2_def)
    finally show ?thesis .
  qed
  moreover have "reads c2 = [R_header]" "remote_of c2 = remote_of c" "m_msgTemporaryIn c2 = m"
    "m_qMessagesIn c2 = m_qMessagesIn c @ [(remote_of c, m)]"
    using c1 by (simp_all add: c2_def on_read_defs conn_defs q_defs remote_of_def)
  ultimately show ?thesis using False
    by (intro exI [of _ c2] exI [of _ 2]) simp
qed

lemma feed_frames:
  assumes "reads c = [R_header]" and "list_all wf_message ms" and "2 * length ms \<le> n"
  shows "\<exists>c'. feed n (concat (map frame ms)) c = ([], c') \<and> reads c' = [R_header] \<and>
           m_qMessagesIn c' = m_qMessagesIn c @
             map (Pair (remote_of c)) (as_received (body (m_msgTemporaryIn c)) ms)"
  using assms
proof (induction ms arbitrary: c n)
  case Nil
  then show ?case by (cases n) (simp_all add: read_size_def)
next
  case (Cons m ms)
  from feed_frame [OF Cons.prems(1), of m "concat (map frame ms)"] Cons.prems(2) obtain c1 k where
    k: "k \<le> 2" "feed (k + (n - k)) (frame m @ concat (map frame ms)) c
          = feed (n - k) (concat (map frame ms)) c1"
    and c1: "reads c1 = [R_header]" "remote_of c1 = remote_of c"
      "m_msgTemporaryIn c1 = hd (as_received (body (m_msgTemporaryIn c)) [m])"
      "m_qMessagesIn c1 = m_qMessagesIn c @ [(remote_of c, m_msgTemporaryIn c1)]" by auto
  have n: "k + (n - k) = n" "2 * length ms \<le> n - k" using k(1) Cons.prems(3) by auto
  from Cons.IH [OF c1(1) _ n(2)] Cons.prems(2) obtain c' where
    "feed (n - k) (concat (map frame ms)) c1 = ([], c')" "reads c' = [R_header]"
    "m_qMessagesIn c' = m_qMessagesIn c1 @
        map (Pair (remote_of c1)) (as_received (body (m_msgTemporaryIn c1)) ms)" by auto
  then show ?case using k(2) n(1) c1 by (auto simp: Let_def)
qed


text \<open>
  Property C38. A reader that waits for a header takes a stream of well-formed frames apart into
  exactly its messages, in order and completely, with the remote it belongs to, and waits for the next
  header; but a message without a body arrives with the body of the message before it.
\<close>

theorem stream_is_read_back:
  assumes "reads c = [R_header]" and "list_all wf_message ms" and "2 * length ms \<le> n"
  shows "\<exists>c'. feed n (concat (map frame ms)) c = ([], c') \<and> reads c' = [R_header] \<and>
           m_qMessagesIn c' = m_qMessagesIn c @
             map (Pair (remote_of c)) (as_received (body (m_msgTemporaryIn c)) ms)"
  by (rule feed_frames [OF assms])

theorem stream_is_read_back_witness:
  "\<exists>c'. feed 4 (concat (map frame [msg_push [7] (new_message 4), new_message 19]))
      ((new_connection OwnerClient True 0 [])\<lparr>reads := [R_header]\<rparr>) = ([], c') \<and>
    m_qMessagesIn c' = [(None, \<lparr>hid = 4, hsize = 1, body = [7]\<rparr>), (None, \<lparr>hid = 19, hsize = 0, body = [7]\<rparr>)]"
proof -
  let ?c = "(new_connection OwnerClient True 0 [])\<lparr>reads := [R_header]\<rparr>"
  let ?ms = "[msg_push [7] (new_message 4), new_message 19]"
  have "list_all wf_message ?ms" by (simp add: wf_message_def new_message_def)
  from stream_is_read_back [of ?c ?ms 4, OF _ this] show ?thesis
    by (simp add: new_connection_def remote_of_def new_message_def msg_push_def del: feed.simps) blast
qed

section \<open>The handshake\<close>

definition nibble_swap :: "u64 \<Rightarrow> u64" where
  "nibble_swap w = drop_bit 4 (w AND 0xF0F0F0F0F0F0F0) OR push_bit 4 (w AND 0x0F0F0F0F0F0F0F)"

lemma scramble_swap: "scramble x = nibble_swap (x XOR 0xDEADBEEFC0DECAFE) XOR 0xC0DEFACE12345678"
  by (simp add: scramble_def nibble_swap_def Let_def)

text \<open>Bit by bit: the nibbles of the seven low bytes change places, the top byte is lost.\<close>

lemma bit_nibble_swap:
  assumes "n < 64"
  shows "bit (nibble_swap w) n \<longleftrightarrow> n < 56 \<and> (if n mod 8 < 4 then bit w (n + 4) else bit w (n - 4))"
proof -
  have "\<forall>n \<in> set [0..<64]. bit (nibble_swap w) n \<longleftrightarrow>
      n < 56 \<and> (if n mod 8 < 4 then bit w (n + 4) else bit w (n - 4))"
    unfolding nibble_swap_def
    by (simp add: upt_rec_numeral upt_conv_Cons bit_simps bit_numeral_rec)
  then show ?thesis using assms by simp
qed

definition low56 :: u64 where "low56 = 0xFFFFFFFFFFFFFF"

lemma bit_low56: "bit low56 n \<longleftrightarrow> n < 56"
proof -
  have "low56 = mask 56" by (simp add: low56_def mask_eq_exp_minus_1)
  then have "bit low56 n \<longleftrightarrow> bit (mask 56 :: u64) n" by (simp only:)
  also have "\<dots> \<longleftrightarrow> n < 56" by (auto simp: bit_mask_iff)
  finally show ?thesis .
qed

lemma bit_and_low56: "bit (w AND low56) n \<longleftrightarrow> bit w n \<and> n < 56"
  by (simp only: bit_and_iff bit_low56)

lemma nibble_swap_low: "nibble_swap (w AND low56) = nibble_swap w"
proof (rule bit_word_eqI)
  fix n assume "n < LENGTH(64)"
  then have n: "n < 64" by simp
  have up: "n < 56 \<Longrightarrow> n mod 8 < 4 \<Longrightarrow> n + 4 < 56" by presburger
  have down: "n < 56 \<Longrightarrow> n - 4 < 56" by linarith
  show "bit (nibble_swap (w AND low56)) n \<longleftrightarrow> bit (nibble_swap w) n"
    unfolding bit_nibble_swap [OF n] bit_and_low56
    using up down by (cases "n < 56"; cases "n mod 8 < 4") simp_all
qed

lemma nibble_swap_involution: "nibble_swap (nibble_swap w) = w AND low56"
proof (rule bit_word_eqI)
  fix n assume "n < LENGTH(64)"
  then have n: "n < 64" by simp
  have "\<forall>n \<in> set [0..<64]. (n mod 8 < 4 \<longrightarrow> n < 56 \<longrightarrow> n + 4 < 56 \<and> \<not> (n + 4) mod 8 < 4) \<and>
      (\<not> n mod 8 < 4 \<longrightarrow> 4 \<le> n \<and> (n - 4) mod 8 < (4::nat))"
    by (simp add: upt_rec_numeral upt_conv_Cons)
  then have up: "n < 56 \<Longrightarrow> n mod 8 < 4 \<Longrightarrow> n + 4 < 56 \<and> \<not> (n + 4) mod 8 < 4"
    and down: "\<not> n mod 8 < 4 \<Longrightarrow> 4 \<le> n \<and> (n - 4) mod 8 < 4"
    using n by simp_all
  show "bit (nibble_swap (nibble_swap w)) n \<longleftrightarrow> bit (w AND low56) n"
  proof (cases "n < 56")
    case True
    show ?thesis
    proof (cases "n mod 8 < 4")
      case low: True
      have m: "n + 4 < 64" using up [OF True low] by simp
      show ?thesis unfolding bit_nibble_swap [OF n] bit_nibble_swap [OF m] bit_and_low56
        using up [OF True low] low True by simp
    next
      case high: False
      have m: "n - 4 < 64" using n by simp
      show ?thesis unfolding bit_nibble_swap [OF n] bit_nibble_swap [OF m] bit_and_low56
        using down [OF high] high True by (simp add: less_imp_diff_less)
    qed
  next
    case False
    then show ?thesis unfolding bit_nibble_swap [OF n] bit_and_low56 by simp
  qed
qed

lemma xor_cancel: "(a XOR k = b XOR k) = (a = (b::u64))"
proof
  assume "a XOR k = b XOR k"
  then have "(a XOR k) XOR k = (b XOR k) XOR k" by simp
  then show "a = b" by (simp add: xor.assoc)
qed simp

lemma and_xor_distrib: "(a XOR k) AND m = (a AND m) XOR (k AND (m::u64))"
  by (rule bit_word_eqI) (auto simp: bit_simps)

text \<open>
  Two challenges have the same answer exactly when they agree on their low seven bytes:
  the scrambling loses the top byte of the clock value, and nothing else.
\<close>

theorem scramble_eq_iff:
  "scramble x = scramble y \<longleftrightarrow> x AND low56 = y AND low56"
proof -
  let ?k = "0xDEADBEEFC0DECAFE :: u64"
  have "scramble x = scramble y \<longleftrightarrow> nibble_swap (x XOR ?k) = nibble_swap (y XOR ?k)"
    by (simp only: scramble_swap xor_cancel)
  also have "\<dots> \<longleftrightarrow> (x XOR ?k) AND low56 = (y XOR ?k) AND low56"
    by (metis nibble_swap_involution nibble_swap_low)
  also have "\<dots> \<longleftrightarrow> x AND low56 = y AND low56"
    by (simp only: and_xor_distrib xor_cancel)
  finally show ?thesis .
qed

definition challenge :: "connection \<Rightarrow> bytes" where
  "challenge c = enc_u64 (m_nHandshakeOut c)"

text \<open>What a client connection writes after it has read a challenge.\<close>

definition answer_of :: "connection \<Rightarrow> bytes \<Rightarrow> bytes res" where
  "answer_of c bs = write_bytes W_validation (on_read (\<lambda>c. c) R_validation_client (Some bs) c)"

text \<open>
  A server connection accepts an answer, and only then goes on to read messages, exactly
  when the answer is the scrambled challenge; a client connection that reads the challenge answers
  with exactly that; any other answer closes the socket.
\<close>

theorem handshake_accepts_iff:
  assumes "posts_only v" and "m_nOwnerType s = OwnerServer" and "sock_open s"
    and "m_nHandshakeCheck s = scramble (m_nHandshakeOut s)" and "m_nOwnerType c = OwnerClient"
  shows "answer_of c (challenge s) = Inr (enc_u64 (scramble (m_nHandshakeOut s))) \<and>
         (let s' = on_read v R_validation_server (Some (enc_u64 y)) s
          in if y = scramble (m_nHandshakeOut s) then sock_open s' \<and> reads s' = reads s @ [R_header]
             else \<not> sock_open s' \<and> reads s' = reads s)"
proof -
  obtain ts where "v (s\<lparr>m_nHandshakeIn := y\<rparr>) = (s\<lparr>m_nHandshakeIn := y\<rparr>)\<lparr>posted := posted s @ ts\<rparr>"
    using assms(1) unfolding posts_only_def by (metis connection.select_convs(10) connection.surjective connection.update_convs(6))
  note vy = this
  show ?thesis
  proof (cases "y = scramble (m_nHandshakeOut s)")
    case True
    show ?thesis using assms(2-5) vy unfolding True
      by (simp add: answer_of_def challenge_def on_read_defs write_bytes_def conn_defs Let_def)
  next
    case False
    then show ?thesis using assms(2-5)
      by (simp add: answer_of_def challenge_def on_read_defs write_bytes_def conn_defs Let_def)
  qed
qed

theorem handshake_accepts_iff_witness:
  "answer_of (new_connection OwnerClient True 0 []) (challenge (new_connection OwnerServer True 77 []))
     = Inr (enc_u64 (scramble 77))"
proof -
  have "posts_only (\<lambda>c. post T_close c)" by (auto simp: posts_only_def post_def)
  from handshake_accepts_iff [OF this, of "new_connection OwnerServer True 77 []" "new_connection OwnerClient True 0 []"]
  show ?thesis by (simp add: new_connection_def)
qed

text \<open>
  Accepting a client starts the handshake write and runs the posted \<^verbatim>\<open>ServerAccept\<close>
  message before the answer is in: two writes are in flight on one socket, which asio forbids.
\<close>

theorem accept_overlaps_writes:
  "\<exists>c. steps v [E_task] (ConnectToClient uid (Send (new_message 0) (new_connection OwnerServer True n qIn)))
         = Inr c \<and> writes c = [W_validation, W_header]"
  by (simp add: steps_def step_def ConnectToClient_def Send_def new_connection_def conn_defs run_task_def
      run_send_def q_defs new_message_def Let_def)

end
