(* ===== verification/WorldKeeps.thy ===== *)
theory WorldKeeps
  imports EnemyTurn
begin

text \<open>
  What every action keeps, whatever the state it starts from: when it returns, the world is
  well-formed as before, and the same players and enemies are there. Unlike in theory Combat nothing is
  assumed that would make the action return.
\<close>

section \<open>Players\<close>

definition world_kept :: "GameWorld \<Rightarrow> GameWorld \<Rightarrow> bool" where
  "world_kept w w' \<longleftrightarrow> wf_world w' \<and> map fst (PlayersList w') = map fst (PlayersList w) \<and>
     length (EnemyList w') = length (EnemyList w)"

lemma world_kept_refl: "wf_world w \<Longrightarrow> world_kept w w"
  by (simp add: world_kept_def)

lemma world_kept_trans: "world_kept a b \<Longrightarrow> world_kept b c \<Longrightarrow> world_kept a c"
  by (simp add: world_kept_def)

lemma world_kept_wf: "world_kept w w' \<Longrightarrow> wf_world w'"
  by (simp add: world_kept_def)

lemma world_kept_shape: "wf_world w' \<Longrightarrow> same_shape w w' \<Longrightarrow> world_kept w w'"
  by (simp add: world_kept_def same_shape_def)

lemma attack_by_player_keeps:
  assumes "wf_world w" and "attack_by_player k a w = Inr w'"
  shows "world_kept w w'"
proof -
  obtain p where p: "players w k = Some p" using assms(2) by (auto simp: attack_by_player_def split: option.splits)
  have wi: "wf_Inventory (pInventory p)" using wf_world_player [OF assms(1) p] by (simp add: wf_Player_def)
  have "unat (pEquipedItemID p) < MaxInventorySize"
  proof (rule ccontr)
    assume "\<not> ?thesis"
    then have "weapon_strike (pInventory p) (pEquipedItemID p) = Inl AssertFailed"
      using weapon_strike_bad_index [OF wi] by simp
    then show False using assms(2) p by (simp add: attack_by_player_def Player_MakeAttack_def)
  qed
  from attack_by_player_wf [OF assms(1) p this, of a] assms(2) show ?thesis by (auto intro: world_kept_shape)
qed

lemma move_player_keeps:
  assumes "wf_world w" and "move_player k d w = Inr w'"
  shows "world_kept w w'"
proof -
  obtain p where p: "players w k = Some p" using assms(2) by (auto simp: move_player_def split: option.splits)
  from move_player_wf [OF assms(1) p, of d] assms(2) show ?thesis by (auto intro: world_kept_shape)
qed

text \<open>Writing the turn actions of a player.\<close>

lemma SetCurrent_Inr: "SetCurrentTurnActions n p = Inr p' \<Longrightarrow> \<exists>c. p' = p\<lparr>CurrentTurns := c\<rparr>"
  by (auto simp: SetCurrentTurnActions_def split: if_splits)

lemma update_turns_keeps:
  assumes "wf_world w" and "players w k = Some p"
  shows "world_kept w (w\<lparr>PlayersList := AList.update k (p\<lparr>CurrentTurns := c\<rparr>) (PlayersList w)\<rparr>)"
proof -
  have "wf_Player k (p\<lparr>CurrentTurns := c\<rparr>)" using wf_world_player [OF assms] by (simp add: wf_Player_def)
  then show ?thesis using assms
    by (intro world_kept_shape wf_world_update_player same_shape_update_player) auto
qed

lemma spend_turn_keeps:
  assumes "wf_world w" and "spend_turn_action k w = Inr w'"
  shows "world_kept w w'"
  using assms update_turns_keeps [OF assms(1)]
  by (auto simp: spend_turn_action_def split: option.splits dest!: SetCurrent_Inr)

lemma MakeApprovedAction_keeps:
  assumes "wf_world w" and "MakeApprovedAction k a w = Inr w'"
  shows "world_kept w w'"
proof -
  from assms(2) obtain v where v: "(case ActionType a of
             Move \<Rightarrow> res_bind (move_player k (action_vec (PA_ActionInfo a)) w) (attack_by_player k a)
           | Attack \<Rightarrow> attack_by_player k a w
           | _ \<Rightarrow> Inr w) = Inr v" and spend: "spend_turn_action k v = Inr w'"
    by (auto simp: MakeApprovedAction_def)
  have moved: "world_kept w v" if "move_player k d w = Inr u" "attack_by_player k a u = Inr v" for d u
    using move_player_keeps [OF assms(1) that(1)] attack_by_player_keeps [OF _ that(2)]
    by (blast intro: world_kept_trans world_kept_wf)
  then have "world_kept w v"
    using v attack_by_player_keeps [OF assms(1), of k a v] world_kept_refl [OF assms(1)]
    by (auto split: EPlayerActionType.splits)
  then show ?thesis using spend_turn_keeps [OF _ spend] by (blast intro: world_kept_trans world_kept_wf)
qed

section \<open>Enemies\<close>

lemma MakeEnemyAction_keeps:
  assumes "wf_world w" and "MakeEnemyAction i a w = Inr w'"
  shows "world_kept w w'"
proof -
  have i: "i < length (EnemyList w)" using assms(2) by (auto simp: MakeEnemyAction_def split: if_splits)
  let ?e = "EnemyList w ! i"
  have wi: "wf_Inventory (einventory ?e)" using wf_world_enemy [OF assms(1) i] by (simp add: wf_Enemy_def)
  show ?thesis
  proof (cases "unat (eEquipedItemID ?e) < MaxInventorySize")
    case True
    from MakeEnemyAction_wf [OF assms(1) i True, of a] assms(2) show ?thesis by (auto intro: world_kept_shape)
  next
    case False
    then have "weapon_strike (einventory ?e) (eEquipedItemID ?e) = Inl AssertFailed"
      using weapon_strike_bad_index [OF wi] by simp
    then have "actionType a \<noteq> EnemyBaseAttack"
      using assms(2) i by (auto simp: MakeEnemyAction_def Let_def Enemy_MakeAttack_def)
    moreover have "wf_Enemy (?e\<lparr>eCoords := c\<rparr>)" for c
      using wf_world_enemy [OF assms(1) i] by (simp add: wf_Enemy_def)
    ultimately show ?thesis using assms i
      by (auto simp: MakeEnemyAction_def Let_def wf_world_update_enemy world_simps
          intro!: world_kept_shape split: EEnemyActionType.splits)
  qed
qed

lemma ai_loop_keeps:
  "wf_world w \<Longrightarrow> ai_loop n i active cand left target w acts = Inr (w', acts') \<Longrightarrow> world_kept w w'"
proof (induction n arbitrary: left target w acts)
  case (Suc n)
  have step: "world_kept w w'"
    if "MakeEnemyAction i a w = Inr v" "ai_loop n i active cand left' target' v acts'' = Inr (w', acts')"
    for a v left' target' acts''
    using MakeEnemyAction_keeps [OF Suc.prems(1) that(1)] Suc.IH [OF _ that(2)]
    by (blast intro: world_kept_trans world_kept_wf)
  show ?case
    using Suc.prems(2) step Suc.IH [OF Suc.prems(1)] world_kept_refl [OF Suc.prems(1)]
    by (auto simp: ai_loop.simps(2) Let_def split: if_splits)
qed simp

lemma equip_enemy_wf: "wf_Enemy e \<Longrightarrow> equip_enemy e = Inr e' \<Longrightarrow> wf_Enemy e'"
  by (auto simp: equip_enemy_def wf_Enemy_def split: if_splits)

lemma enemy_turn_keeps:
  assumes "wf_world (ai_world s)" and "i < length (EnemyList (ai_world s))" and "enemy_turn fuel i s = Inr s'"
  shows "world_kept (ai_world s) (ai_world s')"
proof (cases "eHP (EnemyList (ai_world s) ! i) = 0")
  case True
  then show ?thesis using assms by (auto simp: enemy_turn_def Let_def world_kept_refl)
next
  case False
  let ?w = "ai_world s"
  have wf: "wf_world (?w\<lparr>EnemyList := (EnemyList ?w)[i := e]\<rparr>)"
    if "equip_enemy (EnemyList ?w ! i) = Inr e" for e
    using equip_enemy_wf [OF wf_world_enemy [OF assms(1,2)] that] assms(1) by (simp add: wf_world_update_enemy)
  show ?thesis using assms(3) False
    by (auto simp: enemy_turn_def Let_def world_kept_def dest!: ai_loop_keeps [OF wf])
qed

lemma enemies_turn_keeps:
  assumes "wf_world w" and "enemies_turn fuel w = Inr s"
  shows "world_kept w (ai_world s)"
proof -
  let ?I = "\<lambda>t. world_kept w (ai_world t)"
  have step: "?I t'" if "i \<in> set [0..<length (EnemyList w)]" "?I t" "enemy_turn fuel i t = Inr t'" for i t t'
    using enemy_turn_keeps [of t i fuel t'] that by (auto simp: world_kept_def)
  let ?s0 = "\<lparr>ai_world = w, ai_acts = [], ActiveEnemyID = 0, EnemyListDirt = False\<rparr>"
  have "?I ?s0" using world_kept_refl [OF assms(1)] by simp
  from res_fold_invariant [of "[0..<length (EnemyList w)]" ?I "enemy_turn fuel" ?s0 s, OF step this] assms(2)
  show ?thesis by (simp add: enemies_turn_def)
qed

lemma bury_dead_wf: "wf_world w \<Longrightarrow> wf_world (bury_dead b w)"
  by (auto simp: bury_dead_def wf_world_def list_all_iff intro: le_less_trans [OF length_filter_le])

lemma bury_dead_players [simp]: "PlayersList (bury_dead b w) = PlayersList w"
  by (simp add: bury_dead_def)

section \<open>Leaving\<close>

lemma wf_world_delete:
  "wf_world w \<Longrightarrow> wf_world (w\<lparr>PlayersList := AList.delete k (PlayersList w)\<rparr>)"
  by (auto simp: wf_world_def distinct_delete delete_conv' restrict_map_def split: if_splits)

section \<open>What holds of blows and of single updates holds of actions\<close>

lemma approved_action_rule:
  assumes "wf_world w" and "MakeApprovedAction k a w = Inr w'"
    and refl: "\<And>w. R w w" and trans: "\<And>u v w. R u v \<Longrightarrow> R v w \<Longrightarrow> R u w"
    and update: "\<And>w p q. players w k = Some p \<Longrightarrow> Name q = Name p \<Longrightarrow>
      R w (w\<lparr>PlayersList := AList.update k q (PlayersList w)\<rparr>)"
    and blow: "\<And>d t v w. struck d t v w \<Longrightarrow> R v w"
  shows "R w w'"
proof -
  have attack: "R v v'" if wf: "wf_world v" and run: "attack_by_player k a v = Inr v'" for v v'
  proof -
    obtain p where p: "players v k = Some p" using run by (auto simp: attack_by_player_def split: option.splits)
    let ?t = "PlayerFindAttackTarget v p a" and ?v = "\<lambda>iv. v\<lparr>PlayersList := AList.update k (p\<lparr>pInventory := iv\<rparr>) (PlayersList v)\<rparr>"
    have "R v u" if hit: "damage_targets d ?t (?v iv) = Inr u" for d iv u
    proof -
      have "same_shape v (?v iv)" using p by (simp add: same_shape_update_player domI)
      from targets_ok_shape [OF this PlayerFindAttackTarget_ok [OF wf]] have "targets_ok (?v iv) ?t" .
      from damage_targets_struck [OF this, of d] hit
      have "struck d ?t (?v iv) u" by auto
      from trans [OF update [OF p] blow [OF this]] show ?thesis by simp
    qed
    then show ?thesis using run p refl by (auto simp: attack_by_player_def Player_MakeAttack_def split: option.splits)
  qed
  have spend: "R v w'" if "spend_turn_action k v = Inr w'" for v
    using that update by (auto simp: spend_turn_action_def split: option.splits dest!: SetCurrent_Inr)
  have move: "R w u" if "move_player k d w = Inr u" for d u
    using that update by (auto simp: move_player_def split: option.splits)
  have "wf_world u" if "move_player k d w = Inr u" for d u
    using move_player_keeps [OF assms(1) that] by (rule world_kept_wf)
  then show ?thesis using assms(2) trans [OF trans [OF move attack] spend] trans [OF attack [OF assms(1)] spend] spend
    by (auto simp: MakeApprovedAction_def split: EPlayerActionType.splits)
qed

lemma enemy_action_rule:
  assumes "wf_world w" and "MakeEnemyAction i a w = Inr w'"
    and refl: "\<And>w. R w w" and trans: "\<And>u v w. R u v \<Longrightarrow> R v w \<Longrightarrow> R u w"
    and update: "\<And>w i e. etype e = etype (EnemyList w ! i) \<Longrightarrow> eHP e = eHP (EnemyList w ! i) \<Longrightarrow>
      R w (w\<lparr>EnemyList := (EnemyList w)[i := e]\<rparr>)"
    and blow: "\<And>d t v w. struck d t v w \<Longrightarrow> R v w"
  shows "R w w'"
proof -
  let ?e = "EnemyList w ! i" and ?t = "EnemyFindAttackTarget w (EnemyList w ! i) a"
  have "R w v" if hit: "damage_targets d ?t (w\<lparr>EnemyList := (EnemyList w)[i := ?e\<lparr>einventory := iv\<rparr>]\<rparr>) = Inr v"
    for d iv v
  proof -
    let ?v = "w\<lparr>EnemyList := (EnemyList w)[i := ?e\<lparr>einventory := iv\<rparr>]\<rparr>"
    have "targets_ok ?v ?t"
      by (rule targets_ok_shape [OF same_shape_update_enemy EnemyFindAttackTarget_ok [OF assms(1)]])
    from damage_targets_struck [OF this, of d] hit
    have "struck d ?t ?v v" by auto
    from trans [OF update blow [OF this]] show ?thesis by simp
  qed
  then show ?thesis using assms(2) refl update [of "?e\<lparr>eCoords := c\<rparr>" w i for c]
    by (auto simp: MakeEnemyAction_def Enemy_MakeAttack_def Let_def
        split: if_splits EEnemyActionType.splits option.splits)
qed

end
