(* ===== verification/ServerLife.thy ===== *)
theory ServerLife
  imports ServerProps Wire WorldKeeps
begin

text \<open>
  The beginning and the end of clients: the world a fresh server generates, accepting a connection, and
  what the server does when a connection is found dead.
\<close>

section \<open>A player that is not on turn goes away\<close>

definition not_on_turn :: "nat option \<Rightarrow> custom_server \<Rightarrow> bool" where
  "not_on_turn c s \<longleftrightarrow> (\<exists>r. c = Some r \<and> GetID s r \<noteq> CurrentPlayerID s)"

lemma OnClientDisconnect_off_turn:
  assumes "GetID s r \<noteq> CurrentPlayerID s"
  shows "OnClientDisconnect F (Suc n) (Some r) s = Inr
     (if GetID s r \<in> fst ` set (s_players s)
      then (set_players (AList.delete (GetID s r) (s_players s)) s)
             \<lparr>GarbageIDs := GarbageIDs s @ [GetID s r]\<rparr>
      else s)"
  using assms by (simp add: client_gone_def Let_def)

lemma deque_update_simps [simp]:
  "connected (s\<lparr>m_deqConnection := d\<rparr>) r = connected s r"
  "GetID (s\<lparr>m_deqConnection := d\<rparr>) r = GetID s r"
  by (simp_all add: connected_def GetID_def)

text \<open>
  What the game keeps about its clients: their ids, the world, the ids gone since the last message and
  who is on turn; and what is left of it when a client is gone.
\<close>

type_synonym game_view = "(nat \<Rightarrow> u32) \<times> GameWorld \<times> u32 list \<times> u32"

definition game_view :: "custom_server \<Rightarrow> game_view" where
  "game_view s = (GetID s, gameWorld s, GarbageIDs s, CurrentPlayerID s)"

fun player_gone :: "nat option \<Rightarrow> game_view \<Rightarrow> game_view" where
  "player_gone None v = v"
| "player_gone (Some r) (ids, w, gs, cur) =
     (if ids r \<in> fst ` set (PlayersList w)
      then (ids, w\<lparr>PlayersList := AList.delete (ids r) (PlayersList w)\<rparr>, gs @ [ids r], cur) else (ids, w, gs, cur))"

lemma game_view_simps [simp]:
  "game_view (send_to r m s) = game_view s" "game_view (s\<lparr>m_deqConnection := d\<rparr>) = game_view s"
  by (simp_all add: game_view_def fun_eq_iff)

interpretation game_server: disconnect_handler "OnClientDisconnect F (Suc n)" not_on_turn game_view player_gone
  for F n
  by unfold_locales
    (auto simp: not_on_turn_def OnClientDisconnect_off_turn game_view_def fun_eq_iff
      split: if_splits simp del: OnClientDisconnect.simps)

lemma keys_delete: "fst ` set (AList.delete k ps) = fst ` set ps - {k}"
  by (force simp: AList.delete_eq)

lemma players_gone:
  "fold player_gone cs (ids, w, gs, cur) = (ids', w', gs', cur') \<Longrightarrow>
     ids' = ids \<and> cur' = cur \<and>
     w' = w\<lparr>PlayersList := filter (\<lambda>(k, p). \<forall>r. Some r \<in> set cs \<longrightarrow> k \<noteq> ids r) (PlayersList w)\<rparr> \<and>
     set gs' = set gs \<union> {i \<in> fst ` set (PlayersList w). \<exists>r. Some r \<in> set cs \<and> i = ids r}"
proof (induction cs arbitrary: w gs)
  case Nil
  then show ?case by (auto simp: case_prod_unfold)
next
  case (Cons c cs)
  show ?case
  proof (cases c)
    case None
    then show ?thesis using Cons by simp
  next
    case (Some r)
    show ?thesis
    proof (cases "ids r \<in> fst ` set (PlayersList w)")
      case True
      have flt: "filter (\<lambda>(k, p). \<forall>q. Some q \<in> set cs \<longrightarrow> k \<noteq> ids q) (AList.delete (ids r) ps) =
          filter (\<lambda>(k, p). \<forall>q. Some q \<in> set (c # cs) \<longrightarrow> k \<noteq> ids q) ps" for ps :: "(u32 \<times> Player) list"
        unfolding AList.delete_eq filter_filter Some by (rule filter_cong) auto
      show ?thesis using Cons.IH [of "w\<lparr>PlayersList := AList.delete (ids r) (PlayersList w)\<rparr>" "gs @ [ids r]"]
          Cons.prems Some True by (auto simp: flt keys_delete)
    next
      case False
      have "filter (\<lambda>(k, p). \<forall>q. Some q \<in> set cs \<longrightarrow> k \<noteq> ids q) (PlayersList w) =
          filter (\<lambda>(k, p). \<forall>q. Some q \<in> set (c # cs) \<longrightarrow> k \<noteq> ids q) (PlayersList w)"
        using False Some by (intro filter_cong) (force simp: image_iff)+
      moreover have "(ids r, b) \<notin> set (PlayersList w)" for b using False by force
      ultimately show ?thesis using Cons.IH [of w gs] Cons.prems Some False by auto
    qed
  qed
qed

text \<open>
  Property C34. When the dead clients are not on turn, the periodic check returns; exactly the live
  clients are left in the server's list, and exactly the players of the dead ones are out of the game:
  the others are as they were, in their order, as are the enemies, the map and whose turn it is. The ids
  of the players gone, and only those, are put on the list of ids whose removal is still to be announced.
\<close>

theorem shy_check_purges_dead:
  assumes "\<forall>c \<in> set (m_deqConnection s). \<not> live s c \<longrightarrow> not_on_turn c s"
  shows "\<exists>s'. ShyCheckAllPlayers F (Suc n) s = Inr s' \<and>
           m_deqConnection s' = filter (live s) (m_deqConnection s) \<and>
           gameWorld s' = (gameWorld s)\<lparr>PlayersList := filter (\<lambda>(k, p).
             \<forall>r. Some r \<in> set (m_deqConnection s) \<longrightarrow> \<not> connected s r \<longrightarrow> k \<noteq> GetID s r) (s_players s)\<rparr> \<and>
           CurrentPlayerID s' = CurrentPlayerID s \<and>
           set (GarbageIDs s') = set (GarbageIDs s) \<union> {i \<in> fst ` set (s_players s).
             \<exists>r. Some r \<in> set (m_deqConnection s) \<and> \<not> connected s r \<and> i = GetID s r}"
proof -
  let ?dead = "filter (\<lambda>c. \<not> live s c) (m_deqConnection s)"
  from game_server.message_all_purges [OF assms, of F n "new_message ServerShyConnectionCheck" None] obtain s' where
    s': "ShyCheckAllPlayers F (Suc n) s = Inr s'" "m_deqConnection s' = filter (live s) (m_deqConnection s)"
      "game_view s' = fold player_gone ?dead (game_view s)" unfolding ShyCheckAllPlayers_def by blast
  have dead: "Some r \<in> set ?dead \<longleftrightarrow> Some r \<in> set (m_deqConnection s) \<and> \<not> connected s r" for r
    by (auto simp: live_def)
  from players_gone [OF s'(3) [unfolded game_view_def, symmetric]] s'(1,2) show ?thesis
    unfolding dead by (intro exI [of _ s']) (simp add: imp_conjL conj_assoc)
qed

definition sample_dead :: custom_server where
  "sample_dead = sample_server\<lparr>heap := \<lambda>r. sample_conn (if r = 0 then 10000 else 10001) (r = 0)\<rparr>"

lemma sample_dead_simps [simp]:
  "connected sample_dead r = (r = 0)" "GetID sample_dead r = (if r = 0 then 10000 else 10001)"
  "CurrentPlayerID sample_dead = 10000" "m_deqConnection sample_dead = [Some 0, Some 1]"
  "gameWorld sample_dead = sample_world" "GarbageIDs sample_dead = []"
  by (simp_all add: sample_dead_def sample_server_def connected_def GetID_def IsConnected_def
      sample_conn_def new_connection_def)

theorem shy_check_purges_dead_witness:
  "\<exists>s'. ShyCheckAllPlayers 4 1 sample_dead = Inr s' \<and> m_deqConnection s' = [Some 0] \<and>
     map fst (s_players sample_dead) = [10000, 10001] \<and> map fst (s_players s') = [10000] \<and> set (GarbageIDs s') = {10001}"
proof -
  have "\<forall>c \<in> set (m_deqConnection sample_dead). \<not> live sample_dead c \<longrightarrow> not_on_turn c sample_dead"
    by (simp add: live_def not_on_turn_def)
  from shy_check_purges_dead [OF this, of 4 0] show ?thesis
    by (auto simp: live_def sample_world_def)
qed

text \<open>
  A direct message to a dead client that is not on turn takes its player out of the game
  but leaves the dead connection in the server's list: \<^verbatim>\<open>std::remove\<close> looks for the pointer that was
  just reset.
\<close>

theorem message_client_keeps_dead:
  assumes "\<not> connected s r" and "not_on_turn (Some r) s" and "Some r \<in> set (m_deqConnection s)"
  shows "\<exists>s'. MessageClient (OnClientDisconnect F (Suc n)) (Some r) m s = Inr s' \<and>
           Some r \<in> set (m_deqConnection s')"
  using game_server.message_dead_client [OF assms(1,2), of F n m] assms(3) by auto

theorem message_client_keeps_dead_witness:
  "\<exists>s'. MessageClient (OnClientDisconnect 4 1) (Some 1) (new_message ServerPing) sample_dead = Inr s' \<and>
     Some 1 \<in> set (m_deqConnection s')"
proof -
  have "not_on_turn (Some 1) sample_dead" by (simp add: not_on_turn_def)
  then show ?thesis
    using message_client_keeps_dead [of sample_dead 1 4 0 "new_message ServerPing"] by simp
qed

section \<open>The player on turn goes away\<close>

text \<open>The only player of the game is on turn, its client is the only one listed, and is dead.\<close>

definition lonely :: "nat \<Rightarrow> custom_server \<Rightarrow> bool" where
  "lonely r s \<longleftrightarrow> wf_world (gameWorld s) \<and> map fst (s_players s) = [GetID s r] \<and>
     CurrentPlayerID s = GetID s r \<and> \<not> connected s r \<and> m_deqConnection s = [Some r]"

lemma lonely_world:
  "lonely r s \<Longrightarrow> wf_world w \<Longrightarrow> map fst (PlayersList w) = map fst (s_players s) \<Longrightarrow> lonely r (s\<lparr>gameWorld := w\<rparr>)"
  by (simp add: lonely_def)

lemma lonely_message:
  assumes "lonely r s" and "disc (Some r) s = Inl e"
  shows "MessageAllClients disc m None s = Inl e"
  using assms by (simp add: lonely_def MessageAllClients_def message_entry_def Let_def)

text \<open>The enemies' turn, and telling the player that it is on turn again, lead to the same call again.\<close>

lemma lonely_choice:
  assumes l: "lonely r s" and turn: "enemies_turn F (gameWorld s) = Inr a"
    and again: "\<And>w. lonely r (s\<lparr>gameWorld := w\<rparr>) \<Longrightarrow> length (EnemyList w) \<le> length (EnemyList (gameWorld s)) \<Longrightarrow>
      \<exists>e. P e \<and> disc (Some r) (s\<lparr>gameWorld := w\<rparr>) = Inl e"
  shows "\<exists>e. P e \<and> ChooseNextPlayerForTurn F disc (Some r) s = Inl e"
proof -
  have kept: "wf_world (ai_world a)" "map fst (PlayersList (ai_world a)) = map fst (s_players s)"
    "length (EnemyList (ai_world a)) = length (EnemyList (gameWorld s))"
    using enemies_turn_keeps [OF _ turn] l by (simp_all add: lonely_def world_kept_def)
  from l obtain p where p: "s_players s = [(GetID s r, p)]" by (auto simp: lonely_def)
  then have next': "next_player (GetID s r) (s_players s) = Inr None" by simp
  show ?thesis
  proof (cases "ai_acts a")
    case (Cons x xs)
    note l1 = lonely_world [OF l kept(1,2)]
    from again [OF l1] kept(3) obtain e where e: "P e" "disc (Some r) (s\<lparr>gameWorld := ai_world a\<rparr>) = Inl e" by auto
    have "MakeAITurn F disc s = Inl e"
      using lonely_message [where disc = disc, OF l1 e(2)] turn Cons by (simp add: MakeAITurn_def)
    then show ?thesis using e(1) p next' by (simp add: ChooseNextPlayerForTurn_def choose_current_def)
  next
    case Nil
    let ?w = "bury_dead (EnemyListDirt a) (ai_world a)"
    have l2: "lonely r (s\<lparr>gameWorld := ?w\<rparr>)"
      using kept by (intro lonely_world [OF l] bury_dead_wf) simp_all
    from kept(2) p obtain q where q: "PlayersList (ai_world a) = [(GetID s r, q)]" by auto
    then have "pID q = CurrentPlayerID s"
      using wf_world_ids [OF kept(1)] l by (simp add: lonely_def)
    then have cur: "choose_current F disc (Some r) s = Inr (s\<lparr>gameWorld := ?w\<rparr>)"
      using turn Nil next' q by (simp add: choose_current_def MakeAITurn_def first_player_def)
    have "length (EnemyList ?w) \<le> length (EnemyList (gameWorld s))" using kept(3) length_filter_le [of _ "EnemyList (ai_world a)"] by (auto simp: bury_dead_def)
    from again [OF l2 this] obtain e where e: "P e" "disc (Some r) (s\<lparr>gameWorld := ?w\<rparr>) = Inl e" by blast
    then show ?thesis using p cur l2 by (auto simp: ChooseNextPlayerForTurn_def MessageClient_def lonely_def)
  qed
qed

lemma lonely_disconnect:
  assumes "lonely r s"
  shows "OnClientDisconnect F (Suc n) (Some r) s =
    res_bind (ChooseNextPlayerForTurn F (OnClientDisconnect F n) (Some r) s) (\<lambda>s'.
      Inr ((set_players (AList.delete (GetID s r) (s_players s')) s')\<lparr>GarbageIDs := GarbageIDs s' @ [GetID s r]\<rparr>))"
proof -
  from assms obtain p where "s_players s = [(GetID s r, p)]" by (auto simp: lonely_def)
  then show ?thesis using assms by (simp add: client_gone_def Let_def lonely_def)
qed

lemma lonely_choice_fault:
  assumes "lonely r s" and "enemies_turn F (gameWorld s) = Inl e"
  shows "ChooseNextPlayerForTurn F disc (Some r) s = Inl e"
proof -
  from assms(1) obtain p where "s_players s = [(GetID s r, p)]" by (auto simp: lonely_def)
  then show ?thesis using assms(2) by (simp add: ChooseNextPlayerForTurn_def choose_current_def MakeAITurn_def)
qed

text \<open>What can stop it: the end of the fuel, or a fault in a turn of the enemies.\<close>

definition stopped_by :: "u32 \<Rightarrow> nat \<Rightarrow> nat \<Rightarrow> fault \<Rightarrow> bool" where
  "stopped_by k N F e \<longleftrightarrow> e = OutOfFuel \<or> (\<exists>w. wf_world w \<and> map fst (PlayersList w) = [k] \<and>
     length (EnemyList w) \<le> N \<and> enemies_turn F w = Inl e)"

lemma lonely_recursion:
  assumes "lonely r s" and "length (EnemyList (gameWorld s)) \<le> N" and "GetID s r = k"
  shows "\<exists>e. stopped_by k N F e \<and> OnClientDisconnect F n (Some r) s = Inl e"
  using assms
proof (induction n arbitrary: s)
  case 0
  then show ?case by (simp add: stopped_by_def)
next
  case (Suc n)
  let ?disc = "OnClientDisconnect F n"
  have "\<exists>e. stopped_by k N F e \<and> ChooseNextPlayerForTurn F ?disc (Some r) s = Inl e"
  proof (cases "enemies_turn F (gameWorld s)")
    case (Inl e)
    then have "stopped_by k N F e" using Suc.prems unfolding stopped_by_def lonely_def by auto
    then show ?thesis using lonely_choice_fault [OF Suc.prems(1) Inl] by blast
  next
    case (Inr a)
    show ?thesis
    proof (rule lonely_choice [OF Suc.prems(1) Inr])
      fix w
      assume "lonely r (s\<lparr>gameWorld := w\<rparr>)" "length (EnemyList w) \<le> length (EnemyList (gameWorld s))"
      then show "\<exists>e. stopped_by k N F e \<and> ?disc (Some r) (s\<lparr>gameWorld := w\<rparr>) = Inl e"
        using Suc.prems(2,3) by (intro Suc.IH) simp_all
    qed
  qed
  then show ?case using lonely_disconnect [OF Suc.prems(1), of F n] by auto
qed

text \<open>
  Property C35. When the only player is on turn and its connection dies, \<^verbatim>\<open>OnClientDisconnect\<close> never
  returns, whatever enemies there are and however deep it may call itself: the enemies have their turn,
  which wraps around to the same player; announcing an enemy's action, or else telling the player that it
  is on turn, finds the connection dead, and that calls \<^verbatim>\<open>OnClientDisconnect\<close> again before the player is
  erased. Only a fault in a turn of the enemies can end this. Without enemies there is none: the recursion
  has no end.
\<close>

theorem last_player_leaves_recurses:
  assumes "s_players s = [(GetID s r, p)]" and "wf_world (gameWorld s)" and "CurrentPlayerID s = GetID s r"
    and "\<not> connected s r" and "m_deqConnection s = [Some r]"
  shows "\<exists>e. OnClientDisconnect F n (Some r) s = Inl e \<and>
    (e = OutOfFuel \<or> EnemyList (gameWorld s) \<noteq> [] \<and>
       (\<exists>w. wf_world w \<and> map fst (PlayersList w) = [GetID s r] \<and>
         length (EnemyList w) \<le> length (EnemyList (gameWorld s)) \<and> enemies_turn F w = Inl e))"
proof -
  have "lonely r s" using assms by (simp add: lonely_def)
  from lonely_recursion [OF this order_refl refl, of F n] obtain e where
    e: "OnClientDisconnect F n (Some r) s = Inl e" "stopped_by (GetID s r) (length (EnemyList (gameWorld s))) F e"
    by blast
  have "enemies_turn F w \<noteq> Inl e" if "EnemyList w = []" for w using that by (simp add: enemies_turn_def)
  with e show ?thesis unfolding stopped_by_def by (cases "EnemyList (gameWorld s) = []") auto
qed

text \<open>The last player of a world with two enemies.\<close>

definition lonely_server :: custom_server where
  "lonely_server = sample_dead\<lparr>m_deqConnection := [Some 1], CurrentPlayerID := 10001,
     gameWorld := sample_world\<lparr>PlayersList := [(10001, sample_player 10001 vec3_zero)]\<rparr>\<rparr>"

theorem last_player_leaves_recurses_witness:
  "\<exists>e. OnClientDisconnect 4 1000 (Some 1) lonely_server = Inl e \<and> length (EnemyList (gameWorld lonely_server)) = 2"
proof -
  have "wf_Player 10001 (sample_player 10001 vec3_zero)"
    using wf_world_player [OF wf_sample_world sample_player_at] by (simp add: wf_Player_def sample_player_def)
  then have "wf_world (gameWorld lonely_server)"
    using wf_sample_world by (auto simp: lonely_server_def wf_world_def split: if_splits)
  then have "\<exists>e. OnClientDisconnect 4 1000 (Some 1) lonely_server = Inl e"
    using last_player_leaves_recurses [of lonely_server 1 "sample_player 10001 vec3_zero" 4 1000]
    by (auto simp: lonely_server_def connected_def GetID_def IsConnected_def sample_dead_def sample_conn_def
        new_connection_def)
  then show ?thesis by (simp add: lonely_server_def sample_world_def)
qed

section \<open>The world a server starts with\<close>

text \<open>What the generator makes of one tile.\<close>

definition on_border :: "nat \<Rightarrow> nat \<Rightarrow> bool" where
  "on_border x y \<longleftrightarrow> x = 0 \<or> x = Map_Width - 1 \<or> y = 0 \<or> y = Map_Height - 1"

definition tile_ok :: "nat \<Rightarrow> nat \<Rightarrow> u8 \<Rightarrow> bool" where
  "tile_ok x y t \<longleftrightarrow> (if on_border x y then t = Tile_Hill else unat t < 4)"

lemma gen_tile_spec:
  assumes "x < Map_Width" and "y < Map_Height" and "length tiles = Map_Width * Map_Height"
  shows "\<exists>j t. gen_tile y x (s, tiles) = (s\<lparr>rpos := j\<rparr>, tiles[x + y * Map_Width := t]) \<and> tile_ok x y t"
proof (cases "on_border x y")
  case True
  have "s\<lparr>rpos := rpos s\<rparr> = s" by simp
  with True show ?thesis
    by (intro exI [of _ "rpos s"] exI [of _ Tile_Hill]) (simp add: gen_tile_def on_border_def tile_ok_def)
next
  case False
  let ?r = "rands s (rpos s)"
  have "unat (word_of_nat (?r mod 4) :: u8) = ?r mod 4"
    by (simp add: unat_of_nat) 
  then show ?thesis using False
    by (intro exI [of _ "Suc (rpos s)"] exI [of _ "word_of_nat (?r mod 4)"])
      (auto simp: gen_tile_def on_border_def tile_ok_def rand_def Tile_Hill_def)
qed

lemma tile_index_inj:
  "x < Map_Width \<Longrightarrow> x' < Map_Width \<Longrightarrow> x + y * Map_Width = x' + y' * Map_Width \<Longrightarrow> x = x' \<and> y = y'"
proof -
  assume x: "x < Map_Width" "x' < Map_Width" and eq: "x + y * Map_Width = x' + y' * Map_Width"
  have "(x + y * Map_Width) mod Map_Width = x" "(x + y * Map_Width) div Map_Width = y"
    "(x' + y' * Map_Width) mod Map_Width = x'" "(x' + y' * Map_Width) div Map_Width = y'"
    using x by simp_all
  with eq show "x = x' \<and> y = y'" by metis
qed

lemma tile_index_bound: "x < Map_Width \<Longrightarrow> y < Map_Height \<Longrightarrow> x + y * Map_Width < Map_Width * Map_Height"
  by (simp add: Map_Width_def Map_Height_def)

definition tiles_done :: "(nat \<times> nat) set \<Rightarrow> bytes \<Rightarrow> bool" where
  "tiles_done S tiles \<longleftrightarrow> length tiles = Map_Width * Map_Height \<and>
     (\<forall>(x, y) \<in> S. tile_ok x y (tiles ! (x + y * Map_Width)))"

lemma gen_tile_done:
  assumes "x < Map_Width" and "y < Map_Height" and S: "S \<subseteq> {..<Map_Width} \<times> {..<Map_Height}"
    and t: "tiles_done S tiles"
  shows "\<exists>j tiles'. gen_tile y x (s, tiles) = (s\<lparr>rpos := j\<rparr>, tiles') \<and> tiles_done (insert (x, y) S) tiles'"
proof -
  have len: "length tiles = Map_Width * Map_Height" using t by (simp add: tiles_done_def)
  from gen_tile_spec [OF assms(1,2) len] obtain j v where
    v: "gen_tile y x (s, tiles) = (s\<lparr>rpos := j\<rparr>, tiles[x + y * Map_Width := v])" "tile_ok x y v" by blast
  have "tile_ok x' y' (tiles[x + y * Map_Width := v] ! (x' + y' * Map_Width))" if "(x', y') \<in> S" for x' y'
  proof (cases "(x', y') = (x, y)")
    case True
    then show ?thesis using v(2) len tile_index_bound [OF assms(1,2)] by simp
  next
    case False
    have "x' < Map_Width" using S that by auto
    then have "x + y * Map_Width \<noteq> x' + y' * Map_Width" using tile_index_inj [OF assms(1), of x' y y'] False by auto
    then show ?thesis using t that by (auto simp: tiles_done_def)
  qed
  then have "tiles_done (insert (x, y) S) (tiles[x + y * Map_Width := v])"
    using len v(2) tile_index_bound [OF assms(1,2)] by (auto simp: tiles_done_def)
  then show ?thesis using v(1) by blast
qed

lemma gen_row_done:
  assumes "y < Map_Height" and "list_all (\<lambda>x. x < Map_Width) xs"
    and "S \<subseteq> {..<Map_Width} \<times> {..<Map_Height}" and "tiles_done S tiles"
  shows "\<exists>j tiles'. fold (gen_tile y) xs (s, tiles) = (s\<lparr>rpos := j\<rparr>, tiles') \<and>
           tiles_done (S \<union> set xs \<times> {y}) tiles'"
  using assms(2-)
proof (induction xs arbitrary: s S tiles)
  case Nil
  then show ?case by (auto intro: exI [of _ "rpos s"])
next
  case (Cons x xs)
  from gen_tile_done [OF _ assms(1) Cons.prems(2,3), of x s] Cons.prems(1) obtain j t1 where
    t1: "gen_tile y x (s, tiles) = (s\<lparr>rpos := j\<rparr>, t1)" "tiles_done (insert (x, y) S) t1" by auto
  have "insert (x, y) S \<subseteq> {..<Map_Width} \<times> {..<Map_Height}"
    using Cons.prems assms(1) by auto
  from Cons.IH [OF _ this t1(2), of "s\<lparr>rpos := j\<rparr>"] Cons.prems(1) obtain j' t2 where
    "fold (gen_tile y) xs (s\<lparr>rpos := j\<rparr>, t1) = (s\<lparr>rpos := j'\<rparr>, t2)"
    "tiles_done (insert (x, y) S \<union> set xs \<times> {y}) t2" by auto
  then show ?case using t1(1) by (auto simp: insert_commute)
qed

lemma gen_rows_done:
  assumes "list_all (\<lambda>y. y < Map_Height) ys"
    and "S \<subseteq> {..<Map_Width} \<times> {..<Map_Height}" and "tiles_done S tiles"
  shows "\<exists>j tiles'. fold (\<lambda>y. fold (gen_tile y) [0..<Map_Width]) ys (s, tiles) = (s\<lparr>rpos := j\<rparr>, tiles') \<and>
           tiles_done (S \<union> {..<Map_Width} \<times> set ys) tiles'"
  using assms
proof (induction ys arbitrary: s S tiles)
  case Nil
  then show ?case by (auto intro: exI [of _ "rpos s"])
next
  case (Cons y ys)
  have y: "y < Map_Height" using Cons.prems(1) by simp
  have ro: "list_all (\<lambda>x. x < Map_Width) [0..<Map_Width]" by (simp add: list_all_iff)
  from gen_row_done [OF y ro Cons.prems(2,3), of s] obtain j t1 where
    t1: "fold (gen_tile y) [0..<Map_Width] (s, tiles) = (s\<lparr>rpos := j\<rparr>, t1)"
      "tiles_done (S \<union> {..<Map_Width} \<times> {y}) t1" by (auto simp: atLeast_upt)
  have "S \<union> {..<Map_Width} \<times> {y} \<subseteq> {..<Map_Width} \<times> {..<Map_Height}" using Cons.prems(2) y by auto
  from Cons.IH [OF _ this t1(2), of "s\<lparr>rpos := j\<rparr>"] Cons.prems(1) obtain j' t2 where
    "fold (\<lambda>y. fold (gen_tile y) [0..<Map_Width]) ys (s\<lparr>rpos := j\<rparr>, t1) = (s\<lparr>rpos := j'\<rparr>, t2)"
    "tiles_done (S \<union> {..<Map_Width} \<times> {y} \<union> {..<Map_Width} \<times> set ys) t2" by auto
  moreover have "S \<union> {..<Map_Width} \<times> {y} \<union> {..<Map_Width} \<times> set ys = S \<union> {..<Map_Width} \<times> set (y # ys)" by auto
  ultimately show ?case using t1(1) by auto
qed


lemma GenerateMap_done:
  assumes "length (MapTiles (gameWorld s)) = Map_Width * Map_Height"
  shows "\<exists>j tiles. GenerateMap s = s\<lparr>rpos := j, gameWorld := (gameWorld s)\<lparr>MapTiles := tiles\<rparr>\<rparr> \<and>
           tiles_done ({..<Map_Width} \<times> {..<Map_Height}) tiles"
proof -
  have ro: "list_all (\<lambda>y. y < Map_Height) [0..<Map_Height]" by (simp add: list_all_iff)
  have "tiles_done {} (MapTiles (gameWorld s))" using assms by (simp add: tiles_done_def)
  from gen_rows_done [OF ro _ this, of s] obtain j tiles where
    "fold (\<lambda>y. fold (gen_tile y) [0..<Map_Width]) [0..<Map_Height] (s, MapTiles (gameWorld s))
       = (s\<lparr>rpos := j\<rparr>, tiles)"
    "tiles_done ({..<Map_Width} \<times> {..<Map_Height}) tiles" by (auto simp: atLeast_upt)
  then show ?thesis by (auto simp: GenerateMap_def)
qed

text \<open>A generated enemy: one of the table, between 1 and 25 on both axes.\<close>

definition spawned :: "Enemy \<Rightarrow> bool" where
  "spawned e \<longleftrightarrow> (\<exists>t < 2. \<exists>x < 25. \<exists>y < 25. e = (EnemiesTable ! t)
     \<lparr>eCoords := vec3_make (word_of_nat (x + 1)) (word_of_nat (y + 1)) 0\<rparr>)"

lemma gen_enemies_spawned:
  "\<exists>j es. (gen_enemy ^^ k) s = s\<lparr>rpos := j, gameWorld := (gameWorld s)
        \<lparr>EnemyList := EnemyList (gameWorld s) @ es\<rparr>\<rparr> \<and> length es = k \<and> list_all spawned es"
proof (induction k)
  case 0
  then show ?case by (auto intro: exI [of _ "rpos s"])
next
  case (Suc k)
  then obtain j es where es: "(gen_enemy ^^ k) s = s\<lparr>rpos := j, gameWorld := (gameWorld s)
        \<lparr>EnemyList := EnemyList (gameWorld s) @ es\<rparr>\<rparr>" "length es = k" "list_all spawned es" by blast
  let ?e = "(EnemiesTable ! (rands s j mod 2)) \<lparr>eCoords := vec3_make
      (word_of_nat (rands s (Suc j) mod 25 + 1)) (word_of_nat (rands s (Suc (Suc j)) mod 25 + 1)) 0\<rparr>"
  have "spawned ?e" unfolding spawned_def
    by (intro exI [of _ "rands s j mod 2"] exI [of _ "rands s (Suc j) mod 25"]
        exI [of _ "rands s (Suc (Suc j)) mod 25"] conjI) simp_all
  then have "list_all spawned (es @ [?e])" using es(3) by simp
  moreover have "(gen_enemy ^^ Suc k) s = s\<lparr>rpos := Suc (Suc (Suc j)), gameWorld := (gameWorld s)
        \<lparr>EnemyList := EnemyList (gameWorld s) @ (es @ [?e])\<rparr>\<rparr>"
    using es(1) by (simp add: gen_enemy_def rand_def Let_def)
  ultimately show ?case using es(2) by (intro exI [of _ "Suc (Suc (Suc j))"] exI [of _ "es @ [?e]"]) simp
qed

lemma spawned_facts:
  assumes "spawned e"
  shows "wf_Enemy e" and "armed e" and "unat (MaxActions e) \<le> 3" and "inside 40 (eCoords e)"
proof -
  from assms obtain t x y where e: "t < 2" "x < 25" "y < 25" "e = (EnemiesTable ! t)
     \<lparr>eCoords := vec3_make (word_of_nat (x + 1)) (word_of_nat (y + 1)) 0\<rparr>" by (auto simp: spawned_def)
  have t: "t = 0 \<or> t = 1" using e(1) by auto
  then have mem: "EnemiesTable ! t \<in> set EnemiesTable" by (auto simp: EnemiesTable_def)
  show "wf_Enemy e" unfolding e(4) by (rule wf_EnemiesTable [OF mem])
  show "armed e" "unat (MaxActions e) \<le> 3"
    using t unfolding e(4)
    by (auto simp: EnemiesTable_def armed_def inventory_with_def table_slot_def ItemTable_def MaxInventorySize_def)
  have c: "sint (1 + word_of_nat n :: i16) = int n + 1" if "n < 25" for n
    using sint_i16_of_int [of "int n + 1"] that by (simp add: add.commute)
  show "inside 40 (eCoords e)"
    using c [OF e(2)] c [OF e(3)] e(2,3) unfolding e(4) by (simp add: inside_def vec3_make_def add.commute)
qed

lemma CustomServer_spec:
  assumes "length memory = Map_Width * Map_Height" and s: "s = CustomServer memory rs ho"
  obtains tiles es where "tiles_done ({..<Map_Width} \<times> {..<Map_Height}) tiles" "list_all spawned es" "length es < 25"
    "s_players s = []" "EnemyList (gameWorld s) = es" "MapTiles (gameWorld s) = tiles"
    "next_ref s = 0" "nIDCounter s = 10000" "m_deqConnection s = []" "s_qIn s = []" "CurrentPlayerID s = 0"
    "accepts s = 0" "\<not> s_thread_joinable s" "\<not> s_context_stopped s"
proof -
  define s0 where "s0 = \<lparr>heap = \<lambda>_. new_connection OwnerServer False 0 [], next_ref = 0,
        m_deqConnection = [], s_qIn = [], nIDCounter = 10000, accepts = 0, s_context_stopped = False, s_thread_joinable = False,
        gameWorld = \<lparr>PlayersList = [], EnemyList = [], MapTiles = memory, KillCallback = False,
                     kill_calls = []\<rparr>,
        GarbageIDs = [], CurrentPlayerID = 0, rands = rs, hash_order = ho, rpos = 0\<rparr>"
  have "length (MapTiles (gameWorld s0)) = Map_Width * Map_Height" using assms by (simp add: s0_def)
  from GenerateMap_done [OF this] obtain j tiles where
    gm: "GenerateMap s0 = s0\<lparr>rpos := j, gameWorld := (gameWorld s0)\<lparr>MapTiles := tiles\<rparr>\<rparr>"
      "tiles_done ({..<Map_Width} \<times> {..<Map_Height}) tiles" by blast
  define s1 where "s1 = s0\<lparr>rpos := Suc j, gameWorld := (gameWorld s0)\<lparr>MapTiles := tiles\<rparr>\<rparr>"
  have srv: "s = (gen_enemy ^^ (rs j mod 25)) s1"
    using gm(1) by (simp add: s CustomServer_def s0_def [symmetric] GenerateEnemies_def rand_def s1_def)
      (simp add: s0_def)
  from gen_enemies_spawned [of "rs j mod 25" s1] obtain j' es where
    es: "(gen_enemy ^^ (rs j mod 25)) s1 = s1\<lparr>rpos := j', gameWorld := (gameWorld s1)
        \<lparr>EnemyList := EnemyList (gameWorld s1) @ es\<rparr>\<rparr>" "length es = rs j mod 25" "list_all spawned es" by blast
  from gm(2) es(3) show thesis by (rule that) (simp_all only: srv es(1), simp_all add: es(2) s1_def s0_def)
qed

text \<open>
  Property C36. For every random stream, the server starts with no players, fewer than 25 enemies, and
  a map whose border is hills and whose inside has none; and the world is ready for enemy turns: it is
  well-formed and every enemy is armed.
\<close>

theorem fresh_server_world:
  assumes "length memory = Map_Width * Map_Height"
  shows "(let w = gameWorld (CustomServer memory rs ho)
          in ai_ready 0 w \<and> PlayersList w = [] \<and> length (EnemyList w) < 25 \<and>
             (\<forall>x < Map_Width. \<forall>y < Map_Height.
                MapTiles w ! (x + y * Map_Width) = Tile_Hill \<longleftrightarrow> on_border x y))"
proof -
  define w where "w = gameWorld (CustomServer memory rs ho)"
  from CustomServer_spec [OF assms refl, of rs ho] obtain tiles es where
    gm: "tiles_done ({..<Map_Width} \<times> {..<Map_Height}) tiles" and es: "length es < 25" "list_all spawned es"
    and w: "PlayersList w = []" "EnemyList w = es" "MapTiles w = tiles" unfolding w_def by blast
  have sp: "\<forall>e \<in> set es. spawned e" using es(2) by (simp add: list_all_iff)
  have "wf_world w"
    using w sp gm es(1) spawned_facts(1) by (simp add: wf_world_def tiles_done_def list_all_iff less_le_trans [of _ 25])
  moreover have "ai_field w"
    using w sp spawned_facts(4) inside_mono [of 40 _ 43] by (auto simp: ai_field_def)
  ultimately have "ai_ready 0 w"
    using w sp spawned_facts by (simp add: ai_ready_def)
  moreover have "MapTiles w ! (x + y * Map_Width) = Tile_Hill \<longleftrightarrow> on_border x y"
    if "x < Map_Width" "y < Map_Height" for x y
  proof -
    have "tile_ok x y (tiles ! (x + y * Map_Width))" using gm that by (auto simp: tiles_done_def)
    then show ?thesis by (auto simp: w(3) tile_ok_def Tile_Hill_def split: if_splits)
  qed
  ultimately show ?thesis using w es(1) by (simp add: w_def Let_def)
qed

theorem fresh_server_world_witness:
  "ai_ready 0 (gameWorld (CustomServer (replicate 1600 0) (\<lambda>i. i) (\<lambda>_. unat)))"
  using fresh_server_world [of "replicate 1600 0" "\<lambda>i. i" "\<lambda>_. unat"]
  by (simp add: Let_def Map_Width_def Map_Height_def)

section \<open>Accepting a client\<close>

text \<open>
  An accepted connection gets the next id, joins the server's list as its last entry, has
  \<^verbatim>\<open>ServerAccept\<close> posted, and starts the handshake with one write and one read in flight; nothing of
  the game changes and no other connection is touched.
\<close>

theorem accept_effect:
  "(let r = next_ref s; s' = on_accept OnClientConnect True now s
    in m_deqConnection s' = m_deqConnection s @ [Some r] \<and> GetID s' r = nIDCounter s \<and>
       nIDCounter s' = nIDCounter s + 1 \<and> next_ref s' = Suc r \<and> connected s' r \<and>
       posted (heap s' r) = [T_send (new_message ServerAccept)] \<and>
       writes (heap s' r) = [W_validation] \<and> reads (heap s' r) = [R_validation_server] \<and>
       m_nHandshakeCheck (heap s' r) = scramble now \<and> gameWorld s' = gameWorld s \<and>
       (\<forall>q. q \<noteq> r \<longrightarrow> heap s' q = heap s q))"
  by (simp add: on_accept_def OnClientConnect_def send_to_def Send_def conn_defs ConnectToClient_def
      new_connection_def GetID_def connected_def IsConnected_def Let_def)

theorem accept_effect_witness:
  "GetID (on_accept OnClientConnect True 5 sample_server) 2 = 10002"
  using accept_effect [of sample_server 5] by (simp add: Let_def sample_server_def)

section \<open>The members of the base class\<close>

text \<open>The virtual members that nobody overrides: a client is refused, and nothing else is done.\<close>

definition base_OnClientConnect :: "nat \<Rightarrow> 'z server_interface_scheme \<Rightarrow> bool \<times> 'z server_interface_scheme" where
  "base_OnClientConnect r s = (False, s)"

definition base_OnClientDisconnect :: "nat option \<Rightarrow> 'z server_interface_scheme \<Rightarrow> 'z server_interface_scheme res" where
  "base_OnClientDisconnect c s = Inr s"

definition base_OnMessage :: "nat option \<Rightarrow> message \<Rightarrow> 'z server_interface_scheme \<Rightarrow> 'z server_interface_scheme res" where
  "base_OnMessage c m s = Inr s"

definition base_OnClientValidated :: "nat \<Rightarrow> 'z server_interface_scheme \<Rightarrow> 'z server_interface_scheme" where
  "base_OnClientValidated r s = s"

definition server_destroy :: "'z server_interface_scheme \<Rightarrow> 'z server_interface_scheme" where
  "server_destroy s = server_Stop s"

text \<open>A server that overrides nothing lists no client, gives no ids, and serves nobody once it is destroyed.\<close>

lemma base_server_idle:
  "m_deqConnection (on_accept base_OnClientConnect ok now s) = m_deqConnection s"
  "nIDCounter (on_accept base_OnClientConnect ok now s) = nIDCounter s"
  "\<not> server_serves (server_destroy s)"
  by (simp_all add: on_accept_def base_OnClientConnect_def server_destroy_def server_Stop_def server_serves_def Let_def)

end
