(* ===== verification/ClientInterface.thy ===== *)
theory ClientInterface
  imports Wire Protocol
begin

text \<open>
  The class \<^verbatim>\<open>client_interface\<close> of SpNetCommon/src/spiderNet.h.

  The queue of incoming messages belongs to the client and the connection refers to it; it is kept in
  \<open>c_qIn\<close>, and \<open>with_queue\<close> hands it to the connection for the time of a call. What the thread of the
  asio context does is a list of events of the connection, as in theory Connection. A connection whose
  owner has called \<^verbatim>\<open>release()\<close> is no longer owned by anybody: it is kept in \<open>leaked\<close>.
\<close>

section \<open>The model\<close>

record client_interface =
  m_connection :: "connection option"
  c_qIn :: "(u32 option \<times> message) list"
  context_stopped :: bool
  thread_joinable :: bool
  leaked :: "connection list"

definition client_start :: client_interface where
  "client_start = \<lparr>m_connection = None, c_qIn = [], context_stopped = False, thread_joinable = False,
     leaked = []\<rparr>"

text \<open>
  \<^verbatim>\<open>async_connect\<close> opens the socket when it is called, so the client counts as connected from then
  on; its handler is \<open>on_connected\<close>.
\<close>

definition ConnectToServer :: "connection \<Rightarrow> connection" where
  "ConnectToServer k = (if m_nOwnerType k = OwnerClient then k\<lparr>sock_open := True\<rparr> else k)"

text \<open>
  \<open>resolved\<close>: whether the resolver found the address; it throws otherwise. Assigning to a thread that
  is still joinable terminates the program.
\<close>

definition Connect :: "bool \<Rightarrow> 'z client_interface_scheme \<Rightarrow> (bool \<times> 'z client_interface_scheme) res" where
  "Connect resolved c =
     (if \<not> resolved then Inr (False, c)
      else (let k = ConnectToServer (new_connection OwnerClient False 0 (c_qIn c))
            in if thread_joinable c then Inl Terminated
               else Inr (True, c\<lparr>m_connection := Some k, thread_joinable := True\<rparr>)))"

definition client_connected :: "'z client_interface_scheme \<Rightarrow> bool" where
  "client_connected c = (case m_connection c of Some k \<Rightarrow> IsConnected k | None \<Rightarrow> False)"

definition client_send :: "message \<Rightarrow> 'z client_interface_scheme \<Rightarrow> 'z client_interface_scheme" where
  "client_send msg c =
     (case m_connection c of
        Some k \<Rightarrow> (if IsConnected k then c\<lparr>m_connection := Some (Send msg k)\<rparr> else c)
      | None \<Rightarrow> c)"

text \<open>
  \<open>evs\<close>: what the context's thread still handles before \<^verbatim>\<open>stop()\<close> takes effect. The connection is
  released, not reset: its destructor does not run.
\<close>

definition client_disconnect :: "event list \<Rightarrow> 'z client_interface_scheme \<Rightarrow> 'z client_interface_scheme res" where
  "client_disconnect evs c =
     (case m_connection c of
        None \<Rightarrow> Inr (c\<lparr>context_stopped := True, thread_joinable := False\<rparr>)
      | Some k \<Rightarrow>
          res_bind (steps (\<lambda>k. k) evs ((if IsConnected k then Disconnect k else k)\<lparr>m_qMessagesIn := c_qIn c\<rparr>)) (\<lambda>k'.
            Inr (c\<lparr>m_connection := None, c_qIn := m_qMessagesIn k', context_stopped := True,
                   thread_joinable := False, leaked := leaked c @ [k']\<rparr>)))"

text \<open>The destructor disconnects. \<^verbatim>\<open>Incoming\<close> is the queue the client reads.\<close>

definition client_destroy :: "event list \<Rightarrow> 'z client_interface_scheme \<Rightarrow> 'z client_interface_scheme res" where
  "client_destroy evs c = client_disconnect evs c"

definition Incoming :: "'z client_interface_scheme \<Rightarrow> (u32 option \<times> message) list" where
  "Incoming c = c_qIn c"

text \<open>The thread of the context handles one event.\<close>

definition context_event :: "event \<Rightarrow> 'z client_interface_scheme \<Rightarrow> 'z client_interface_scheme res" where
  "context_event ev c =
     (case m_connection c of
        Some k \<Rightarrow> res_bind (step (\<lambda>k. k) ev (k\<lparr>m_qMessagesIn := c_qIn c\<rparr>)) (\<lambda>k'.
                    Inr (c\<lparr>m_connection := Some k', c_qIn := m_qMessagesIn k'\<rparr>))
      | None \<Rightarrow> Inr c)"

section \<open>Properties\<close>

lemma client_send_simps [simp]:
  "c_qIn (client_send m c) = c_qIn c" "client_connected (client_send m c) = client_connected c"
  "thread_joinable (client_send m c) = thread_joinable c" "leaked (client_send m c) = leaked c"
  "client_interface.more (client_send m c) = client_interface.more c"
  by (simp_all add: client_send_def client_connected_def IsConnected_def Send_def post_def split: option.split)

lemma client_not_connected: "\<not> client_connected c \<Longrightarrow> client_send m c = c"
  by (simp add: client_send_def client_connected_def split: option.splits)

lemma posts_only_id: "posts_only (\<lambda>k. k)"
  unfolding posts_only_def
  by (metis append_Nil2 connection.surjective connection.update_convs(10))

text \<open>
  A client connects once: \<^verbatim>\<open>Connect\<close> then counts as connected before the server has
  answered, what it sends is queued for the wire in order, and a second \<^verbatim>\<open>Connect\<close> ends the program.
\<close>

theorem connect_once:
  assumes "\<not> thread_joinable c"
  shows "\<exists>c'. Connect True c = Inr (True, c') \<and> client_connected c' \<and> Connect True c' = Inl Terminated \<and>
           (\<forall>ms. \<exists>k. m_connection (fold client_send ms c') = Some k \<and> posted k = map T_send ms)"
proof -
  let ?k = "ConnectToServer (new_connection OwnerClient False 0 (c_qIn c))"
  let ?c = "c\<lparr>m_connection := Some ?k, thread_joinable := True\<rparr>"
  have sent: "\<exists>k'. m_connection (fold client_send ms d) = Some k' \<and> posted k' = posted k @ map T_send ms"
    if "m_connection d = Some k" "IsConnected k" for ms d k
    using that
  proof (induction ms arbitrary: d k)
    case (Cons m ms)
    have "m_connection (client_send m d) = Some (Send m k)" "IsConnected (Send m k)"
      using Cons.prems by (simp_all add: client_send_def IsConnected_def Send_def post_def)
    from Cons.IH [OF this] show ?case by (simp add: Send_def post_def)
  qed simp
  have k: "IsConnected ?k" "posted ?k = []"
    by (simp_all add: ConnectToServer_def new_connection_def IsConnected_def)
  have "Connect True c = Inr (True, ?c)" using assms by (simp add: Connect_def)
  moreover have "client_connected ?c" using k by (simp add: client_connected_def)
  moreover have "Connect True ?c = Inl Terminated" by (simp add: Connect_def)
  moreover have "\<forall>ms. \<exists>k. m_connection (fold client_send ms ?c) = Some k \<and> posted k = map T_send ms"
    using sent [of ?c ?k] k by simp
  ultimately show ?thesis by blast
qed

theorem connect_once_witness: "Connect True client_start \<noteq> Inl Terminated"
  using connect_once [of client_start] by (auto simp: client_start_def)

text \<open>
  Disconnecting always leaves the client without a connection, but the object is leaked;
  when the context stops before it gets to the posted task, its socket stays open for good, and what
  the peer sees is a connection that never closes.
\<close>

theorem disconnect_leaks:
  assumes "m_connection c = Some k" and "IsConnected k" and "posted k = []"
  shows "(\<exists>c'. client_disconnect [] c = Inr c' \<and> \<not> client_connected c' \<and>
            (\<exists>k'. leaked c' = leaked c @ [k'] \<and> IsConnected k' \<and> posted k' = [T_close])) \<and>
         (\<exists>c' k'. client_disconnect [E_task] c = Inr c' \<and> \<not> client_connected c' \<and>
            leaked c' = leaked c @ [k'] \<and> \<not> IsConnected k')"
  using assms
  by (simp add: client_disconnect_def client_connected_def steps_def step_def Disconnect_def post_def
      IsConnected_def run_task_def close_socket_def)

theorem disconnect_leaks_witness:
  "\<exists>c'. client_disconnect [] (client_start\<lparr>m_connection :=
            Some (ConnectToServer (new_connection OwnerClient False 0 []))\<rparr>) = Inr c' \<and>
     (\<exists>k'. leaked c' = [k'] \<and> IsConnected k')"
proof -
  let ?k = "ConnectToServer (new_connection OwnerClient False 0 [])"
  have k: "IsConnected ?k" "posted ?k = []"
    by (simp_all add: ConnectToServer_def new_connection_def IsConnected_def)
  from disconnect_leaks [of "client_start\<lparr>m_connection := Some ?k\<rparr>" ?k, OF _ k] show ?thesis
    by (auto simp: client_start_def)
qed

end
