(* ===== verification/ClientText.thy ===== *)
theory ClientText
  imports World "HOL-Library.Char_ord"
begin

text \<open>
  What the client prints (AsciiTerra_Client/GameClient.cpp): the inventory, the table of players, the
  map, and the description of an action. The text is a value; reading past an array, as
  \<^verbatim>\<open>append\<close> or \<^verbatim>\<open>%s\<close> does for a name without terminator, is undefined.
\<close>

section \<open>Strings and numbers\<close>

definition repeat :: "nat \<Rightarrow> char \<Rightarrow> string" where
  "repeat n c = replicate n c"

definition chars :: "bytes \<Rightarrow> string" where
  "chars bs = map (\<lambda>b. char_of (unat b)) bs"

text \<open>The text of a character array used as a C string.\<close>

definition text_of :: "bytes \<Rightarrow> string res" where
  "text_of bs = (if 0 \<in> set bs then Inr (chars (c_string bs)) else Inl Undefined)"

text \<open>\<^verbatim>\<open>%i\<close>.\<close>

fun show_nat :: "nat \<Rightarrow> string" where
  "show_nat n =
     (if n < 10 then [char_of (48 + n)] else show_nat (n div 10) @ [char_of (48 + n mod 10)])"

declare show_nat.simps [simp del]

definition show_int :: "int \<Rightarrow> string" where
  "show_int i = (if i < 0 then ''-'' @ show_nat (nat (- i)) else show_nat (nat i))"

abbreviation newline :: char where "newline \<equiv> CHR 0x0A"

text \<open>The tables of names; an index past their end is undefined.\<close>

definition table_entry :: "'a list \<Rightarrow> nat \<Rightarrow> 'a res" where
  "table_entry t i = (if i < length t then Inr (t ! i) else Inl Undefined)"

definition TilesTable :: string where
  "TilesTable = '';FvoM''"

definition TilesNames :: "string list" where
  "TilesNames = [''Grass'', ''Forest'', ''Water'', ''Stone'', ''Hill'']"

definition EnemiesNames :: "string list" where
  "EnemiesNames = [''Zombie'', ''Bandit'']"

definition PlayerActionsNames :: "string list" where
  "PlayerActionsNames = [''MOVE'', ''ATTACK'']"

definition EnemiesActionsNames :: "string list" where
  "EnemiesActionsNames = [''MOVE'', ''BASE ATTACK'']"

section \<open>The description of an action\<close>

definition ActionToString :: "Player \<Rightarrow> u32 \<Rightarrow> PlayerAction \<Rightarrow> string res" where
  "ActionToString player ClientID action =
     res_bind (if pID player = ClientID then Inr ''You'' else text_of (Name player)) (\<lambda>who.
       let info = (\<lambda>i. sint (PA_ActionInfo action ! i));
           what = (case ActionType action of
                     Attack \<Rightarrow> ''attacked.''
                   | Move \<Rightarrow> '' moved '' @
                       (if info 1 \<noteq> 0 then (if 0 < info 1 then '' south'' else '' north'')
                        else if info 2 \<noteq> 0 then (if 0 < info 2 then '' east'' else '' west'')
                        else if 0 < info 2 then '' uphill'' else '' down'')
                   | _ \<Rightarrow> [])
       in Inr (who @ what @ [newline]))"

section \<open>The inventory\<close>

definition MaxCellWidth :: nat where "MaxCellWidth = 30"

text \<open>
  A cell of a row, appended to the row. A name that does not fit is appended without the border that
  opens a row.
\<close>

definition inventory_cell :: "nat \<Rightarrow> ItemSlot \<Rightarrow> string res" where
  "inventory_cell i slot =
     (let cellStr = (if i = 0 then ''|'' else [])
      in if slot_empty slot
         then Inr (cellStr @ repeat (MaxCellWidth - 2) (CHR ''`'') @ ''|'')
         else res_bind (text_of (ItemName (slot_item slot))) (\<lambda>name.
           if MaxCellWidth - 2 < length name
           then Inr (take (MaxCellWidth - 2) name @ ''|'')
           else (let pad = repeat (((MaxCellWidth - 2) - length name) div 2) (CHR ''`'')
                 in Inr (cellStr @ pad @ name @ pad @ ''|''))))"

definition inventory_row :: "Inventory \<Rightarrow> nat \<Rightarrow> string \<Rightarrow> string res" where
  "inventory_row iv row charBuff =
     (if 4 < row then Inr charBuff
      else res_bind (res_fold (\<lambda>i buf. res_bind (sa_get (Storage iv) (i + row * 5)) (\<lambda>slot.
                       res_bind (inventory_cell i slot) (\<lambda>cell. Inr (buf @ cell)))) [0..<5] charBuff)
             (\<lambda>buf. Inr (buf @ [newline])))"

definition inventory_rows :: "Inventory \<Rightarrow> string res" where
  "inventory_rows iv = res_fold (inventory_row iv) [0..<4] []"

text \<open>
  After the rows, \<^verbatim>\<open>charBuff[4 * 5 * MaxCellWidth + 1] = 0\<close>: an index past the length of the string is
  undefined.
\<close>

definition ShowInventory :: "Inventory \<Rightarrow> string res" where
  "ShowInventory iv =
     res_bind (inventory_rows iv) (\<lambda>charBuff.
       if 4 * 5 * MaxCellWidth + 1 \<le> length charBuff
       then Inr (charBuff[4 * 5 * MaxCellWidth + 1 := CHR 0x00] @ repeat (MaxCellWidth * 5) (CHR ''`''))
       else Inl Undefined)"

section \<open>The players\<close>

definition player_line :: "u32 \<Rightarrow> Player \<Rightarrow> string res" where
  "player_line self p =
     res_bind (text_of (Name p)) (\<lambda>name.
       Inr ((if pID p = self then ''[YOU]'' else []) @
            '' Player Stats: Name{'' @ name @ ''} ID{'' @ show_int (sint (pID p)) @
            ''} Health{'' @ show_int (sint (pHP p)) @ ''} Coords{'' @ show_int (sint (vx (pCoords p))) @
            '' '' @ show_int (sint (vy (pCoords p))) @ '' '' @ show_int (sint (vz (pCoords p))) @ ''} '' @
            [newline]))"

definition ShowPlayers :: "GameWorld \<Rightarrow> u32 \<Rightarrow> string res" where
  "ShowPlayers w self =
     res_fold (\<lambda>(k, p) s. res_bind (player_line self p) (\<lambda>l. Inr (s @ l))) (PlayersList w) []"

section \<open>The map\<close>

definition map_legend :: string where
  "map_legend =
     ''Map legend: '' @ [newline] @
     concat (map (\<lambda>i. ''Tile type: '' @ TilesNames ! i @ '' '' @
                      repeat (15 - length (TilesNames ! i)) (CHR '' '') @ ''| Tyle appereance: ['' @
                      [TilesTable ! i] @ '']'' @ [newline]) [0..<5]) @
     ''Character apperance on map - [C]'' @ [newline] @
     ''Enemy apperance on map - [Q]'' @ [newline] @ ''----------'' @ [newline]"

text \<open>The variables of the loop over the lines.\<close>

record map_line =
  PrintString :: string
  PlayersOnLine :: "u32 list"
  EnemiesOnLine :: "u32 list"
  PlayersOnLineCount :: nat
  EnemiesOnLineCount :: nat
  tile_taken :: bool

definition cell_player :: "nat \<Rightarrow> nat \<Rightarrow> u32 \<times> Player \<Rightarrow> map_line \<Rightarrow> map_line res" where
  "cell_player height width kp l =
     (let p = snd kp
      in if int height = sint (vy (pCoords p)) \<and> int width = sint (vx (pCoords p))
         then res_bind (sa_set (PlayersOnLine l) (PlayersOnLineCount l) (pID p)) (\<lambda>ps.
                Inr (l\<lparr>PrintString := PrintString l @ ''C'', PlayersOnLine := ps,
                       PlayersOnLineCount := PlayersOnLineCount l + 1, tile_taken := True\<rparr>))
         else Inr l)"

text \<open>The enemy's index is stored at the count of the players.\<close>

definition cell_enemy :: "nat \<Rightarrow> nat \<Rightarrow> nat \<times> Enemy \<Rightarrow> map_line \<Rightarrow> map_line res" where
  "cell_enemy height width ie l =
     (case ie of (i, e) \<Rightarrow>
        if int height = sint (vy (eCoords e)) \<and> int width = sint (vx (eCoords e))
        then res_bind (sa_set (EnemiesOnLine l) (PlayersOnLineCount l) (word_of_nat i)) (\<lambda>es.
               Inr (l\<lparr>PrintString := PrintString l @ ''Q'', EnemiesOnLine := es,
                      EnemiesOnLineCount := EnemiesOnLineCount l + 1, tile_taken := True\<rparr>))
        else Inr l)"

definition map_cell :: "GameWorld \<Rightarrow> nat \<Rightarrow> nat \<Rightarrow> map_line \<Rightarrow> map_line res" where
  "map_cell w height width l =
     res_bind (res_fold (cell_player height width) (PlayersList w) (l\<lparr>tile_taken := False\<rparr>)) (\<lambda>l1.
     res_bind (res_fold (cell_enemy height width) (enumerate 0 (EnemyList w)) l1) (\<lambda>l2.
       if tile_taken l2 then Inr l2
       else res_bind (sa_get (MapTiles w) (width + height * Map_Width)) (\<lambda>t.
            res_bind (table_entry TilesTable (unat t)) (\<lambda>c.
              Inr (l2\<lparr>PrintString := PrintString l2 @ [c]\<rparr>)))))"

text \<open>\<^verbatim>\<open>repeat(Coords.x, '-')\<close> converts the coordinate to \<^verbatim>\<open>unsigned\<close>.\<close>

definition dashes :: "CoordVec \<Rightarrow> string" where
  "dashes c = repeat (unat (scast (vx c) :: u32)) (CHR ''-'')"

definition player_label :: "GameWorld \<Rightarrow> u32 \<Rightarrow> map_line \<Rightarrow> nat \<Rightarrow> string \<Rightarrow> string res" where
  "player_label w self l i s =
     res_bind (sa_get (PlayersOnLine l) i) (\<lambda>k.
       case map_of (PlayersList w) k of
         None \<Rightarrow> Inl OutOfRange
       | Some p \<Rightarrow>
           if k = self then Inr (s @ dashes (pCoords p) @ '' Here is your Character '')
           else res_bind (text_of (Name p)) (\<lambda>name. Inr (s @ dashes (pCoords p) @ name @ '' character '')))"

definition enemy_label :: "GameWorld \<Rightarrow> map_line \<Rightarrow> nat \<Rightarrow> string \<Rightarrow> string res" where
  "enemy_label w l i s =
     res_bind (sa_get (EnemiesOnLine l) i) (\<lambda>j.
       if unat j < length (EnemyList w)
       then (let e = EnemyList w ! unat j
             in res_bind (table_entry EnemiesNames (unat (etype e))) (\<lambda>name. Inr (s @ dashes (eCoords e) @ name)))
       else Inl OutOfRange)"

definition map_row :: "GameWorld \<Rightarrow> u32 \<Rightarrow> nat \<Rightarrow> string \<Rightarrow> string res" where
  "map_row w self height s =
     res_bind (res_fold (map_cell w height) [0..<Map_Width]
         \<lparr>PrintString = s, PlayersOnLine = replicate 99 0, EnemiesOnLine = replicate 99 0,
          PlayersOnLineCount = 0, EnemiesOnLineCount = 0, tile_taken = False\<rparr>) (\<lambda>l.
     res_bind (res_fold (player_label w self l) [0..<PlayersOnLineCount l] (PrintString l)) (\<lambda>s1.
     res_bind (res_fold (enemy_label w l) [0..<EnemiesOnLineCount l] s1) (\<lambda>s2.
       Inr (s2 @ [newline]))))"

definition ShowMap :: "GameWorld \<Rightarrow> u32 \<Rightarrow> string res" where
  "ShowMap w self = res_fold (map_row w self) [0..<Map_Height] map_legend"

section \<open>Properties of the text\<close>

lemma length_repeat [simp]: "length (repeat n c) = n"
  by (simp add: repeat_def)

lemma inventory_cell_length:
  assumes c: "inventory_cell i slot = Inr c"
  shows "length c \<le> (if i = 0 then 30 else 29)"
proof (cases "slot_empty slot")
  case True
  then show ?thesis using c by (auto simp: inventory_cell_def MaxCellWidth_def)
next
  case False
  with c obtain name where n: "text_of (ItemName (slot_item slot)) = Inr name"
    by (auto simp: inventory_cell_def Let_def)
  define pad where "pad = (28 - length name) div 2"
  have "length name \<le> 28 \<Longrightarrow> pad + (length name + pad) \<le> 28" unfolding pad_def by linarith
  then show ?thesis using c False n unfolding inventory_cell_def MaxCellWidth_def
    by (cases "28 < length name") (auto simp: Let_def pad_def [symmetric])
qed

lemma inventory_cell_total:
  "slot_empty slot \<or> 0 \<in> set (ItemName (slot_item slot)) \<Longrightarrow> \<exists>c. inventory_cell i slot = Inr c"
  by (auto simp: inventory_cell_def text_of_def Let_def)

text \<open>The slots of a storage that can be printed.\<close>

definition printable :: "Inventory \<Rightarrow> bool" where
  "printable iv \<longleftrightarrow> length (Storage iv) = MaxInventorySize \<and>
     (\<forall>s \<in> set (Storage iv). slot_empty s \<or> 0 \<in> set (ItemName (slot_item s)))"

lemma inventory_row_length:
  assumes "printable iv" and "row < 4"
  shows "\<exists>buf'. inventory_row iv row buf = Inr buf' \<and> length buf' \<le> length buf + 147"
proof -
  let ?g = "\<lambda>i. res_bind (sa_get (Storage iv) (i + row * 5)) (inventory_cell i)"
  have "\<exists>c. ?g i = Inr c \<and> length c \<le> (if i = 0 then 30 else 29)" if "i < 5" for i
  proof -
    from that assms have i: "i + row * 5 < length (Storage iv)"
      by (simp add: printable_def MaxInventorySize_def)
    then have "Storage iv ! (i + row * 5) \<in> set (Storage iv)" by simp
    with assms(1) inventory_cell_total obtain c where "inventory_cell i (Storage iv ! (i + row * 5)) = Inr c"
      unfolding printable_def by blast
    with inventory_cell_length i show ?thesis by (auto simp: sa_get_def)
  qed
  then obtain f where f: "\<And>i. i < 5 \<Longrightarrow> ?g i = Inr (f i) \<and> length (f i) \<le> (if i = 0 then 30 else 29)"
    by metis
  then have "inventory_row iv row buf = Inr ((buf @ concat (map f [0..<5])) @ [newline])"
    using assms(2) res_fold_buffer [of "[0..<5]" ?g f buf]
    by (simp add: inventory_row_def res_bind_assoc)
  moreover have "length (concat (map f [0..<5])) \<le> 146"
    using f [of 0] f [of 1] f [of 2] f [of 3] f [of 4] by (simp add: upt_conv_Cons numeral_eq_Suc)
  ultimately show ?thesis by simp
qed

text \<open>
  Property C29. The text of any inventory that can be printed has at most 588 characters, so the write
  at index 601 that follows is always outside the string.
\<close>

theorem inventory_write_past_text:
  assumes "printable iv"
  shows "(\<exists>buf. inventory_rows iv = Inr buf \<and> length buf \<le> 588) \<and> ShowInventory iv = Inl Undefined"
proof -
  from inventory_row_length [OF assms, of 0 "[]"] obtain b0 where
    0: "inventory_row iv 0 [] = Inr b0" "length b0 \<le> 147" by auto
  from inventory_row_length [OF assms, of 1 b0] 0 obtain b1 where
    1: "inventory_row iv 1 b0 = Inr b1" "length b1 \<le> 294" by auto
  from inventory_row_length [OF assms, of 2 b1] 1 obtain b2 where
    2: "inventory_row iv 2 b1 = Inr b2" "length b2 \<le> 441" by auto
  from inventory_row_length [OF assms, of 3 b2] 2 obtain b3 where
    3: "inventory_row iv 3 b2 = Inr b3" "length b3 \<le> 588" by auto
  have "inventory_rows iv = Inr b3" using 0 1 2 3 by (simp add: inventory_rows_def upt_conv_Cons numeral_eq_Suc)
  with 3(2) show ?thesis by (simp add: ShowInventory_def MaxCellWidth_def)
qed

theorem inventory_write_past_text_witness: "ShowInventory empty_Inventory = Inl Undefined"
  using inventory_write_past_text [of empty_Inventory]
  by (simp add: printable_def empty_Inventory_def default_ItemSlot_def)

section \<open>The description of a move\<close>

text \<open>The moves the client's keys W, S, A and D ask for.\<close>

definition key_move :: "u32 \<Rightarrow> i16 list \<Rightarrow> PlayerAction" where
  "key_move self info = \<lparr>ActionType = Move, PA_PlayerID = self, PA_ActionInfo = info\<rparr>"

text \<open>
  A step up the map, to a smaller row, is described as west and a step to the right as
  south: the text reads the components as (y, x), the move as (x, y).
\<close>

theorem move_text_swaps_axes:
  assumes "pID p = i" and "length info = 4" and "info ! 3 = 0"
  shows "ActionToString p i (key_move i info) = Inr (''You moved  '' @
           (if 0 < sint (info ! 1) then ''south'' else if sint (info ! 1) < 0 then ''north''
            else if 0 < sint (info ! 2) then ''east'' else if sint (info ! 2) < 0 then ''west''
            else ''down'') @ [newline]) \<and>
         action_vec (PA_ActionInfo (key_move i info)) = vec3_make (info ! 1) (info ! 2) 0"
  using assms by (auto simp: ActionToString_def key_move_def action_vec_def Let_def)

theorem move_text_swaps_axes_witness:
  "ActionToString (default_Player\<lparr>pID := 3\<rparr>) 3 (key_move 3 [0, 0, -1, 0]) = Inr (''You moved  west'' @ [newline]) \<and>
   action_vec (PA_ActionInfo (key_move 3 [0, 0, -1, 0])) = vec3_make 0 (-1) 0"
  using move_text_swaps_axes [of "default_Player\<lparr>pID := 3\<rparr>" 3 "[0, 0, -1, 0]"] by simp

section \<open>A line of the map\<close>

definition stands_at :: "nat \<Rightarrow> nat \<Rightarrow> CoordVec \<Rightarrow> bool" where
  "stands_at height width c \<longleftrightarrow> int height = sint (vy c) \<and> int width = sint (vx c)"

text \<open>The indices of the enemies on a cell, and those on a line in the order of its cells.\<close>

definition cell_hits :: "GameWorld \<Rightarrow> nat \<Rightarrow> nat \<Rightarrow> nat list" where
  "cell_hits w height width =
     map fst (filter (\<lambda>(i, e). stands_at height width (eCoords e)) (enumerate 0 (EnemyList w)))"

definition line_hits :: "GameWorld \<Rightarrow> nat \<Rightarrow> nat list \<Rightarrow> nat list" where
  "line_hits w height xs = concat (map (cell_hits w height) xs)"

definition cell_text :: "GameWorld \<Rightarrow> nat \<Rightarrow> nat \<Rightarrow> string" where
  "cell_text w height width =
     (if cell_hits w height width = [] then [TilesTable ! unat (MapTiles w ! (width + height * Map_Width))]
      else replicate (length (cell_hits w height width)) (CHR ''Q''))"

text \<open>What the enemies of a list of hits do to a line without players.\<close>

definition mark_enemies :: "nat list \<Rightarrow> map_line \<Rightarrow> map_line" where
  "mark_enemies is l =
     l\<lparr>PrintString := PrintString l @ replicate (length is) (CHR ''Q''),
       EnemiesOnLine := (if is = [] then EnemiesOnLine l else (EnemiesOnLine l)[0 := word_of_nat (last is)]),
       EnemiesOnLineCount := EnemiesOnLineCount l + length is,
       tile_taken := (tile_taken l \<or> is \<noteq> [])\<rparr>"

lemma cell_enemies_mark:
  assumes "PlayersOnLineCount l = 0" and "EnemiesOnLine l \<noteq> []"
  shows "res_fold (cell_enemy height width) ies l =
           Inr (mark_enemies (map fst (filter (\<lambda>(i, e). stands_at height width (eCoords e)) ies)) l)"
  using assms
proof (induction ies arbitrary: l)
  case Nil
  then show ?case by (simp add: mark_enemies_def)
next
  case (Cons ie ies)
  obtain i e where ie: "ie = (i, e)" by fastforce
  show ?case
  proof (cases "stands_at height width (eCoords e)")
    case True
    let ?l = "mark_enemies [i] l"
    have "cell_enemy height width ie l = Inr ?l"
      using True ie Cons.prems by (simp add: cell_enemy_def stands_at_def sa_set_def mark_enemies_def)
    moreover have "res_fold (cell_enemy height width) ies ?l =
        Inr (mark_enemies (map fst (filter (\<lambda>(i, e). stands_at height width (eCoords e)) ies)) ?l)"
      using Cons.prems by (intro Cons.IH) (simp_all add: mark_enemies_def)
    ultimately show ?thesis using True ie by (simp add: mark_enemies_def)
  next
    case False
    then have "cell_enemy height width ie l = Inr l" using ie by (simp add: cell_enemy_def flip: stands_at_def)
    with Cons.IH [OF Cons.prems] False ie show ?thesis by simp
  qed
qed

lemma cell_players_none:
  assumes "\<forall>(k, p) \<in> set ps. int height \<noteq> sint (vy (pCoords p))"
  shows "res_fold (cell_player height width) ps l = Inr l"
  using assms by (induction ps) (auto simp: cell_player_def Let_def)

definition good_tile :: "GameWorld \<Rightarrow> nat \<Rightarrow> bool" where
  "good_tile w i \<longleftrightarrow> i < length (MapTiles w) \<and> unat (MapTiles w ! i) < 5"

lemma map_cell_enemies:
  assumes "\<forall>(k, p) \<in> set (PlayersList w). int height \<noteq> sint (vy (pCoords p))"
    and "PlayersOnLineCount l = 0" and "EnemiesOnLine l \<noteq> []" and "good_tile w (width + height * Map_Width)"
  shows "\<exists>l'. map_cell w height width l = Inr l' \<and>
           PrintString l' = PrintString l @ cell_text w height width \<and> PlayersOnLineCount l' = 0 \<and>
           EnemiesOnLine l' = EnemiesOnLine (mark_enemies (cell_hits w height width) l) \<and>
           EnemiesOnLineCount l' = EnemiesOnLineCount l + length (cell_hits w height width)"
proof -
  have "res_fold (cell_enemy height width) (enumerate 0 (EnemyList w)) (l\<lparr>tile_taken := False\<rparr>)
          = Inr (mark_enemies (cell_hits w height width) (l\<lparr>tile_taken := False\<rparr>))"
    using assms(2,3) cell_enemies_mark [of "l\<lparr>tile_taken := False\<rparr>"] by (simp add: cell_hits_def)
  moreover have "length TilesTable = 5" by (simp add: TilesTable_def)
  ultimately show ?thesis using assms(2,4)
    by (simp add: map_cell_def cell_players_none [OF assms(1)] mark_enemies_def cell_text_def good_tile_def
        sa_get_def table_entry_def)
qed

lemma map_cells_enemies:
  assumes pl: "\<forall>(k, p) \<in> set (PlayersList w). int height \<noteq> sint (vy (pCoords p))"
    and "PlayersOnLineCount l = 0" and "EnemiesOnLine l \<noteq> []"
    and "\<forall>x \<in> set xs. good_tile w (x + height * Map_Width)"
  shows "\<exists>l'. res_fold (map_cell w height) xs l = Inr l' \<and>
           PrintString l' = PrintString l @ concat (map (cell_text w height) xs) \<and> PlayersOnLineCount l' = 0 \<and>
           EnemiesOnLine l' = EnemiesOnLine (mark_enemies (line_hits w height xs) l) \<and>
           EnemiesOnLineCount l' = EnemiesOnLineCount l + length (line_hits w height xs)"
  using assms(2-)
proof (induction xs arbitrary: l)
  case Nil
  then show ?case by (simp add: line_hits_def mark_enemies_def)
next
  case (Cons x xs)
  obtain l1 where l1: "map_cell w height x l = Inr l1"
      "PrintString l1 = PrintString l @ cell_text w height x" "PlayersOnLineCount l1 = 0"
      "EnemiesOnLine l1 = EnemiesOnLine (mark_enemies (cell_hits w height x) l)"
      "EnemiesOnLineCount l1 = EnemiesOnLineCount l + length (cell_hits w height x)"
    using map_cell_enemies [OF pl Cons.prems(1,2), of x] Cons.prems(3) by auto
  have "EnemiesOnLine l1 \<noteq> []" using l1(4) Cons.prems(2) by (simp add: mark_enemies_def)
  from Cons.IH [OF l1(3) this] Cons.prems(3) obtain l2 where
    "res_fold (map_cell w height) xs l1 = Inr l2"
    "PrintString l2 = PrintString l1 @ concat (map (cell_text w height) xs)" "PlayersOnLineCount l2 = 0"
    "EnemiesOnLine l2 = EnemiesOnLine (mark_enemies (line_hits w height xs) l1)"
    "EnemiesOnLineCount l2 = EnemiesOnLineCount l1 + length (line_hits w height xs)" by auto
  with l1 show ?case by (simp add: line_hits_def mark_enemies_def)
qed

text \<open>
  On a line without players the map shows each tile's sign, or one Q for every enemy on
  it; but of the enemies the line remembers only the last one, at index 0: the labels after the line
  are that enemy's once, and then the first enemy's of the whole list for all the others.
\<close>

theorem map_line_forgets_enemies:
  assumes "\<forall>(k, p) \<in> set (PlayersList w). int height \<noteq> sint (vy (pCoords p))"
    and "\<forall>x < Map_Width. good_tile w (x + height * Map_Width)"
    and "l = \<lparr>PrintString = s, PlayersOnLine = replicate 99 0, EnemiesOnLine = replicate 99 0,
          PlayersOnLineCount = 0, EnemiesOnLineCount = 0, tile_taken = False\<rparr>"
  shows "\<exists>l'. res_fold (map_cell w height) [0..<Map_Width] l = Inr l' \<and>
           PrintString l' = s @ concat (map (cell_text w height) [0..<Map_Width]) \<and>
           (let hits = line_hits w height [0..<Map_Width]
            in PlayersOnLineCount l' = 0 \<and> EnemiesOnLineCount l' = length hits \<and>
               (hits \<noteq> [] \<longrightarrow> EnemiesOnLine l' = word_of_nat (last hits) # replicate 98 0))"
  using map_cells_enemies [OF assms(1), of l "[0..<Map_Width]"] assms(2,3)
  by (auto simp: mark_enemies_def Let_def replicate_Suc [of 98, simplified])

theorem map_line_forgets_enemies_witness:
  "\<exists>l'. res_fold (map_cell (\<lparr>PlayersList = [], EnemyList = [], MapTiles = replicate 1600 1,
          KillCallback = False, kill_calls = []\<rparr>) 3) [0..<Map_Width]
        \<lparr>PrintString = [], PlayersOnLine = replicate 99 0, EnemiesOnLine = replicate 99 0,
          PlayersOnLineCount = 0, EnemiesOnLineCount = 0, tile_taken = False\<rparr> = Inr l' \<and>
     PrintString l' = replicate 40 (CHR ''F'')"
proof -
  define w where "w = \<lparr>PlayersList = [], EnemyList = [], MapTiles = replicate 1600 1,
    KillCallback = False, kill_calls = []\<rparr>"
  have p: "\<forall>(k, p) \<in> set (PlayersList w). int 3 \<noteq> sint (vy (pCoords p))" by (simp add: w_def)
  have t: "\<forall>x < Map_Width. good_tile w (x + 3 * Map_Width)" by (simp add: w_def good_tile_def Map_Width_def)
  have "map (cell_text w 3) [0..<Map_Width] = map (\<lambda>_. ''F'') [0..<Map_Width]"
    by (intro map_cong refl) (auto simp: w_def cell_text_def cell_hits_def TilesTable_def Map_Width_def)
  moreover have "concat (map (\<lambda>_. ''F'') [0..<Map_Width]) = replicate 40 (CHR ''F'')"
    by (simp add: Map_Width_def upt_conv_Cons numeral_eq_Suc)
  ultimately have c: "[] @ concat (map (cell_text w 3) [0..<Map_Width]) = replicate 40 (CHR ''F'')"
    by (simp only: append_Nil)
  show ?thesis
    using map_line_forgets_enemies [OF p t refl, of "[]"] unfolding c unfolding w_def by (elim exE conjE) (intro exI conjI)
qed

end
