(* ===== verification/GameClient.thy ===== *)
theory GameClient
  imports ClientInterface ClientText Timer
begin

text \<open>
  The game client, \<^verbatim>\<open>CustomClient\<close> of AsciiTerra_Client/GameClient.cpp, on top of the client interface.

  \<^item> What comes from outside during one update (the keys, the console's input, the clock, what the
    asio thread still does during a disconnect) is the record \<open>client_input\<close>.
  \<^item> A typed string is the memory \<^verbatim>\<open>c_str()\<close> addresses: its characters, the terminator and what follows.
  \<^item> The kill callback does not touch the world; the model of the world records its calls and
    \<open>world_action\<close> runs them afterwards, in order.
  \<^item> The copy's \<^verbatim>\<open>PlayersList\<close> is an \<^verbatim>\<open>unordered_map\<close> too. A new player is put last in it here; what is
    proved of a copy speaks of the map (\<open>agree\<close>), whatever its order.
  \<^item> \<open>console\<close> is what was printed. The measured time of a ping is left out.
\<close>

section \<open>State\<close>

record custom_client = client_interface +
  cWorld :: GameWorld
  PlayerID :: u32
  IsEnemyListDirt :: bool
  IsPlayerDead :: bool
  key :: "bool list"
  old_key :: "bool list"
  console :: "string list"

record client_input =
  focused :: bool
  down :: "bool list"
  typed :: bytes
  command :: string
  clock :: bytes
  context_events :: "event list"

definition say :: "string \<Rightarrow> custom_client \<Rightarrow> custom_client" where
  "say t c = c\<lparr>console := console c @ [t]\<rparr>"

definition client_message :: "string \<Rightarrow> string" where
  "client_message t = ''[CLIENT] '' @ t @ [newline]"

definition show_text :: "string res \<Rightarrow> custom_client \<Rightarrow> custom_client res" where
  "show_text t c = res_bind t (\<lambda>t. Inr (say t c))"

definition CustomClient :: "bytes \<Rightarrow> custom_client" where
  "CustomClient memory =
     \<lparr>m_connection = None, c_qIn = [], context_stopped = False, thread_joinable = False, leaked = [],
      cWorld = \<lparr>PlayersList = [], EnemyList = [], MapTiles = memory, KillCallback = False, kill_calls = []\<rparr>,
      PlayerID = 0, IsEnemyListDirt = False, IsPlayerDead = False,
      key = replicate 11 False, old_key = replicate 11 False, console = []\<rparr>"

abbreviation c_players :: "custom_client \<Rightarrow> (u32 \<times> Player) list" where
  "c_players c \<equiv> PlayersList (cWorld c)"

section \<open>Requests to the server\<close>

definition PingServer :: "bytes \<Rightarrow> custom_client \<Rightarrow> custom_client" where
  "PingServer timeNow c = client_send (with_data ServerPing timeNow) c"

definition ClientMessageAll :: "custom_client \<Rightarrow> custom_client" where
  "ClientMessageAll c = client_send (new_message MessageAll) c"

definition MakeActionApprove :: "PlayerAction \<Rightarrow> custom_client \<Rightarrow> custom_client" where
  "MakeActionApprove action c =
     (case ActionType action of
        Move \<Rightarrow> client_send (with_data ServerGamePlayerActionApprove (enc_PlayerAction action)) c
      | Attack \<Rightarrow> c
      | _ \<Rightarrow> c)"

section \<open>The kill callback\<close>

definition ClientKillCallback :: "bool \<times> u32 \<Rightarrow> custom_client \<Rightarrow> custom_client" where
  "ClientKillCallback call c =
     (case call of (IsPlayer, i) \<Rightarrow>
        if IsPlayer then (if i = PlayerID c then c\<lparr>IsPlayerDead := True\<rparr> else c)
        else c\<lparr>IsEnemyListDirt := True\<rparr>)"

definition world_action :: "(GameWorld \<Rightarrow> GameWorld res) \<Rightarrow> custom_client \<Rightarrow> custom_client res" where
  "world_action f c =
     res_bind (f ((cWorld c)\<lparr>kill_calls := []\<rparr>)) (\<lambda>w.
       Inr (fold ClientKillCallback (kill_calls w) (c\<lparr>cWorld := w\<lparr>kill_calls := []\<rparr>\<rparr>)))"

section \<open>The console\<close>

definition client_ShowInventory :: "custom_client \<Rightarrow> custom_client res" where
  "client_ShowInventory c =
     (case map_of (c_players c) (PlayerID c) of
        None \<Rightarrow> Inl OutOfRange
      | Some p \<Rightarrow> show_text (ShowInventory (pInventory p)) c)"

definition client_ShowPlayers :: "custom_client \<Rightarrow> custom_client res" where
  "client_ShowPlayers c = show_text (ShowPlayers (cWorld c) (PlayerID c)) c"

definition client_ShowMap :: "custom_client \<Rightarrow> custom_client res" where
  "client_ShowMap c = show_text (ShowMap (cWorld c) (PlayerID c)) c"

definition ParseCommand :: "string \<Rightarrow> custom_client \<Rightarrow> custom_client res" where
  "ParseCommand cmd c =
     (if cmd = ''ShowInventory''
      then client_ShowPlayers (say (client_message ''Your inventory: '') c)
      else if cmd = ''ShowPlayer''
      then client_ShowInventory (say (client_message ''Current players:'') c)
      else Inr c)"

definition CreatePlayer :: "bool \<Rightarrow> custom_client \<Rightarrow> custom_client res" where
  "CreatePlayer resolved c =
     res_bind (Connect resolved c) (\<lambda>(ok, c1).
       let c2 = (if ok then c1 else say ''[CLIENT]  Exception: Can't connect to server!'' c1)
       in Inr (c2\<lparr>cWorld := (cWorld c2)\<lparr>KillCallback := True\<rparr>\<rparr>))"

section \<open>Messages from the server\<close>

text \<open>
  \<^verbatim>\<open>memcpy(player.Name, Name.c_str(), 75)\<close> copies 75 bytes whatever the length of the name: reading
  past the memory the model knows is undefined.
\<close>

definition on_ClientAccepted :: "bytes \<Rightarrow> custom_client \<Rightarrow> custom_client res" where
  "on_ClientAccepted name c =
     (if MaxNameSize \<le> length name
      then Inr (client_send (with_data ClientRegisterOnServer
             (enc_Player (default_Player\<lparr>Name := take MaxNameSize name\<rparr>)))
             (say ''Write your name: '' (say ''Server accepted client - you're in!'' c)))
      else Inl Undefined)"

definition insert_or_assign :: "u32 \<Rightarrow> Player \<Rightarrow> custom_client \<Rightarrow> custom_client" where
  "insert_or_assign k p c = c\<lparr>cWorld := (cWorld c)\<lparr>PlayersList := AList.update k p (c_players c)\<rparr>\<rparr>"

definition on_ClientRegisterFromServer :: "message \<Rightarrow> custom_client \<Rightarrow> custom_client res" where
  "on_ClientRegisterFromServer msg c =
     res_bind (pop_data dec_Player 2016 msg) (\<lambda>(p, _).
     res_bind (text_of (Name p)) (\<lambda>name.
       Inr (say (''Server registered client. Name: '' @ name @ '' ID: '' @ show_nat (unat (pID p)))
         (insert_or_assign (pID p) p
           ((say (''Assigned Client ID = '' @ show_nat (unat (pID p))) c)\<lparr>PlayerID := pID p\<rparr>)))))"

definition on_ClientUpdateMap :: "message \<Rightarrow> custom_client \<Rightarrow> custom_client res" where
  "on_ClientUpdateMap msg c =
     res_bind (pop_data (\<lambda>m. m) 1600 msg) (\<lambda>(m, _). Inr (c\<lparr>cWorld := (cWorld c)\<lparr>MapTiles := m\<rparr>\<rparr>))"

definition on_ClientInitEnemy :: "message \<Rightarrow> custom_client \<Rightarrow> custom_client res" where
  "on_ClientInitEnemy msg c =
     res_bind (pop_data dec_Enemy 1948 msg) (\<lambda>(e, _).
       Inr (c\<lparr>cWorld := (cWorld c)\<lparr>EnemyList := EnemyList (cWorld c) @ [e]\<rparr>\<rparr>))"

text \<open>\<^verbatim>\<open>ClientAddPlayer\<close> and \<^verbatim>\<open>GameUpdatePlayer\<close>.\<close>

definition on_ClientAddPlayer :: "message \<Rightarrow> custom_client \<Rightarrow> custom_client res" where
  "on_ClientAddPlayer msg c =
     res_bind (pop_data dec_Player 2016 msg) (\<lambda>(p, _). Inr (insert_or_assign (pID p) p c))"

definition on_GameUpdatePlayer :: "message \<Rightarrow> custom_client \<Rightarrow> custom_client res" where
  "on_GameUpdatePlayer msg c =
     res_bind (pop_data dec_Player 2016 msg) (\<lambda>(p, _). Inr (insert_or_assign (pID p) p c))"

definition on_GameRemovePlayer :: "message \<Rightarrow> custom_client \<Rightarrow> custom_client res" where
  "on_GameRemovePlayer msg c =
     res_bind (pop_data dec_u32 4 msg) (\<lambda>(i, _).
       Inr (c\<lparr>cWorld := (cWorld c)\<lparr>PlayersList := AList.delete i (c_players c)\<rparr>\<rparr>))"

text \<open>\<^verbatim>\<open>PlayersList[PlayerID]\<close> inserts a default player when there is none.\<close>

definition on_GamePlayerTurn :: "custom_client \<Rightarrow> custom_client res" where
  "on_GamePlayerTurn c =
     (let p = (case map_of (c_players c) (PlayerID c) of Some p \<Rightarrow> p | None \<Rightarrow> default_Player)
      in res_bind (SetCurrentTurnActions (ucast (GetMaxTurnActions p)) p) (\<lambda>p'.
           Inr (say (client_message ''Your TURN!'') (insert_or_assign (PlayerID c) p' c))))"

definition on_GameNextPlayerTurn :: "message \<Rightarrow> custom_client \<Rightarrow> custom_client res" where
  "on_GameNextPlayerTurn msg c =
     res_bind (pop_data dec_u32 4 msg) (\<lambda>(i, _).
       if i = PlayerID c then Inr c
       else (case map_of (c_players c) i of
               None \<Rightarrow> Inl OutOfRange
             | Some p \<Rightarrow> res_bind (text_of (Name p)) (\<lambda>name.
                 Inr (say (client_message (''['' @ name @ ''] TURN'')) c))))"

definition actions_left :: "u32 \<Rightarrow> Player \<Rightarrow> string res" where
  "actions_left self p =
     (let n = show_nat (unat (GetCurrentTurnActions p))
      in if pID p = self then Inr (''You made action, left actions: '' @ n @ '' '')
         else res_bind (text_of (Name p)) (\<lambda>name. Inr (name @ '' maded action, left actions: '' @ n @ '' '')))"

definition on_ActionValidated :: "message \<Rightarrow> custom_client \<Rightarrow> custom_client res" where
  "on_ActionValidated msg c =
     res_bind (pop_data dec_PlayerAction 16 msg) (\<lambda>(action, _).
       let i = PA_PlayerID action
       in if map_of (c_players c) i = None
          then Inr (say ''[CLIENT]  Exception: Missed Player action!'' c)
          else res_bind (world_action (MakeApprovedAction i action) c) (\<lambda>c1.
            case map_of (c_players c1) i of
              None \<Rightarrow> Inl Undefined
            | Some p \<Rightarrow>
                res_bind (show_text (ActionToString p (PlayerID c1) action) c1) (\<lambda>c2.
                res_bind (actions_left (PlayerID c2) p) (\<lambda>t. Inr (say (client_message t) c2)))))"

definition on_ActionAborted :: "message \<Rightarrow> custom_client \<Rightarrow> custom_client res" where
  "on_ActionAborted msg c =
     res_bind (pop_data dec_PlayerAction 16 msg) (\<lambda>(action, _).
     res_bind (table_entry PlayerActionsNames (unat (enc_PlayerActionType (ActionType action)))) (\<lambda>name.
       let info = (\<lambda>i. show_int (sint (PA_ActionInfo action ! i)))
       in Inr (say (client_message (''Action {'' @ name @ '', '' @ info 0 @ '', '' @ info 1 @ '', '' @
                      info 2 @ '', '' @ info 3 @ ''} Aborted'')) c)))"

definition on_ServerPing :: "message \<Rightarrow> custom_client \<Rightarrow> custom_client res" where
  "on_ServerPing msg c = res_bind (pop_data (\<lambda>t. t) 8 msg) (\<lambda>_. Inr (say ''Ping: '' c))"

definition on_ServerMessage :: "message \<Rightarrow> custom_client \<Rightarrow> custom_client res" where
  "on_ServerMessage msg c =
     res_bind (pop_data dec_u32 4 msg) (\<lambda>(i, _).
       case map_of (c_players c) i of
         None \<Rightarrow> Inl Undefined
       | Some p \<Rightarrow> res_bind (text_of (Name p)) (\<lambda>name. Inr (say (''Hello from ['' @ name @ '']'') c)))"

definition on_GameAITurnAction :: "message \<Rightarrow> custom_client \<Rightarrow> custom_client res" where
  "on_GameAITurnAction msg c =
     res_bind (pop_data dec_EnemyAction 16 msg) (\<lambda>(action, _).
     let i = unat (EA_EnemyID action); info = (\<lambda>i. show_int (sint (EA_ActionInfo action ! i)))
     in res_bind (table_entry (EnemyList (cWorld c)) i) (\<lambda>e.
        res_bind (table_entry EnemiesNames (unat (etype e))) (\<lambda>ename.
        res_bind (table_entry EnemiesActionsNames (unat (enc_EnemyActionType (actionType action)))) (\<lambda>aname.
        let place = (if actionType action \<in> {EnemyMove, EnemyBaseAttack}
                     then '' to :'' @ ''['' @ info 1 @ '' '' @ info 2 @ '' '' @ info 3 @ '']'' else [])
        in world_action (MakeEnemyAction i action)
             (say (''{ENEMY ACTION] {'' @ ename @ ''] ['' @ aname @ place @ [newline]) c)))))"

definition handle_message :: "bytes \<Rightarrow> message \<Rightarrow> custom_client \<Rightarrow> custom_client res" where
  "handle_message name msg c =
     (if hid msg = ServerAccept then Inr (say ''Server Accepted Connection'' c)
      else if hid msg = ClientAccepted then on_ClientAccepted name c
      else if hid msg = ClientRegisterFromServer then on_ClientRegisterFromServer msg c
      else if hid msg = ClientUpdateMap then on_ClientUpdateMap msg c
      else if hid msg = ClientInitEnemy then on_ClientInitEnemy msg c
      else if hid msg = ClientAddPlayer then on_ClientAddPlayer msg c
      else if hid msg = GameRemovePlayer then on_GameRemovePlayer msg c
      else if hid msg = GamePlayerTurn then on_GamePlayerTurn c
      else if hid msg = GameEndPlayerTurn then Inr (say (client_message ''End of your TURN!'') c)
      else if hid msg = GameNextPlayerTurn then on_GameNextPlayerTurn msg c
      else if hid msg = GameUpdatePlayer then on_GameUpdatePlayer msg c
      else if hid msg = GamePlayerActionValidated then on_ActionValidated msg c
      else if hid msg = GamePlayerActionAborted then on_ActionAborted msg c
      else if hid msg = ServerDeny then Inr (say ''Server Deny Connection'' c)
      else if hid msg = ServerPing then on_ServerPing msg c
      else if hid msg = ServerMessage then on_ServerMessage msg c
      else if hid msg = GameAITurnAction then on_GameAITurnAction msg c
      else Inr c)"

section \<open>One update\<close>

definition read_keys :: "client_input \<Rightarrow> custom_client \<Rightarrow> custom_client" where
  "read_keys inp c = (if focused inp then c\<lparr>key := down inp\<rparr> else c)"

definition pressed :: "nat \<Rightarrow> custom_client \<Rightarrow> bool" where
  "pressed i c \<longleftrightarrow> key c ! i \<and> \<not> old_key c ! i"

definition on_key :: "nat \<Rightarrow> (custom_client \<Rightarrow> custom_client res) \<Rightarrow> custom_client \<Rightarrow> custom_client res" where
  "on_key i f c = (if pressed i c then f c else Inr c)"

definition move_request :: "i16 list \<Rightarrow> custom_client \<Rightarrow> custom_client res" where
  "move_request info c =
     Inr (MakeActionApprove \<lparr>ActionType = Move, PA_PlayerID = PlayerID c, PA_ActionInfo = info\<rparr> c)"

definition handle_keys :: "client_input \<Rightarrow> custom_client \<Rightarrow> custom_client res" where
  "handle_keys inp c =
     res_fold (\<lambda>(i, f). on_key i f)
       [(0, \<lambda>c. Inr (say (client_message ''PingButton pressed'') (PingServer (clock inp) c))),
        (1, \<lambda>c. Inr (say (client_message ''Sending message to all other clients'') (ClientMessageAll c))),
        (2, \<lambda>c. res_bind (client_disconnect (context_events inp) c) (\<lambda>c.
               Inr (say (client_message ''ExitButton pressed'') c))),
        (3, \<lambda>c. client_ShowInventory (say (client_message ''Your inventory: '') c)),
        (4, \<lambda>c. client_ShowPlayers (say (client_message ''Current players:'') c)),
        (10, \<lambda>c. client_ShowMap (say (client_message ''Map: '') c)),
        (9, ParseCommand (command inp)),
        (5, move_request [0, 0, -1, 0]),
        (6, move_request [0, 0, 1, 0]),
        (7, move_request [0, -1, 0, 0]),
        (8, move_request [0, 1, 0, 0])] c"

text \<open>\<^verbatim>\<open>for (int i = 0; i < 10; i++) old_key[i] = key[i];\<close>\<close>

definition remember_keys :: "custom_client \<Rightarrow> custom_client" where
  "remember_keys c = c\<lparr>old_key := fold (\<lambda>i ks. ks[i := key c ! i]) [0..<10] (old_key c)\<rparr>"

definition take_message :: "client_input \<Rightarrow> custom_client \<Rightarrow> custom_client res" where
  "take_message inp c =
     (if q_empty (c_qIn c) then Inr c
      else res_bind (q_pop_front (c_qIn c)) (\<lambda>(om, q). handle_message (typed inp) (snd om) (c\<lparr>c_qIn := q\<rparr>)))"

definition UpdatePlayer :: "client_input \<Rightarrow> custom_client \<Rightarrow> custom_client res" where
  "UpdatePlayer inp c =
     (if client_connected c
      then res_bind (handle_keys inp (read_keys inp c)) (\<lambda>c1.
             let c2 = remember_keys c1
             in if client_connected c2
                then take_message inp (client_send (new_message ClientJustCheck) c2)
                else Inr c2)
      else Inr c)"

text \<open>
  The loop of \<^verbatim>\<open>run\<close>: each iteration with the time since the last update and the events the context's
  thread handles before it.
\<close>

definition run_iteration :: "u32 \<times> client_input \<times> event list \<Rightarrow> custom_client \<Rightarrow> custom_client res" where
  "run_iteration = (\<lambda>(elapsed, inp, evs) c.
     res_bind (res_fold context_event evs c) (\<lambda>c1.
       if client_connected c1 \<and> 100 < elapsed then UpdatePlayer inp c1 else Inr c1))"

end
