(* ===== verification/Replica.thy ===== *)
theory Replica
  imports GameClient ServerProps
begin

text \<open>
  The client's copy of the game: it follows the server by performing the same actions. Two worlds agree
  when they have the same players, as a map, and the same enemies; the order in which the two
  containers list the players, the map and the callbacks do not matter.
\<close>

section \<open>Agreeing worlds\<close>

definition agree :: "GameWorld \<Rightarrow> GameWorld \<Rightarrow> bool" where
  "agree w v \<longleftrightarrow> players w = players v \<and> EnemyList w = EnemyList v"

lemma agree_kill_calls [simp]:
  "agree w (v\<lparr>kill_calls := ks\<rparr>) = agree w v" "wf_world (v\<lparr>kill_calls := ks\<rparr>) = wf_world v"
  "players (v\<lparr>kill_calls := ks\<rparr>) = players v"
  by (simp_all add: agree_def wf_world_def)

lemma agree_update_player:
  "agree w v \<Longrightarrow> agree (w\<lparr>PlayersList := AList.update k p (PlayersList w)\<rparr>)
                      (v\<lparr>PlayersList := AList.update k p (PlayersList v)\<rparr>)"
  by (simp add: agree_def update_conv')

lemma agree_update_enemy:
  "agree w v \<Longrightarrow> agree (w\<lparr>EnemyList := (EnemyList w)[i := e]\<rparr>) (v\<lparr>EnemyList := (EnemyList v)[i := e]\<rparr>)"
  by (simp add: agree_def)

lemma struck_agree:
  assumes "agree w v" and "struck d t w w'" and "struck d u v v'"
    and "set (at_playerIDs t) = set (at_playerIDs u)" and "set (at_EnemyIDs t) = set (at_EnemyIDs u)"
  shows "agree w' v'"
proof -
  have "players w' = players v'"
    using assms by (intro ext) (simp add: struck_def agree_def)
  moreover have "EnemyList w' = EnemyList v'"
    using assms by (intro nth_equalityI) (simp_all add: struck_def agree_def same_shape_def)
  ultimately show ?thesis by (simp add: agree_def)
qed

lemma PlayerFindAttackTarget_agree:
  assumes "wf_world w" and "wf_world v" and "agree w v"
  shows "set (at_playerIDs (PlayerFindAttackTarget w p a)) = set (at_playerIDs (PlayerFindAttackTarget v p a))"
    and "at_EnemyIDs (PlayerFindAttackTarget w p a) = at_EnemyIDs (PlayerFindAttackTarget v p a)"
  using assms PlayerFindAttackTarget_player [OF assms(1)] PlayerFindAttackTarget_player [OF assms(2)]
  by (auto simp: agree_def PlayerFindAttackTarget_def Let_def)

lemma EnemyFindAttackTarget_agree:
  assumes "wf_world w" and "wf_world v" and "agree w v"
  shows "set (at_playerIDs (EnemyFindAttackTarget w e a)) = set (at_playerIDs (EnemyFindAttackTarget v e a))"
    and "at_EnemyIDs (EnemyFindAttackTarget w e a) = at_EnemyIDs (EnemyFindAttackTarget v e a)"
  using assms EnemyFindAttackTarget_player [OF assms(1)] EnemyFindAttackTarget_player [OF assms(2)]
  by (auto simp: agree_def EnemyFindAttackTarget_def Let_def)

text \<open>Damage done to agreeing worlds keeps them in agreement.\<close>

lemma damage_targets_agree:
  assumes "agree w v" and "targets_ok w t" and "targets_ok v u"
    and "set (at_playerIDs t) = set (at_playerIDs u)" and "set (at_EnemyIDs t) = set (at_EnemyIDs u)"
    and "damage_targets d t w = Inr w'"
  shows "\<exists>v'. damage_targets d u v = Inr v' \<and> agree w' v'"
  using damage_targets_struck [OF assms(2), of d] damage_targets_struck [OF assms(3), of d] assms
  by (auto intro: struck_agree)

lemma attack_by_player_agree:
  assumes "wf_world w" and "wf_world v" and "agree w v" and "attack_by_player k a w = Inr w'"
  shows "\<exists>v'. attack_by_player k a v = Inr v' \<and> agree w' v'"
proof -
  let ?t = "PlayerFindAttackTarget w" and ?u = "PlayerFindAttackTarget v"
  obtain p where p: "players w k = Some p" "players v k = Some p"
    using assms(3,4) by (auto simp: attack_by_player_def agree_def split: option.splits)
  obtain r where r: "weapon_strike (pInventory p) (pEquipedItemID p) = Inr r"
    using assms(4) p by (auto simp: attack_by_player_def Player_MakeAttack_def)
  show ?thesis
  proof (cases r)
    case None
    then show ?thesis using assms(3,4) p r by (auto simp: attack_by_player_def Player_MakeAttack_def)
  next
    case (Some x)
    obtain iv d where x: "x = (iv, d)" by fastforce
    let ?upd = "\<lambda>w. w\<lparr>PlayersList := AList.update k (p\<lparr>pInventory := iv\<rparr>) (PlayersList w)\<rparr>"
    have run: "damage_targets d (?t p a) (?upd w) = Inr w'"
      using assms(4) p r Some x by (simp add: attack_by_player_def Player_MakeAttack_def)
    have "targets_ok (?upd w) (?t p a)" "targets_ok (?upd v) (?u p a)"
      using p assms(1,2)
      by (auto intro!: targets_ok_shape [OF same_shape_update_player] PlayerFindAttackTarget_ok)
    from damage_targets_agree [OF agree_update_player [OF assms(3)] this _ _ run]
      PlayerFindAttackTarget_agree [OF assms(1-3), of p a]
    obtain v' where "damage_targets d (?u p a) (?upd v) = Inr v'" "agree w' v'" by auto
    then show ?thesis using p r Some x by (simp add: attack_by_player_def Player_MakeAttack_def)
  qed
qed

lemma move_player_agree:
  assumes "agree w v" and "move_player k d w = Inr w'"
  shows "\<exists>v'. move_player k d v = Inr v' \<and> agree w' v'"
  using assms agree_update_player [OF assms(1)]
  by (auto simp: move_player_def agree_def split: option.splits)

lemma spend_turn_action_agree:
  assumes "agree w v" and "spend_turn_action k w = Inr w'"
  shows "\<exists>v'. spend_turn_action k v = Inr v' \<and> agree w' v'"
  using assms agree_update_player [OF assms(1)]
  by (auto simp: spend_turn_action_def agree_def split: option.splits)

lemma MakeApprovedAction_agree:
  assumes "wf_world w" and "wf_world v" and "agree w v" and "players w k = Some p"
    and "MakeApprovedAction k a w = Inr w'"
  shows "\<exists>v'. MakeApprovedAction k a v = Inr v' \<and> agree w' v'"
proof -
  let ?switch = "\<lambda>w. case ActionType a of
             Move \<Rightarrow> res_bind (move_player k (action_vec (PA_ActionInfo a)) w) (attack_by_player k a)
           | Attack \<Rightarrow> attack_by_player k a w
           | _ \<Rightarrow> Inr w"
  from assms(5) obtain w1 where w1: "?switch w = Inr w1" "spend_turn_action k w1 = Inr w'"
    by (auto simp: MakeApprovedAction_def)
  have pv: "players v k = Some p" using assms(3,4) by (simp add: agree_def)
  have "\<exists>v1. ?switch v = Inr v1 \<and> agree w1 v1"
  proof (cases "ActionType a")
    case Move
    with w1(1) obtain w0 where w0: "move_player k (action_vec (PA_ActionInfo a)) w = Inr w0"
        "attack_by_player k a w0 = Inr w1" by auto
    from move_player_agree [OF assms(3) w0(1)] obtain v0 where
      v0: "move_player k (action_vec (PA_ActionInfo a)) v = Inr v0" "agree w0 v0" by blast
    have "wf_world w0" "wf_world v0"
      using move_player_wf [OF assms(1,4), of "action_vec (PA_ActionInfo a)"]
        move_player_wf [OF assms(2) pv, of "action_vec (PA_ActionInfo a)"] w0(1) v0(1) by auto
    from attack_by_player_agree [OF this v0(2) w0(2)] v0(1) Move show ?thesis by auto
  next
    case Attack
    with attack_by_player_agree [OF assms(1-3)] w1(1) show ?thesis by auto
  qed (use assms(3) w1(1) in auto)
  with spend_turn_action_agree w1(2) show ?thesis by (fastforce simp: MakeApprovedAction_def)
qed

lemma MakeEnemyAction_agree:
  assumes "wf_world w" and "wf_world v" and "agree w v" and "MakeEnemyAction i a w = Inr w'"
  shows "\<exists>v'. MakeEnemyAction i a v = Inr v' \<and> agree w' v'"
proof -
  have es: "EnemyList v = EnemyList w" using assms(3) by (simp add: agree_def)
  have i: "i < length (EnemyList w)" using assms(4) by (simp add: MakeEnemyAction_def split: if_splits)
  define e where "e = EnemyList w ! i"
  show ?thesis
  proof (cases "actionType a")
    case EnemyMove
    then show ?thesis using assms(4) i es agree_update_enemy [OF assms(3)]
      by (auto simp: MakeEnemyAction_def Let_def)
  next
    case EnemyBaseAttack
    let ?t = "EnemyFindAttackTarget w e a" and ?u = "EnemyFindAttackTarget v e a"
    have at: "Enemy_MakeAttack i ?t w = Inr w'"
      using assms(4) EnemyBaseAttack i by (simp add: MakeEnemyAction_def Let_def e_def)
    then obtain r where r: "weapon_strike (einventory e) (eEquipedItemID e) = Inr r"
      using i by (auto simp: Enemy_MakeAttack_def Let_def e_def)
    have "\<exists>v'. Enemy_MakeAttack i ?u v = Inr v' \<and> agree w' v'"
    proof (cases r)
      case None
      then show ?thesis using at r i es assms(3) by (auto simp: Enemy_MakeAttack_def Let_def e_def)
    next
      case (Some x)
      obtain iv d where x: "x = (iv, d)" by fastforce
      let ?upd = "\<lambda>w. w\<lparr>EnemyList := (EnemyList w)[i := e\<lparr>einventory := iv\<rparr>]\<rparr>"
      have run: "damage_targets d ?t (?upd w) = Inr w'"
        using at r i Some x by (simp add: Enemy_MakeAttack_def Let_def e_def)
      have "targets_ok (?upd w) ?t" "targets_ok (?upd v) ?u"
        using assms(1,2)
        by (auto intro!: targets_ok_shape [OF same_shape_update_enemy] EnemyFindAttackTarget_ok)
      from damage_targets_agree [OF agree_update_enemy [OF assms(3)] this _ _ run]
        EnemyFindAttackTarget_agree [OF assms(1-3), of e a]
      obtain v' where "damage_targets d ?u (?upd v) = Inr v'" "agree w' v'" by auto
      then show ?thesis using r i es Some x by (simp add: Enemy_MakeAttack_def Let_def e_def)
    qed
    then show ?thesis using EnemyBaseAttack i es by (simp add: MakeEnemyAction_def Let_def e_def)
  qed (use assms i es in \<open>auto simp: MakeEnemyAction_def Let_def\<close>)
qed

end
