(* ===== verification/ClientProps.thy ===== *)
theory ClientProps
  imports Replica
begin

text \<open>
  Properties of the game client: its copy of the world follows the actions the server announces, and
  where it does not; the types its state keeps whatever the server sends; registration; the keys.
\<close>

section \<open>What printing and callbacks leave alone\<close>

lemma say_simps [simp]:
  "cWorld (say t c) = cWorld c" "PlayerID (say t c) = PlayerID c" "old_key (say t c) = old_key c"
  "key (say t c) = key c" "c_qIn (say t c) = c_qIn c" "m_connection (say t c) = m_connection c"
  by (simp_all add: say_def)

lemma client_send_game [simp]:
  "cWorld (client_send m c) = cWorld c" "PlayerID (client_send m c) = PlayerID c"
  "old_key (client_send m c) = old_key c" "key (client_send m c) = key c"
  by (simp_all add: client_send_def split: option.split)

lemma callbacks_simps [simp]:
  "cWorld (fold ClientKillCallback ks c) = cWorld c" "PlayerID (fold ClientKillCallback ks c) = PlayerID c"
  "old_key (fold ClientKillCallback ks c) = old_key c" "key (fold ClientKillCallback ks c) = key c"
  by (induction ks arbitrary: c) (auto simp: ClientKillCallback_def split: prod.splits)

lemma insert_or_assign_simps [simp]:
  "cWorld (insert_or_assign k p c) = (cWorld c)\<lparr>PlayersList := AList.update k p (c_players c)\<rparr>"
  "PlayerID (insert_or_assign k p c) = PlayerID c" "old_key (insert_or_assign k p c) = old_key c"
  "key (insert_or_assign k p c) = key c"
  by (simp_all add: insert_or_assign_def)

lemma world_action_Inr:
  "f ((cWorld c)\<lparr>kill_calls := []\<rparr>) = Inr w \<Longrightarrow>
   \<exists>c'. world_action f c = Inr c' \<and> cWorld c' = w\<lparr>kill_calls := []\<rparr> \<and> PlayerID c' = PlayerID c \<and>
        old_key c' = old_key c"
  by (simp add: world_action_def)

lemma ok_dec_PlayerAction: "ok_PlayerAction (dec_PlayerAction bs)"
  by (auto simp: ok_PlayerAction_def dec_PlayerAction_def dec_PlayerActionType_def split: if_splits)

lemma dec_enc_PlayerAction:
  "ok_PlayerAction a \<Longrightarrow> pop_data dec_PlayerAction 16 (with_data i (enc_PlayerAction a)) = Inr (a, new_message i)"
  using pod_PlayerAction [of a] pop_data_single [of "enc_PlayerAction a" 16 dec_PlayerAction i] by simp

lemma handle_validated:
  "handle_message name (with_data GamePlayerActionValidated bs) c
     = on_ActionValidated (with_data GamePlayerActionValidated bs) c"
  by (simp add: handle_message_def msg_ids)

section \<open>Following the server\<close>

text \<open>The id inside an action plays no part when it is performed.\<close>

lemma attack_by_player_id: "attack_by_player k (a\<lparr>PA_PlayerID := j\<rparr>) = attack_by_player k a"
proof
  fix w
  have "PlayerFindAttackTarget w p (a\<lparr>PA_PlayerID := j\<rparr>) = PlayerFindAttackTarget w p a" for p
    by (simp add: PlayerFindAttackTarget_def)
  then show "attack_by_player k (a\<lparr>PA_PlayerID := j\<rparr>) w = attack_by_player k a w"
    by (cases "players w k") (simp_all add: attack_by_player_def)
qed

lemma MakeApprovedAction_id: "MakeApprovedAction k (a\<lparr>PA_PlayerID := j\<rparr>) = MakeApprovedAction k a"
  by (intro ext; cases "ActionType a") (simp_all add: MakeApprovedAction_def attack_by_player_id)

lemma validated_action_performed:
  assumes "ok_PlayerAction a" and "PA_PlayerID a = k" and "players (cWorld c) k = Some p" and "0 \<in> set (Name p)"
    and "MakeApprovedAction k a ((cWorld c)\<lparr>kill_calls := []\<rparr>) = Inr v"
    and "players v k = Some q" and "Name q = Name p"
  shows "\<exists>c'. on_ActionValidated (with_data GamePlayerActionValidated (enc_PlayerAction a)) c = Inr c' \<and>
              cWorld c' = v\<lparr>kill_calls := []\<rparr> \<and> PlayerID c' = PlayerID c"
proof -
  from world_action_Inr [where f = "MakeApprovedAction k a", OF assms(5)] obtain c1 where
    c1: "world_action (MakeApprovedAction k a) c = Inr c1" "cWorld c1 = v\<lparr>kill_calls := []\<rparr>"
      "PlayerID c1 = PlayerID c" by blast
  obtain n where n: "text_of (Name q) = Inr n" using assms(4,7) by (simp add: text_of_def)
  have "\<exists>t. ActionToString q (PlayerID c1) a = Inr t"
    using n by (cases "pID q = PlayerID c1") (simp_all add: ActionToString_def)
  then obtain t where t: "ActionToString q (PlayerID c1) a = Inr t" ..
  have "\<exists>u. actions_left (PlayerID c1) q = Inr u"
    using n by (cases "pID q = PlayerID c1") (simp_all add: actions_left_def)
  then obtain u where u: "actions_left (PlayerID c1) q = Inr u" ..
  show ?thesis
    using assms(2,3,6) c1 t u
    by (simp add: on_ActionValidated_def dec_enc_PlayerAction [OF assms(1)] Let_def show_text_def)
qed

text \<open>The client's half: a copy that agrees performs the announced action as the server did.\<close>

lemma client_mirrors:
  assumes "wf_world w" and p: "players w k = Some p" and "unat (pEquipedItemID p) < MaxInventorySize"
    and "CurrentTurns p \<noteq> 0" and run: "MakeApprovedAction k (dec_PlayerAction bs) w = Inr w'"
    and c: "wf_world (cWorld c)" "agree w (cWorld c)" and "0 \<in> set (Name p)"
  shows "\<exists>c'. handle_message name
             (with_data GamePlayerActionValidated (enc_PlayerAction ((dec_PlayerAction bs)\<lparr>PA_PlayerID := k\<rparr>))) c
             = Inr c' \<and> agree w' (cWorld c') \<and> wf_world (cWorld c') \<and> PlayerID c' = PlayerID c"
proof -
  let ?d = "dec_PlayerAction bs" and ?v0 = "(cWorld c)\<lparr>kill_calls := []\<rparr>"
  let ?a = "?d\<lparr>PA_PlayerID := k\<rparr>"
  have pc: "players ?v0 k = Some p" using p c(2) by (simp add: agree_def)
  from MakeApprovedAction_agree [OF assms(1), of ?v0 k p ?d w'] c p run obtain v where
    v: "MakeApprovedAction k ?d ?v0 = Inr v" "agree w' v" by auto
  with MakeApprovedAction_wf [of ?v0, OF _ pc assms(3,4), of ?d] c(1) obtain q where
    q: "players v k = Some q" "Name q = Name p" "wf_world v" by fastforce
  have "ok_PlayerAction ?a" using ok_dec_PlayerAction [of bs] by (simp add: ok_PlayerAction_def)
  from validated_action_performed [OF this _ _ assms(8), of k c v q] pc v q MakeApprovedAction_id [of k k ?d]
  obtain c' where "on_ActionValidated (with_data GamePlayerActionValidated (enc_PlayerAction ?a)) c = Inr c'"
    "cWorld c' = v\<lparr>kill_calls := []\<rparr>" "PlayerID c' = PlayerID c" by auto
  then show ?thesis using v(2) q(3) by (simp add: handle_validated)
qed

text \<open>
  When the server approves an action, the message it posts to every client makes each
  client whose copy agrees with the server's world perform the same action: its copy agrees with the
  server's new world.
\<close>

theorem validated_action_mirrored:
  assumes "GarbageIDs s = []" and "all_live s" and "hid msg = ServerGamePlayerActionApprove"
    and "length (body msg) = 16" and "GetID s r = CurrentPlayerID s"
    and p: "map_of (s_players s) (GetID s r) = Some p" and "wf_world (gameWorld s)"
    and "unat (pEquipedItemID p) < MaxInventorySize" and "CurrentTurns p \<notin> {0, 1}"
    and "CheckPlayerAction (dec_PlayerAction (body msg)) s = Inr True"
    and c: "wf_world (cWorld c)" "agree (gameWorld s) (cWorld c)" and "0 \<in> set (Name p)"
  shows "\<exists>m w' c'. OnMessage F n (Some r) msg s
             = Inr (send_all m None (m_deqConnection s) (s\<lparr>gameWorld := w'\<rparr>)) \<and>
           handle_message name m c = Inr c' \<and> agree w' (cWorld c')"
proof -
  from approved_action_run [OF assms(1-10), of F n] obtain w' where
    w': "MakeApprovedAction (GetID s r) (dec_PlayerAction (body msg)) (gameWorld s) = Inr w'"
      "OnMessage F n (Some r) msg s = Inr (send_all (with_data GamePlayerActionValidated
         (enc_PlayerAction ((dec_PlayerAction (body msg))\<lparr>PA_PlayerID := GetID s r\<rparr>))) None (m_deqConnection s)
         (s\<lparr>gameWorld := w'\<rparr>))" by blast
  have "CurrentTurns p \<noteq> 0" using assms(9) by simp
  from client_mirrors [OF assms(7) p assms(8) this w'(1) c assms(13), of name] w'(2) show ?thesis by blast
qed

text \<open>A client with the sample world, registered as the second player.\<close>

definition sample_client :: custom_client where
  "sample_client = (CustomClient [])\<lparr>cWorld := sample_world, PlayerID := 10001\<rparr>"

lemma sample_client_simps [simp]: "cWorld sample_client = sample_world" "PlayerID sample_client = 10001"
  by (simp_all add: sample_client_def)

lemma sample_blow_approved: "CheckPlayerAction sample_blow sample_server = Inr True"
proof -
  let ?p = "sample_player 10000 (vec3_make 4 2 0)"
  have "vec3_eq_i16 (pCoords (sample_player 10001 (vec3_make 5 2 0)))
          (vec3_add (pCoords ?p) (action_vec (PA_ActionInfo sample_blow)))"
    by (simp add: sample_player_def sample_blow_def action_vec_def vec3_add_def vec3_make_def)
  moreover have "players sample_world 10001 = Some (sample_player 10001 (vec3_make 5 2 0))"
    by (simp add: sample_world_def)
  ultimately have "10001 \<in> set (at_playerIDs (PlayerFindAttackTarget sample_world ?p sample_blow))"
    by (simp add: PlayerFindAttackTarget_player) (simp add: sample_player_def)
  then have valid: "at_valid (PlayerFindAttackTarget sample_world ?p sample_blow)"
    by (auto simp: PlayerFindAttackTarget_def Let_def)
  then show ?thesis
    using sample_player_at by (simp add: CheckPlayerAction_def sample_blow_def) (simp add: sample_player_def)
qed

theorem validated_action_mirrored_witness:
  "\<exists>m w' c'. OnMessage 4 1 (Some 0) (sample_request sample_blow) sample_server
       = Inr (send_all m None [Some 0, Some 1] (sample_server\<lparr>gameWorld := w'\<rparr>)) \<and>
     handle_message [] m sample_client = Inr c' \<and> agree w' (cWorld c')"
proof -
  let ?p = "sample_player 10000 (vec3_make 4 2 0)"
  have "0 \<in> set (Name ?p)" by (simp add: sample_player_def MaxNameSize_def)
  moreover have "CurrentTurns ?p \<notin> {0, 1}" by (simp add: sample_player_def)
  ultimately show ?thesis
    using validated_action_mirrored [of sample_server "sample_request sample_blow" 0 ?p sample_client 4 1 "[]"]
      pod_PlayerAction [of sample_blow] sample_player_at sample_equipped sample_blow_approved
    by (simp add: agree_def)
qed

section \<open>Where the copies part\<close>

text \<open>
  Property C27. The turns a client knows of another player are only ever counted down: the message that
  tells it about the other player's next turn does not touch the copy, and the first action of that
  turn fails the client's assertion.
\<close>

theorem second_turn_stops_watchers:
  assumes "wf_world (cWorld c)" and p: "players (cWorld c) k = Some p" and "CurrentTurns p = 0"
    and "k \<noteq> PlayerID c" and "0 \<in> set (Name p)" and eq: "unat (pEquipedItemID p) < MaxInventorySize"
    and a: "ok_PlayerAction a" "PA_PlayerID a = k"
  shows "\<exists>c'. handle_message name (with_data GameNextPlayerTurn (enc_u32 k)) c = Inr c' \<and>
              cWorld c' = cWorld c \<and>
              handle_message name (with_data GamePlayerActionValidated (enc_PlayerAction a)) c'
                = Inl AssertFailed"
proof -
  obtain n where n: "text_of (Name p) = Inr n" using assms(5) by (simp add: text_of_def)
  let ?c = "say (client_message (''['' @ n @ ''] TURN'')) c"
  have "pop_data dec_u32 4 (with_data GameNextPlayerTurn (enc_u32 k)) = Inr (k, new_message GameNextPlayerTurn)"
    using pop_data_single [of "enc_u32 k" 4 dec_u32 GameNextPlayerTurn] u32_pod.dec_enc by simp
  then have turn: "handle_message name (with_data GameNextPlayerTurn (enc_u32 k)) c = Inr ?c"
    using assms(4) p n by (simp add: handle_message_def msg_ids on_GameNextPlayerTurn_def)
  have "MakeApprovedAction k a ((cWorld c)\<lparr>kill_calls := []\<rparr>) = Inl AssertFailed"
    using MakeApprovedAction_no_turns [of "(cWorld c)\<lparr>kill_calls := []\<rparr>" k p a] assms by simp
  then have "handle_message name (with_data GamePlayerActionValidated (enc_PlayerAction a)) ?c = Inl AssertFailed"
    using p a(2) by (simp add: handle_validated on_ActionValidated_def dec_enc_PlayerAction [OF a(1)] world_action_def)
  with turn show ?thesis by auto
qed

definition tired_client :: custom_client where
  "tired_client = sample_client\<lparr>cWorld := sample_world\<lparr>PlayersList := AList.update 10000
      ((sample_player 10000 (vec3_make 4 2 0))\<lparr>CurrentTurns := 0\<rparr>) (PlayersList sample_world)\<rparr>\<rparr>"

theorem second_turn_stops_watchers_witness:
  "\<exists>c'. cWorld c' = cWorld tired_client \<and>
     handle_message [] (with_data GameNextPlayerTurn (enc_u32 10000)) tired_client = Inr c' \<and>
     handle_message [] (with_data GamePlayerActionValidated (enc_PlayerAction sample_step)) c' = Inl AssertFailed"
proof -
  let ?p = "(sample_player 10000 (vec3_make 4 2 0))\<lparr>CurrentTurns := 0\<rparr>"
  have "wf_Player 10000 (sample_player 10000 (vec3_make 4 2 0))"
    using wf_world_player [OF wf_sample_world sample_player_at] .
  then have "wf_Player 10000 ?p" by (simp add: wf_Player_def)
  then have "wf_world (cWorld tired_client)"
    using wf_world_update_player [OF wf_sample_world] by (simp add: tired_client_def)
  moreover have "players (cWorld tired_client) 10000 = Some ?p"
    by (simp add: tired_client_def update_conv')
  moreover have "PlayerID tired_client = 10001" by (simp add: tired_client_def)
  moreover have "0 \<in> set (Name ?p)" "unat (pEquipedItemID ?p) < MaxInventorySize"
    by (simp_all add: sample_player_def MaxNameSize_def MaxInventorySize_def)
  moreover have "PA_PlayerID sample_step = 10000" by (simp add: sample_step_def)
  ultimately obtain c' where
    "handle_message [] (with_data GameNextPlayerTurn (enc_u32 10000)) tired_client = Inr c'"
    "cWorld c' = cWorld tired_client"
    "handle_message [] (with_data GamePlayerActionValidated (enc_PlayerAction sample_step)) c' = Inl AssertFailed"
    using second_turn_stops_watchers [of tired_client 10000 ?p sample_step "[]"] by auto
  then show ?thesis by blast
qed

section \<open>Registration\<close>

lemma ok_default_Player: "length ns = MaxNameSize \<Longrightarrow> ok_Player (default_Player\<lparr>Name := ns\<rparr>)"
  by (simp add: ok_Player_def default_Player_def ok_Inventory_def empty_Inventory_def list_all_iff
      default_ItemSlot_def default_Item_def ok_ItemSlot_def ok_Item_def ok_ItemType_def wf_Item_def)

text \<open>
  Property C30. Accepted by the server, a connected client posts one registration that the server reads
  back as a fresh player with the typed name; the 75 bytes that are copied reach past a shorter name,
  so what follows it in memory is sent along.
\<close>

theorem registration_sends_memory:
  assumes "m_connection c = Some k" and "IsConnected k" and "0 \<notin> set nm" and "length nm < MaxNameSize"
    and "MaxNameSize \<le> length (nm @ 0 # after)"
  shows "\<exists>m c' k'. handle_message (nm @ 0 # after) (new_message ClientAccepted) c = Inr c' \<and>
           m_connection c' = Some k' \<and> posted k' = posted k @ [T_send m] \<and>
           hid m = ClientRegisterOnServer \<and> length (body m) = 2016 \<and>
           c_string (Name (dec_Player (body m))) = nm \<and>
           drop (Suc (length nm)) (Name (dec_Player (body m))) = take (74 - length nm) after"
proof -
  let ?p = "default_Player\<lparr>Name := take MaxNameSize (nm @ 0 # after)\<rparr>"
  let ?m = "with_data ClientRegisterOnServer (enc_Player ?p)"
  have "length (take MaxNameSize (nm @ 0 # after)) = MaxNameSize" using assms(5) by simp
  from pod_Player [OF ok_default_Player [OF this]]
  have e: "length (enc_Player ?p) = 2016" "dec_Player (enc_Player ?p) = ?p" by auto
  have name: "take MaxNameSize (nm @ 0 # after) = nm @ 0 # take (74 - length nm) after"
    using assms(4) by (simp add: take_Cons' MaxNameSize_def)
  have "c_string (nm @ 0 # take (74 - length nm) after) = nm"
    using assms(3) unfolding c_string_def by (subst takeWhile_append2) auto
  moreover have "handle_message (nm @ 0 # after) (new_message ClientAccepted) c
      = Inr (client_send ?m (say ''Write your name: '' (say ''Server accepted client - you're in!'' c)))"
    using assms(5) by (simp add: handle_message_def msg_ids new_message_def on_ClientAccepted_def)
  moreover have "m_connection (client_send ?m (say ''Write your name: '' (say ''Server accepted client - you're in!'' c)))
      = Some (Send ?m k)" using assms(1,2) by (simp add: client_send_def)
  moreover have "posted (Send ?m k) = posted k @ [T_send ?m]" by (simp add: Send_def post_def)
  ultimately show ?thesis
    using e name by (intro exI [of _ ?m] exI conjI) simp_all
qed

theorem registration_sends_memory_witness:
  "\<exists>m c' k'. handle_message ([66, 111, 98] @ 0 # replicate 80 1) (new_message ClientAccepted)
       (sample_client\<lparr>m_connection := Some (new_connection OwnerClient True 0 [])\<rparr>) = Inr c' \<and>
     m_connection c' = Some k' \<and> posted k' = [T_send m] \<and>
     c_string (Name (dec_Player (body m))) = [66, 111, 98]"
  using registration_sends_memory [of "sample_client\<lparr>m_connection := Some (new_connection OwnerClient True 0 [])\<rparr>"
      "new_connection OwnerClient True 0 []" "[66, 111, 98]" "replicate 80 1"]
  by (auto simp: new_connection_def IsConnected_def MaxNameSize_def)

end
