(* ===== verification/ClientTypes.thy ===== *)
theory ClientTypes
  imports ClientProps
begin

text \<open>
  The types the client's state keeps: whatever messages arrive, its arrays have their declared sizes,
  its map of players one entry per key, and the key that was never remembered stays forgotten.
\<close>

section \<open>Typed worlds\<close>

definition typed_Player :: "Player \<Rightarrow> bool" where
  "typed_Player p \<longleftrightarrow> wf_Inventory (pInventory p) \<and> length (Name p) = MaxNameSize"

definition typed_world :: "GameWorld \<Rightarrow> bool" where
  "typed_world w \<longleftrightarrow> distinct (map fst (PlayersList w)) \<and> (\<forall>(k, p) \<in> set (PlayersList w). typed_Player p) \<and>
     (\<forall>e \<in> set (EnemyList w). wf_Inventory (einventory e)) \<and> length (MapTiles w) = Map_Width * Map_Height"

lemma set_alist_update: "set (AList.update k v al) \<subseteq> insert (k, v) (set al)"
  by (induction al) auto

lemma typed_player_at: "typed_world w \<Longrightarrow> players w k = Some p \<Longrightarrow> typed_Player p"
  by (auto simp: typed_world_def dest!: map_of_SomeD)

lemma typed_default_Player: "typed_Player default_Player"
  by (simp add: typed_Player_def default_Player_def wf_empty_Inventory)

lemma typed_update_player:
  "typed_world w \<Longrightarrow> typed_Player p \<Longrightarrow> typed_world (w\<lparr>PlayersList := AList.update k p (PlayersList w)\<rparr>)"
  using set_alist_update [of k p "PlayersList w"] by (auto simp: typed_world_def distinct_update)

lemma typed_delete_player:
  "typed_world w \<Longrightarrow> typed_world (w\<lparr>PlayersList := AList.delete k (PlayersList w)\<rparr>)"
  using distinct_delete [of "PlayersList w" k] by (auto simp: typed_world_def AList.delete_eq)

lemma typed_update_enemy:
  "typed_world w \<Longrightarrow> wf_Inventory (einventory e) \<Longrightarrow> typed_world (w\<lparr>EnemyList := (EnemyList w)[i := e]\<rparr>)"
  by (auto simp: typed_world_def dest: nth_mem_update)

lemma typed_kill [simp]:
  "typed_world (call_kill b i w) = typed_world w" "typed_world (w\<lparr>kill_calls := ks\<rparr>) = typed_world w"
  "typed_world (w\<lparr>KillCallback := b\<rparr>) = typed_world w"
  by (simp_all add: typed_world_def)

text \<open>A storage never loses its shape to an attack.\<close>

lemma typed_weapon_strike:
  assumes "wf_Inventory iv" and "weapon_strike iv eq = Inr (Some (iv', d))"
  shows "wf_Inventory iv'"
proof (cases "unat eq < MaxInventorySize")
  case True
  then show ?thesis using weapon_strike_total [OF assms(1) True] assms(2) by auto
next
  case False
  then show ?thesis using weapon_strike_bad_index [OF assms(1)] assms(2) by simp
qed

lemma typed_damage_player:
  assumes "typed_world w" and "damage_player d i w = Inr w'"
  shows "typed_world w'"
proof -
  have "typed_Player (fst (Player_TakeDamage d p))" if "typed_Player p" for p
    using that by (simp add: typed_Player_def Player_TakeDamage_def Let_def)
  then show ?thesis using assms typed_default_Player typed_player_at [OF assms(1)]
    by (auto simp: damage_player_def Let_def typed_update_player split: option.splits)
qed

lemma typed_damage_enemy:
  assumes "typed_world w" and "damage_enemy d i w = Inr w'"
  shows "typed_world w'"
proof -
  have "wf_Inventory (einventory (fst (Enemy_TakeDamage d (EnemyList w ! unat i))))"
    if "unat i < length (EnemyList w)"
    using that assms(1) by (simp add: typed_world_def Enemy_TakeDamage_def Let_def)
  then show ?thesis using assms
    by (auto simp: damage_enemy_def typed_update_enemy split: if_splits)
qed

lemma typed_damage_targets:
  "typed_world w \<Longrightarrow> damage_targets d t w = Inr w' \<Longrightarrow> typed_world w'"
  by (auto simp: damage_targets_def dest: res_fold_invariant [where I = typed_world, rotated -1]
      intro: typed_damage_player typed_damage_enemy)

lemma typed_attack_by_player:
  assumes "typed_world w" and "attack_by_player k a w = Inr w'"
  shows "typed_world w'"
proof -
  obtain p where p: "players w k = Some p"
    using assms(2) by (auto simp: attack_by_player_def split: option.splits)
  with typed_player_at assms(1) have tp: "typed_Player p" by blast
  from assms(2) p obtain r where r: "weapon_strike (pInventory p) (pEquipedItemID p) = Inr r"
    by (auto simp: attack_by_player_def Player_MakeAttack_def)
  show ?thesis
  proof (cases r)
    case None
    then show ?thesis using assms p r by (simp add: attack_by_player_def Player_MakeAttack_def)
  next
    case (Some x)
    obtain iv d where x: "x = (iv, d)" by fastforce
    have "wf_Inventory iv" using typed_weapon_strike tp r Some x by (auto simp: typed_Player_def)
    then have "typed_world (w\<lparr>PlayersList := AList.update k (p\<lparr>pInventory := iv\<rparr>) (PlayersList w)\<rparr>)"
      using assms(1) tp by (intro typed_update_player) (simp_all add: typed_Player_def)
    then show ?thesis using assms(2) p r Some x typed_damage_targets
      by (simp add: attack_by_player_def Player_MakeAttack_def)
  qed
qed

lemma typed_move_player: "typed_world w \<Longrightarrow> move_player k d w = Inr w' \<Longrightarrow> typed_world w'"
  using typed_player_at [of w k]
  by (auto simp: move_player_def typed_Player_def intro!: typed_update_player split: option.splits)

lemma typed_turns: "SetCurrentTurnActions n p = Inr p' \<Longrightarrow> typed_Player p' = typed_Player p"
  by (auto simp: SetCurrentTurnActions_def typed_Player_def split: if_splits)

lemma typed_spend: "typed_world w \<Longrightarrow> spend_turn_action k w = Inr w' \<Longrightarrow> typed_world w'"
  using typed_player_at [of w k]
  by (auto simp: spend_turn_action_def typed_turns intro!: typed_update_player split: option.splits)

lemma typed_MakeApprovedAction:
  assumes "typed_world w" and "MakeApprovedAction k a w = Inr w'"
  shows "typed_world w'"
proof -
  from assms(2) obtain v where
    v: "(case ActionType a of
             Move \<Rightarrow> res_bind (move_player k (action_vec (PA_ActionInfo a)) w) (attack_by_player k a)
           | Attack \<Rightarrow> attack_by_player k a w
           | _ \<Rightarrow> Inr w) = Inr v" "spend_turn_action k v = Inr w'"
    by (auto simp: MakeApprovedAction_def)
  have "typed_world v"
    using v(1) assms(1)
    by (cases "ActionType a") (auto dest: typed_move_player typed_attack_by_player)
  then show ?thesis using v(2) by (rule typed_spend)
qed

lemma typed_MakeEnemyAction:
  assumes "typed_world w" and "MakeEnemyAction i a w = Inr w'"
  shows "typed_world w'"
proof -
  have i: "i < length (EnemyList w)" using assms(2) by (simp add: MakeEnemyAction_def split: if_splits)
  define e where "e = EnemyList w ! i"
  have te: "wf_Inventory (einventory e)" using assms(1) i by (simp add: typed_world_def e_def)
  show ?thesis
  proof (cases "actionType a")
    case EnemyMove
    then show ?thesis using assms i te
      by (auto simp: MakeEnemyAction_def Let_def e_def intro!: typed_update_enemy)
  next
    case EnemyBaseAttack
    let ?t = "EnemyFindAttackTarget w e a"
    have at: "Enemy_MakeAttack i ?t w = Inr w'"
      using assms(2) EnemyBaseAttack i by (simp add: MakeEnemyAction_def Let_def e_def)
    then obtain r where r: "weapon_strike (einventory e) (eEquipedItemID e) = Inr r"
      using i by (auto simp: Enemy_MakeAttack_def Let_def e_def)
    show ?thesis
    proof (cases r)
      case None
      then show ?thesis using at r i assms(1) by (simp add: Enemy_MakeAttack_def Let_def e_def)
    next
      case (Some x)
      obtain iv d where x: "x = (iv, d)" by fastforce
      have "wf_Inventory iv" using typed_weapon_strike te r Some x by auto
      then have "typed_world (w\<lparr>EnemyList := (EnemyList w)[i := e\<lparr>einventory := iv\<rparr>]\<rparr>)"
        using assms(1) by (intro typed_update_enemy) simp_all
      then show ?thesis using at r i Some x typed_damage_targets
        by (simp add: Enemy_MakeAttack_def Let_def e_def)
    qed
  qed (use assms i in \<open>simp add: MakeEnemyAction_def Let_def\<close>)
qed

section \<open>Typed messages\<close>

lemma pop_data_bytes:
  assumes "pop_data dec n m = Inr (x, m')" and "length (body m) < 2 ^ 64" and "n < 2 ^ 32"
  shows "\<exists>bs. x = dec bs \<and> length bs = n"
proof -
  have n: "n < 2 ^ 64" using assms(3) by (rule less_trans) simp
  show ?thesis
  proof (cases "n \<le> length (body m)")
    case True
    then show ?thesis using assms(1) msg_pop_enough [OF True assms(2)] by (auto simp: pop_data_def)
  next
    case False
    then show ?thesis using assms(1) msg_pop_short [of m n] n by (simp add: pop_data_def)
  qed
qed

lemma pop_Player_typed:
  assumes "pop_data dec_Player 2016 m = Inr (p, m')" and "length (body m) < 2 ^ 64"
  shows "typed_Player p"
  using pop_data_bytes [OF assms] wf_dec_Player by (auto simp: typed_Player_def)

lemma typed_insert: "typed_world (cWorld c) \<Longrightarrow> typed_Player p \<Longrightarrow> typed_world (cWorld (insert_or_assign k p c))"
  by (simp add: typed_update_player)

text \<open>What every message handler keeps.\<close>

definition keeps_types :: "custom_client \<Rightarrow> custom_client \<Rightarrow> bool" where
  "keeps_types c c' \<longleftrightarrow> (typed_world (cWorld c) \<longrightarrow> typed_world (cWorld c')) \<and> old_key c' = old_key c"

lemma keeps_say [simp]: "keeps_types c (say t c') = keeps_types c c'"
  by (simp add: keeps_types_def)

lemma keeps_send [simp]: "keeps_types c (client_send m c') = keeps_types c c'"
  by (simp add: keeps_types_def)

lemma keeps_refl [simp]: "keeps_types c c"
  by (simp add: keeps_types_def)

lemma keeps_insert: "typed_Player p \<Longrightarrow> keeps_types c c' \<Longrightarrow> keeps_types c (insert_or_assign k p c')"
  using typed_insert by (simp add: keeps_types_def del: insert_or_assign_simps(1))

lemma keeps_world_action:
  assumes "world_action f c = Inr c'" and "\<And>w w'. typed_world w \<Longrightarrow> f w = Inr w' \<Longrightarrow> typed_world w'"
  shows "keeps_types c c'"
  using assms(1) assms(2) [of "(cWorld c)\<lparr>kill_calls := []\<rparr>"]
  by (auto simp: keeps_types_def world_action_def)

lemma on_player_messages_keep:
  assumes "length (body m) < 2 ^ 64"
  shows "on_ClientRegisterFromServer m c = Inr c' \<Longrightarrow> keeps_types c c'"
    and "on_ClientAddPlayer m c = Inr c' \<Longrightarrow> keeps_types c c'"
    and "on_GameUpdatePlayer m c = Inr c' \<Longrightarrow> keeps_types c c'"
  using pop_Player_typed [OF _ assms]
  by (auto simp: on_ClientRegisterFromServer_def on_ClientAddPlayer_def on_GameUpdatePlayer_def
      intro!: keeps_insert) (simp add: keeps_types_def)

lemma on_ClientUpdateMap_keeps:
  assumes "length (body m) < 2 ^ 64" and "on_ClientUpdateMap m c = Inr c'"
  shows "keeps_types c c'"
  using assms(2) pop_data_bytes [OF _ assms(1), of "\<lambda>m. m" 1600]
  by (auto simp: on_ClientUpdateMap_def keeps_types_def typed_world_def Map_Width_def Map_Height_def)

lemma on_ClientInitEnemy_keeps:
  assumes "length (body m) < 2 ^ 64" and "on_ClientInitEnemy m c = Inr c'"
  shows "keeps_types c c'"
proof -
  have "wf_Inventory (einventory (dec_Enemy bs))" if "length bs = 1948" for bs
    using that by (simp add: dec_Enemy_def wf_dec_Inventory length_slice)
  then show ?thesis using assms(2) pop_data_bytes [OF _ assms(1), of dec_Enemy 1948]
    by (auto simp: on_ClientInitEnemy_def keeps_types_def typed_world_def)
qed

lemma on_GameRemovePlayer_keeps: "on_GameRemovePlayer m c = Inr c' \<Longrightarrow> keeps_types c c'"
  using typed_delete_player by (auto simp: on_GameRemovePlayer_def keeps_types_def)

lemma on_GamePlayerTurn_keeps:
  assumes "on_GamePlayerTurn c = Inr c'"
  shows "keeps_types c c'"
proof -
  define p where "p = (case players (cWorld c) (PlayerID c) of Some p \<Rightarrow> p | None \<Rightarrow> default_Player)"
  obtain p' where p': "SetCurrentTurnActions (ucast (GetMaxTurnActions p)) p = Inr p'"
      "c' = say (client_message ''Your TURN!'') (insert_or_assign (PlayerID c) p' c)"
    using assms by (auto simp: on_GamePlayerTurn_def Let_def p_def)
  have "typed_world (cWorld c) \<Longrightarrow> typed_Player p'"
    unfolding typed_turns [OF p'(1)] p_def using typed_player_at typed_default_Player
    by (auto split: option.split)
  then show ?thesis unfolding p'(2) by (auto simp: keeps_types_def typed_update_player)
qed

lemma on_texts_keep:
  "on_GameNextPlayerTurn m c = Inr c' \<Longrightarrow> keeps_types c c'"
  "on_ActionAborted m c = Inr c' \<Longrightarrow> keeps_types c c'"
  "on_ServerPing m c = Inr c' \<Longrightarrow> keeps_types c c'"
  "on_ServerMessage m c = Inr c' \<Longrightarrow> keeps_types c c'"
  "on_ClientAccepted nm c = Inr c' \<Longrightarrow> keeps_types c c'"
  by (auto simp: on_GameNextPlayerTurn_def on_ActionAborted_def on_ServerPing_def on_ServerMessage_def
      on_ClientAccepted_def Let_def split: if_splits option.splits)

lemma on_actions_keep:
  "on_ActionValidated m c = Inr c' \<Longrightarrow> keeps_types c c'"
  "on_GameAITurnAction m c = Inr c' \<Longrightarrow> keeps_types c c'"
  using keeps_world_action [OF _ typed_MakeApprovedAction] keeps_world_action [OF _ typed_MakeEnemyAction]
  by (fastforce simp: on_ActionValidated_def on_GameAITurnAction_def Let_def show_text_def keeps_types_def
      split: if_splits option.splits)+

lemmas handlers_keep = on_ClientUpdateMap_keeps on_ClientInitEnemy_keeps on_player_messages_keep

lemma handle_message_keeps:
  assumes "length (body m) < 2 ^ 64" and "handle_message nm m c = Inr c'"
  shows "keeps_types c c'"
  using assms(2) unfolding handle_message_def
  by (simp only: split: if_split_asm)
    (erule handlers_keep [OF assms(1)] on_GameRemovePlayer_keeps on_GamePlayerTurn_keeps on_texts_keep
      on_actions_keep | clarsimp)+

section \<open>The keys\<close>

text \<open>What handling the keys leaves alone.\<close>

definition keys_frame :: "custom_client \<Rightarrow> custom_client \<Rightarrow> bool" where
  "keys_frame c c' \<longleftrightarrow> cWorld c' = cWorld c \<and> old_key c' = old_key c \<and>
     (m_connection c = None \<longrightarrow> m_connection c' = None) \<and> (m_connection c' = None \<or> c_qIn c' = c_qIn c)"

lemma keys_frame_refl [simp]: "keys_frame c c"
  by (simp add: keys_frame_def)

lemma keys_frame_trans: "keys_frame a b \<Longrightarrow> keys_frame b c \<Longrightarrow> keys_frame a c"
  by (auto simp: keys_frame_def)

lemma keys_frame_say [simp]:
  "keys_frame c (say t c') = keys_frame c c'" "keys_frame (say t c) c' = keys_frame c c'"
  by (simp_all add: keys_frame_def)

lemma keys_frame_send [simp]: "keys_frame c (client_send m c') = keys_frame c c'"
proof -
  have "m_connection (client_send m c') = None \<longleftrightarrow> m_connection c' = None"
    by (simp add: client_send_def split: option.split)
  then show ?thesis by (simp add: keys_frame_def)
qed

lemma client_disconnect_frame: "client_disconnect evs c = Inr c' \<Longrightarrow> keys_frame c c'"
  by (auto simp: client_disconnect_def keys_frame_def split: option.splits)

lemma show_frames:
  "show_text t c = Inr c' \<Longrightarrow> keys_frame c c'" "client_ShowPlayers c = Inr c' \<Longrightarrow> keys_frame c c'"
  "client_ShowMap c = Inr c' \<Longrightarrow> keys_frame c c'" "client_ShowInventory c = Inr c' \<Longrightarrow> keys_frame c c'"
  by (auto simp: show_text_def client_ShowPlayers_def client_ShowMap_def client_ShowInventory_def
      split: option.splits)

lemma move_request_frame: "move_request info c = Inr c' \<Longrightarrow> keys_frame c c'"
  by (auto simp: move_request_def MakeActionApprove_def)

lemma ParseCommand_frame: "ParseCommand cmd c = Inr c' \<Longrightarrow> keys_frame c c'"
  by (auto simp: ParseCommand_def dest!: show_frames split: if_split_asm)

lemma handle_keys_frame:
  assumes "handle_keys inp c = Inr c'"
  shows "keys_frame c c'"
proof -
  let ?quiet = "\<lambda>f :: custom_client \<Rightarrow> custom_client res. \<forall>c c'. f c = Inr c' \<longrightarrow> keys_frame c c'"
  have quiet: "list_all (\<lambda>(i, f). ?quiet f) fs \<Longrightarrow> res_fold (\<lambda>(i, f). on_key i f) fs c = Inr c' \<Longrightarrow> keys_frame c c'"
    for fs :: "(nat \<times> (custom_client \<Rightarrow> custom_client res)) list" and c c'
  proof (induction fs arbitrary: c)
    case (Cons x fs)
    obtain i f where x: "x = (i, f)" by fastforce
    from Cons.prems(2) x obtain d where d: "on_key i f c = Inr d" "res_fold (\<lambda>(i, f). on_key i f) fs d = Inr c'"
      by auto
    have "keys_frame c d" using d(1) Cons.prems(1) x by (auto simp: on_key_def split: if_splits)
    with Cons.IH [OF _ d(2)] Cons.prems(1) show ?case by (auto intro: keys_frame_trans)
  qed simp
  have "?quiet (\<lambda>c. Inr (say (client_message t) (PingServer b c)))" for t b by (simp add: PingServer_def)
  moreover have "?quiet (\<lambda>c. Inr (say (client_message t) (ClientMessageAll c)))" for t
    by (simp add: ClientMessageAll_def)
  moreover have "?quiet (\<lambda>c. res_bind (client_disconnect evs c) (\<lambda>c. Inr (say t c)))" for evs t
    using client_disconnect_frame by auto
  moreover have "?quiet (\<lambda>c. client_ShowInventory (say t c))" "?quiet (\<lambda>c. client_ShowPlayers (say t c))"
    "?quiet (\<lambda>c. client_ShowMap (say t c))" for t
    by (auto dest!: show_frames)
  moreover have "?quiet (ParseCommand cmd)" "?quiet (move_request info)" for cmd info
    using ParseCommand_frame move_request_frame by blast+
  ultimately show ?thesis by (intro quiet [OF _ assms [unfolded handle_keys_def]]) simp
qed

lemma read_keys_simps [simp]:
  "cWorld (read_keys inp c) = cWorld c" "old_key (read_keys inp c) = old_key c"
  "c_qIn (read_keys inp c) = c_qIn c" "m_connection (read_keys inp c) = m_connection c"
  by (simp_all add: read_keys_def)

lemma old_key_10: "fold (\<lambda>i ks. ks[i := f i]) [0..<10] ks ! 10 = ks ! 10"
  by (simp add: upt_conv_Cons)

lemma remember_keys_simps [simp]:
  "cWorld (remember_keys c) = cWorld c" "c_qIn (remember_keys c) = c_qIn c"
  "m_connection (remember_keys c) = m_connection c" "old_key (remember_keys c) ! 10 = old_key c ! 10"
  by (simp_all add: remember_keys_def old_key_10)

text \<open>
  Property C7. Whatever the keys and the messages of an update are, when the update returns, the
  client's copy of the game still has its types: one player per key, names of 75 bytes, storages of 20
  slots and 1600 tiles. And the map key is never remembered: held down, it prints the map in every
  update.
\<close>

theorem update_keeps_types:
  assumes "UpdatePlayer inp c = Inr c'" and "typed_world (cWorld c)"
    and "\<forall>(r, m) \<in> set (c_qIn c). length (body m) < 2 ^ 64"
  shows "typed_world (cWorld c') \<and> old_key c' ! 10 = old_key c ! 10"
proof (cases "client_connected c")
  case True
  then obtain d where d: "handle_keys inp (read_keys inp c) = Inr d"
    and rest: "(if client_connected (remember_keys d)
       then take_message inp (client_send (new_message ClientJustCheck) (remember_keys d))
       else Inr (remember_keys d)) = Inr c'"
    using assms(1) by (auto simp: UpdatePlayer_def Let_def)
  from handle_keys_frame [OF d] have f: "cWorld d = cWorld c" "old_key d = old_key c"
    "m_connection d = None \<or> c_qIn d = c_qIn c" by (simp_all add: keys_frame_def)
  let ?e = "client_send (new_message ClientJustCheck) (remember_keys d)"
  show ?thesis
  proof (cases "client_connected (remember_keys d)")
    case False
    then show ?thesis using rest f assms(2) by auto
  next
    case True
    then have q: "c_qIn ?e = c_qIn c" using f(3) by (auto simp: client_connected_def)
    have take: "take_message inp ?e = Inr c'" using rest True by simp
    show ?thesis
    proof (cases "c_qIn c")
      case Nil
      then show ?thesis using take q f assms(2) by (auto simp: take_message_def q_empty_def)
    next
      case (Cons om oms)
      then have "handle_message (typed inp) (snd om) (?e\<lparr>c_qIn := oms\<rparr>) = Inr c'"
        using take q by (simp add: take_message_def q_empty_def q_pop_front_def)
      moreover have "length (body (snd om)) < 2 ^ 64" using assms(3) Cons by (auto split: prod.splits)
      ultimately have "keeps_types (?e\<lparr>c_qIn := oms\<rparr>) c'" by (metis handle_message_keeps)
      then show ?thesis using f assms(2) by (simp add: keeps_types_def)
    qed
  qed
next
  case False
  then show ?thesis using assms(1,2) by (simp add: UpdatePlayer_def)
qed

definition told_client :: custom_client where
  "told_client = sample_client\<lparr>m_connection := Some (new_connection OwnerClient True 0 []),
     c_qIn := [(None, with_data GameRemovePlayer (enc_u32 10000))]\<rparr>"

definition no_keys :: client_input where
  "no_keys = \<lparr>focused = True, down = replicate 11 False, typed = [], command = [], clock = [], context_events = []\<rparr>"

theorem update_keeps_types_witness:
  "\<exists>c'. UpdatePlayer no_keys told_client = Inr c' \<and> players (cWorld c') 10000 = None \<and> typed_world (cWorld c')"
proof -
  have t: "typed_world (cWorld told_client)"
    using wf_sample_world by (auto simp: wf_world_def typed_world_def wf_Player_def wf_Enemy_def
        typed_Player_def list_all_iff told_client_def)
  have con: "client_connected told_client" "client_connected (remember_keys (read_keys no_keys told_client))"
    by (simp_all add: told_client_def client_connected_def new_connection_def IsConnected_def)
  have k: "handle_keys no_keys (read_keys no_keys told_client) = Inr (read_keys no_keys told_client)"
    by (simp add: handle_keys_def on_key_def pressed_def read_keys_def no_keys_def)
  let ?m = "with_data GameRemovePlayer (enc_u32 10000)"
  have "pop_data dec_u32 4 ?m = Inr (10000, new_message GameRemovePlayer)"
    using pop_data_single [of "enc_u32 10000" 4 dec_u32 GameRemovePlayer] u32_pod.dec_enc by simp
  then have m: "\<exists>c'. handle_message [] ?m c = Inr c' \<and> players (cWorld c') 10000 = None" for c
    by (simp add: handle_message_def msg_ids on_GameRemovePlayer_def delete_conv')
  have q: "c_qIn (client_send (new_message ClientJustCheck) (remember_keys (read_keys no_keys told_client))) = [(None, ?m)]"
    by (simp add: told_client_def)
  obtain c' where c': "UpdatePlayer no_keys told_client = Inr c'" "players (cWorld c') 10000 = None"
    using m con k q by (auto simp: UpdatePlayer_def take_message_def q_empty_def q_pop_front_def no_keys_def)
  have "\<forall>(r, m) \<in> set (c_qIn told_client). length (body m) < 2 ^ 64" by (simp add: told_client_def)
  from update_keeps_types [OF c'(1) t this] c' show ?thesis by blast
qed

end
