(* ===== verification/Together.thy ===== *)
theory Together
  imports ServerLife ClientTypes
begin

text \<open>
  Server, wire and client together: a client that registers ends up with the server's world, the
  others hear of it, and an approved action travels through the connections into every copy.
\<close>

section \<open>Registration\<close>

lemma handle_welcome:
  "handle_message name (with_data ClientRegisterFromServer bs) c
     = on_ClientRegisterFromServer (with_data ClientRegisterFromServer bs) c"
  "handle_message name (with_data ClientUpdateMap bs) c = on_ClientUpdateMap (with_data ClientUpdateMap bs) c"
  "handle_message name (with_data ClientInitEnemy bs) c = on_ClientInitEnemy (with_data ClientInitEnemy bs) c"
  "handle_message name (with_data ClientAddPlayer bs) c = on_ClientAddPlayer (with_data ClientAddPlayer bs) c"
  by (simp_all add: handle_message_def msg_ids)

lemma pop_player:
  "ok_Player p \<Longrightarrow> pop_data dec_Player 2016 (with_data i (enc_Player p)) = Inr (p, new_message i)"
  using pod_Player [of p] pop_data_single [of "enc_Player p" 2016 dec_Player i] by simp

lemma pop_enemy:
  "ok_Enemy e \<Longrightarrow> pop_data dec_Enemy 1948 (with_data i (enc_Enemy e)) = Inr (e, new_message i)"
  using pod_Enemy [of e] pop_data_single [of "enc_Enemy e" 1948 dec_Enemy i] by simp

lemma client_adds_player:
  "ok_Player p \<Longrightarrow>
     handle_message name (with_data ClientAddPlayer (enc_Player p)) c = Inr (insert_or_assign (pID p) p c)"
  by (simp add: handle_welcome on_ClientAddPlayer_def pop_player)

lemma client_adds_enemies:
  assumes "\<forall>e \<in> set es. ok_Enemy e"
  shows "res_fold (handle_message name) (map (\<lambda>e. with_data ClientInitEnemy (enc_Enemy e)) es) c
           = Inr (c\<lparr>cWorld := (cWorld c)\<lparr>EnemyList := EnemyList (cWorld c) @ es\<rparr>\<rparr>)"
  using assms by (induction es arbitrary: c) (simp_all add: handle_welcome on_ClientInitEnemy_def pop_enemy)

lemma players_assigned: "players (cWorld (insert_or_assign k p c)) = (players (cWorld c))(k \<mapsto> p)"
  by (simp add: fun_eq_iff update_conv')

text \<open>The players of the copy after the messages about the players of a list.\<close>

lemma client_adds_players:
  assumes "\<forall>(k, q) \<in> set ps. ok_Player q \<and> pID q = k" and "distinct (map fst ps)"
  shows "\<exists>c'. res_fold (handle_message name) (map (\<lambda>(k, q). with_data ClientAddPlayer (enc_Player q)) ps) c = Inr c' \<and>
           players (cWorld c') = players (cWorld c) ++ map_of ps \<and> EnemyList (cWorld c') = EnemyList (cWorld c) \<and>
           MapTiles (cWorld c') = MapTiles (cWorld c) \<and> PlayerID c' = PlayerID c \<and>
           (distinct (map fst (c_players c)) \<longrightarrow> distinct (map fst (c_players c')))"
  using assms
proof (induction ps arbitrary: c)
  case (Cons kq ps)
  obtain k q where kq: "kq = (k, q)" by (cases kq)
  then have q: "ok_Player q" "pID q = k" "k \<notin> dom (map_of ps)"
    using Cons.prems by (auto simp: dom_map_of_conv_image_fst)
  have w: "EnemyList (cWorld (insert_or_assign k q c)) = EnemyList (cWorld c)"
    "MapTiles (cWorld (insert_or_assign k q c)) = MapTiles (cWorld c)" "PlayerID (insert_or_assign k q c) = PlayerID c"
    by simp_all
  have keys: "distinct (map fst (c_players c)) \<longrightarrow> distinct (map fst (c_players (insert_or_assign k q c)))"
    by (simp add: distinct_update)
  have "\<forall>(k, q) \<in> set ps. ok_Player q \<and> pID q = k" "distinct (map fst ps)" using Cons.prems kq by auto
  from Cons.IH [OF this, of "insert_or_assign k q c"] obtain c' where
    "res_fold (handle_message name) (map (\<lambda>(k, q). with_data ClientAddPlayer (enc_Player q)) ps)
       (insert_or_assign k q c) = Inr c'"
    "players (cWorld c') = (players (cWorld c))(k \<mapsto> q) ++ map_of ps"
    "EnemyList (cWorld c') = EnemyList (cWorld c)" "MapTiles (cWorld c') = MapTiles (cWorld c)"
    "PlayerID c' = PlayerID c" "distinct (map fst (c_players c)) \<longrightarrow> distinct (map fst (c_players c'))"
    unfolding players_assigned w using keys by blast
  moreover have "(players (cWorld c))(k \<mapsto> q) ++ map_of ps = players (cWorld c) ++ map_of (kq # ps)"
    by (simp only: kq map_of.simps fst_conv snd_conv map_add_upd map_add_upd_left [OF q(3)])
  ultimately show ?case using kq q(1,2)
    by (simp add: client_adds_player del: map_of.simps map_add_upd)
qed simp

lemma others_and_self:
  assumes "\<forall>(k, q) \<in> set ps. pID q = k" and "map_of ps i = Some p"
  shows "[i \<mapsto> p] ++ map_of (filter (\<lambda>(k, q). pID q \<noteq> i) ps) = map_of ps"
proof -
  have "map_of (filter (\<lambda>(k, q). pID q \<noteq> i) ps) = (map_of ps)(i := None)"
    using assms(1) by (induction ps) (auto simp: fun_eq_iff)
  then show ?thesis using assms(2) by (auto simp: map_add_def fun_eq_iff split: option.split)
qed

text \<open>The client that gets the server's messages with an empty copy of the world.\<close>

lemma client_is_welcomed:
  assumes "wf_world w" and "players w (pID p) = Some p" and "0 \<in> set (Name p)"
    and "\<forall>(k, q) \<in> set (PlayersList w). ok_Player q" and "\<forall>e \<in> set (EnemyList w). ok_Enemy e"
    and "PlayersList (cWorld c) = []" and "EnemyList (cWorld c) = []"
  shows "\<exists>c'. res_fold (handle_message name) (greeting w p @ introductions w p) c = Inr c' \<and>
           agree w (cWorld c') \<and> wf_world (cWorld c') \<and> MapTiles (cWorld c') = MapTiles w \<and> PlayerID c' = pID p"
proof -
  let ?i = "pID p" and ?ps = "PlayersList w"
  have keys: "distinct (map fst ?ps)" and ids: "\<forall>(k, q) \<in> set ?ps. pID q = k"
    using assms(1) wf_world_ids by (auto simp: wf_world_def)
  have p: "ok_Player p" using assms(2,4) by (auto dest: map_of_SomeD)
  obtain t where "text_of (Name p) = Inr t" using assms(3) by (simp add: text_of_def)
  then obtain c1 where c1: "handle_message name (with_data ClientRegisterFromServer (enc_Player p)) c = Inr c1"
    "cWorld c1 = (cWorld c)\<lparr>PlayersList := [(?i, p)]\<rparr>" "PlayerID c1 = ?i"
    using p assms(6) by (simp add: handle_welcome on_ClientRegisterFromServer_def pop_player)
  have tiles: "length (MapTiles w) = 1600" using assms(1) by (simp add: wf_world_def Map_Width_def Map_Height_def)
  define c2 where "c2 = c1\<lparr>cWorld := (cWorld c1)\<lparr>MapTiles := MapTiles w\<rparr>\<rparr>"
  have c2: "handle_message name (with_data ClientUpdateMap (MapTiles w)) c1 = Inr c2"
    using pop_data_single [of "MapTiles w" 1600 "\<lambda>m. m" ClientUpdateMap] tiles
    by (simp add: handle_welcome on_ClientUpdateMap_def c2_def)
  define c3 where "c3 = c2\<lparr>cWorld := (cWorld c2)\<lparr>EnemyList := EnemyList w\<rparr>\<rparr>"
  have c3: "res_fold (handle_message name) (greeting w p) c = Inr c3"
    using client_adds_enemies [OF assms(5), of name c2] assms(7) c1 c2
    by (simp add: greeting_def c3_def) (simp add: c2_def)
  have sub: "\<forall>(k, q) \<in> set (filter (\<lambda>(k, q). pID q \<noteq> ?i) ?ps). ok_Player q \<and> pID q = k"
    using assms(4) ids by auto
  have "distinct (map fst (filter (\<lambda>(k, q). pID q \<noteq> ?i) ?ps))" using keys by (rule distinct_map_filter)
  from client_adds_players [OF sub this, of name c3] obtain c4 where
    c4: "res_fold (handle_message name) (introductions w p) c3 = Inr c4"
      "players (cWorld c4) = [?i \<mapsto> p] ++ map_of (filter (\<lambda>(k, q). pID q \<noteq> ?i) ?ps)"
      "EnemyList (cWorld c4) = EnemyList w" "MapTiles (cWorld c4) = MapTiles w" "PlayerID c4 = ?i"
      "distinct (map fst (c_players c4))"
    using c1 by (auto simp: introductions_def c3_def c2_def)
  have same: "players (cWorld c4) = players w" using c4(2) others_and_self [OF ids assms(2)] by simp
  then have "wf_world (cWorld c4)" using assms(1) c4 by (simp add: wf_world_def)
  then show ?thesis using c3 c4 same by (auto simp: res_fold_append agree_def)
qed

text \<open>
  Property C9. Registering spreads: the messages the new client is posted turn its empty copy into the
  server's new world, well-formed, with the same map and under the id of its connection; every other client is posted
  one message, which turns a copy that agreed with the old world into one that agrees with the new one.
\<close>

theorem registration_spreads:
  assumes "GarbageIDs s = []" and "all_live s" and "distinct (m_deqConnection s)"
    and "Some r \<in> set (m_deqConnection s)" and "wf_world (gameWorld s)"
    and "hid msg = ClientRegisterOnServer" and "length (body msg) = 2016" and "CurrentPlayerID s \<noteq> 0"
    and ok: "\<forall>(k, q) \<in> set (s_players s). ok_Player q" "\<forall>e \<in> set (EnemyList (gameWorld s)). ok_Enemy e"
    and "0 \<in> set (Name (dec_Player (body msg)))"
    and c: "PlayersList (cWorld c) = []" "EnemyList (cWorld c) = []"
  shows "\<exists>s' ms m c'. OnMessage F n (Some r) msg s = Inr s' \<and>
           posted (heap s' r) = posted (heap s r) @ map T_send ms \<and>
           res_fold (handle_message name) ms c = Inr c' \<and> agree (gameWorld s') (cWorld c') \<and> wf_world (cWorld c') \<and>
           MapTiles (cWorld c') = MapTiles (gameWorld s') \<and> PlayerID c' = GetID s r \<and>
           (\<forall>r'. r' \<noteq> r \<longrightarrow> Some r' \<in> set (m_deqConnection s) \<longrightarrow>
              posted (heap s' r') = posted (heap s r') @ [T_send m]) \<and>
           (\<forall>v. agree (gameWorld s) (cWorld v) \<longrightarrow>
              (\<exists>v'. handle_message name m v = Inr v' \<and> agree (gameWorld s') (cWorld v')))"
proof -
  have "connected s r" using assms(2,4) by (auto simp: all_live_def)
  from registration_run [OF assms(1,2) this assms(5-8), of F n] obtain p s2 rank where
    run: "OnMessage F n (Some r) msg s = Inr (welcomed r p s2)" and
    p: "registered (GetID s r) (dec_Player (body msg)) p" "ok_Player p" and
    w: "wf_world (gameWorld s2)"
      "gameWorld s2 = (gameWorld s)\<lparr>PlayersList := insert_player rank (GetID s r) p (s_players s)\<rparr>" and
    same: "m_deqConnection s2 = m_deqConnection s" "heap s2 = heap s" by blast
  have id: "pID p = GetID s r" "0 \<in> set (Name p)" using p(1) assms(11) by (simp_all add: registered_def)
  have here: "players (gameWorld s2) (pID p) = Some p" by (simp add: w(2) id(1))
  have oks: "\<forall>(k, q) \<in> set (s_players s2). ok_Player q" "\<forall>e \<in> set (EnemyList (gameWorld s2)). ok_Enemy e"
    using ok p(2) set_alist_update [of "GetID s r" p "s_players s"] by (auto simp: w(2))
  let ?ms = "greeting (gameWorld s2) p @ introductions (gameWorld s2) p"
  let ?m = "with_data ClientAddPlayer (enc_Player p)"
  from client_is_welcomed [OF w(1) here id(2) oks c, of name] obtain c' where
    c': "res_fold (handle_message name) ?ms c = Inr c'" "agree (gameWorld s2) (cWorld c')" "wf_world (cWorld c')"
      "MapTiles (cWorld c') = MapTiles (gameWorld s2)" "PlayerID c' = pID p" by blast
  have full: "\<forall>c \<in> set (m_deqConnection s). c \<noteq> None" using assms(2) by (auto simp: all_live_def)
  note sent = posted_send_all [OF assms(3) full, of ?m "Some r"]
  have "posted (heap (welcomed r p s2) r) = posted (heap s r) @ map T_send ?ms"
    by (simp add: welcomed_def same sent posted_send_each)
  moreover have "posted (heap (welcomed r p s2) r') = posted (heap s r') @ [T_send ?m]"
    if "r' \<noteq> r" "Some r' \<in> set (m_deqConnection s)" for r'
    using that by (simp add: welcomed_def same sent posted_send_each)
  moreover have "handle_message name ?m v = Inr (insert_or_assign (pID p) p v) \<and>
      agree (gameWorld s2) (cWorld (insert_or_assign (pID p) p v))"
    if "agree (gameWorld s) (cWorld v)" for v
    using agree_update_player [OF that, of "GetID s r" p] p(2)
    by (simp add: client_adds_player w(2) id(1) agree_def update_conv')
  ultimately show ?thesis using run c' id(1) by (metis welcomed_game(1))
qed

lemma ok_sample_world:
  "\<forall>(k, q) \<in> set (PlayersList sample_world). ok_Player q" "\<forall>e \<in> set (EnemyList sample_world). ok_Enemy e"
proof -
  have "ok_Inventory (inventory_with [table_slot 5 1])" "ok_Inventory (inventory_with [table_slot 1 1, table_slot 3 50])"
    by (rule ok_inventory_with; simp add: MaxInventorySize_def ok_table_slot ItemTable_def)+
  then show "\<forall>(k, q) \<in> set (PlayersList sample_world). ok_Player q" "\<forall>e \<in> set (EnemyList sample_world). ok_Enemy e"
    by (simp_all add: sample_world_def ok_sample_player ok_Enemy_def EnemiesTable_def)
qed

theorem registration_spreads_witness:
  "\<exists>s' ms c'. OnMessage 4 1 (Some 1) (with_data ClientRegisterOnServer (enc_Player (sample_player 7 vec3_zero)))
       sample_server = Inr s' \<and> res_fold (handle_message []) ms (CustomClient []) = Inr c' \<and>
     agree (gameWorld s') (cWorld c') \<and> PlayerID c' = 10001"
proof -
  let ?m = "with_data ClientRegisterOnServer (enc_Player (sample_player 7 vec3_zero))"
  have "0 \<in> set (Name (sample_player 7 vec3_zero))" by (simp add: sample_player_def MaxNameSize_def)
  then show ?thesis
    using registration_spreads [of sample_server 1 ?m "CustomClient []" 4 1 "[]"] ok_sample_world
      pod_Player [OF ok_sample_player, of 7 vec3_zero]
    by (simp add: CustomClient_def) blast
qed

section \<open>An action on its way\<close>

text \<open>The bytes a connection has handed to its socket.\<close>

definition written :: "connection \<Rightarrow> bytes" where
  "written k = concat (map snd (wire k))"

definition idle :: "connection \<Rightarrow> bool" where
  "idle k \<longleftrightarrow> posted k = [] \<and> m_qMessagesOut k = [] \<and> writes k = []"

lemma send_all_idle:
  "m_qMessagesOut (heap (send_all m ig cs s) r) = m_qMessagesOut (heap s r)"
  "writes (heap (send_all m ig cs s) r) = writes (heap s r)" "wire (heap (send_all m ig cs s) r) = wire (heap s r)"
  by (induction cs arbitrary: s) (simp_all add: send_all_def send_to_def Send_def post_def)

lemma message_is_written:
  assumes "idle k" and "body m \<noteq> []" and "posted k' = [T_send m]"
    and "m_qMessagesOut k' = m_qMessagesOut k" and "writes k' = writes k" and "wire k' = wire k"
  shows "\<exists>k''. steps v [E_task, E_write 0 True, E_write 0 True] k' = Inr k'' \<and> written k'' = written k @ frame m"
  using assms
  by (simp add: steps_def step_def run_task_def run_send_def conn_defs q_defs idle_def Let_def write_bytes_def
      on_written_defs remove_nth_def next_message_def written_def frame_def)

lemma message_is_read:
  assumes "m_connection c = Some k" and "m_nOwnerType k = OwnerClient" and "reads k = [R_header]"
    and "wf_message m" and "body m \<noteq> []"
  shows "\<exists>k'. res_fold context_event [E_read 0 (Some (take 8 (frame m))), E_read 0 (Some (drop 8 (frame m)))] c
           = Inr (c\<lparr>m_connection := Some k', c_qIn := c_qIn c @ [(None, m)]\<rparr>)"
proof -
  have h: "take 8 (frame m) = header_bytes m" "drop 8 (frame m) = body m"
    by (simp_all add: frame_def header_bytes_def)
  have sz: "0 < hsize m" using assms(4,5)
    by (auto simp: wf_message_def word_neq_0_conv [symmetric] word_of_nat_eq_0_iff dest: nat_dvd_not_less)
  have same: "t\<lparr>hid := hid m, hsize := hsize m, body := body m\<rparr> = m" for t :: message
    by (rule message.equality) simp_all
  show ?thesis unfolding h using assms(1-3) sz
    by (simp add: context_event_def step_def remove_nth_def on_read_defs enc_dec_header conn_defs q_defs Let_def same)
      (rule exI, rule refl)
qed

text \<open>
  Property C8. An approved action that is not the last of the player's turn reaches the copies: once a
  client's connection, which had nothing else to send, has written what the server posted to it and the
  client's connection has read those bytes, the client's next message makes its copy agree with the
  server's new world.
\<close>

theorem action_reaches_copies:
  assumes "GarbageIDs s = []" and "all_live s" and "hid msg = ServerGamePlayerActionApprove"
    and "length (body msg) = 16" and "GetID s r = CurrentPlayerID s"
    and p: "map_of (s_players s) (GetID s r) = Some p" and "wf_world (gameWorld s)"
    and "unat (pEquipedItemID p) < MaxInventorySize" and "CurrentTurns p \<notin> {0, 1}"
    and "CheckPlayerAction (dec_PlayerAction (body msg)) s = Inr True"
    and c: "wf_world (cWorld c)" "agree (gameWorld s) (cWorld c)" and "0 \<in> set (Name p)"
    and deq: "distinct (m_deqConnection s)" "Some r' \<in> set (m_deqConnection s)" and "idle (heap s r')"
    and k: "m_connection c = Some k" "m_nOwnerType k = OwnerClient" "reads k = [R_header]" "c_qIn c = []"
  shows "\<exists>s' k' bs c1 c2. OnMessage F n (Some r) msg s = Inr s' \<and>
           steps v [E_task, E_write 0 True, E_write 0 True] (heap s' r') = Inr k' \<and>
           written k' = written (heap s r') @ bs \<and>
           res_fold context_event [E_read 0 (Some (take 8 bs)), E_read 0 (Some (drop 8 bs))] c = Inr c1 \<and>
           take_message inp c1 = Inr c2 \<and> agree (gameWorld s') (cWorld c2)"
proof -
  let ?a = "dec_PlayerAction (body msg)\<lparr>PA_PlayerID := GetID s r\<rparr>"
  let ?m = "with_data GamePlayerActionValidated (enc_PlayerAction ?a)"
  from approved_action_run [OF assms(1-10), of F n] obtain w' where
    w': "MakeApprovedAction (GetID s r) (dec_PlayerAction (body msg)) (gameWorld s) = Inr w'"
      "OnMessage F n (Some r) msg s = Inr (send_all ?m None (m_deqConnection s) (s\<lparr>gameWorld := w'\<rparr>))" by blast
  let ?s = "send_all ?m None (m_deqConnection s) (s\<lparr>gameWorld := w'\<rparr>)"
  have len: "length (enc_PlayerAction ?a) = 16"
    using ok_dec_PlayerAction [of "body msg"] pod_PlayerAction [of ?a] by (simp add: ok_PlayerAction_def)
  have m: "wf_message ?m" "body ?m \<noteq> []"
    using len wf_msg_push [of "new_message GamePlayerActionValidated" "enc_PlayerAction ?a"]
    by (auto simp: with_data_def new_message_def)
  have full: "\<forall>c \<in> set (m_deqConnection s). c \<noteq> None" using assms(2) by (auto simp: all_live_def)
  have "posted (heap ?s r') = posted (heap s r') @ [T_send ?m]"
    using posted_send_all [OF deq(1) full, of ?m None "s\<lparr>gameWorld := w'\<rparr>" r'] deq(2) by simp
  moreover have "m_qMessagesOut (heap ?s r') = m_qMessagesOut (heap s r') \<and> writes (heap ?s r') = writes (heap s r') \<and>
      wire (heap ?s r') = wire (heap s r')"
    using send_all_idle [of ?m None "m_deqConnection s" "s\<lparr>gameWorld := w'\<rparr>" r'] by simp
  ultimately obtain k' where
    k': "steps v [E_task, E_write 0 True, E_write 0 True] (heap ?s r') = Inr k'"
      "written k' = written (heap s r') @ frame ?m"
    using message_is_written [OF assms(16) m(2), of "heap ?s r'" v] assms(16) by (auto simp: idle_def)
  from message_is_read [OF k(1-3) m] obtain k2 where
    c1: "res_fold context_event [E_read 0 (Some (take 8 (frame ?m))), E_read 0 (Some (drop 8 (frame ?m)))] c
       = Inr (c\<lparr>m_connection := Some k2, c_qIn := c_qIn c @ [(None, ?m)]\<rparr>)" by blast
  let ?c = "c\<lparr>m_connection := Some k2, c_qIn := []\<rparr>"
  have "CurrentTurns p \<noteq> 0" using assms(9) by simp
  from client_mirrors [OF assms(7) p assms(8) this w'(1), of ?c "typed inp"] c assms(13) obtain c2 where
    c2: "handle_message (typed inp) ?m ?c = Inr c2" "agree w' (cWorld c2)" by auto
  have "take_message inp (c\<lparr>m_connection := Some k2, c_qIn := c_qIn c @ [(None, ?m)]\<rparr>) = Inr c2"
    using c2(1) k(4) by (simp add: take_message_def q_defs)
  then show ?thesis using w'(2) k' c1 c2(2) by (intro exI conjI) (assumption | simp)+
qed

text \<open>A client that is connected and waits for a header.\<close>

definition listening_client :: custom_client where
  "listening_client = sample_client\<lparr>m_connection := Some ((new_connection OwnerClient True 0 [])\<lparr>reads := [R_header]\<rparr>)\<rparr>"

theorem action_reaches_copies_witness:
  "\<exists>s' k' bs c1. OnMessage 4 1 (Some 0) (sample_request sample_blow) sample_server = Inr s' \<and>
     steps (\<lambda>k. k) [E_task, E_write 0 True, E_write 0 True] (heap s' 1) = Inr k' \<and>
     written k' = written (heap sample_server 1) @ bs \<and>
     res_fold context_event [E_read 0 (Some (take 8 bs)), E_read 0 (Some (drop 8 bs))] listening_client = Inr c1 \<and>
     (\<exists>c2. take_message \<lparr>focused = False, down = [], typed = [], command = [], clock = [], context_events = []\<rparr> c1
        = Inr c2 \<and> agree (gameWorld s') (cWorld c2))"
proof -
  let ?p = "sample_player 10000 (vec3_make 4 2 0)"
  have "0 \<in> set (Name ?p)" by (simp add: sample_player_def MaxNameSize_def)
  moreover have "CurrentTurns ?p \<notin> {0, 1}" by (simp add: sample_player_def)
  moreover have "idle (heap sample_server 1)"
    by (simp add: idle_def sample_server_def sample_conn_def new_connection_def)
  moreover have "c_qIn listening_client = []" "cWorld listening_client = sample_world"
      "m_connection listening_client = Some ((new_connection OwnerClient True 0 [])\<lparr>reads := [R_header]\<rparr>)"
    by (simp_all add: listening_client_def sample_client_def CustomClient_def)
  ultimately show ?thesis
    using action_reaches_copies [of sample_server "sample_request sample_blow" 0 ?p listening_client 1
        "(new_connection OwnerClient True 0 [])\<lparr>reads := [R_header]\<rparr>" 4 1 "\<lambda>k. k"
        "\<lparr>focused = False, down = [], typed = [], command = [], clock = [], context_events = []\<rparr>"]
      pod_PlayerAction [of sample_blow] sample_player_at sample_equipped sample_blow_approved
    by (simp add: agree_def new_connection_def)
qed

end
