(* ===== verification/Round.thy ===== *)
theory Round
  imports Together WorldKeeps
begin

text \<open>
  A whole round of the game in the copies: the actions of a player's turn, one after the other, and the
  turn of the enemies, whose actions the server performs first and announces afterwards. A client
  whose copy agreed with the server's world agrees again once it has handled what it was posted.
\<close>

section \<open>The enemies' actions are a record of their turn\<close>

definition replay :: "EnemyAction list \<Rightarrow> GameWorld \<Rightarrow> GameWorld res" where
  "replay = res_fold (\<lambda>a. MakeEnemyAction (unat (EA_EnemyID a)) a)"

lemma replay_simps [simp]:
  "replay [] w = Inr w" "replay (a # bs) w = res_bind (MakeEnemyAction (unat (EA_EnemyID a)) a w) (replay bs)"
  by (simp_all add: replay_def)

lemma replay_append: "replay (as @ bs) w = res_bind (replay as w) (replay bs)"
  by (simp add: replay_def res_fold_append)

text \<open>An action of the loop: one of the two kinds, with the four numbers it is sent with.\<close>

definition plain_action :: "EnemyAction \<Rightarrow> bool" where
  "plain_action a \<longleftrightarrow> actionType a \<in> {EnemyMove, EnemyBaseAttack} \<and> length (EA_ActionInfo a) = 4"

lemma plain_actions: "plain_action (move_action k x s)" "plain_action (attack_action k u v)"
  by (simp_all add: plain_action_def move_action_def attack_action_def)

lemma action_ids: "EA_EnemyID (move_action k x s) = k" "EA_EnemyID (attack_action k u v) = k"
  by (simp_all add: move_action_def attack_action_def)

text \<open>What the turn of enemy \<open>i\<close> leaves, besides what it leaves calm: well-formed, and of the same kinds.\<close>

definition kinds :: "GameWorld \<Rightarrow> u8 list" where
  "kinds w = map etype (EnemyList w)"

lemma kinds_struck:
  assumes "struck d t w w'"
  shows "kinds w' = kinds w"
  unfolding kinds_def using assms
  by (intro nth_equalityI) (auto simp: struck_def same_shape_def Enemy_TakeDamage_def Let_def)

lemma kinds_update: "etype e = etype (EnemyList w ! i) \<Longrightarrow> kinds (w\<lparr>EnemyList := (EnemyList w)[i := e]\<rparr>) = kinds w"
  using list_update_id [of "map etype (EnemyList w)" i]
  by (cases "i < length (EnemyList w)") (simp_all add: kinds_def map_update list_update_beyond not_less)

lemma kinds_action:
  assumes "wf_world w" and "MakeEnemyAction i a w = Inr w'"
  shows "kinds w' = kinds w"
  by (rule enemy_action_rule [OF assms, where R = "\<lambda>w w'. kinds w' = kinds w"]) (simp_all add: kinds_struck kinds_update)

lemma action_steps:
  assumes "wf_world w" and "i < length (EnemyList w)" and "armed (EnemyList w ! i)" and "plain_action a"
    and "MakeEnemyAction i a w = Inr w'"
  shows "wf_world w'" "calm i w w'" "armed (EnemyList w' ! i)" "i < length (EnemyList w')"
proof -
  have "unat (eEquipedItemID (EnemyList w ! i)) < MaxInventorySize" using assms(3) by (simp add: armed_def)
  then have "wf_world w' \<and> calm i w w'"
    using enemy_attack_step [OF assms(1,2), of a] enemy_move_step [OF assms(1,2), of a] assms(4,5)
    by (auto simp: plain_action_def)
  then show "wf_world w'" "calm i w w'" "armed (EnemyList w' ! i)" "i < length (EnemyList w')"
    using assms(2,3) by (auto simp: calm_def same_stance_def same_shape_def)
qed

definition recorded :: "nat \<Rightarrow> GameWorld \<Rightarrow> EnemyAction list \<Rightarrow> GameWorld \<Rightarrow> bool" where
  "recorded i w bs w' \<longleftrightarrow> replay bs w = Inr w' \<and> list_all plain_action bs \<and> wf_world w' \<and> calm i w w' \<and>
     kinds w' = kinds w"

lemma recorded_nil: "wf_world w \<Longrightarrow> recorded i w [] w"
  by (simp add: recorded_def)

lemma recorded_cons:
  assumes "wf_world w" and "i < length (EnemyList w)" and "armed (EnemyList w ! i)" and "plain_action a"
    and "unat (EA_EnemyID a) = i" and "MakeEnemyAction i a w = Inr v" and "recorded i v bs w'"
  shows "recorded i w (a # bs) w'"
  using assms action_steps(2) [OF assms(1-4,6)] kinds_action [OF assms(1,6)]
  by (auto simp: recorded_def intro: calm_trans)

lemma ai_loop_recorded:
  assumes "unat active = i" and "wf_world w" and "i < length (EnemyList w)" and "armed (EnemyList w ! i)"
    and "ai_loop n i active cand left target w acts = Inr (w', acts')"
  shows "\<exists>bs. acts' = acts @ bs \<and> recorded i w bs w'"
  using assms(2-)
proof (induction n arbitrary: left target w acts)
  case (Suc n)
  have step: "\<exists>bs. acts' = acts @ bs \<and> recorded i w bs w'"
    if a: "plain_action a" "EA_EnemyID a = active" "MakeEnemyAction i a w = Inr v"
      and run: "ai_loop n i active cand left' target' v (acts @ [a]) = Inr (w', acts')" for a v left' target'
  proof -
    note v = action_steps [OF Suc.prems(1-3) a(1,3)]
    from Suc.IH [OF v(1,4,3) run] obtain bs where "acts' = acts @ a # bs" "recorded i v bs w'" by auto
    then show ?thesis using recorded_cons [OF Suc.prems(1-3) a(1) _ a(3)] a(2) assms(1) by blast
  qed
  show ?case
    using Suc.prems(4) step [OF plain_actions(1) action_ids(1)] step [OF plain_actions(2) action_ids(2)]
      Suc.IH [OF Suc.prems(1-3)] recorded_nil [OF Suc.prems(1)]
    by (auto simp: ai_loop.simps(2) Let_def split: if_splits)
qed simp

section \<open>The turn of all enemies\<close>

lemma dirt_stays: "res_fold (enemy_turn n) js s = Inr s' \<Longrightarrow> EnemyListDirt s \<Longrightarrow> EnemyListDirt s'"
proof (induction js arbitrary: s)
  case (Cons j js)
  from Cons.prems(1) obtain t where t: "enemy_turn n j s = Inr t" "res_fold (enemy_turn n) js t = Inr s'" by auto
  have "EnemyListDirt t" using t(1) Cons.prems(2) by (auto simp: enemy_turn_def Let_def split: if_splits)
  then show ?case using Cons.IH t(2) by blast
qed simp

text \<open>A turn that meets nobody dead and finds everybody armed is what its actions record.\<close>

definition all_armed :: "GameWorld \<Rightarrow> bool" where
  "all_armed w \<longleftrightarrow> list_all armed (EnemyList w)"

lemma all_armed_calm: "all_armed w \<Longrightarrow> calm i w w' \<Longrightarrow> all_armed w'"
  by (simp add: all_armed_def calm_def same_stance_def same_shape_def list_all_length)

definition recorded_turn :: "ai_state \<Rightarrow> ai_state \<Rightarrow> bool" where
  "recorded_turn s s' \<longleftrightarrow> wf_world (ai_world s') \<and> all_armed (ai_world s') \<and>
     length (EnemyList (ai_world s')) = length (EnemyList (ai_world s)) \<and>
     kinds (ai_world s') = kinds (ai_world s) \<and>
     (\<exists>bs. ai_acts s' = ai_acts s @ bs \<and> list_all plain_action bs \<and> replay bs (ai_world s) = Inr (ai_world s'))"

lemma recorded_turn_trans: "recorded_turn a b \<Longrightarrow> recorded_turn b c \<Longrightarrow> recorded_turn a c"
  by (force simp: recorded_turn_def replay_append)

lemma enemy_turn_recorded:
  assumes "wf_world (ai_world s)" and "all_armed (ai_world s)" and i: "i < length (EnemyList (ai_world s))"
    and "ActiveEnemyID s = word_of_nat i" and "\<not> EnemyListDirt s'" and "enemy_turn n i s = Inr s'"
  shows "recorded_turn s s'" and "ActiveEnemyID s' = word_of_nat (Suc i)"
proof -
  let ?w = "ai_world s"
  let ?e = "EnemyList ?w ! i"
  have e: "armed ?e" using assms(2) i by (simp add: all_armed_def list_all_length)
  have eq: "equip_enemy ?e = Inr ?e" by (rule equip_armed [OF e wf_world_enemy [OF assms(1) i]])
  have "eHP ?e \<noteq> 0" using assms(5,6) by (auto simp: enemy_turn_def Let_def)
  then obtain t :: ai_target and w' acts where
    run: "ai_loop n i (ActiveEnemyID s) (BestAttackCandidate t) (MaxActions ?e) (TargetCoords t) ?w (ai_acts s)
        = Inr (w', acts)"
    and s': "s' = s\<lparr>ai_world := w', ai_acts := acts, ActiveEnemyID := ActiveEnemyID s + 1\<rparr>"
    using assms(6) eq by (auto simp: enemy_turn_def Let_def)
  have "i < 2 ^ 32" using i assms(1) by (simp add: wf_world_def)
  then have "unat (ActiveEnemyID s) = i" unfolding assms(4) unat_of_nat by (intro mod_less) simp
  from ai_loop_recorded [OF this assms(1) i e run] obtain bs where
    bs: "acts = ai_acts s @ bs" "recorded i ?w bs w'" by blast
  then show "recorded_turn s s'"
    using all_armed_calm [OF assms(2)] by (auto simp: recorded_turn_def recorded_def s' calm_def same_shape_def)
  show "ActiveEnemyID s' = word_of_nat (Suc i)" using assms(4) by (simp add: s')
qed

lemma enemies_turn_recorded:
  assumes "wf_world w" and "all_armed w" and "enemies_turn n w = Inr a" and "\<not> EnemyListDirt a"
  shows "replay (ai_acts a) w = Inr (ai_world a) \<and> list_all plain_action (ai_acts a) \<and>
    wf_world (ai_world a) \<and> all_armed (ai_world a) \<and> kinds (ai_world a) = kinds w"
proof -
  define l where "l = length (EnemyList w)"
  have turns: "recorded_turn s a"
    if "k \<le> l" "res_fold (enemy_turn n) [k..<l] s = Inr a" "wf_world (ai_world s)" "all_armed (ai_world s)"
      "length (EnemyList (ai_world s)) = l" "ActiveEnemyID s = word_of_nat k" for k s
    using that
  proof (induction "l - k" arbitrary: k s)
    case 0
    then show ?case by (simp add: recorded_turn_def)
  next
    case (Suc m)
    then have k: "k < l" by simp
    with Suc.prems(2) obtain t where t: "enemy_turn n k s = Inr t" "res_fold (enemy_turn n) [Suc k..<l] t = Inr a"
      by (auto simp: upt_conv_Cons)
    have "\<not> EnemyListDirt t" using dirt_stays [OF t(2)] assms(4) by blast
    from enemy_turn_recorded [OF Suc.prems(3,4) _ Suc.prems(6) this t(1)] k Suc.prems(5)
    have step: "recorded_turn s t" "ActiveEnemyID t = word_of_nat (Suc k)" by simp_all
    then have "recorded_turn t a"
      using Suc.hyps(1) [of "Suc k" t] Suc.hyps(2) k t(2) Suc.prems(5) by (simp add: recorded_turn_def)
    with step(1) show ?case by (rule recorded_turn_trans)
  qed
  have "recorded_turn \<lparr>ai_world = w, ai_acts = [], ActiveEnemyID = 0, EnemyListDirt = False\<rparr> a"
    using turns [of 0] assms(1-3) by (simp add: enemies_turn_def l_def)
  then show ?thesis by (simp add: recorded_turn_def)
qed

section \<open>The enemies' turn in the copies\<close>

text \<open>A client whose copy follows the server's world.\<close>

definition follows :: "GameWorld \<Rightarrow> custom_client \<Rightarrow> bool" where
  "follows w c \<longleftrightarrow> wf_world (cWorld c) \<and> agree w (cWorld c)"

lemma handle_enemy_action:
  "handle_message name (with_data GameAITurnAction bs) c = on_GameAITurnAction (with_data GameAITurnAction bs) c"
  by (simp add: handle_message_def msg_ids)

lemma client_repeats:
  assumes "wf_world w" and "follows w c" and "\<forall>t \<in> set (kinds w). unat t < 2" and a: "plain_action a"
    and run: "MakeEnemyAction (unat (EA_EnemyID a)) a w = Inr w'"
  shows "\<exists>c'. handle_message name (with_data GameAITurnAction (enc_EnemyAction a)) c = Inr c' \<and> follows w' c' \<and>
           PlayerID c' = PlayerID c"
proof -
  let ?i = "unat (EA_EnemyID a)" and ?v = "\<lambda>c. (cWorld c)\<lparr>kill_calls := []\<rparr>"
  have "ok_EnemyAction a" using a by (auto simp: plain_action_def ok_EnemyAction_def)
  then have popped: "pop_data dec_EnemyAction 16 (with_data GameAITurnAction (enc_EnemyAction a))
      = Inr (a, new_message GameAITurnAction)"
    using pod_EnemyAction [of a] pop_data_single [of "enc_EnemyAction a" 16 dec_EnemyAction] by simp
  have c: "wf_world (?v c)" "agree w (?v c)" using assms(2) by (simp_all add: follows_def)
  have es: "EnemyList (cWorld c) = EnemyList w" using c(2) by (simp add: agree_def)
  have i: "?i < length (EnemyList w)" using run by (auto simp: MakeEnemyAction_def split: if_splits)
  then have kind: "unat (etype (EnemyList w ! ?i)) < length EnemiesNames"
    using assms(3) nth_mem [OF i] by (auto simp: kinds_def EnemiesNames_def numeral_2_eq_2)
  have names: "unat (enc_EnemyActionType (actionType a)) < length EnemiesActionsNames"
    using a by (auto simp: plain_action_def EnemiesActionsNames_def)
  from MakeEnemyAction_agree [OF assms(1) c run] obtain v where
    v: "MakeEnemyAction ?i a (?v c) = Inr v" "agree w' v" by blast
  have "wf_world v" using MakeEnemyAction_keeps [OF c(1) v(1)] by (rule world_kept_wf)
  with v(2) have "follows w' d" if "cWorld d = v\<lparr>kill_calls := []\<rparr>" for d
    using that by (simp add: follows_def)
  moreover have "\<exists>c'. world_action (MakeEnemyAction ?i a) (say t c) = Inr c' \<and> cWorld c' = v\<lparr>kill_calls := []\<rparr> \<and>
      PlayerID c' = PlayerID c" for t
    using world_action_Inr [of "MakeEnemyAction ?i a" "say t c" v] v(1) by auto
  ultimately show ?thesis using i kind names es
    by (simp add: handle_enemy_action on_GameAITurnAction_def popped table_entry_def Let_def) blast
qed

lemma client_replays:
  assumes "wf_world w" and "follows w c" and "\<forall>t \<in> set (kinds w). unat t < 2" and "list_all plain_action bs"
    and "replay bs w = Inr w'"
  shows "\<exists>c'. res_fold (handle_message name)
           (map (\<lambda>a. with_data GameAITurnAction (enc_EnemyAction a)) bs) c = Inr c' \<and> follows w' c' \<and>
           PlayerID c' = PlayerID c"
  using assms
proof (induction bs arbitrary: w c)
  case (Cons a bs)
  then obtain v where v: "MakeEnemyAction (unat (EA_EnemyID a)) a w = Inr v" "replay bs v = Inr w'" by auto
  from client_repeats [OF Cons.prems(1-3) _ v(1)] Cons.prems(4) obtain d where
    d: "handle_message name (with_data GameAITurnAction (enc_EnemyAction a)) c = Inr d" "follows v d" "PlayerID d = PlayerID c" by auto
  have "wf_world v" using MakeEnemyAction_keeps [OF Cons.prems(1) v(1)] by (rule world_kept_wf)
  from Cons.IH [OF this d(2)] kinds_action [OF Cons.prems(1) v(1)] Cons.prems v(2) d(1,3) show ?case by auto
qed simp

text \<open>Announcing a list of messages to clients that are all there.\<close>

lemma announce_all:
  assumes "all_live s" and "distinct (m_deqConnection s)"
  shows "\<exists>s'. res_fold (\<lambda>a. MessageAllClients disc (f a) None) as s = Inr s' \<and> gameWorld s' = gameWorld s \<and>
    all_live s' \<and> m_deqConnection s' = m_deqConnection s \<and> GetID s' = GetID s \<and>
    (\<forall>r. Some r \<in> set (m_deqConnection s) \<longrightarrow>
       posted (heap s' r) = posted (heap s r) @ map T_send (map f as))"
  using assms
proof (induction "as" arbitrary: s)
  case (Cons a as')
  let ?s = "send_all (f a) None (m_deqConnection s) s"
  have full: "\<forall>c \<in> set (m_deqConnection s). c \<noteq> None" using Cons.prems(1) by (auto simp: all_live_def)
  from Cons.IH [of ?s] Cons.prems obtain s' where
    "res_fold (\<lambda>a. MessageAllClients disc (f a) None) as' ?s = Inr s'" "gameWorld s' = gameWorld s"
    "all_live s'" "m_deqConnection s' = m_deqConnection s" "GetID s' = GetID s"
    "\<forall>r. Some r \<in> set (m_deqConnection s) \<longrightarrow> posted (heap s' r) = posted (heap ?s r) @ map T_send (map f as')"
    by (auto simp: fun_eq_iff)
  then show ?case by (simp add: posted_send_all [OF Cons.prems(2) full] MessageAllClients_live [OF Cons.prems(1)])
qed simp

lemma bury_nobody [simp]: "bury_dead False w = w"
  by (simp add: bury_dead_def)

text \<open>The run of the enemies' turn, and what the messages it posts do to a copy.\<close>

lemma enemies_turn_run:
  assumes "all_live s" and "distinct (m_deqConnection s)" and "wf_world (gameWorld s)"
    and "\<forall>e \<in> set (EnemyList (gameWorld s)). armed e \<and> unat (etype e) < 2"
    and "enemies_turn F (gameWorld s) = Inr a" and "\<not> EnemyListDirt a"
  shows "\<exists>s' ms. MakeAITurn F disc s = Inr s' \<and> gameWorld s' = ai_world a \<and> wf_world (gameWorld s') \<and>
           all_live s' \<and> m_deqConnection s' = m_deqConnection s \<and> GetID s' = GetID s \<and>
           (\<forall>r. Some r \<in> set (m_deqConnection s) \<longrightarrow>
              posted (heap s' r) = posted (heap s r) @ map T_send ms) \<and>
           (\<forall>name c. follows (gameWorld s) c \<longrightarrow>
              (\<exists>c'. res_fold (handle_message name) ms c = Inr c' \<and>
             follows (gameWorld s') c' \<and> PlayerID c' = PlayerID c)) \<and>
           ms = map (\<lambda>x. with_data GameAITurnAction (enc_EnemyAction x)) (ai_acts a)"
proof -
  let ?w = "gameWorld s" and ?f = "\<lambda>a. with_data GameAITurnAction (enc_EnemyAction a)"
  have "all_armed ?w" using assms(4) by (simp add: all_armed_def list_all_iff)
  from enemies_turn_recorded [OF assms(3) this assms(5,6)] have
    turn: "replay (ai_acts a) ?w = Inr (ai_world a)" "list_all plain_action (ai_acts a)" "wf_world (ai_world a)"
    by auto
  have types: "\<forall>t \<in> set (kinds ?w). unat t < 2" using assms(4) by (simp add: kinds_def)
  from announce_all [of "s\<lparr>gameWorld := ai_world a\<rparr>" disc ?f "ai_acts a"] assms(1,2) obtain s' where
    s': "res_fold (\<lambda>a. MessageAllClients disc (?f a) None) (ai_acts a) (s\<lparr>gameWorld := ai_world a\<rparr>) = Inr s'"
      "gameWorld s' = ai_world a" "all_live s'" "m_deqConnection s' = m_deqConnection s" "GetID s' = GetID s"
      "\<forall>r. Some r \<in> set (m_deqConnection s) \<longrightarrow>
         posted (heap s' r) = posted (heap s r) @ map T_send (map ?f (ai_acts a))"
    by (auto simp: fun_eq_iff)
  have "MakeAITurn F disc s = Inr s'" using assms(5,6) s'(1,2) by (simp add: MakeAITurn_def)
  with s'(2-6) turn client_replays [OF assms(3) _ types turn(2,1)] show ?thesis
    by (intro exI [of _ s'] exI [of _ "map ?f (ai_acts a)"]) auto
qed

text \<open>
  Property C11. The turn of the enemies reaches the copies: when everybody is armed and nobody is met dead,
  \<^verbatim>\<open>MakeAITurn\<close> posts every client one message for each action, in order, and a client whose copy agreed
  with the world before the turn agrees with the world after it once it has handled them.
\<close>

theorem enemies_turn_reaches_copies:
  assumes "all_live s" and "distinct (m_deqConnection s)" and "wf_world (gameWorld s)"
    and "\<forall>e \<in> set (EnemyList (gameWorld s)). armed e \<and> unat (etype e) < 2"
    and "enemies_turn F (gameWorld s) = Inr a" and "\<not> EnemyListDirt a"
  shows "\<exists>s' ms. ms = map (\<lambda>x. with_data GameAITurnAction (enc_EnemyAction x)) (ai_acts a) \<and>
           MakeAITurn F disc s = Inr s' \<and> gameWorld s' = ai_world a \<and> wf_world (gameWorld s') \<and>
           (\<forall>r. Some r \<in> set (m_deqConnection s) \<longrightarrow>
              posted (heap s' r) = posted (heap s r) @ map T_send ms) \<and>
           (\<forall>name c. follows (gameWorld s) c \<longrightarrow>
              (\<exists>c'. res_fold (handle_message name) ms c = Inr c' \<and>
             follows (gameWorld s') c' \<and> PlayerID c' = PlayerID c))"
  using enemies_turn_run [OF assms, of disc] by blast

text \<open>One bandit, two steps away from a player.\<close>

definition bandit_server :: custom_server where
  "bandit_server = sample_server\<lparr>gameWorld := sample_world\<lparr>EnemyList := [EnemiesTable ! 1]\<rparr>\<rparr>"

lemma bandit_turn:
  "case enemies_turn 4 (sample_world\<lparr>EnemyList := [EnemiesTable ! 1]\<rparr>) of
     Inl f \<Rightarrow> False | Inr a \<Rightarrow> \<not> EnemyListDirt a \<and> length (ai_acts a) = 2"
  by code_simp

lemma bandit_world:
  "wf_world (sample_world\<lparr>EnemyList := [EnemiesTable ! 1]\<rparr>)"
  "armed (EnemiesTable ! 1) \<and> unat (etype (EnemiesTable ! 1)) < 2"
proof -
  have "EnemyList sample_world ! 1 = (EnemiesTable ! 1)\<lparr>eCoords := vec3_make 20 20 0\<rparr>"
    "1 < length (EnemyList sample_world)" by (simp_all add: sample_world_def)
  from wf_world_enemy [OF wf_sample_world this(2)] this(1) have "wf_Enemy (EnemiesTable ! 1)"
    by (simp add: wf_Enemy_def)
  then show "wf_world (sample_world\<lparr>EnemyList := [EnemiesTable ! 1]\<rparr>)"
    using wf_sample_world unfolding wf_world_def by simp
  show "armed (EnemiesTable ! 1) \<and> unat (etype (EnemiesTable ! 1)) < 2"
    by (simp add: EnemiesTable_def armed_def inventory_with_def table_slot_def ItemTable_def MaxInventorySize_def)
qed

theorem enemies_turn_reaches_copies_witness:
  "\<exists>a s' ms. enemies_turn 4 (gameWorld bandit_server) = Inr a \<and> length (ai_acts a) = 2 \<and>
     MakeAITurn 4 (OnClientDisconnect 4 1) bandit_server = Inr s' \<and> gameWorld s' = ai_world a \<and>
     (\<exists>c'. res_fold (handle_message []) ms (sample_client\<lparr>cWorld := gameWorld bandit_server\<rparr>) = Inr c' \<and>
        follows (gameWorld s') c')"
proof -
  let ?c = "sample_client\<lparr>cWorld := gameWorld bandit_server\<rparr>"
  have w: "gameWorld bandit_server = sample_world\<lparr>EnemyList := [EnemiesTable ! 1]\<rparr>"
    "all_live bandit_server = all_live sample_server" "m_deqConnection bandit_server = [Some 0, Some 1]"
    by (simp_all add: bandit_server_def all_live_def)
  from bandit_turn obtain a where
    a: "enemies_turn 4 (gameWorld bandit_server) = Inr a" "\<not> EnemyListDirt a" "length (ai_acts a) = 2"
    by (auto simp: w(1) split: sum.splits)
  have "follows (gameWorld bandit_server) ?c" by (simp add: follows_def agree_def w(1) bandit_world del: One_nat_def)
  with enemies_turn_reaches_copies [OF _ _ _ _ a(1,2), of "OnClientDisconnect 4 1"] a(1,3) show ?thesis
    by (simp add: w bandit_world del: One_nat_def) blast
qed

text \<open>
  Why nobody may be met dead: \<^verbatim>\<open>continue\<close> skips the counter of the enemies, so behind a dead zombie the
  bandit's actions are announced as the zombie's, and a copy that repeats them moves the wrong one.
\<close>

lemma copies_part_at_the_dead:
  "case enemies_turn 4 (sample_world\<lparr>EnemyList := [(EnemiesTable ! 0)\<lparr>eHP := 0\<rparr>, EnemiesTable ! 1]\<rparr>) of
     Inl f \<Rightarrow> False
   | Inr a \<Rightarrow>
       (case replay (ai_acts a) (sample_world\<lparr>EnemyList := [(EnemiesTable ! 0)\<lparr>eHP := 0\<rparr>, EnemiesTable ! 1]\<rparr>) of
          Inl f \<Rightarrow> False
        | Inr w \<Rightarrow> eCoords (EnemyList w ! 1) \<noteq> eCoords (EnemyList (ai_world a) ! 1))"
  by code_simp

section \<open>A turn of requests in the copies\<close>

text \<open>What a request does when it does not end the turn: it is refused, or performed and announced.\<close>

lemma request_cases:
  assumes "GarbageIDs s = []" and "all_live s" and "connected s r" and "hid m = ServerGamePlayerActionApprove"
    and "length (body m) = 16" and "wf_world (gameWorld s)" and p: "map_of (s_players s) (CurrentPlayerID s) = Some p"
    and "unat (pEquipedItemID p) < MaxInventorySize" and "CurrentTurns p \<notin> {0, 1}"
    and "OnMessage F n (Some r) m s = Inr s'"
  shows "s' = send_to r (with_data GamePlayerActionAborted (enc_PlayerAction (dec_PlayerAction (body m)))) s \<or>
    (\<exists>w'. MakeApprovedAction (CurrentPlayerID s) (dec_PlayerAction (body m)) (gameWorld s) = Inr w' \<and>
       s' = send_all (with_data GamePlayerActionValidated
               (enc_PlayerAction ((dec_PlayerAction (body m))\<lparr>PA_PlayerID := CurrentPlayerID s\<rparr>)))
             None (m_deqConnection s) (s\<lparr>gameWorld := w'\<rparr>))"
proof -
  let ?a = "dec_PlayerAction (body m)"
  from pop_data_exact [OF assms(5), of dec_PlayerAction] obtain m' where
    m': "pop_data dec_PlayerAction 16 m = Inr (?a, m')" by auto
  have run: "OnMessage F n (Some r) m s = on_action F (OnClientDisconnect F n) (Some r) m s"
    using assms(1,4) by (simp add: OnMessage_def Let_def msg_ids)
  show ?thesis
  proof (cases "GetID s r = CurrentPlayerID s \<and> CheckPlayerAction ?a s = Inr True")
    case True
    then show ?thesis using approved_action_run [OF assms(1,2,4,5) _ _ assms(6,8,9), of r F n] p assms(10) by auto
  next
    case False
    then show ?thesis using assms(3,10) p m' unfolding run
      by (auto simp: on_action_def Let_def MessageClient_live split: if_splits)
  qed
qed

text \<open>The server between two requests of the player on turn, with \<open>l\<close> requests that may still come.\<close>

definition in_turn :: "nat \<Rightarrow> custom_server \<Rightarrow> bool" where
  "in_turn l s \<longleftrightarrow>
     GarbageIDs s = [] \<and> all_live s \<and> distinct (m_deqConnection s) \<and> wf_world (gameWorld s) \<and>
     (\<exists>p. map_of (s_players s) (CurrentPlayerID s) = Some p \<and> unat (pEquipedItemID p) < MaxInventorySize \<and>
        0 \<in> set (Name p) \<and> l < unat (CurrentTurns p))"

definition is_request :: "message \<Rightarrow> bool" where
  "is_request m \<longleftrightarrow> hid m = ServerGamePlayerActionApprove \<and> length (body m) = 16"

text \<open>What the server has posted to a client since \<open>s\<close> makes its copy follow.\<close>

definition told :: "custom_server \<Rightarrow> custom_server \<Rightarrow> nat \<Rightarrow> bool" where
  "told s s' r \<longleftrightarrow>
     (\<exists>ms. posted (heap s' r) = posted (heap s r) @ map T_send ms \<and>
        (\<forall>name c. follows (gameWorld s) c \<longrightarrow>
           (\<exists>c'. res_fold (handle_message name) ms c = Inr c' \<and>
             follows (gameWorld s') c' \<and> PlayerID c' = PlayerID c)))"

lemma toldI:
  assumes "posted (heap s' r) = posted (heap s r) @ map T_send ms"
    and "\<And>name c. follows (gameWorld s) c \<Longrightarrow>
      \<exists>c'. res_fold (handle_message name) ms c = Inr c' \<and>
             follows (gameWorld s') c' \<and> PlayerID c' = PlayerID c"
  shows "told s s' r"
  unfolding told_def using assms by blast

lemma told_refl: "told s s r"
  by (rule toldI [of _ _ _ "[]"]) simp_all

lemma told_trans:
  assumes "told a b r" and "told b c r"
  shows "told a c r"
proof -
  from assms obtain ms ns where
    posts: "posted (heap b r) = posted (heap a r) @ map T_send ms" "posted (heap c r) = posted (heap b r) @ map T_send ns"
    and first: "\<forall>name d. follows (gameWorld a) d \<longrightarrow>
      (\<exists>d'. res_fold (handle_message name) ms d = Inr d' \<and> follows (gameWorld b) d' \<and> PlayerID d' = PlayerID d)"
    and then_on: "\<forall>name d. follows (gameWorld b) d \<longrightarrow>
      (\<exists>d'. res_fold (handle_message name) ns d = Inr d' \<and> follows (gameWorld c) d' \<and> PlayerID d' = PlayerID d)"
    unfolding told_def by blast
  show ?thesis
  proof (rule toldI [of _ _ _ "ms @ ns"])
    show "posted (heap c r) = posted (heap a r) @ map T_send (ms @ ns)" using posts by simp
    fix name d assume "follows (gameWorld a) d"
    with first obtain d' where "res_fold (handle_message name) ms d = Inr d'" "follows (gameWorld b) d'"
      "PlayerID d' = PlayerID d" by blast
    with then_on show "\<exists>d'. res_fold (handle_message name) (ms @ ns) d = Inr d' \<and> follows (gameWorld c) d' \<and> PlayerID d' = PlayerID d"
      by (fastforce simp: res_fold_append)
  qed
qed

lemma in_turn_refused: "in_turn (Suc l) s \<Longrightarrow> in_turn l (send_to r m s)"
  by (auto simp: in_turn_def)

lemma unat_pred4: "Suc l < unat (t :: 4 word) \<Longrightarrow> l < unat (t - 1)"
proof -
  assume t: "Suc l < unat t"
  then have "t \<noteq> 0" by auto
  then show "l < unat (t - 1)" using t by (simp add: unat_minus_one)
qed

text \<open>A performed action, as it is announced.\<close>

lemma approved_told:
  assumes "wf_world (gameWorld s)" and "all_live s" and "distinct (m_deqConnection s)"
    and p: "map_of (s_players s) k = Some p" "unat (pEquipedItemID p) < MaxInventorySize" and "0 \<in> set (Name p)"
    and "CurrentTurns p \<noteq> 0" and w': "MakeApprovedAction k (dec_PlayerAction bs) (gameWorld s) = Inr w'"
    and "Some r \<in> set (m_deqConnection s)"
  shows "told s (send_all (with_data GamePlayerActionValidated (enc_PlayerAction ((dec_PlayerAction bs)\<lparr>PA_PlayerID := k\<rparr>)))
           None (m_deqConnection s) (s\<lparr>gameWorld := w'\<rparr>)) r"
    (is "told s (send_all ?v None ?d ?s) r")
proof (rule toldI [of _ _ _ "[?v]"])
  have full: "\<forall>c \<in> set (m_deqConnection s). c \<noteq> None" using assms(2) by (auto simp: all_live_def)
  show "posted (heap (send_all ?v None ?d ?s) r) = posted (heap s r) @ map T_send [?v]"
    using posted_send_all [OF assms(3) full, of ?v None ?s r] assms(9) by simp
  fix name c assume "follows (gameWorld s) c"
  then show "\<exists>c'. res_fold (handle_message name) [?v] c = Inr c' \<and>
      follows (gameWorld (send_all ?v None ?d ?s)) c' \<and> PlayerID c' = PlayerID c"
    using client_mirrors [OF assms(1) p assms(7) w', of c name] assms(6) by (auto simp: follows_def)
qed

lemma request_step:
  assumes "in_turn (Suc l) s" and "is_request m" and "connected s r" and "OnMessage F n (Some r) m s = Inr s'"
  shows "in_turn l s' \<and> CurrentPlayerID s' = CurrentPlayerID s \<and>
    m_deqConnection s' = m_deqConnection s \<and> connected s' = connected s \<and>
    (\<forall>r'. r' \<noteq> r \<longrightarrow> Some r' \<in> set (m_deqConnection s) \<longrightarrow> told s s' r')"
proof -
  let ?k = "CurrentPlayerID s" and ?a = "dec_PlayerAction (body m)"
  let ?v = "with_data GamePlayerActionValidated (enc_PlayerAction (?a\<lparr>PA_PlayerID := ?k\<rparr>))"
  let ?x = "with_data GamePlayerActionAborted (enc_PlayerAction ?a)"
  from assms(1) obtain p where p: "map_of (s_players s) ?k = Some p" "unat (pEquipedItemID p) < MaxInventorySize"
      "0 \<in> set (Name p)" "Suc l < unat (CurrentTurns p)" and s: "GarbageIDs s = []" "all_live s"
      "distinct (m_deqConnection s)" "wf_world (gameWorld s)" by (auto simp: in_turn_def)
  have t: "CurrentTurns p \<notin> {0, 1}" and t0: "CurrentTurns p \<noteq> 0" using p(4) by auto
  have req: "hid m = ServerGamePlayerActionApprove" "length (body m) = 16" using assms(2) by (simp_all add: is_request_def)
  show ?thesis
    using request_cases [OF s(1,2) assms(3) req s(4) p(1,2) t assms(4)]
  proof (elim disjE exE conjE)
    assume s': "s' = send_to r ?x s"
    have "told s s' r'" if "r' \<noteq> r" for r'
      by (rule toldI [of _ _ _ "[]"]) (use that in \<open>simp_all add: s' send_to_def\<close>)
    then show ?thesis using in_turn_refused [OF assms(1)] by (simp add: s' fun_eq_iff)
  next
    fix w' assume w': "MakeApprovedAction ?k ?a (gameWorld s) = Inr w'"
      and s': "s' = send_all ?v None (m_deqConnection s) (s\<lparr>gameWorld := w'\<rparr>)"
    from MakeApprovedAction_wf [OF s(4) p(1,2) t0, of ?a] w' obtain iv where
      q: "wf_world w'" "players w' ?k = Some (p\<lparr>pCoords := moved_to ?a p, pInventory := iv,
          CurrentTurns := CurrentTurns p - 1\<rparr>)" by auto
    have "in_turn l s'" using s q p(2,3) unat_pred4 [OF p(4)] by (auto simp: in_turn_def s' all_live_def)
    moreover have "told s s' r'" if "Some r' \<in> set (m_deqConnection s)" for r'
      unfolding s' by (rule approved_told [OF s(4,2,3) p(1-3) t0 w' that])
    ultimately show ?thesis by (simp add: s' fun_eq_iff)
  qed
qed

text \<open>
  A turn of requests reaches the copies: clients send requests for actions in any order, fewer
  than the player on turn has actions left. However many of them the server refuses, every client that sends
  none itself follows the server's world once it has handled what it was posted, and the turn is still the
  same player's.
\<close>

theorem requests_reach_copies:
  assumes "in_turn (length reqs) s" and "\<forall>(r, m) \<in> set reqs. is_request m \<and> connected s r \<and> r \<noteq> r'"
    and "Some r' \<in> set (m_deqConnection s)"
    and "res_fold (\<lambda>(r, m). OnMessage F n (Some r) m) reqs s = Inr s'"
  shows "in_turn 0 s' \<and> CurrentPlayerID s' = CurrentPlayerID s \<and>
    (\<exists>ms. posted (heap s' r') = posted (heap s r') @ map T_send ms \<and>
       (\<forall>name c. follows (gameWorld s) c \<longrightarrow>
          (\<exists>c'. res_fold (handle_message name) ms c = Inr c' \<and>
             follows (gameWorld s') c' \<and> PlayerID c' = PlayerID c)))"
proof -
  have "in_turn 0 s' \<and> CurrentPlayerID s' = CurrentPlayerID s \<and> told s s' r'"
    using assms
  proof (induction reqs arbitrary: s)
    case Nil
    then show ?case by (simp add: told_refl)
  next
    case (Cons x reqs)
    obtain r m where x: "x = (r, m)" by (cases x)
    then obtain t where t: "OnMessage F n (Some r) m s = Inr t"
        "res_fold (\<lambda>(r, m). OnMessage F n (Some r) m) reqs t = Inr s'" using Cons.prems(4) by auto
    from request_step [OF _ _ _ t(1), of "length reqs"] Cons.prems(1-3) x
    have step: "in_turn (length reqs) t" "CurrentPlayerID t = CurrentPlayerID s" "m_deqConnection t = m_deqConnection s" "connected t = connected s"
      "told s t r'" by auto
    then have "in_turn 0 s' \<and> CurrentPlayerID s' = CurrentPlayerID s \<and> told t s' r'" using Cons.IH [OF _ _ _ t(2)] Cons.prems(2,3) by auto
    then show ?case using told_trans [OF step(5)] by blast
  qed
  then show ?thesis by (simp add: told_def)
qed

text \<open>The sample server with a third client that only watches.\<close>

definition watched_server :: custom_server where
  "watched_server = sample_server\<lparr>m_deqConnection := [Some 0, Some 1, Some 2]\<rparr>"

lemma watched_server_simps:
  "gameWorld watched_server = sample_world" "m_deqConnection watched_server = [Some 0, Some 1, Some 2]"
  "GarbageIDs watched_server = []" "CurrentPlayerID watched_server = 10000" "all_live watched_server"
  "connected watched_server r" "GetID watched_server r = (if r = 0 then 10000 else 10001)"
  by (auto simp: watched_server_def sample_server_def all_live_def connected_def GetID_def IsConnected_def
      sample_conn_def new_connection_def)

theorem requests_reach_copies_witness:
  "\<exists>s' ms c'. res_fold (\<lambda>(r, m). OnMessage 4 1 (Some r) m)
       [(1, sample_request sample_step), (0, sample_request sample_blow)] watched_server = Inr s' \<and>
     posted (heap s' 2) = posted (heap watched_server 2) @ map T_send ms \<and>
     res_fold (handle_message []) ms sample_client = Inr c' \<and> follows (gameWorld s') c'"
proof -
  let ?p = "sample_player 10000 (vec3_make 4 2 0)" and ?m = "sample_request sample_step" and ?b = "sample_request sample_blow"
  define t where "t = send_to 1 (with_data GamePlayerActionAborted (enc_PlayerAction sample_step)) watched_server"
  have first: "OnMessage 4 1 (Some 1) ?m watched_server = Inr t"
    using out_of_turn_run [of watched_server 1 ?m 4 1]
    by (simp add: watched_server_simps pod_PlayerAction t_def)
  have "CurrentTurns ?p \<notin> {0, 1}" by (simp add: sample_player_def)
  moreover have "CheckPlayerAction sample_blow t = Inr True"
    using sample_blow_approved
    by (simp only: CheckPlayerAction_def t_def send_to_game watched_server_simps sample_server_simps)
  ultimately obtain s' where "OnMessage 4 1 (Some 0) ?b t = Inr s'"
    using approved_action_run [of t ?b 0 ?p 4 1] sample_player_at sample_equipped pod_PlayerAction [of sample_blow]
    by (auto simp: t_def watched_server_simps)
  with first have run: "res_fold (\<lambda>(r, m). OnMessage 4 1 (Some r) m) [(1, ?m), (0, ?b)] watched_server = Inr s'" by simp
  have "in_turn (length [(1::nat, ?m), (0, ?b)]) watched_server"
    using sample_player_at sample_equipped
    by (simp add: in_turn_def watched_server_simps) (simp add: sample_player_def MaxNameSize_def)
  from requests_reach_copies [OF this _ _ run, of 2] obtain ms where
    "posted (heap s' 2) = posted (heap watched_server 2) @ map T_send ms"
    "\<forall>name c. follows sample_world c \<longrightarrow>
       (\<exists>c'. res_fold (handle_message name) ms c = Inr c' \<and>
             follows (gameWorld s') c' \<and> PlayerID c' = PlayerID c)"
    by (auto simp: watched_server_simps is_request_def pod_PlayerAction)
  moreover have "follows sample_world sample_client" by (simp add: follows_def agree_def)
  ultimately show ?thesis using run by blast
qed

end
