(* ===== verification/ServerInv.thy ===== *)
theory ServerInv
  imports ServerLife WorldKeeps "HOL-Library.Sublist"
begin

text \<open>
  The invariant of the running server: the world is well-formed, every player of the game belongs to an
  entry of the server's list of clients, the turn belongs to a player, and a client that is still
  connected is in the list. It holds whatever arrives, in whatever order, as long as fewer than
  \<open>2^32 - 10000\<close> clients connect; and when a player on turn is lost, the turn passes to a client that is
  connected.

  The handlers call each other through \<^verbatim>\<open>OnClientDisconnect\<close>. What they rely on is the locale
  \<open>turn_keeper\<close>; the game's handler is shown to satisfy it by induction on its fuel.
\<close>

section \<open>The invariant\<close>

abbreviation keys :: "custom_server \<Rightarrow> u32 set" where
  "keys s \<equiv> fst ` set (s_players s)"

text \<open>Ids are handed out in the order of the connections; nobody reopens a socket.\<close>

definition nth_id :: "nat \<Rightarrow> u32" where
  "nth_id r = word_of_nat (10000 + r)"

definition clients_ok :: "custom_server \<Rightarrow> bool" where
  "clients_ok s \<longleftrightarrow>
     next_ref s + 10000 \<le> 2 ^ 32 \<and> nIDCounter s = nth_id (next_ref s) \<and>
     (\<forall>r < next_ref s. GetID s r = nth_id r \<and> m_nOwnerType (heap s r) = OwnerServer \<and>
        (connected s r \<longrightarrow> Some r \<in> set (m_deqConnection s))) \<and>
     (\<forall>r. Some r \<in> set (m_deqConnection s) \<longrightarrow> r < next_ref s) \<and>
     (\<forall>cm \<in> set (s_qIn s). \<exists>r < next_ref s. fst cm = Some r)"

definition players_ok :: "custom_server \<Rightarrow> bool" where
  "players_ok s \<longleftrightarrow> (\<forall>k \<in> keys s. \<exists>r. Some r \<in> set (m_deqConnection s) \<and> GetID s r = k)"

definition turn_ok :: "custom_server \<Rightarrow> bool" where
  "turn_ok s \<longleftrightarrow> CurrentPlayerID s = 0 \<or> CurrentPlayerID s \<in> keys s"

definition server_inv :: "custom_server \<Rightarrow> bool" where
  "server_inv s \<longleftrightarrow> clients_ok s \<and> wf_world (gameWorld s) \<and> players_ok s \<and> turn_ok s"

text \<open>The turn belongs to somebody who can be reached.\<close>

definition live_turn :: "custom_server \<Rightarrow> bool" where
  "live_turn s \<longleftrightarrow>
     (\<exists>r. Some r \<in> set (m_deqConnection s) \<and> GetID s r = CurrentPlayerID s \<and> connected s r)"

lemma unat_nth_id: "r + 10000 < 2 ^ 32 \<Longrightarrow> unat (nth_id r) = 10000 + r"
  unfolding nth_id_def unat_of_nat by (rule mod_less) simp

lemma clients_okD:
  assumes "clients_ok s" and "r < next_ref s"
  shows "GetID s r = nth_id r" and "m_nOwnerType (heap s r) = OwnerServer" and "r + 10000 < 2 ^ 32"
    and "connected s r \<Longrightarrow> Some r \<in> set (m_deqConnection s)"
proof -
  note ok = assms(1) [unfolded clients_ok_def]
  note each = ok [THEN conjunct2, THEN conjunct2, THEN conjunct1, rule_format, OF assms(2)]
  show "GetID s r = nth_id r" "m_nOwnerType (heap s r) = OwnerServer"
    "connected s r \<Longrightarrow> Some r \<in> set (m_deqConnection s)" using each by simp_all
  have "r + 10000 < next_ref s + 10000" using assms(2) by (rule add_strict_right_mono)
  then show "r + 10000 < 2 ^ 32" using ok [THEN conjunct1] by (rule less_le_trans)
qed

lemma ids_distinct:
  assumes "clients_ok s" and "r < next_ref s" and "r' < next_ref s" and "GetID s r = GetID s r'"
  shows "r = r'"
proof -
  have "10000 + r = unat (GetID s r)"
    by (simp only: clients_okD(1) [OF assms(1,2)] unat_nth_id [OF clients_okD(3) [OF assms(1,2)]])
  also have "\<dots> = 10000 + r'"
    by (simp only: assms(4) clients_okD(1) [OF assms(1,3)] unat_nth_id [OF clients_okD(3) [OF assms(1,3)]])
  finally show ?thesis by (rule add_left_imp_eq)
qed

lemma ids_nonzero:
  assumes "clients_ok s" and "r < next_ref s"
  shows "GetID s r \<noteq> 0"
  using unat_nth_id [OF clients_okD(3) [OF assms]] by (auto simp: clients_okD(1) [OF assms])

section \<open>What handlers may change\<close>

definition same_clients :: "custom_server \<Rightarrow> custom_server \<Rightarrow> bool" where
  "same_clients s t \<longleftrightarrow>
     next_ref t = next_ref s \<and> nIDCounter t = nIDCounter s \<and> s_qIn t = s_qIn s \<and>
     (\<forall>r. GetID t r = GetID s r \<and> m_nOwnerType (heap t r) = m_nOwnerType (heap s r) \<and>
        connected t r = connected s r)"

definition stays :: "custom_server \<Rightarrow> custom_server \<Rightarrow> bool" where
  "stays s t \<longleftrightarrow> same_clients s t \<and> keys t \<subseteq> keys s \<and>
     (\<forall>r. Some r \<in> set (m_deqConnection t) \<longrightarrow> Some r \<in> set (m_deqConnection s)) \<and>
     (\<forall>r. connected s r \<longrightarrow> Some r \<in> set (m_deqConnection s) \<longrightarrow> Some r \<in> set (m_deqConnection t))"

definition moves :: "custom_server \<Rightarrow> custom_server \<Rightarrow> bool" where
  "moves s t \<longleftrightarrow> stays s t \<and> (CurrentPlayerID t = CurrentPlayerID s \<or> live_turn t)"

lemma same_clients_refl [simp]: "same_clients s s"
  by (simp add: same_clients_def)

lemma stays_refl [simp]: "stays s s"
  by (simp add: stays_def)

lemma moves_refl [simp]: "moves s s"
  by (simp add: moves_def)

lemma same_clients_trans: "same_clients a b \<Longrightarrow> same_clients b c \<Longrightarrow> same_clients a c"
  unfolding same_clients_def by metis

lemma staysD:
  assumes "stays s t"
  shows "same_clients s t" and "keys t \<subseteq> keys s"
    and "Some r \<in> set (m_deqConnection t) \<Longrightarrow> Some r \<in> set (m_deqConnection s)"
    and "connected s r \<Longrightarrow> Some r \<in> set (m_deqConnection s) \<Longrightarrow> Some r \<in> set (m_deqConnection t)"
    and "GetID t r = GetID s r" and "connected t r = connected s r" and "next_ref t = next_ref s"
  using assms by (simp_all add: stays_def same_clients_def)

lemma stays_trans:
  assumes "stays a b" and "stays b c"
  shows "stays a c"
  unfolding stays_def
  using same_clients_trans [OF staysD(1) [OF assms(1)] staysD(1) [OF assms(2)]]
    subset_trans [OF staysD(2) [OF assms(2)] staysD(2) [OF assms(1)]]
    staysD(3) [OF assms(1)] staysD(3) [OF assms(2)] staysD(4) [OF assms(1)] staysD(4) [OF assms(2)]
    staysD(6) [OF assms(1)] by blast

lemma stays_live_turn:
  assumes "stays s t" and "CurrentPlayerID t = CurrentPlayerID s" and "live_turn s"
  shows "live_turn t"
  using assms(2,3) staysD(4-6) [OF assms(1)] unfolding live_turn_def by metis

lemma moves_trans: "moves a b \<Longrightarrow> moves b c \<Longrightarrow> moves a c"
  unfolding moves_def using stays_trans [of a b c] stays_live_turn [of b c] by metis

lemma moves_live_turn: "moves s t \<Longrightarrow> live_turn s \<Longrightarrow> live_turn t"
  unfolding moves_def using stays_live_turn [of s t] by metis

lemma stays_clients_ok:
  assumes "stays s t" and "clients_ok s"
  shows "clients_ok t"
proof -
  have eq: "next_ref t = next_ref s" "nIDCounter t = nIDCounter s" "s_qIn t = s_qIn s"
    "GetID t r = GetID s r" "m_nOwnerType (heap t r) = m_nOwnerType (heap s r)" "connected t r = connected s r" for r
    using staysD(1) [OF assms(1)] unfolding same_clients_def by blast+
  show ?thesis
    unfolding clients_ok_def eq
    using assms(2) staysD(3,4) [OF assms(1)] unfolding clients_ok_def by blast
qed

lemma same_clients_send [simp]: "same_clients s (send_to r m s)"
  by (simp add: same_clients_def) (simp add: send_to_def Send_def post_def)

text \<open>The invariant is about the clients, the list, the game and the turn.\<close>

lemma stays_inv_keys:
  assumes "stays s t" and "m_deqConnection t = m_deqConnection s" and "keys t = keys s" and "wf_world (gameWorld t)"
    and "CurrentPlayerID t = CurrentPlayerID s" and "server_inv s"
  shows "server_inv t"
  using assms(4,6) stays_clients_ok [OF assms(1)] staysD(5) [OF assms(1)]
  unfolding server_inv_def players_ok_def turn_ok_def assms(2,3,5) by metis

lemma stays_inv:
  assumes "stays s t" and "m_deqConnection t = m_deqConnection s" and "gameWorld t = gameWorld s"
    and "CurrentPlayerID t = CurrentPlayerID s" and "server_inv s"
  shows "server_inv t"
  using stays_inv_keys [OF assms(1,2) _ _ assms(4,5)] assms(3,5) by (simp add: server_inv_def)

lemma send_to_stays: "stays s (send_to r m s)"
  by (simp add: stays_def)

lemma send_to_inv: "server_inv s \<Longrightarrow> server_inv (send_to r m s)"
  by (rule stays_inv [OF send_to_stays]) simp_all

lemma send_to_moves: "moves s (send_to r m s)"
  by (simp add: moves_def send_to_stays)

text \<open>Changes of the game alone.\<close>

lemma world_inv:
  assumes "server_inv s" and "wf_world w" and "map fst (PlayersList w) = map fst (s_players s)"
  shows "server_inv (s\<lparr>gameWorld := w\<rparr>)" and "moves s (s\<lparr>gameWorld := w\<rparr>)"
proof -
  let ?t = "s\<lparr>gameWorld := w\<rparr>"
  have k: "keys ?t = keys s" using assms(3) by simp (metis image_set)
  have "same_clients s ?t" by (simp add: same_clients_def)
  then have stay: "stays s ?t" unfolding stays_def k by simp
  have "players_ok ?t" "turn_ok ?t"
    using assms(1) unfolding server_inv_def players_ok_def turn_ok_def k by simp_all
  then show "server_inv ?t" using assms(1,2) stays_clients_ok [OF stay] by (simp add: server_inv_def)
  show "moves s ?t" using stay by (simp add: moves_def)
qed

lemma turn_inv:
  assumes "server_inv s" and "(k, p) \<in> set (s_players s)"
  shows "server_inv (s\<lparr>CurrentPlayerID := pID p\<rparr>)" and "stays s (s\<lparr>CurrentPlayerID := pID p\<rparr>)"
    and "pID p \<in> keys s"
proof -
  have "pID p = k" using wf_world_ids [of "gameWorld s"] assms by (auto simp: server_inv_def)
  then show p: "pID p \<in> keys s" using assms(2) by force
  let ?t = "s\<lparr>CurrentPlayerID := pID p\<rparr>"
  show stay: "stays s ?t" by (simp add: stays_def same_clients_def)
  show "server_inv ?t"
    using assms(1) stays_clients_ok [OF stay] p by (simp add: server_inv_def players_ok_def turn_ok_def)
qed

text \<open>A client's entry is reset, the player behind it being gone; null entries are erased.\<close>

lemma deque_inv:
  assumes "server_inv s" and sub: "\<And>r. Some r \<in> set d \<Longrightarrow> Some r \<in> set (m_deqConnection s)"
    and lost: "\<And>r. Some r \<in> set (m_deqConnection s) \<Longrightarrow> Some r \<notin> set d \<Longrightarrow> \<not> connected s r \<and> GetID s r \<notin> keys s"
  shows "server_inv (s\<lparr>m_deqConnection := d\<rparr>)" and "moves s (s\<lparr>m_deqConnection := d\<rparr>)"
proof -
  let ?t = "s\<lparr>m_deqConnection := d\<rparr>"
  have same: "same_clients s ?t" by (simp add: same_clients_def)
  have stay: "stays s ?t" unfolding stays_def using same sub lost by auto
  have "players_ok ?t"
    unfolding players_ok_def
  proof
    fix k assume "k \<in> keys ?t"
    then have k: "k \<in> keys s" by simp
    then obtain r where "Some r \<in> set (m_deqConnection s)" "GetID s r = k"
      using assms(1) unfolding server_inv_def players_ok_def by blast
    then show "\<exists>r. Some r \<in> set (m_deqConnection ?t) \<and> GetID ?t r = k" using lost [of r] k by auto
  qed
  then show "server_inv ?t"
    using assms(1) stays_clients_ok [OF stay] by (simp add: server_inv_def turn_ok_def)
  show "moves s ?t" using stay by (simp add: moves_def)
qed

lemma erase_null_inv:
  assumes "server_inv s"
  shows "server_inv (erase_null s)" and "moves s (erase_null s)"
  unfolding erase_null_def by (rule deque_inv [OF assms]; auto)+

text \<open>Picking the next player and its connection.\<close>

lemma next_player_in: "next_player k ps = Inr (Some q) \<Longrightarrow> \<exists>k'. (k', q) \<in> set ps"
  by (induction k ps rule: next_player.induct) (auto split: list.splits if_splits)

lemma first_player_in: "first_player ps = Inr p \<Longrightarrow> \<exists>k. (k, p) \<in> set ps"
  by (auto simp: first_player_def split: list.splits)

lemma refresh_turns_keeps:
  assumes "server_inv s" and run: "refresh_turns s = Inr s'"
  shows "server_inv s'" and "moves s s'" and "m_deqConnection s' = m_deqConnection s"
    and "CurrentPlayerID s' = CurrentPlayerID s"
proof -
  obtain p c where p: "players (gameWorld s) (CurrentPlayerID s) = Some p"
    "s' = set_players (AList.update (CurrentPlayerID s) (p\<lparr>CurrentTurns := c\<rparr>) (s_players s)) s"
    using run by (auto simp: refresh_turns_def split: option.splits dest!: SetCurrent_Inr)
  have "wf_world (gameWorld s)" using assms(1) by (simp add: server_inv_def)
  from update_turns_keeps [OF this p(1), of c] have
    "wf_world (gameWorld s')" "map fst (s_players s') = map fst (s_players s)"
    by (simp_all add: p(2) world_kept_def)
  then show "server_inv s'" "moves s s'"
    using world_inv [OF assms(1), of "gameWorld s'"] by (simp_all add: p(2) set_players_def)
  show "m_deqConnection s' = m_deqConnection s" "CurrentPlayerID s' = CurrentPlayerID s" by (simp_all add: p(2))
qed

section \<open>What the callers of the disconnect handler keep\<close>

text \<open>The clients the handler is called for: no pointer, or a known connection that is closed.\<close>

definition dead :: "custom_server \<Rightarrow> nat option \<Rightarrow> bool" where
  "dead s c \<longleftrightarrow> (\<forall>r. c = Some r \<longrightarrow> r < next_ref s \<and> \<not> connected s r)"

locale turn_keeper =
  fixes disc :: "custom_server handler"
  assumes keeps_inv: "server_inv s \<Longrightarrow> dead s c \<Longrightarrow> disc c s = Inr s' \<Longrightarrow> server_inv s'"
    and keeps_moves: "server_inv s \<Longrightarrow> dead s c \<Longrightarrow> disc c s = Inr s' \<Longrightarrow> moves s s'"
    and keeps_deque: "server_inv s \<Longrightarrow> dead s c \<Longrightarrow> disc c s = Inr s' \<Longrightarrow>
      subseq (m_deqConnection s') (m_deqConnection s)"
    and removes_player: "server_inv s \<Longrightarrow> dead s (Some r) \<Longrightarrow> disc (Some r) s = Inr s' \<Longrightarrow> GetID s r \<notin> keys s'"
begin

lemma MessageClient_keeps:
  assumes "server_inv s" and "r < next_ref s" and run: "MessageClient disc (Some r) m s = Inr s'"
  shows "server_inv s'" and "moves s s'" and "subseq (m_deqConnection s') (m_deqConnection s)"
    and "\<not> connected s r \<Longrightarrow> GetID s r \<notin> keys s'"
proof -
  have "server_inv s' \<and> moves s s' \<and> subseq (m_deqConnection s') (m_deqConnection s) \<and>
      (\<not> connected s r \<longrightarrow> GetID s r \<notin> keys s')"
  proof (cases "connected s r")
    case True
    then show ?thesis using run assms(1) by (auto simp: MessageClient_def send_to_inv send_to_moves)
  next
    case False
    then obtain t where t: "disc (Some r) s = Inr t" "s' = erase_null t"
      using run by (auto simp: MessageClient_def)
    have d: "dead s (Some r)" using False assms(2) by (simp add: dead_def)
    note k = keeps_inv [OF assms(1) d t(1)] keeps_moves [OF assms(1) d t(1)] keeps_deque [OF assms(1) d t(1)]
      removes_player [OF assms(1) d t(1)]
    have "subseq (m_deqConnection s') (m_deqConnection s)"
      using subseq_order.trans [OF subseq_filter_left k(3)] by (simp add: t(2) erase_null_def)
    moreover have "keys s' = keys t" by (simp add: t(2) erase_null_def)
    ultimately show ?thesis using erase_null_inv [OF k(1)] k(2,4) t(2) by (auto intro: moves_trans)
  qed
  then show "server_inv s'" "moves s s'" "subseq (m_deqConnection s') (m_deqConnection s)"
    "\<not> connected s r \<Longrightarrow> GetID s r \<notin> keys s'" by blast+
qed

text \<open>The loop over the list: an entry of the list is as before, or null once its player is gone.\<close>

definition entries :: "custom_server \<Rightarrow> custom_server \<Rightarrow> bool" where
  "entries s t \<longleftrightarrow> list_all2 (\<lambda>c c'. c' = c \<or> c' = None) (m_deqConnection s) (m_deqConnection t)"

lemma message_entry_keeps:
  assumes inv: "server_inv t" and run: "message_entry disc m ig i (t, b) = Inr (t', b')"
    and i: "i < length (m_deqConnection t)"
  shows "server_inv t'" and "moves t t'" and "entries t t'" and "b' \<or> b' = b \<and> m_deqConnection t' = m_deqConnection t"
proof -
  let ?c = "m_deqConnection t ! i"
  have "server_inv t' \<and> moves t t' \<and> entries t t' \<and> (b' \<or> b' = b \<and> m_deqConnection t' = m_deqConnection t)"
  proof (cases "live t ?c")
    case True
    then show ?thesis using run inv
      by (auto simp: message_entry_def Let_def live_def send_to_inv send_to_moves entries_def list_all2_refl split: if_splits)
  next
    case False
    then have "\<not> (case ?c of Some r \<Rightarrow> connected t r | None \<Rightarrow> False)" by (auto simp: live_def split: option.splits)
    then obtain u where u: "disc ?c t = Inr u" "length (m_deqConnection u) = length (m_deqConnection t)"
      "t' = u\<lparr>m_deqConnection := (m_deqConnection u)[i := None]\<rparr>" "b'"
      using run by (auto simp: message_entry_def Let_def split: if_splits)
    have "?c \<in> set (m_deqConnection t)" using i by simp
    then have d: "dead t ?c"
      using False inv unfolding dead_def live_def server_inv_def clients_ok_def by metis
    have same: "m_deqConnection u = m_deqConnection t"
      using keeps_deque [OF inv d u(1)] u(2) by (rule subseq_same_length)
    have lost: "\<not> connected u r \<and> GetID u r \<notin> keys u"
      if "Some r \<in> set (m_deqConnection u)" "Some r \<notin> set ((m_deqConnection u)[i := None])" for r
    proof -
      have "m_deqConnection u ! i = Some r"
        using that by (metis in_set_conv_nth length_list_update nth_list_update_neq)
      then have c: "?c = Some r" by (simp add: same)
      have "stays t u" using keeps_moves [OF inv d u(1)] by (simp add: moves_def)
      then show ?thesis using removes_player [of t r u] inv d u(1) staysD(5,6) [of t u r] False
        by (simp add: c live_def)
    qed
    have iu: "server_inv u" by (rule keeps_inv [OF inv d u(1)])
    have sub: "Some r \<in> set (m_deqConnection u)" if "Some r \<in> set ((m_deqConnection u)[i := None])" for r
      using that set_update_subset_insert [of "m_deqConnection u" i None] by auto
    have "entries t t'"
      unfolding entries_def u(3) using i by (auto simp: same list_all2_conv_all_nth nth_list_update)
    then show ?thesis
      using deque_inv [OF iu sub lost] keeps_moves [OF inv d u(1)] u(3,4) by (auto intro: moves_trans)
  qed
  then show "server_inv t'" "moves t t'" "entries t t'" "b' \<or> b' = b \<and> m_deqConnection t' = m_deqConnection t"
    by blast+
qed

lemma entries_trans: "entries a b \<Longrightarrow> entries b c \<Longrightarrow> entries a c"
  unfolding entries_def list_all2_conv_all_nth by metis

lemma entries_erased:
  "list_all2 (\<lambda>c c'. c' = c \<or> c' = None) xs ys \<Longrightarrow> subseq (filter (\<lambda>c. c \<noteq> None) ys) xs"
  by (induction rule: list_all2_induct) (auto intro: list_emb_Cons)

lemma MessageAllClients_keeps:
  assumes inv: "server_inv s" and run: "MessageAllClients disc m ig s = Inr s'"
  shows "server_inv s'" and "moves s s'" and "subseq (m_deqConnection s') (m_deqConnection s)"
proof -
  let ?n = "length (m_deqConnection s)"
  let ?I = "\<lambda>(t, b). server_inv t \<and> moves s t \<and> entries s t \<and> (b \<or> m_deqConnection t = m_deqConnection s)"
  have step: "?I tb'" if "i \<in> set [0..<?n]" "?I tb" "message_entry disc m ig i tb = Inr tb'" for i tb tb'
  proof -
    obtain t b t' b' where tb: "tb = (t, b)" "tb' = (t', b')" by fastforce
    have I: "server_inv t" "moves s t" "entries s t" "b \<or> m_deqConnection t = m_deqConnection s"
      using that(2) by (simp_all add: tb)
    have "length (m_deqConnection t) = ?n"
      using I(3) unfolding entries_def by (rule list_all2_lengthD [symmetric])
    then have i: "i < length (m_deqConnection t)" using that(1) by simp
    note k = message_entry_keeps [OF I(1) that(3) [unfolded tb] i]
    have "b' \<or> m_deqConnection t' = m_deqConnection s" using k(4) I(4) by metis
    then show ?thesis using k(1) moves_trans [OF I(2) k(2)] entries_trans [OF I(3) k(3)] by (simp add: tb)
  qed
  obtain t b where t: "res_fold (message_entry disc m ig) [0..<?n] (s, False) = Inr (t, b)"
    "s' = (if b then erase_null t else t)"
    using run by (auto simp: MessageAllClients_def)
  have "?I (s, False)" using inv by (simp add: entries_def list_all2_refl)
  from res_fold_invariant [of "[0..<?n]" ?I, OF step this t(1)] have
    I: "server_inv t" "moves s t" "entries s t" "b \<or> m_deqConnection t = m_deqConnection s" by simp_all
  show "server_inv s'" "moves s s'"
    using I(1,2) erase_null_inv [OF I(1)] t(2) by (auto intro: moves_trans)
  show "subseq (m_deqConnection s') (m_deqConnection s)"
    using I(3,4) t(2) entries_erased [of "m_deqConnection s" "m_deqConnection t"]
    by (auto simp: entries_def erase_null_def)
qed

lemma MessageAll_fold_keeps:
  assumes "server_inv s" and "res_fold (\<lambda>x. MessageAllClients disc (m x) ig) xs s = Inr s'"
  shows "server_inv s'" and "moves s s'" and "subseq (m_deqConnection s') (m_deqConnection s)"
proof -
  let ?I = "\<lambda>t. server_inv t \<and> moves s t \<and> subseq (m_deqConnection t) (m_deqConnection s)"
  have step: "?I t'" if "x \<in> set xs" "?I t" "MessageAllClients disc (m x) ig t = Inr t'" for x t t'
    using MessageAllClients_keeps [OF _ that(3)] that(2) by (blast intro: moves_trans subseq_order.trans)
  have "?I s'"
  proof (rule res_fold_invariant [where I = ?I, OF _ _ assms(2)])
    show "?I s" using assms(1) by simp
  qed (rule step)
  then show "server_inv s'" "moves s s'" "subseq (m_deqConnection s') (m_deqConnection s)" by blast+
qed

lemma MakeAITurn_keeps:
  assumes inv: "server_inv s" and run: "MakeAITurn F disc s = Inr s'"
  shows "server_inv s'" and "moves s s'" and "subseq (m_deqConnection s') (m_deqConnection s)"
proof -
  from run obtain a t where a: "enemies_turn F (gameWorld s) = Inr a"
    "res_fold (\<lambda>action. MessageAllClients disc (with_data GameAITurnAction (enc_EnemyAction action)) None)
       (ai_acts a) (s\<lparr>gameWorld := ai_world a\<rparr>) = Inr t"
    "s' = t\<lparr>gameWorld := bury_dead (EnemyListDirt a) (gameWorld t)\<rparr>"
    by (auto simp: MakeAITurn_def)
  have "wf_world (gameWorld s)" using inv by (simp add: server_inv_def)
  from enemies_turn_keeps [OF this a(1)] have
    w: "wf_world (ai_world a)" "map fst (PlayersList (ai_world a)) = map fst (s_players s)"
    by (simp_all add: world_kept_def)
  note i1 = world_inv [OF inv w]
  note i2 = MessageAll_fold_keeps [OF i1(1) a(2)]
  have "wf_world (bury_dead (EnemyListDirt a) (gameWorld t))"
    using i2(1) by (simp add: server_inv_def bury_dead_wf)
  note i3 = world_inv [OF i2(1) this bury_dead_players [THEN arg_cong], folded a(3)]
  show "server_inv s'" by (rule i3(1))
  show "moves s s'" by (rule moves_trans [OF moves_trans [OF i1(2) i2(2)] i3(2)])
  show "subseq (m_deqConnection s') (m_deqConnection s)" using i2(3) by (simp add: a(3))
qed

lemma choose_current_keeps:
  assumes inv: "server_inv s" and run: "choose_current F disc client s = Inr s'"
  shows "server_inv s'" and "stays s s'" and "subseq (m_deqConnection s') (m_deqConnection s)"
    and "CurrentPlayerID s' \<in> keys s'"
proof -
  have pick: "server_inv s' \<and> stays s s' \<and> subseq (m_deqConnection s') (m_deqConnection s) \<and>
      CurrentPlayerID s' \<in> keys s'"
    if "server_inv t" "moves s t" "subseq (m_deqConnection t) (m_deqConnection s)"
      "(k, p) \<in> set (s_players t)" "s' = t\<lparr>CurrentPlayerID := pID p\<rparr>" for t k p
  proof (intro conjI)
    note k = turn_inv [OF that(1,4), folded that(5)]
    show "server_inv s'" by (rule k(1))
    show "stays s s'" using that(2) k(2) unfolding moves_def by (blast intro: stays_trans)
    show "subseq (m_deqConnection s') (m_deqConnection s)" using that(3) by (simp add: that(5))
    show "CurrentPlayerID s' \<in> keys s'" using k(3) by (simp add: that(5))
  qed
  have "server_inv s' \<and> stays s s' \<and> subseq (m_deqConnection s') (m_deqConnection s) \<and>
      CurrentPlayerID s' \<in> keys s'"
  proof (cases client)
    case None
    then obtain p where p: "first_player (s_players s) = Inr p" "s' = s\<lparr>CurrentPlayerID := pID p\<rparr>"
      using run by (auto simp: choose_current_def)
    from first_player_in [OF p(1)] obtain k where "(k, p) \<in> set (s_players s)" ..
    from pick [OF inv moves_refl subseq_order.refl this p(2)] show ?thesis .
  next
    case (Some r)
    then consider (later) q where "next_player (GetID s r) (s_players s) = Inr (Some q)"
        "s' = s\<lparr>CurrentPlayerID := pID q\<rparr>"
      | (wrap) t p where "MakeAITurn F disc s = Inr t" "first_player (s_players t) = Inr p"
        "s' = t\<lparr>CurrentPlayerID := pID p\<rparr>"
      using run by (auto simp: choose_current_def split: option.splits)
    then show ?thesis
    proof cases
      case later
      from next_player_in [OF later(1)] obtain k where "(k, q) \<in> set (s_players s)" ..
      from pick [OF inv moves_refl subseq_order.refl this later(2)] show ?thesis .
    next
      case wrap
      from first_player_in [OF wrap(2)] obtain k where "(k, p) \<in> set (s_players t)" ..
      from pick [OF MakeAITurn_keeps [OF inv wrap(1)] this wrap(3)] show ?thesis .
    qed
  qed
  then show "server_inv s'" "stays s s'" "subseq (m_deqConnection s') (m_deqConnection s)"
    "CurrentPlayerID s' \<in> keys s'" by blast+
qed

text \<open>Telling the player on turn: afterwards the client that is on turn can be reached.\<close>

lemma tell_current_keeps:
  assumes inv: "server_inv s" and here: "CurrentPlayerID s \<in> keys s"
    and found: "find_client s (CurrentPlayerID s) (m_deqConnection s) = Inr c"
    and run: "(case c of None \<Rightarrow> Inr s
       | Some r \<Rightarrow> MessageClient disc (Some r) (new_message GamePlayerTurn) s) = Inr s'"
  shows "server_inv s'" and "moves s s'" and "subseq (m_deqConnection s') (m_deqConnection s)" and "live_turn s'"
proof -
  obtain r where r: "c = Some r" "Some r \<in> set (m_deqConnection s)" "GetID s r = CurrentPlayerID s"
  proof (cases c)
    case None
    obtain q where "Some q \<in> set (m_deqConnection s)" "GetID s q = CurrentPlayerID s"
      using inv here unfolding server_inv_def players_ok_def by blast
    then show ?thesis using find_client_none [OF found [unfolded None]] by blast
  next
    case (Some q)
    then show ?thesis using that find_client_some [OF found [unfolded Some]] by blast
  qed
  have ok: "clients_ok s" using inv by (simp add: server_inv_def)
  then have r_known: "r < next_ref s" using r(2) unfolding clients_ok_def by blast
  have run: "MessageClient disc (Some r) (new_message GamePlayerTurn) s = Inr s'" using run r(1) by simp
  note k = MessageClient_keeps [OF inv r_known run]
  show "server_inv s'" "moves s s'" "subseq (m_deqConnection s') (m_deqConnection s)" by (rule k(1-3))+
  show "live_turn s'"
  proof (cases "connected s r")
    case True
    then have "s' = send_to r (new_message GamePlayerTurn) s" using run by (simp add: MessageClient_def)
    moreover have "live_turn s" using True r unfolding live_turn_def by blast
    ultimately show ?thesis using moves_live_turn [OF k(2)] by simp
  next
    case False
    have gone: "CurrentPlayerID s \<notin> keys s'" using k(4) [OF False] r(3) by simp
    have "CurrentPlayerID s \<noteq> 0" using ids_nonzero [OF ok r_known] r(3) by simp
    then have "CurrentPlayerID s' \<noteq> CurrentPlayerID s" 
      using gone k(1) unfolding server_inv_def turn_ok_def by metis
    then show ?thesis using k(2) unfolding moves_def by blast
  qed
qed

lemma ChooseNext_keeps:
  assumes inv: "server_inv s" and run: "ChooseNextPlayerForTurn F disc client s = Inr s'"
  shows "server_inv s'" and "moves s s'" and "subseq (m_deqConnection s') (m_deqConnection s)"
    and "s_players s \<noteq> [] \<Longrightarrow> live_turn s'"
proof -
  have "server_inv s' \<and> moves s s' \<and> subseq (m_deqConnection s') (m_deqConnection s) \<and>
      (s_players s \<noteq> [] \<longrightarrow> live_turn s')"
  proof (cases "s_players s = []")
    case True
    then show ?thesis using run inv by (simp add: ChooseNextPlayerForTurn_def)
  next
    case False
    obtain s1 c s2 where s1: "choose_current F disc client s = Inr s1"
      and c: "find_client s1 (CurrentPlayerID s1) (m_deqConnection s1) = Inr c"
      and s2: "(case c of None \<Rightarrow> Inr s1
        | Some r \<Rightarrow> MessageClient disc (Some r) (new_message GamePlayerTurn) s1) = Inr s2"
      and s': "refresh_turns s2 = Inr s'"
      using run False by (auto simp: ChooseNextPlayerForTurn_def)
    note k1 = choose_current_keeps [OF inv s1]
    note k2 = tell_current_keeps [OF k1(1,4) c s2]
    note k3 = refresh_turns_keeps [OF k2(1) s']
    have lt: "live_turn s'" using k2(4) k3(2) moves_live_turn by blast
    have "stays s s'" using k1(2) k2(2) k3(2) unfolding moves_def by (blast intro: stays_trans)
    moreover have "subseq (m_deqConnection s') (m_deqConnection s)"
      using subseq_order.trans [OF k2(3) k1(3)] k3(3) by simp
    ultimately show ?thesis using k3(1) lt unfolding moves_def by blast
  qed
  then show "server_inv s'" "moves s s'" "subseq (m_deqConnection s') (m_deqConnection s)"
    "s_players s \<noteq> [] \<Longrightarrow> live_turn s'" by blast+
qed

end

section \<open>The disconnect handler\<close>

lemma delete_inv:
  assumes inv: "server_inv s" and "CurrentPlayerID s \<noteq> i"
    and t: "t = (set_players (AList.delete i (s_players s)) s)\<lparr>GarbageIDs := g\<rparr>"
  shows "server_inv t" and "moves s t" and "i \<notin> keys t" and "m_deqConnection t = m_deqConnection s"
    and "live_turn s \<Longrightarrow> live_turn t"
proof -
  have "set (map fst (s_players t)) = set (map fst (s_players s)) - {i}"
    by (simp add: t set_players_def delete_keys del: set_map)
  then have ks: "keys t = keys s - {i}" by simp
  then show "i \<notin> keys t" by blast
  show d: "m_deqConnection t = m_deqConnection s" by (simp add: t set_players_def)
  have c: "CurrentPlayerID t = CurrentPlayerID s" by (simp add: t set_players_def)
  have same: "same_clients s t" by (simp add: same_clients_def t set_players_def connected_def GetID_def)
  have stay: "stays s t" unfolding stays_def d using same ks by blast
  have "wf_world (gameWorld t)"
    using inv by (simp add: t set_players_def server_inv_def wf_world_delete)
  moreover have "players_ok t"
    unfolding players_ok_def
  proof
    fix k assume "k \<in> keys t"
    then have "k \<in> keys s" using staysD(2) [OF stay] by blast
    then obtain r where "Some r \<in> set (m_deqConnection s)" "GetID s r = k"
      using inv unfolding server_inv_def players_ok_def by blast
    then show "\<exists>r. Some r \<in> set (m_deqConnection t) \<and> GetID t r = k" using staysD(5) [OF stay] d by auto
  qed
  moreover have "turn_ok t"
  proof -
    have "turn_ok s" using inv by (simp add: server_inv_def)
    then show ?thesis using assms(2) unfolding turn_ok_def c ks by blast
  qed
  ultimately show "server_inv t"
    using inv stays_clients_ok [OF stay] unfolding server_inv_def by metis
  show "moves s t" using stay c unfolding moves_def by blast
  then show "live_turn s \<Longrightarrow> live_turn t" by (rule moves_live_turn)
qed

text \<open>Passing the turn before the player is deleted takes it from a client that is closed.\<close>

lemma live_turn_other:
  assumes "clients_ok s" and "live_turn s" and "r < next_ref s" and "\<not> connected s r"
  shows "CurrentPlayerID s \<noteq> GetID s r"
proof -
  obtain q where q: "Some q \<in> set (m_deqConnection s)" "GetID s q = CurrentPlayerID s" "connected s q"
    using assms(2) unfolding live_turn_def by blast
  have "q < next_ref s" using q(1) assms(1) unfolding clients_ok_def by blast
  then show ?thesis using ids_distinct [OF assms(1) _ assms(3), of q] q assms(4) by auto
qed

lemma client_gone_keeps:
  assumes "turn_keeper disc" and inv: "server_inv s" and d: "dead s c"
    and run: "client_gone (ChooseNextPlayerForTurn F disc) c s = Inr s'"
  shows "server_inv s'" and "moves s s'" and "subseq (m_deqConnection s') (m_deqConnection s)"
    and "c = Some q \<Longrightarrow> GetID s q \<notin> keys s'"
    and "c = Some q \<Longrightarrow> GetID s q = CurrentPlayerID s \<Longrightarrow> GetID s q \<in> keys s \<Longrightarrow> live_turn s'"
proof -
  obtain r where r: "c = Some r" using run by (cases c) (auto simp: client_gone_def)
  have dr: "r < next_ref s" "\<not> connected s r" using d r by (simp_all add: dead_def)
  let ?i = "GetID s r"
  have "server_inv s' \<and> moves s s' \<and> subseq (m_deqConnection s') (m_deqConnection s) \<and> ?i \<notin> keys s' \<and>
      (?i = CurrentPlayerID s \<longrightarrow> ?i \<in> keys s \<longrightarrow> live_turn s')"
  proof (cases "?i \<in> keys s")
    case False
    then have "s' = s" using run r by (auto simp: client_gone_def Let_def)
    then show ?thesis using inv False by (metis moves_refl subseq_order.refl)
  next
    case True
    then obtain t where t: "(if ?i = CurrentPlayerID s then ChooseNextPlayerForTurn F disc (Some r) s else Inr s) = Inr t"
      and s': "s' = (set_players (AList.delete ?i (s_players t)) t)\<lparr>GarbageIDs := GarbageIDs t @ [?i]\<rparr>"
      using run r by (auto simp: client_gone_def Let_def)
    have t_ok: "server_inv t \<and> moves s t \<and> subseq (m_deqConnection t) (m_deqConnection s) \<and>
        (?i = CurrentPlayerID s \<longrightarrow> live_turn t) \<and> CurrentPlayerID t \<noteq> ?i"
    proof (cases "?i = CurrentPlayerID s")
      case on_turn: True
      have ne: "s_players s \<noteq> []" using True by auto
      have run_t: "ChooseNextPlayerForTurn F disc (Some r) s = Inr t" using t on_turn by simp
      note k = turn_keeper.ChooseNext_keeps [OF assms(1) inv run_t]
      have st: "stays s t" using k(2) by (simp add: moves_def)
      have "clients_ok t" using k(1) by (simp add: server_inv_def)
      from live_turn_other [OF this k(4) [OF ne], of r] dr staysD(5-7) [OF st]
      have "CurrentPlayerID t \<noteq> ?i" by simp
      then show ?thesis using k(1-3) k(4) [OF ne] by blast
    next
      case off_turn: False
      then show ?thesis using t inv by simp
    qed
    from t_ok have ok: "server_inv t" "CurrentPlayerID t \<noteq> ?i" by blast+
    note k = delete_inv [OF ok s']
    then show ?thesis using t_ok k(4) moves_trans [OF _ k(2), of s] by auto
  qed
  then show "server_inv s'" "moves s s'" "subseq (m_deqConnection s') (m_deqConnection s)"
    "c = Some q \<Longrightarrow> GetID s q \<notin> keys s'"
    "c = Some q \<Longrightarrow> GetID s q = CurrentPlayerID s \<Longrightarrow> GetID s q \<in> keys s \<Longrightarrow> live_turn s'"
    using r by blast+
qed

lemma OnClientDisconnect_keeper: "turn_keeper (OnClientDisconnect F n)"
proof (induction n)
  case 0
  show ?case by unfold_locales simp_all
next
  case (Suc n)
  show ?case
    by unfold_locales (use client_gone_keeps [OF Suc.IH] in \<open>simp only: OnClientDisconnect.simps\<close>; blast)+
qed

interpretation turns: turn_keeper "OnClientDisconnect F n" for F n
  by (rule OnClientDisconnect_keeper)

end
