(* ===== verification/ServerRun.thy ===== *)
theory ServerRun
  imports ServerInv
begin

text \<open>
  The running server: accepted connections, what the connections do on the network, the periodic check
  and the messages the server handles, in any order. The invariant of theory ServerInv holds in every
  state that can be reached.
\<close>

section \<open>Messages\<close>

definition kept :: "custom_server \<Rightarrow> custom_server \<Rightarrow> bool" where
  "kept s t \<longleftrightarrow> server_inv t \<and> next_ref t = next_ref s"

lemma kept_inv: "kept s t \<Longrightarrow> server_inv t"
  by (simp add: kept_def)

lemma kept_refl: "server_inv s \<Longrightarrow> kept s s"
  by (simp add: kept_def)

lemma kept_trans: "kept a b \<Longrightarrow> kept b c \<Longrightarrow> kept a c"
  by (simp add: kept_def)

lemma kept_moves: "server_inv t \<Longrightarrow> moves s t \<Longrightarrow> kept s t"
  unfolding kept_def moves_def by (blast dest: staysD(7))

lemma client_message_kept:
  "server_inv s \<Longrightarrow> r < next_ref s \<Longrightarrow> MessageClient (OnClientDisconnect F n) (Some r) m s = Inr s' \<Longrightarrow> kept s s'"
  by (rule kept_moves [OF turns.MessageClient_keeps(1,2)])

lemma all_message_kept:
  "server_inv s \<Longrightarrow> MessageAllClients (OnClientDisconnect F n) m ig s = Inr s' \<Longrightarrow> kept s s'"
  by (rule kept_moves [OF turns.MessageAllClients_keeps(1,2)])

lemma next_kept:
  "server_inv s \<Longrightarrow> ChooseNextPlayerForTurn F (OnClientDisconnect F n) c s = Inr s' \<Longrightarrow> kept s s'"
  by (rule kept_moves [OF turns.ChooseNext_keeps(1,2)])

lemma send_kept: "server_inv s \<Longrightarrow> kept s (send_to r m s)"
  by (rule kept_moves [OF send_to_inv send_to_moves])

text \<open>A loop all of whose rounds keep the invariant.\<close>

lemma fold_kept:
  assumes "server_inv s" and "res_fold f xs s = Inr s'"
    and step: "\<And>x t t'. server_inv t \<Longrightarrow> next_ref t = next_ref s \<Longrightarrow> f x t = Inr t' \<Longrightarrow> kept t t'"
  shows "kept s s'"
proof (rule res_fold_invariant [where I = "kept s", OF _ kept_refl [OF assms(1)] assms(2)])
  fix x t t'
  assume I: "kept s t" and run: "f x t = Inr t'"
  have "kept t t'" by (rule step [OF kept_inv [OF I] _ run]) (use I in \<open>simp add: kept_def\<close>)
  with I show "kept s t'" by (rule kept_trans)
qed

lemma garbage_kept:
  assumes "server_inv s"
  shows "kept s (s\<lparr>GarbageIDs := g\<rparr>)"
proof -
  have stay: "stays s (s\<lparr>GarbageIDs := g\<rparr>)" by (simp add: stays_def same_clients_def)
  show ?thesis by (rule kept_moves [OF stays_inv [OF stay] ]) (use assms stay in \<open>simp_all add: moves_def\<close>)
qed

lemma flush_garbage_kept:
  assumes "server_inv s" and "flush_garbage (OnClientDisconnect F n) s = Inr s'"
  shows "kept s s'"
proof (cases "GarbageIDs s = []")
  case True
  then show ?thesis using assms by (simp add: flush_garbage_def kept_refl)
next
  case False
  then obtain t where t: "s' = t\<lparr>GarbageIDs := []\<rparr>"
    and run: "res_fold (\<lambda>pid t. res_bind (MessageAllClients (OnClientDisconnect F n)
         (with_data GameRemovePlayer (enc_u32 pid)) None t)
       (\<lambda>t'. if length (GarbageIDs t') = length (GarbageIDs t) then Inr t' else Inl Undefined))
       (GarbageIDs s) s = Inr t"
    using assms(2) by (auto simp: flush_garbage_def)
  have "kept s t"
    by (rule fold_kept [OF assms(1) run]) (auto split: if_splits intro: all_message_kept)
  then show ?thesis using garbage_kept [OF kept_inv, of s t "[]"] t by (blast intro: kept_trans)
qed

lemma send_enemies_kept:
  assumes "server_inv s" and "r < next_ref s" and "send_enemies (OnClientDisconnect F n) r s = Inr s'"
  shows "kept s s'"
  by (rule fold_kept [OF assms(1) assms(3) [unfolded send_enemies_def]])
    (use assms(2) in \<open>auto split: if_splits intro: client_message_kept\<close>)

lemma send_others_kept:
  assumes "server_inv s" and "r < next_ref s" and "send_others (OnClientDisconnect F n) r i s = Inr s'"
  shows "kept s s'"
proof (rule fold_kept [OF assms(1) assms(3) [unfolded send_others_def]])
  fix k t t'
  assume inv: "server_inv t" "next_ref t = next_ref s"
    and run: "(case map_of (s_players t) k of None \<Rightarrow> Inr t
      | Some p \<Rightarrow> if pID p = i then Inr t
          else res_bind (MessageClient (OnClientDisconnect F n) (Some r) (with_data ClientAddPlayer (enc_Player p)) t)
                 (\<lambda>t'. if k \<in> keys t' then Inr t' else Inl Undefined)) = Inr t'"
  show "kept t t'"
    using run client_message_kept [OF inv(1), of r F n] assms(2) inv(2) kept_refl [OF inv(1)]
    by (auto split: option.splits if_splits)
qed

section \<open>Registering\<close>

text \<open>
  The player a client registers is stored before the client is answered. A connection that has left the
  list is closed; then the first answer takes the player out of the game again.
\<close>

lemma stored_inv:
  assumes inv: "server_inv s" and r: "Some r \<in> set (m_deqConnection s)" and p: "wf_Player (GetID s r) p"
    and t: "t = set_players (insert_player rank (GetID s r) p (s_players s)) (s\<lparr>rpos := j\<rparr>)"
  shows "kept s t"
proof -
  have same: "same_clients s t" "m_deqConnection t = m_deqConnection s" "next_ref t = next_ref s"
    "CurrentPlayerID t = CurrentPlayerID s"
    by (simp_all add: t same_clients_def set_players_def connected_def GetID_def)
  have ks: "keys t = insert (GetID s r) (keys s)" by (simp add: t set_players_def dom_update)
  have ids: "GetID t q = GetID s q" for q using same(1) by (simp add: same_clients_def)
  have "clients_ok t"
    using inv same(1) unfolding server_inv_def clients_ok_def same_clients_def same(2) by metis
  moreover have "wf_world (gameWorld t)"
    using inv p by (simp add: t set_players_def server_inv_def wf_world_insert_player)
  moreover have "players_ok t"
    using inv r unfolding server_inv_def players_ok_def ks same(2) ids by blast
  moreover have "turn_ok t"
    using inv unfolding server_inv_def turn_ok_def ks same(4) by blast
  ultimately show ?thesis by (simp add: kept_def server_inv_def same(3))
qed

lemma ghost_kept:
  assumes inv: "server_inv s" and r: "r < next_ref s" "Some r \<notin> set (m_deqConnection s)" and p: "wf_Player (GetID s r) p"
    and t: "t = set_players (insert_player rank (GetID s r) p (s_players s)) (s\<lparr>rpos := j\<rparr>)"
    and run: "MessageClient (OnClientDisconnect F n) (Some r) m t = Inr s'"
  shows "kept s s'"
proof -
  let ?i = "GetID s r"
  have ok: "clients_ok s" using inv by (simp add: server_inv_def)
  have closed: "\<not> connected s r" using clients_okD(4) [OF ok r(1)] r(2) by blast
  have none: "?i \<notin> keys s"
  proof
    assume "?i \<in> keys s"
    then obtain q where q: "Some q \<in> set (m_deqConnection s)" "GetID s q = ?i"
      using inv unfolding server_inv_def players_ok_def by blast
    then have "q < next_ref s" using ok unfolding clients_ok_def by blast
    then show False using ids_distinct [OF ok _ r(1) q(2)] q(1) r(2) by blast
  qed
  have "CurrentPlayerID s \<noteq> ?i"
    using inv none ids_nonzero [OF ok r(1)] unfolding server_inv_def turn_ok_def by metis
  then have off: "GetID t r \<noteq> CurrentPlayerID t" "GetID t r = ?i" by (auto simp: t set_players_def GetID_def)
  have "\<not> connected t r" using closed by (simp add: t set_players_def connected_def)
  then obtain u where u: "OnClientDisconnect F n (Some r) t = Inr u" "s' = erase_null u"
    using run by (auto simp: MessageClient_def)
  obtain k where k: "n = Suc k" using u(1) by (cases n) auto
  have "?i \<in> keys t" by (simp add: t set_players_def dom_update)
  then have "u = (set_players (AList.delete ?i (s_players t)) t)\<lparr>GarbageIDs := GarbageIDs t @ [?i]\<rparr>"
    using u(1) OnClientDisconnect_off_turn [OF off(1), of F k] by (simp add: k off(2))
  then have u_world: "gameWorld u = (gameWorld t)\<lparr>PlayersList := AList.delete ?i (s_players t)\<rparr>"
    and same: "heap u = heap s" "m_deqConnection u = m_deqConnection s" "CurrentPlayerID u = CurrentPlayerID s"
      "next_ref u = next_ref s" "nIDCounter u = nIDCounter s" "s_qIn u = s_qIn s"
    by (simp_all add: t set_players_def)
  have ks: "keys u = keys s"
    using none by (simp add: u_world t set_players_def keys_delete dom_update)
  have stay: "stays s u" by (simp add: stays_def ks same same_clients_def connected_def GetID_def)
  have "wf_world (gameWorld u)"
    using wf_world_delete [OF wf_world_insert_player] inv p by (simp add: u_world t set_players_def server_inv_def)
  then have "server_inv u" by (rule stays_inv_keys [OF stay same(2) ks _ same(3) inv])
  moreover have "moves s u" using stay by (simp add: moves_def same(3))
  ultimately show ?thesis
    unfolding u(2) using erase_null_inv [of u] by (blast intro: kept_moves moves_trans)
qed

lemma on_register_kept:
  assumes inv: "server_inv s" and r: "r < next_ref s"
    and run: "on_register F (OnClientDisconnect F n) (Some r) msg s = Inr s'"
  shows "kept s s'"
proof -
  let ?disc = "OnClientDisconnect F n"
  obtain p0 m' where p0: "pop_data dec_Player 2016 msg = Inr (p0, m')"
    using run by (auto simp: on_register_def)
  obtain bs where "2016 \<le> length bs" "p0 = dec_Player bs" by (rule pop_data_Inr [OF p0])
  then have "ok_Player p0" by (simp add: ok_dec_Player_long)
  from ClientOnRegister_spec [OF this, of r s] obtain p j where
    p: "ClientOnRegister p0 r s = Inr (p, s\<lparr>rpos := j\<rparr>)" "registered (GetID s r) p0 p" "ok_Player p" by blast
  have pid: "pID p = GetID s r" using p(2) by (simp add: registered_def)
  define s2 where "s2 = set_players (insert_player (hash_order s j) (GetID s r) p (s_players s)) (s\<lparr>rpos := j\<rparr>)"
  from run obtain s3 s4 s5 s6 s7 where
    s3: "MessageClient ?disc (Some r) (with_data ClientRegisterFromServer (enc_Player p)) s2 = Inr s3" and
    s4: "MessageClient ?disc (Some r) (with_data ClientUpdateMap (MapTiles (gameWorld s2))) s3 = Inr s4" and
    s5: "send_enemies ?disc r s4 = Inr s5" and
    s6: "MessageAllClients ?disc (with_data ClientAddPlayer (enc_Player p)) (Some r) s5 = Inr s6" and
    s7: "send_others ?disc r (pID p) s6 = Inr s7" and
    s': "(if CurrentPlayerID s7 = 0 then ChooseNextPlayerForTurn F ?disc None s7 else Inr s7) = Inr s'"
    by (auto simp: on_register_def p0 p(1) pid s2_def Let_def)
  have wfp: "wf_Player (GetID s r) p" using p(2,3) by (simp add: wf_Player_def ok_Player_def registered_def)
  have k3: "kept s s3"
  proof (cases "Some r \<in> set (m_deqConnection s)")
    case True
    have k: "kept s s2" by (rule stored_inv [OF inv True wfp s2_def])
    from client_message_kept [OF kept_inv [OF k] _ s3] k r show ?thesis
      by (simp add: kept_def)
  next
    case False
    show ?thesis by (rule ghost_kept [OF inv r False wfp s2_def s3])
  qed
  have known: "r < next_ref t" if "kept s t" for t using that r by (simp add: kept_def)
  have k4: "kept s s4" by (rule kept_trans [OF k3 client_message_kept [OF kept_inv [OF k3] known [OF k3] s4]])
  have k5: "kept s s5" by (rule kept_trans [OF k4 send_enemies_kept [OF kept_inv [OF k4] known [OF k4] s5]])
  have k6: "kept s s6" by (rule kept_trans [OF k5 all_message_kept [OF kept_inv [OF k5] s6]])
  have k7: "kept s s7" by (rule kept_trans [OF k6 send_others_kept [OF kept_inv [OF k6] known [OF k6] s7]])
  show ?thesis
    using s' k7 next_kept [OF kept_inv [OF k7], of F n None s'] kept_trans [OF k7] by (auto split: if_splits)
qed

section \<open>Actions\<close>

lemma perform_action_kept:
  assumes inv: "server_inv s" and r: "r < next_ref s"
    and run: "perform_action F (OnClientDisconnect F n) r a s = Inr s'"
  shows "kept s s'"
proof -
  let ?disc = "OnClientDisconnect F n" and ?i = "GetID s r"
  from run obtain w s2 p where w: "MakeApprovedAction ?i a (gameWorld s) = Inr w"
    and s2: "MessageAllClients ?disc (with_data GamePlayerActionValidated (enc_PlayerAction (a\<lparr>PA_PlayerID := ?i\<rparr>)))
       None (s\<lparr>gameWorld := w\<rparr>) = Inr s2"
    and rest: "(if GetCurrentTurnActions p = 0
       then res_bind (MessageClient ?disc (Some r) (new_message GameEndPlayerTurn) s2) (\<lambda>s3.
            res_bind (ChooseNextPlayerForTurn F ?disc (Some r) s3) (\<lambda>s4.
              MessageAllClients ?disc (with_data GameNextPlayerTurn (enc_u32 (CurrentPlayerID s4))) None s4))
       else Inr s2) = Inr s'"
    by (auto simp: perform_action_def Let_def split: option.splits)
  have wf: "wf_world (gameWorld s)" using inv by (simp add: server_inv_def)
  have "world_kept (gameWorld s) w" by (rule MakeApprovedAction_keeps [OF wf w])
  then have w': "wf_world w" "map fst (PlayersList w) = map fst (s_players s)" by (simp_all add: world_kept_def)
  have k1: "kept s (s\<lparr>gameWorld := w\<rparr>)" by (rule kept_moves [OF world_inv [OF inv w']])
  have k2: "kept s s2" by (rule kept_trans [OF k1 all_message_kept [OF kept_inv [OF k1] s2]])
  show ?thesis
  proof (cases "GetCurrentTurnActions p = 0")
    case False
    then show ?thesis using rest k2 by simp
  next
    case True
    then obtain s3 s4 where
      s3: "MessageClient ?disc (Some r) (new_message GameEndPlayerTurn) s2 = Inr s3" and
      s4: "ChooseNextPlayerForTurn F ?disc (Some r) s3 = Inr s4" and
      s': "MessageAllClients ?disc (with_data GameNextPlayerTurn (enc_u32 (CurrentPlayerID s4))) None s4 = Inr s'"
      using rest by auto
    have "r < next_ref s2" using k2 r by (simp add: kept_def)
    then have k3: "kept s s3" by (rule kept_trans [OF k2 client_message_kept [OF kept_inv [OF k2] _ s3]])
    have k4: "kept s s4" by (rule kept_trans [OF k3 next_kept [OF kept_inv [OF k3] s4]])
    show ?thesis by (rule kept_trans [OF k4 all_message_kept [OF kept_inv [OF k4] s']])
  qed
qed

lemma on_action_kept:
  assumes inv: "server_inv s" and r: "r < next_ref s"
    and run: "on_action F (OnClientDisconnect F n) (Some r) msg s = Inr s'"
  shows "kept s s'"
  using run perform_action_kept [OF inv r] client_message_kept [OF inv r]
  by (auto simp: on_action_def Let_def split: if_splits option.splits)

lemma OnMessage_kept:
  assumes inv: "server_inv s" and r: "r < next_ref s" and run: "OnMessage F n (Some r) msg s = Inr s'"
  shows "kept s s'"
proof -
  obtain t where t: "flush_garbage (OnClientDisconnect F n) s = Inr t" using run by (auto simp: OnMessage_def Let_def)
  have k: "kept s t" by (rule flush_garbage_kept [OF inv t])
  then have it: "server_inv t" and rt: "r < next_ref t" using r by (simp_all add: kept_def)
  have "kept t s'"
    using run t on_register_kept [OF it rt, of F n msg s'] on_action_kept [OF it rt, of F n msg s']
      all_message_kept [OF it, of F n _ "Some r" s'] send_kept [OF it, of r msg] kept_refl [OF it]
    by (simp add: OnMessage_def Let_def on_message_all_def split: if_splits)
  with k show ?thesis by (rule kept_trans)
qed

section \<open>The steps of the server\<close>

text \<open>What happens to a connection keeps its id and its owner, and does not open its socket.\<close>

definition same_conn :: "connection \<Rightarrow> connection \<Rightarrow> bool" where
  "same_conn c d \<longleftrightarrow> conn_id d = conn_id c \<and> m_nOwnerType d = m_nOwnerType c \<and> (sock_open d \<longrightarrow> sock_open c)"

lemma same_conn_upd [simp]:
  "same_conn c (d\<lparr>m_qMessagesOut := q\<rparr>) = same_conn c d" "same_conn c (d\<lparr>writes := ws\<rparr>) = same_conn c d"
  "same_conn c (d\<lparr>wire := wi\<rparr>) = same_conn c d" "same_conn c (d\<lparr>reads := rs\<rparr>) = same_conn c d"
  "same_conn (c\<lparr>m_qMessagesIn := qi\<rparr>) d = same_conn c d" "same_conn c c"
  by (simp_all add: same_conn_def)

lemma on_written_same_conn:
  assumes "on_written op ok d = Inr c'" and "same_conn c d"
  shows "same_conn c c'"
proof -
  have closed: "same_conn c (close_socket d)" using assms(2) by (simp add: same_conn_def close_socket_def)
  have next_one: "same_conn c c'" if "next_message d = Inr c'" for c'
    using that assms(2) by (auto simp: next_message_def Let_def WriteHeader_def async_write_def split: if_splits)
  show ?thesis
    using assms closed next_one
    by (cases op)
      (auto simp: on_written_defs WriteBody_def ReadHeader_def async_write_def async_read_def split: if_splits)
qed

lemma step_same_conn:
  assumes "step OnClientValidated ev c = Inr c'"
  shows "same_conn c c'"
proof (cases ev)
  case E_task
  then show ?thesis using assms
    by (auto simp: step_def same_conn_def run_task_def run_send_def Let_def close_socket_def WriteHeader_def
        async_write_def split: list.splits task.splits if_splits)
next
  case (E_write i ok)
  then show ?thesis using assms
    by (auto simp: step_def Let_def split: if_splits dest!: on_written_same_conn [where c = c])
next
  case (E_read i r)
  then show ?thesis using assms
    by (auto simp: step_def same_conn_def on_read_defs Let_def close_socket_def OnClientValidated_def Send_def
        post_def ReadHeader_def ReadBody_def AddToIncomingMessageQueue_def WriteValidation_def async_write_def
        async_read_def split: read_op.splits if_splits option.splits)
qed

lemma context_event_inv:
  assumes inv: "server_inv s" and r: "r < next_ref s"
    and run: "server_context_event OnClientValidated r ev s = Inr t"
  shows "server_inv t"
proof -
  obtain c where c: "step OnClientValidated ev ((heap s r)\<lparr>m_qMessagesIn := []\<rparr>) = Inr c"
    and t: "t = s\<lparr>heap := (heap s)(r := c\<lparr>m_qMessagesIn := []\<rparr>),
       s_qIn := s_qIn s @ map (\<lambda>om. (Some r, snd om)) (m_qMessagesIn c)\<rparr>"
    using run by (auto simp: server_context_event_def)
  have same: "GetID t q = GetID s q" "m_nOwnerType (heap t q) = m_nOwnerType (heap s q)"
    "connected t q \<Longrightarrow> connected s q" for q
    using step_same_conn [OF c] by (auto simp: t same_conn_def GetID_def connected_def IsConnected_def split: if_splits)
  have eq: "next_ref t = next_ref s" "nIDCounter t = nIDCounter s" "m_deqConnection t = m_deqConnection s"
    "CurrentPlayerID t = CurrentPlayerID s" "gameWorld t = gameWorld s" by (simp_all add: t)
  have "\<forall>cm \<in> set (s_qIn t). \<exists>q < next_ref s. fst cm = Some q"
    using inv r unfolding server_inv_def clients_ok_def by (auto simp: t)
  then have "clients_ok t"
    using inv same(3) unfolding server_inv_def clients_ok_def eq same(1,2) by blast
  then show ?thesis using inv unfolding server_inv_def players_ok_def turn_ok_def eq same(1) by blast
qed

lemma accept_inv:
  assumes inv: "server_inv s" and room: "next_ref s + 10001 \<le> 2 ^ 32"
  shows "server_inv (on_accept OnClientConnect ok now s)"
proof (cases ok)
  case False
  then show ?thesis using inv by (simp add: on_accept_def)
next
  case True
  let ?r = "next_ref s" and ?t = "on_accept OnClientConnect True now s"
  have t: "next_ref ?t = Suc ?r" "nIDCounter ?t = nIDCounter s + 1" "m_deqConnection ?t = m_deqConnection s @ [Some ?r]"
    "s_qIn ?t = s_qIn s" "gameWorld ?t = gameWorld s" "CurrentPlayerID ?t = CurrentPlayerID s"
    "GetID ?t ?r = nIDCounter s" "m_nOwnerType (heap ?t ?r) = OwnerServer"
    "q \<noteq> ?r \<Longrightarrow> heap ?t q = heap s q" for q
    by (simp_all add: on_accept_def OnClientConnect_def send_to_def Send_def post_def ConnectToClient_def
        WriteValidation_def ReadValidationServer_def async_write_def async_read_def new_connection_def GetID_def Let_def)
  have ok: "clients_ok s" using inv by (simp add: server_inv_def)
  have id_next: "nIDCounter s = nth_id ?r" "nIDCounter ?t = nth_id (Suc ?r)"
    using ok unfolding clients_ok_def t(2) nth_id_def by (simp_all add: add.commute)
  have old: "GetID ?t q = GetID s q" "connected ?t q = connected s q" if "q < ?r" for q
    using t(9) [of q] that by (simp_all add: GetID_def connected_def)
  have "GetID ?t q = nth_id q \<and> m_nOwnerType (heap ?t q) = OwnerServer \<and>
      (connected ?t q \<longrightarrow> Some q \<in> set (m_deqConnection ?t))" if "q < Suc ?r" for q
  proof (cases "q = ?r")
    case True
    then show ?thesis using t(3,7,8) id_next by simp
  next
    case False
    then have q: "q < ?r" using that by simp
    then show ?thesis
      using clients_okD(1,2,4) [OF ok q] old [OF q] t(9) [of q] False by (simp add: t(3))
  qed
  moreover have "\<forall>q. Some q \<in> set (m_deqConnection ?t) \<longrightarrow> q < Suc ?r"
    "\<forall>cm \<in> set (s_qIn ?t). \<exists>q < Suc ?r. fst cm = Some q"
    using ok unfolding clients_ok_def t(3,4) by (auto intro: less_SucI)
  moreover have "Suc ?r + 10000 \<le> 2 ^ 32" using room by simp
  ultimately have "clients_ok ?t" unfolding clients_ok_def t(1) using id_next(2) by blast
  moreover have "players_ok ?t"
    unfolding players_ok_def t(5)
  proof
    fix k assume "k \<in> keys s"
    then obtain q where q: "Some q \<in> set (m_deqConnection s)" "GetID s q = k"
      using inv unfolding server_inv_def players_ok_def by blast
    then have "q < ?r" using ok unfolding clients_ok_def by blast
    then show "\<exists>q. Some q \<in> set (m_deqConnection ?t) \<and> GetID ?t q = k" using q old t(3) by auto
  qed
  moreover have "turn_ok ?t" using inv unfolding server_inv_def turn_ok_def t(5,6) by blast
  ultimately show ?thesis using inv True by (simp add: server_inv_def t(5))
qed

section \<open>Every reachable state\<close>

text \<open>
  The two threads take turns: the thread of the context accepts a connection or handles an event of one,
  the game's thread checks the connections or handles messages. Ids are handed out before they wrap around.
\<close>

inductive server_step :: "custom_server \<Rightarrow> custom_server \<Rightarrow> bool" where
  accepted: "next_ref s + 10001 \<le> 2 ^ 32 \<Longrightarrow> server_step s (on_accept OnClientConnect ok now s)"
| network: "r < next_ref s \<Longrightarrow> server_context_event OnClientValidated r ev s = Inr t \<Longrightarrow> server_step s t"
| checked: "ShyCheckAllPlayers F n s = Inr t \<Longrightarrow> server_step s t"
| handled: "Update k (OnMessage F n) s = Inr t \<Longrightarrow> server_step s t"

inductive server_reachable :: "bytes \<Rightarrow> (nat \<Rightarrow> nat) \<Rightarrow> (nat \<Rightarrow> u32 \<Rightarrow> nat) \<Rightarrow> custom_server \<Rightarrow> bool"
  for memory rs ho where
  started: "server_reachable memory rs ho (CustomServer memory rs ho)"
| steps_on: "server_reachable memory rs ho s \<Longrightarrow> server_step s t \<Longrightarrow> server_reachable memory rs ho t"

lemma fresh_server_inv:
  assumes "length memory = Map_Width * Map_Height"
  shows "server_inv (CustomServer memory rs ho)"
proof -
  let ?s = "CustomServer memory rs ho"
  from CustomServer_spec [OF assms refl, of rs ho] obtain tiles es where
    gm: "tiles_done ({..<Map_Width} \<times> {..<Map_Height}) tiles" and es: "length es < 25" "list_all spawned es"
    and s: "s_players ?s = []" "EnemyList (gameWorld ?s) = es" "MapTiles (gameWorld ?s) = tiles"
      "next_ref ?s = 0" "nIDCounter ?s = 10000" "m_deqConnection ?s = []" "s_qIn ?s = []" "CurrentPlayerID ?s = 0"
    by blast
  have "\<forall>e \<in> set es. wf_Enemy e" using es(2) spawned_facts(1) by (auto simp: list_all_iff)
  then have "wf_world (gameWorld ?s)"
    using s(1-3) gm es(1) by (simp add: wf_world_def tiles_done_def list_all_iff less_le_trans [of _ 25])
  then show ?thesis
    by (simp add: server_inv_def clients_ok_def players_ok_def turn_ok_def s(1,4-8) nth_id_def)
qed

lemma Update_inv:
  "server_inv s \<Longrightarrow> Update k (OnMessage F n) s = Inr t \<Longrightarrow> server_inv t"
proof (induction k arbitrary: s)
  case (Suc k)
  show ?case
  proof (cases "s_qIn s")
    case Nil
    then show ?thesis using Suc.prems by (simp add: q_empty_def)
  next
    case (Cons cm q)
    let ?s = "s\<lparr>s_qIn := q\<rparr>"
    obtain r where r: "fst cm = Some r" "r < next_ref s"
      using Suc.prems(1) unfolding server_inv_def clients_ok_def Cons by auto
    obtain u where u: "OnMessage F n (Some r) (snd cm) ?s = Inr u" "Update k (OnMessage F n) u = Inr t"
      using Suc.prems(2) r(1) by (auto simp: Cons q_empty_def q_pop_front_def)
    have eq: "GetID ?s q = GetID s q" "connected ?s q = connected s q" for q
      by (simp_all add: GetID_def connected_def)
    have "clients_ok ?s"
      using Suc.prems(1) unfolding server_inv_def clients_ok_def eq by (simp add: Cons)
    then have "server_inv ?s"
      using Suc.prems(1) unfolding server_inv_def players_ok_def turn_ok_def eq by simp
    from OnMessage_kept [OF this _ u(1)] r(2) have "server_inv u" by (simp add: kept_def)
    then show ?thesis by (rule Suc.IH [OF _ u(2)])
  qed
qed simp

lemma server_step_inv: "server_step s t \<Longrightarrow> server_inv s \<Longrightarrow> server_inv t"
proof (induction rule: server_step.induct)
  case (accepted s ok now)
  then show ?case by (blast intro: accept_inv)
next
  case (network r s ev t)
  then show ?case by (blast intro: context_event_inv)
next
  case (checked F n s t)
  then show ?case using all_message_kept [of s F n _ None t] by (simp add: ShyCheckAllPlayers_def kept_def)
next
  case (handled k F n s t)
  then show ?case by (blast intro: Update_inv)
qed

lemma server_reachable_inv:
  assumes "length memory = Map_Width * Map_Height" and "server_reachable memory rs ho s"
  shows "server_inv s"
  using assms(2) by induction (auto intro: fresh_server_inv [OF assms(1)] server_step_inv)

text \<open>An iteration of the main loop is two of these steps.\<close>

lemma Run_iteration_reachable:
  assumes "server_reachable memory rs ho s" and "Run_iteration F n k elapsed s = Inr t"
  shows "server_reachable memory rs ho t"
proof -
  from assms(2) obtain u where u: "(if 1000 < elapsed then ShyCheckAllPlayers F n s else Inr s) = Inr u"
    "Update k (OnMessage F n) u = Inr t" by (auto simp: Run_iteration_def)
  have "server_reachable memory rs ho u"
    using u(1) assms(1) checked [of F n s u] by (auto split: if_splits intro: steps_on)
  then show ?thesis by (rule steps_on [OF _ handled [OF u(2)]])
qed

text \<open>
  Property C4. Whatever clients connect, send or lose, in whatever order, and however the two threads
  take turns: the world of a running server is well-formed, every player belongs to a client in
  the server's list, the turn is nobody's or an existing player's, no two clients in the list have the same
  id, and a client that is connected is in the list.
\<close>

theorem server_invariant:
  assumes "length memory = Map_Width * Map_Height" and "server_reachable memory rs ho s"
  shows "wf_world (gameWorld s) \<and>
     (\<forall>k \<in> fst ` set (s_players s). \<exists>r. Some r \<in> set (m_deqConnection s) \<and> GetID s r = k) \<and>
     (CurrentPlayerID s = 0 \<or> CurrentPlayerID s \<in> fst ` set (s_players s)) \<and>
     (\<forall>r q. Some r \<in> set (m_deqConnection s) \<and> Some q \<in> set (m_deqConnection s) \<and> GetID s r = GetID s q \<longrightarrow> r = q) \<and>
     (\<forall>r < next_ref s. connected s r \<longrightarrow> Some r \<in> set (m_deqConnection s))"
proof -
  have inv: "server_inv s" by (rule server_reachable_inv [OF assms])
  then have ok: "clients_ok s" by (simp add: server_inv_def)
  have known: "x < next_ref s" if "Some x \<in> set (m_deqConnection s)" for x
    using ok that unfolding clients_ok_def by blast
  have "r = q" if "Some r \<in> set (m_deqConnection s)" "Some q \<in> set (m_deqConnection s)" "GetID s r = GetID s q" for r q
    using ids_distinct [OF ok known known that(3)] that(1,2) by blast
  then show ?thesis
    using inv clients_okD(4) [OF ok] unfolding server_inv_def players_ok_def turn_ok_def by blast
qed

theorem server_invariant_witness:
  "(let s = on_accept OnClientConnect True 5 (CustomServer (replicate 1600 0) (\<lambda>i. i) (\<lambda>_. unat))
    in m_deqConnection s = [Some 0] \<and> connected s 0 \<and> wf_world (gameWorld s))"
proof -
  let ?s0 = "CustomServer (replicate 1600 0) (\<lambda>i. i) (\<lambda>_. unat)"
  have len: "length (replicate 1600 (0 :: u8)) = Map_Width * Map_Height" by (simp add: Map_Width_def Map_Height_def)
  from CustomServer_spec [OF len refl, of "\<lambda>i. i" "\<lambda>_. unat"] have new: "next_ref ?s0 = 0" "m_deqConnection ?s0 = []" by blast+
  have "server_step ?s0 (on_accept OnClientConnect True 5 ?s0)" by (rule accepted) (simp add: new)
  then have "server_reachable (replicate 1600 0) (\<lambda>i. i) (\<lambda>_. unat) (on_accept OnClientConnect True 5 ?s0)"
    by (rule steps_on [OF started])
  from server_invariant [OF len this] show ?thesis
    by (simp add: Let_def on_accept_def OnClientConnect_def send_to_def Send_def post_def new ConnectToClient_def
        WriteValidation_def ReadValidationServer_def async_write_def async_read_def new_connection_def
        connected_def IsConnected_def)
qed

end
