(* ===== verification/TurnPass.thy ===== *)
theory TurnPass
  imports ServerRun
begin

text \<open>
  What the server does when the player on turn is lost and somebody after it in the order of the game can
  be reached: it goes through the lost players in between, one nested call each, tells the first one that
  is connected, and takes the lost ones out of the game on the way back.
\<close>

section \<open>Lists of players\<close>

lemma next_player_split:
  "k \<notin> fst ` set xs \<Longrightarrow>
   next_player k (xs @ (k, p) # rest) = Inr (case rest of [] \<Rightarrow> None | (_, q) # _ \<Rightarrow> Some q)"
  by (induction xs) auto

lemma map_of_split: "k \<notin> fst ` set xs \<Longrightarrow> map_of (xs @ (k, p) # rest) k = Some p"
  by (induction xs) auto

lemma update_split: "k \<notin> fst ` set xs \<Longrightarrow> AList.update k v (xs @ (k, p) # rest) = xs @ (k, v) # rest"
  by (induction xs) auto

lemma delete_split:
  "k \<notin> fst ` set xs \<Longrightarrow> k \<notin> fst ` set rest \<Longrightarrow> AList.delete k (xs @ (k, p) # rest) = xs @ rest"
  by (induction xs) (auto simp: delete_id)

lemma find_client_found:
  "None \<notin> set cs \<Longrightarrow> Some r \<in> set cs \<Longrightarrow> GetID s r = i \<Longrightarrow> \<exists>q. find_client s i cs = Inr (Some q)"
  by (induction s i cs rule: find_client.induct) auto

lemma find_client_exact:
  assumes "clients_ok s" and "None \<notin> set (m_deqConnection s)" and "Some r \<in> set (m_deqConnection s)"
  shows "find_client s (GetID s r) (m_deqConnection s) = Inr (Some r)"
proof -
  from find_client_found [OF assms(2,3) refl] obtain q where
    q: "find_client s (GetID s r) (m_deqConnection s) = Inr (Some q)" by blast
  have known: "x < next_ref s" if "Some x \<in> set (m_deqConnection s)" for x
    using assms(1) that unfolding clients_ok_def by blast
  from find_client_some [OF q] have "q = r" using ids_distinct [OF assms(1) known known, of q r] assms(3) by blast
  with q show ?thesis by simp
qed

lemma erase_null_none:
  assumes "None \<notin> set (m_deqConnection s)"
  shows "erase_null s = s"
proof -
  have "filter (\<lambda>c. c \<noteq> None) (m_deqConnection s) = m_deqConnection s"
    using assms by (metis (mono_tags, lifting) filter_True)
  then show ?thesis by (simp only: erase_null_def) simp
qed

lemma refresh_split:
  assumes "s_players s = xs @ (CurrentPlayerID s, p) # rest" and "CurrentPlayerID s \<notin> fst ` set xs"
  shows "refresh_turns s = Inr (set_players (xs @ (CurrentPlayerID s, p\<lparr>CurrentTurns := MaxTurns p\<rparr>) # rest) s)"
  unfolding refresh_turns_def assms(1) map_of_split [OF assms(2)] option.case SetCurrent_max res_bind_Inr
    update_split [OF assms(2)] ..

section \<open>Passing the turn over lost players\<close>

text \<open>The client \<open>q\<close> is on turn and is told so; \<open>gone\<close> are the ids to be announced.\<close>

definition turn_passed :: "nat \<Rightarrow> (u32 \<times> Player) list \<Rightarrow> u32 list \<Rightarrow> custom_server \<Rightarrow> custom_server" where
  "turn_passed q ps gone s =
     (send_to q (new_message GamePlayerTurn) s)
       \<lparr>gameWorld := (gameWorld s)\<lparr>PlayersList := ps\<rparr>, CurrentPlayerID := GetID s q,
        GarbageIDs := GarbageIDs s @ gone\<rparr>"

definition rested :: "Player \<Rightarrow> Player" where
  "rested p = p\<lparr>CurrentTurns := MaxTurns p\<rparr>"

definition lost :: "custom_server \<Rightarrow> u32 \<Rightarrow> bool" where
  "lost s k \<longleftrightarrow> (\<forall>r. Some r \<in> set (m_deqConnection s) \<longrightarrow> GetID s r = k \<longrightarrow> \<not> connected s r)"

lemma turn_passed_simps [simp]:
  "s_players (turn_passed q ps g s) = ps" "m_deqConnection (turn_passed q ps g s) = m_deqConnection s"
  "CurrentPlayerID (turn_passed q ps g s) = GetID s q" "GarbageIDs (turn_passed q ps g s) = GarbageIDs s @ g"
  "turn_passed q ps g (s\<lparr>CurrentPlayerID := i\<rparr>) = turn_passed q ps g s"
  "set_players ps' (turn_passed q ps g s) = turn_passed q ps' g s"
  "(turn_passed q ps g s)\<lparr>GarbageIDs := GarbageIDs s @ g'\<rparr> = turn_passed q ps g' s"
  by (simp_all add: turn_passed_def set_players_def send_to_def GetID_def)

lemma rested_rested [simp]: "(rested p)\<lparr>CurrentTurns := MaxTurns (rested p)\<rparr> = rested p"
  by (simp add: rested_def)

text \<open>One call: the next player is \<open>q\<close>'s.\<close>

lemma choose_next_step:
  assumes inv: "server_inv s" and none: "None \<notin> set (m_deqConnection s)"
    and ps: "s_players s = xs @ (GetID s r, p) # (GetID s q, p') # zs" and q: "Some q \<in> set (m_deqConnection s)"
  defines "s1 \<equiv> s\<lparr>CurrentPlayerID := GetID s q\<rparr>"
  shows "server_inv s1"
    and "ChooseNextPlayerForTurn F disc (Some r) s =
      res_bind (MessageClient disc (Some q) (new_message GamePlayerTurn) s1) refresh_turns"
proof -
  have wf: "wf_world (gameWorld s)" using inv by (simp add: server_inv_def)
  then have keys: "distinct (map fst (s_players s))" by (simp add: wf_world_def)
  have qm: "(GetID s q, p') \<in> set (s_players s)" by (simp add: ps)
  have pid: "pID p' = GetID s q" using bspec [OF wf_world_ids [OF wf] qm] by simp
  show i1: "server_inv s1" using turn_inv(1) [OF inv qm] by (simp add: s1_def pid)
  then have c1: "clients_ok s1" by (simp add: server_inv_def)
  have "next_player (GetID s r) (s_players s) = Inr (Some p')"
    using keys unfolding ps by (simp add: next_player_split)
  then have cur: "choose_current F disc (Some r) s = Inr s1" by (simp add: choose_current_def s1_def pid)
  have same: "m_deqConnection s1 = m_deqConnection s" "GetID s1 q = GetID s q" "CurrentPlayerID s1 = GetID s q"
    by (simp_all add: s1_def GetID_def)
  have "find_client s1 (CurrentPlayerID s1) (m_deqConnection s1) = Inr (Some q)"
    using find_client_exact [OF c1, of q] none q same by simp
  then show "ChooseNextPlayerForTurn F disc (Some r) s =
      res_bind (MessageClient disc (Some q) (new_message GamePlayerTurn) s1) refresh_turns"
    using ps cur by (simp add: ChooseNextPlayerForTurn_def)
qed

text \<open>The next player can be reached: it is told, and its actions are refreshed.\<close>

lemma choose_tells_next:
  assumes "server_inv s" and "None \<notin> set (m_deqConnection s)"
    and "s_players s = xs @ (GetID s r, p) # (GetID s q, p') # zs"
    and "Some q \<in> set (m_deqConnection s)" and "connected s q"
  shows "ChooseNextPlayerForTurn F disc (Some r) s =
     Inr (turn_passed q (xs @ (GetID s r, p) # (GetID s q, rested p') # zs) [] s)"
proof -
  let ?s1 = "s\<lparr>CurrentPlayerID := GetID s q\<rparr>" and ?m = "new_message GamePlayerTurn"
  have ps: "s_players s = (xs @ [(GetID s r, p)]) @ (GetID s q, p') # zs" using assms(3) by simp
  have keys: "distinct (map fst (s_players s))"
    using assms(1) by (simp add: server_inv_def wf_world_def)
  have new: "GetID s q \<notin> fst ` set (xs @ [(GetID s r, p)])"
    using keys unfolding ps by (simp del: append_assoc)
  have conn: "connected ?s1 q" using assms(5) by (simp add: connected_def)
  have told: "MessageClient disc (Some q) ?m ?s1 = Inr (send_to q ?m ?s1)"
    by (rule MessageClient_live [OF conn])
  have cur: "CurrentPlayerID (send_to q ?m ?s1) = GetID s q" "s_players (send_to q ?m ?s1) = s_players s" by simp_all
  have "refresh_turns (send_to q ?m ?s1) =
      Inr (set_players ((xs @ [(GetID s r, p)]) @ (GetID s q, rested p') # zs) (send_to q ?m ?s1))"
    using refresh_split [of "send_to q ?m ?s1" "xs @ [(GetID s r, p)]" p' zs] ps new
    by (simp only: cur rested_def not_False_eq_True True_implies_equals)
  then show ?thesis
    using choose_next_step(2) [OF assms(1,2) assms(3) assms(4), of F disc] told
    by (simp add: turn_passed_def set_players_def send_to_def)
qed

lemma choose_passes:
  assumes "server_inv s" and "None \<notin> set (m_deqConnection s)"
    and "s_players s = xs @ (GetID s r, p) # ys @ (GetID s q, p') # zs"
    and "Some q \<in> set (m_deqConnection s)" and "connected s q" and "\<forall>(k, _) \<in> set ys. lost s k" and "length ys \<le> n"
  shows "ChooseNextPlayerForTurn F (OnClientDisconnect F n) (Some r) s =
     Inr (turn_passed q (xs @ (GetID s r, p) # (GetID s q, rested p') # zs) (rev (map fst ys)) s)"
  using assms
proof (induction ys arbitrary: n s xs r p)
  case Nil
  then show ?case using choose_tells_next [of s xs r p q p' zs] by simp
next
  case (Cons y ys)
  obtain k2 p2 where y: "y = (k2, p2)" by (cases y)
  note inv = Cons.prems(1)
  obtain r2 where r2: "Some r2 \<in> set (m_deqConnection s)" "GetID s r2 = k2"
    using inv Cons.prems(3) unfolding server_inv_def players_ok_def y by auto
  have dead2: "\<not> connected s r2" using Cons.prems(6) r2 unfolding y lost_def by auto
  obtain n' where n': "n = Suc n'" "length ys \<le> n'" using Cons.prems(7) by (cases n) auto
  let ?s1 = "s\<lparr>CurrentPlayerID := GetID s r2\<rparr>" and ?m = "new_message GamePlayerTurn"
  have ps: "s_players s = xs @ (GetID s r, p) # (GetID s r2, p2) # (ys @ (GetID s q, p') # zs)"
    using Cons.prems(3) by (simp add: y r2(2))
  note inv1 = choose_next_step(1) [OF inv Cons.prems(2) ps r2(1)]
  note run1 = choose_next_step(2) [OF inv Cons.prems(2) ps r2(1), of F "OnClientDisconnect F n"]
  have same: "GetID ?s1 x = GetID s x" "connected ?s1 x = connected s x" for x by (simp_all add: GetID_def connected_def)
  have ps1: "s_players ?s1 = (xs @ [(GetID ?s1 r, p)]) @ (GetID ?s1 r2, p2) # ys @ (GetID ?s1 q, p') # zs"
    using ps by (simp add: same)
  have IH: "ChooseNextPlayerForTurn F (OnClientDisconnect F n') (Some r2) ?s1 =
      Inr (turn_passed q ((xs @ [(GetID s r, p)]) @ (GetID s r2, p2) # (GetID s q, rested p') # zs) (rev (map fst ys)) ?s1)"
    using Cons.IH [OF inv1 _ ps1 _ _ _ n'(2)] Cons.prems(2,4-6) by (simp add: same lost_def)
  have keys: "distinct (map fst (s_players s))"
    using inv by (simp add: server_inv_def wf_world_def)
  let ?ps = "xs @ (GetID s r, p) # (GetID s q, rested p') # zs"
  let ?u = "turn_passed q ?ps (rev (map fst (y # ys))) s"
  have del: "AList.delete (GetID s r2) ((xs @ [(GetID s r, p)]) @ (GetID s r2, p2) # (GetID s q, rested p') # zs) = ?ps"
    using keys unfolding ps by (subst delete_split) auto
  have "OnClientDisconnect F n (Some r2) ?s1 = Inr ?u"
    using IH del unfolding n'(1) OnClientDisconnect.simps
    by (simp add: client_gone_def Let_def same ps y r2(2) [symmetric] del: append_assoc) simp
  moreover have "\<not> connected ?s1 r2" using dead2 same by simp
  moreover have "erase_null ?u = ?u" by (rule erase_null_none) (use Cons.prems(2) in simp)
  ultimately have told: "MessageClient (OnClientDisconnect F n) (Some r2) ?m ?s1 = Inr ?u"
    by (simp add: MessageClient_def)
  have new: "CurrentPlayerID ?u \<notin> fst ` set (xs @ [(GetID s r, p)])"
    using keys unfolding ps by auto
  have "refresh_turns ?u = Inr (set_players ((xs @ [(GetID s r, p)]) @ (CurrentPlayerID ?u, rested p') # zs) ?u)"
    using refresh_split [OF _ new, of "rested p'" zs] by simp
  then show ?case using run1 told by simp
qed

text \<open>
  Property C32. When the player on turn is lost and some player after it is connected, the handler
  returns, needing one nested call for every lost player in between: the first connected player
  after it is on turn with all its actions and is told so, the lost ones on the way are out of the game and
  their ids are to be announced, and nothing else changes.
\<close>

theorem lost_player_passes_turn:
  assumes "server_inv s" and "None \<notin> set (m_deqConnection s)" and "CurrentPlayerID s = GetID s r"
    and "s_players s = xs @ (GetID s r, p) # ys @ (GetID s q, p') # zs"
    and "Some q \<in> set (m_deqConnection s)" and "connected s q" and "\<forall>(k, _) \<in> set ys. lost s k" and "length ys \<le> n"
  shows "OnClientDisconnect F (Suc n) (Some r) s =
     Inr (turn_passed q (xs @ (GetID s q, rested p') # zs) (rev (map fst ys) @ [GetID s r]) s)"
proof -
  have keys: "distinct (map fst (s_players s))"
    using assms(1) by (simp add: server_inv_def wf_world_def)
  have "AList.delete (GetID s r) (xs @ (GetID s r, p) # (GetID s q, rested p') # zs) = xs @ (GetID s q, rested p') # zs"
    using keys unfolding assms(4) by (subst delete_split) auto
  then show ?thesis
    using choose_passes [OF assms(1,2,4-8), of F] by (simp add: client_gone_def Let_def assms(3,4))
qed

text \<open>Three players, of which the one on turn and the next one are lost.\<close>

definition thinned_world :: GameWorld where
  "thinned_world = sample_world\<lparr>PlayersList := AList.update 10002 (sample_player 10002 vec3_zero) (PlayersList sample_world)\<rparr>"

definition thinned_server :: custom_server where
  "thinned_server = sample_server
     \<lparr>heap := \<lambda>r. sample_conn (nth_id r) (r = 2), next_ref := 3, m_deqConnection := [Some 0, Some 1, Some 2],
      nIDCounter := 10003, gameWorld := thinned_world\<rparr>"

lemma thinned_players: "PlayersList thinned_world =
    [(10000, sample_player 10000 (vec3_make 4 2 0)), (10001, sample_player 10001 (vec3_make 5 2 0)),
     (10002, sample_player 10002 vec3_zero)]"
  by (simp add: thinned_world_def sample_world_def)

lemma thinned_simps [simp]:
  "GetID thinned_server r = nth_id r" "connected thinned_server r = (r = 2)" "next_ref thinned_server = 3"
  "m_deqConnection thinned_server = [Some 0, Some 1, Some 2]" "gameWorld thinned_server = thinned_world"
  "CurrentPlayerID thinned_server = 10000" "GarbageIDs thinned_server = []" "s_qIn thinned_server = []"
  "nIDCounter thinned_server = 10003" "m_nOwnerType (heap thinned_server r) = OwnerServer"
  by (simp_all add: thinned_server_def sample_server_def GetID_def connected_def IsConnected_def sample_conn_def
      new_connection_def)

lemma nth_ids: "nth_id 0 = 10000" "nth_id 1 = 10001" "nth_id (Suc 0) = 10001" "nth_id 2 = 10002" "nth_id 3 = 10003"
  by (simp_all add: nth_id_def)

lemma thinned_inv: "server_inv thinned_server"
proof -
  have "wf_Player 10002 (sample_player 10002 vec3_zero)"
    using ok_sample_player [of 10002 vec3_zero]
    by (simp add: ok_Player_def wf_Player_def ok_wf_Inventory) (simp add: sample_player_def)
  then have "wf_world thinned_world" unfolding thinned_world_def by (intro wf_world_update_player) simp_all
  moreover have "clients_ok thinned_server"
    by (simp add: clients_ok_def nth_ids)
  moreover have ks: "keys thinned_server = nth_id ` {0, 1, 2}" by (simp add: thinned_players nth_ids)
  have "players_ok thinned_server" unfolding players_ok_def ks by auto
  moreover have "turn_ok thinned_server" unfolding turn_ok_def by (simp add: thinned_players)
  ultimately show ?thesis by (simp add: server_inv_def)
qed

theorem lost_player_passes_turn_witness:
  "\<exists>s'. OnClientDisconnect 4 (Suc 1) (Some 0) thinned_server = Inr s' \<and> CurrentPlayerID s' = 10002 \<and>
     map fst (s_players s') = [10002] \<and> GarbageIDs s' = [10001, 10000]"
proof -
  have ps: "s_players thinned_server = [] @ (GetID thinned_server 0, sample_player 10000 (vec3_make 4 2 0)) #
      [(10001, sample_player 10001 (vec3_make 5 2 0))] @ (GetID thinned_server 2, sample_player 10002 vec3_zero) # []"
    by (simp add: thinned_players nth_ids)
  have "lost thinned_server 10001" by (auto simp: lost_def nth_ids)
  then have "OnClientDisconnect 4 (Suc 1) (Some 0) thinned_server = Inr (turn_passed 2
      ([] @ (GetID thinned_server 2, rested (sample_player 10002 vec3_zero)) # [])
      (rev (map fst [(10001, sample_player 10001 (vec3_make 5 2 0))]) @ [GetID thinned_server 0]) thinned_server)"
    by (intro lost_player_passes_turn [OF thinned_inv _ _ ps]) (simp_all add: nth_ids)
  then show ?thesis by (simp add: nth_ids)
qed

end
