(* ===== verification/TurnEnd.thy ===== *)
theory TurnEnd
  imports Round TurnPass
begin

text \<open>
  The end of a turn in the copies: the last action of a player, the turn of the enemies when the player is
  the last of the list, and the turn of the next player, whose actions the server refreshes for itself and
  of the clients only the player's own.
\<close>

section \<open>The dead stay dead and are buried\<close>

definition grave :: "GameWorld \<Rightarrow> GameWorld \<Rightarrow> bool" where
  "grave w w' \<longleftrightarrow> length (EnemyList w') = length (EnemyList w) \<and>
     (\<forall>j < length (EnemyList w). eHP (EnemyList w ! j) = 0 \<longrightarrow> eHP (EnemyList w' ! j) = 0)"

lemma grave_refl: "grave w w"
  by (simp add: grave_def)

lemma grave_trans: "grave a b \<Longrightarrow> grave b c \<Longrightarrow> grave a c"
  by (simp add: grave_def)

lemma grave_struck: "struck d t w w' \<Longrightarrow> grave w w'"
  by (simp add: grave_def struck_def same_shape_def Enemy_TakeDamage_def damaged_hp_def Let_def)

lemma grave_update: "eHP e = eHP (EnemyList w ! i) \<Longrightarrow> grave w (w\<lparr>EnemyList := (EnemyList w)[i := e]\<rparr>)"
  unfolding grave_def by (cases "i < length (EnemyList w)") (auto simp: nth_list_update)

lemma grave_action:
  assumes "wf_world w" and "MakeEnemyAction i a w = Inr w'"
  shows "grave w w'"
  by (rule enemy_action_rule [OF assms, where R = grave])
    (auto intro: grave_refl grave_trans grave_update grave_struck)

lemma grave_loop:
  "wf_world w \<Longrightarrow> ai_loop n i active cand left target w acts = Inr (w', acts') \<Longrightarrow> grave w w'"
proof (induction n arbitrary: left target w acts)
  case (Suc n)
  have step: "grave w w'"
    if "MakeEnemyAction i a w = Inr v" "ai_loop n i active cand left' target' v acts'' = Inr (w', acts')"
    for a v left' target' acts''
    using grave_action [OF Suc.prems(1) that(1)] Suc.IH [OF _ that(2)]
      world_kept_wf [OF MakeEnemyAction_keeps [OF Suc.prems(1) that(1)]] by (blast intro: grave_trans)
  show ?case
    using Suc.prems(2) step Suc.IH [OF Suc.prems(1)] grave_refl
    by (auto simp: ai_loop.simps(2) Let_def split: if_splits)
qed simp

lemma grave_turn:
  assumes "wf_world (ai_world s)" and "i < length (EnemyList (ai_world s))" and "enemy_turn n i s = Inr s'"
  shows "grave (ai_world s) (ai_world s')"
    and "EnemyListDirt s' \<Longrightarrow> EnemyListDirt s \<or> eHP (EnemyList (ai_world s) ! i) = 0"
proof -
  let ?w = "ai_world s" and ?e = "EnemyList (ai_world s) ! i"
  have "grave ?w (?w\<lparr>EnemyList := (EnemyList ?w)[i := e]\<rparr>) \<and> wf_world (?w\<lparr>EnemyList := (EnemyList ?w)[i := e]\<rparr>)"
    if "equip_enemy ?e = Inr e" for e
    using that grave_update [of e ?w i] equip_enemy_wf [OF wf_world_enemy [OF assms(1,2)] that] assms(1)
    by (auto simp: equip_enemy_def wf_world_update_enemy split: if_splits)
  then show "grave ?w (ai_world s')" using assms(3) grave_refl
    by (auto simp: enemy_turn_def Let_def split: if_splits dest!: grave_loop intro: grave_trans)
  show "EnemyListDirt s' \<Longrightarrow> EnemyListDirt s \<or> eHP ?e = 0"
    using assms(3) by (auto simp: enemy_turn_def Let_def split: if_splits)
qed

text \<open>Whoever was met dead is still in the list when it is rebuilt, so a list that keeps its length had no dead.\<close>

definition someone_dead :: "GameWorld \<Rightarrow> bool" where
  "someone_dead w \<longleftrightarrow> (\<exists>e \<in> set (EnemyList w). eHP e = 0)"

lemma someone_deadI: "j < length (EnemyList w) \<Longrightarrow> eHP (EnemyList w ! j) = 0 \<Longrightarrow> someone_dead w"
  unfolding someone_dead_def by (blast intro: nth_mem)

lemma grave_someone: "grave w w' \<Longrightarrow> someone_dead w \<Longrightarrow> someone_dead w'"
  by (fastforce simp: someone_dead_def grave_def in_set_conv_nth)

lemma dirt_means_dead:
  assumes "wf_world w" and "enemies_turn n w = Inr a" and "EnemyListDirt a"
  shows "someone_dead (ai_world a)"
proof -
  define l where "l = length (EnemyList w)"
  have "EnemyListDirt s' \<longrightarrow> someone_dead (ai_world s')"
    if "set js \<subseteq> {..<l}" "res_fold (enemy_turn n) js s = Inr s'" "wf_world (ai_world s)"
      "length (EnemyList (ai_world s)) = l" "EnemyListDirt s \<longrightarrow> someone_dead (ai_world s)" for js s s'
    using that
  proof (induction js arbitrary: s)
    case (Cons j js)
    then obtain t where t: "enemy_turn n j s = Inr t" "res_fold (enemy_turn n) js t = Inr s'" by auto
    have j: "j < length (EnemyList (ai_world s))" using Cons.prems(1,4) by simp
    note kept = enemy_turn_keeps [OF Cons.prems(3) j t(1)]
    have "EnemyListDirt t \<longrightarrow> someone_dead (ai_world t)"
      using grave_turn [OF Cons.prems(3) j t(1)] Cons.prems(5) someone_deadI [OF j] by (blast intro: grave_someone)
    then show ?case using Cons.IH [OF _ t(2)] Cons.prems(1,4) kept by (auto simp: world_kept_def)
  qed simp
  from this [of "[0..<l]" "\<lparr>ai_world = w, ai_acts = [], ActiveEnemyID = 0, EnemyListDirt = False\<rparr>" a] assms
  show ?thesis by (simp add: enemies_turn_def l_def atLeast0LessThan)
qed

lemma same_length_no_dirt:
  assumes "wf_world w" and "enemies_turn n w = Inr a"
    and "length (EnemyList (bury_dead (EnemyListDirt a) (ai_world a))) = length (EnemyList (ai_world a))"
  shows "\<not> EnemyListDirt a"
proof
  assume d: "EnemyListDirt a"
  then obtain e where "e \<in> set (EnemyList (ai_world a))" "eHP e = 0"
    using dirt_means_dead [OF assms(1,2)] by (auto simp: someone_dead_def)
  then have "length (filter (\<lambda>e. 0 < sint (eHP e)) (EnemyList (ai_world a))) < length (EnemyList (ai_world a))"
    by (intro length_filter_less) auto
  then show False using assms(3) d by (simp add: bury_dead_def)
qed

section \<open>What a player's action does to the enemies\<close>

definition only_hurt :: "GameWorld \<Rightarrow> GameWorld \<Rightarrow> bool" where
  "only_hurt w w' \<longleftrightarrow>
     map (\<lambda>e. e\<lparr>eHP := 0\<rparr>) (EnemyList w') = map (\<lambda>e. e\<lparr>eHP := 0\<rparr>) (EnemyList w)"

lemma only_hurt_same: "EnemyList w' = EnemyList w \<Longrightarrow> only_hurt w w'"
  by (simp add: only_hurt_def)

lemma only_hurt_trans: "only_hurt a b \<Longrightarrow> only_hurt b c \<Longrightarrow> only_hurt a c"
  by (simp add: only_hurt_def)

lemma only_hurt_struck: "struck d t w w' \<Longrightarrow> only_hurt w w'"
  unfolding only_hurt_def
  by (intro nth_equalityI) (simp_all add: struck_def same_shape_def Enemy_TakeDamage_def Let_def)

lemma only_hurt_action:
  assumes "wf_world w" and "MakeApprovedAction k a w = Inr w'"
  shows "only_hurt w w'"
  by (rule approved_action_rule [OF assms, where R = only_hurt])
    (auto intro: only_hurt_same only_hurt_trans only_hurt_struck)

text \<open>Enemies that are armed and of a known type.\<close>

definition fit_enemies :: "GameWorld \<Rightarrow> bool" where
  "fit_enemies w \<longleftrightarrow> list_all (\<lambda>e. armed e \<and> unat (etype e) < 2) (EnemyList w)"

lemma fit_enemies_masked:
  "fit_enemies w \<longleftrightarrow> list_all (\<lambda>e. armed e \<and> unat (etype e) < 2) (map (\<lambda>e. e\<lparr>eHP := 0\<rparr>) (EnemyList w))"
  by (simp add: fit_enemies_def armed_def list_all_iff)

lemma only_hurt_fit: "only_hurt w w' \<Longrightarrow> fit_enemies w' = fit_enemies w"
  by (simp only: fit_enemies_masked only_hurt_def)

lemma only_hurt_length: "only_hurt w w' \<Longrightarrow> length (EnemyList w') = length (EnemyList w)"
  unfolding only_hurt_def by (metis length_map)

section \<open>Messages that leave the copy alone\<close>

lemma told_sends:
  assumes "gameWorld t = gameWorld s" and "posted (heap t r) = posted (heap s r) @ map T_send ms"
    and "\<forall>m \<in> set ms. hid m = GameEndPlayerTurn"
  shows "told s t r"
proof (rule toldI [OF assms(2)])
  fix name c assume c: "follows (gameWorld s) c"
  have "\<exists>c'. res_fold (handle_message name) ms d = Inr c' \<and> cWorld c' = cWorld d \<and> PlayerID c' = PlayerID d" for d
    using assms(3)
  proof (induction ms arbitrary: d)
    case (Cons m ms)
    let ?d = "say (client_message ''End of your TURN!'') d"
    have "handle_message name m d = Inr ?d" using Cons.prems by (simp add: handle_message_def msg_ids)
    then show ?case using Cons.IH [of ?d] Cons.prems by simp
  qed simp
  then show "\<exists>c'. res_fold (handle_message name) ms c = Inr c' \<and> follows (gameWorld t) c' \<and> PlayerID c' = PlayerID c"
    using c assms(1) by (fastforce simp: follows_def)
qed

section \<open>The next player's turn\<close>

text \<open>The copy of a client that does not know how many actions player \<open>j\<close> has left.\<close>

definition follows_but :: "u32 \<Rightarrow> GameWorld \<Rightarrow> custom_client \<Rightarrow> bool" where
  "follows_but j w c \<longleftrightarrow>
     wf_world (cWorld c) \<and> EnemyList (cWorld c) = EnemyList w \<and>
     (players (cWorld c))(j := None) = (players w)(j := None) \<and>
     map_option (CurrentTurns_update (\<lambda>_. 0)) (players (cWorld c) j)
       = map_option (CurrentTurns_update (\<lambda>_. 0)) (players w j)"

definition refreshed :: "u32 \<Rightarrow> Player \<Rightarrow> GameWorld \<Rightarrow> GameWorld" where
  "refreshed j q w = w\<lparr>PlayersList := AList.update j (q\<lparr>CurrentTurns := MaxTurns q\<rparr>) (PlayersList w)\<rparr>"

lemma refreshed_players [simp]:
  "players (refreshed j q w) = (players w)(j \<mapsto> q\<lparr>CurrentTurns := MaxTurns q\<rparr>)"
  "EnemyList (refreshed j q w) = EnemyList w"
  by (simp_all add: refreshed_def update_conv')

lemma wf_refreshed: "wf_world w \<Longrightarrow> players w j = Some q \<Longrightarrow> wf_world (refreshed j q w)"
  using wf_world_player [of w j q] by (simp add: refreshed_def wf_world_update_player wf_Player_def)

lemma follows_but_refreshed:
  assumes "players w j = Some q" and "follows w c"
  shows "follows_but j (refreshed j q w) c"
  using assms by (simp add: follows_but_def follows_def agree_def)

text \<open>When the player has all its actions already, as on its first turn, there is nothing to miss.\<close>

lemma follows_first_turn:
  assumes "players w j = Some q" and "CurrentTurns q = MaxTurns q" and "follows w c"
  shows "follows (refreshed j q w) c"
proof -
  have "q\<lparr>CurrentTurns := MaxTurns q\<rparr> = q" using assms(2) by (simp flip: assms(2))
  then show ?thesis using assms(1,3) by (simp add: follows_def agree_def fun_upd_idem)
qed

lemma handle_turn_messages:
  "handle_message name (new_message GamePlayerTurn) c = on_GamePlayerTurn c"
  "handle_message name (with_data GameNextPlayerTurn bs) c = on_GameNextPlayerTurn (with_data GameNextPlayerTurn bs) c"
  by (simp_all add: handle_message_def msg_ids new_message_def with_data_def)

lemma own_turn_handled:
  assumes "follows w c" and "players w j = Some q" and "PlayerID c = j"
  shows "\<exists>c'. handle_message name (new_message GamePlayerTurn) c = Inr c' \<and> follows (refreshed j q w) c' \<and>
           PlayerID c' = PlayerID c"
proof -
  have c: "wf_world (cWorld c)" "agree w (cWorld c)" using assms(1) by (simp_all add: follows_def)
  have q: "players (cWorld c) j = Some q" using c(2) assms(2) by (simp add: agree_def)
  let ?q = "q\<lparr>CurrentTurns := MaxTurns q\<rparr>"
  have "on_GamePlayerTurn c = Inr (say (client_message ''Your TURN!'') (insert_or_assign j ?q c))"
    using q assms(3) by (simp add: on_GamePlayerTurn_def Let_def SetCurrent_max)
  moreover have "wf_world (refreshed j q (cWorld c))" using wf_refreshed [OF c(1) q] .
  ultimately show ?thesis using agree_update_player [OF c(2), of j ?q]
    by (simp add: handle_turn_messages follows_def refreshed_def)
qed

lemma next_turn_handled:
  assumes "players (cWorld c) j = Some q" and "0 \<in> set (Name q)"
  shows "\<exists>c'. handle_message name (with_data GameNextPlayerTurn (enc_u32 j)) c = Inr c' \<and> cWorld c' = cWorld c \<and>
           PlayerID c' = PlayerID c"
  using assms pop_data_single [of "enc_u32 j" 4 dec_u32 GameNextPlayerTurn]
  by (simp add: handle_turn_messages on_GameNextPlayerTurn_def text_of_def)

section \<open>Names\<close>

definition names :: "GameWorld \<Rightarrow> u32 \<Rightarrow> bytes option" where
  "names w k = map_option Name (players w k)"

lemma names_update:
  "players w k = Some p \<Longrightarrow> Name q = Name p \<Longrightarrow> names (w\<lparr>PlayersList := AList.update k q (PlayersList w)\<rparr>) = names w"
  by (auto simp: names_def fun_eq_iff update_conv')

lemma names_struck: "struck d t w w' \<Longrightarrow> names w' = names w"
  by (auto simp: names_def fun_eq_iff struck_def option.map_comp comp_def Player_TakeDamage_def Let_def)

lemma names_action:
  assumes "wf_world w" and "MakeApprovedAction k a w = Inr w'"
  shows "names w' = names w"
  by (rule approved_action_rule [OF assms, where R = "\<lambda>w w'. names w' = names w"])
    (simp_all add: names_struck names_update)

lemma names_enemy_action:
  assumes "wf_world w" and "MakeEnemyAction i a w = Inr w'"
  shows "names w' = names w"
  by (rule enemy_action_rule [OF assms, where R = "\<lambda>w w'. names w' = names w"])
    (simp_all add: names_struck, simp add: names_def fun_eq_iff)

lemma names_replay:
  "wf_world w \<Longrightarrow> replay as w = Inr w' \<Longrightarrow> names w' = names w"
proof (induction "as" arbitrary: w)
  case (Cons a as')
  then obtain v where v: "MakeEnemyAction (unat (EA_EnemyID a)) a w = Inr v" "replay as' v = Inr w'" by auto
  have "wf_world v" using MakeEnemyAction_keeps [OF Cons.prems(1) v(1)] by (rule world_kept_wf)
  from Cons.IH [OF this v(2)] names_enemy_action [OF Cons.prems(1) v(1)] show ?case by simp
qed simp

text \<open>The turn actions of the players: nobody's but the acting player's change.\<close>

definition stamina :: "GameWorld \<Rightarrow> u32 \<Rightarrow> (4 word \<times> 4 word) option" where
  "stamina w k = map_option (\<lambda>p. (CurrentTurns p, MaxTurns p)) (players w k)"

lemma stamina_struck: "struck d t w w' \<Longrightarrow> stamina w' = stamina w"
  by (auto simp: stamina_def fun_eq_iff struck_def option.map_comp comp_def Player_TakeDamage_def Let_def)

lemma stamina_action:
  assumes "wf_world w" and "MakeApprovedAction k a w = Inr w'" and "j \<noteq> k"
  shows "stamina w' j = stamina w j"
  by (rule approved_action_rule [OF assms(1,2), where R = "\<lambda>w w'. stamina w' j = stamina w j"])
    (use assms(3) in \<open>simp_all add: stamina_struck\<close>, simp add: stamina_def update_conv')

lemma stamina_enemy_action:
  assumes "wf_world w" and "MakeEnemyAction i a w = Inr w'"
  shows "stamina w' = stamina w"
  by (rule enemy_action_rule [OF assms, where R = "\<lambda>w w'. stamina w' = stamina w"])
    (simp_all add: stamina_struck, simp add: stamina_def fun_eq_iff)

lemma stamina_replay:
  "wf_world w \<Longrightarrow> replay as w = Inr w' \<Longrightarrow> stamina w' = stamina w"
proof (induction "as" arbitrary: w)
  case (Cons a as')
  then obtain v where v: "MakeEnemyAction (unat (EA_EnemyID a)) a w = Inr v" "replay as' v = Inr w'" by auto
  have "wf_world v" using MakeEnemyAction_keeps [OF Cons.prems(1) v(1)] by (rule world_kept_wf)
  from Cons.IH [OF this v(2)] stamina_enemy_action [OF Cons.prems(1) v(1)] show ?case by simp
qed simp

text \<open>All names end inside their arrays.\<close>

definition named :: "GameWorld \<Rightarrow> bool" where
  "named w \<longleftrightarrow> (\<forall>(k, p) \<in> set (PlayersList w). 0 \<in> set (Name p))"

lemma named_names:
  assumes "wf_world w"
  shows "named w \<longleftrightarrow> (\<forall>k n. names w k = Some n \<longrightarrow> 0 \<in> set n)"
proof -
  have "(k, p) \<in> set (PlayersList w) \<longleftrightarrow> players w k = Some p" for k p
    using assms by (auto simp: wf_world_def)
  then show ?thesis by (force simp: named_def names_def)
qed

section \<open>Passing the turn\<close>

lemma turn_starts:
  assumes live: "all_live s" and ids: "ids_apart s" and cur: "CurrentPlayerID s = j"
    and q: "players (gameWorld s) j = Some q"
    and run: "res_bind (find_client s j (m_deqConnection s)) (\<lambda>c.
       res_bind (case c of None \<Rightarrow> Inr s | Some r \<Rightarrow> MessageClient disc (Some r) (new_message GamePlayerTurn) s)
         refresh_turns) = Inr u"
  shows "gameWorld u = refreshed j q (gameWorld s)" and "CurrentPlayerID u = j"
    and "m_deqConnection u = m_deqConnection s" and "all_live u"
    and "GetID u = GetID s" and "connected u = connected s" and "GarbageIDs u = GarbageIDs s"
    and "Some r \<in> set (m_deqConnection s) \<Longrightarrow> posted (heap u r) = posted (heap s r) @
           map T_send (if GetID s r = j then [new_message GamePlayerTurn] else [])"
proof -
  from live have lv: "\<forall>c \<in> set (m_deqConnection s). \<exists>r. c = Some r \<and> connected s r" by (simp add: all_live_def)
  from find_client_live [OF lv, of j] obtain c where
    c: "find_client s j (m_deqConnection s) = Inr c" "\<forall>r. c = Some r \<longrightarrow> connected s r" by blast
  define t where "t = (case c of None \<Rightarrow> s | Some r \<Rightarrow> send_to r (new_message GamePlayerTurn) s)"
  have t: "gameWorld t = gameWorld s" "CurrentPlayerID t = j" "m_deqConnection t = m_deqConnection s" "all_live t"
    "GetID t = GetID s" "connected t = connected s" "GarbageIDs t = GarbageIDs s"
    using live cur by (cases c; simp add: t_def fun_eq_iff)+
  have "(case c of None \<Rightarrow> Inr s | Some r \<Rightarrow> MessageClient disc (Some r) (new_message GamePlayerTurn) s) = Inr t"
    using c(2) by (cases c) (simp_all add: t_def MessageClient_live)
  then have "refresh_turns t = Inr u" using run c(1) by simp
  then have u: "u = set_players (AList.update j (q\<lparr>CurrentTurns := MaxTurns q\<rparr>) (s_players t)) t"
    using q t by (simp add: refresh_turns_def SetCurrent_max)
  show "gameWorld u = refreshed j q (gameWorld s)" "CurrentPlayerID u = j"
    "m_deqConnection u = m_deqConnection s" "all_live u"
    "GetID u = GetID s" "connected u = connected s" "GarbageIDs u = GarbageIDs s"
    using t by (simp_all add: u refreshed_def fun_eq_iff set_players_def)
  assume r: "Some r \<in> set (m_deqConnection s)"
  have "posted (heap u r) = posted (heap t r)" by (simp add: u set_players_def)
  also have "\<dots> = posted (heap s r) @ map T_send (if GetID s r = j then [new_message GamePlayerTurn] else [])"
  proof (cases c)
    case None
    then show ?thesis using find_client_none [OF _ r] c(1) by (auto simp: t_def)
  next
    case (Some r0)
    then have r0: "Some r0 \<in> set (m_deqConnection s)" "GetID s r0 = j" using find_client_some c(1) by blast+
    then have "GetID s r = j \<longleftrightarrow> r0 = r" using ids_apartD [OF ids r r0(1)] by auto
    then show ?thesis using Some by (simp add: t_def posted_send_to)
  qed
  finally show "posted (heap u r) = posted (heap s r) @
      map T_send (if GetID s r = j then [new_message GamePlayerTurn] else [])" .
qed

lemma client_starts:
  assumes w: "players w j = Some q" "0 \<in> set (Name q)" and "follows w c"
  shows "\<exists>c'. res_fold (handle_message name) ((if PlayerID c = j then [new_message GamePlayerTurn] else []) @
             [with_data GameNextPlayerTurn (enc_u32 j)]) c = Inr c' \<and> follows_but j (refreshed j q w) c' \<and>
           PlayerID c' = PlayerID c \<and>
           (PlayerID c = j \<or> CurrentTurns q = MaxTurns q \<longrightarrow> follows (refreshed j q w) c')"
proof (cases "PlayerID c = j")
  case True
  from own_turn_handled [OF assms(3) w(1) this, of name] obtain d where
    d: "handle_message name (new_message GamePlayerTurn) c = Inr d" "follows (refreshed j q w) d" "PlayerID d = PlayerID c"
    by blast
  have "players (cWorld d) j = Some (q\<lparr>CurrentTurns := MaxTurns q\<rparr>)"
    using d(2) unfolding follows_def agree_def by (metis fun_upd_same refreshed_players(1))
  from next_turn_handled [OF this, of name] w(2) obtain c' where
    c': "handle_message name (with_data GameNextPlayerTurn (enc_u32 j)) d = Inr c'" "cWorld c' = cWorld d"
      "PlayerID c' = PlayerID d" by auto
  have "follows (refreshed j q w) c'" using d(2) c'(2) by (simp add: follows_def)
  moreover from this have "follows_but j (refreshed j q w) c'" by (simp add: follows_def follows_but_def agree_def)
  ultimately show ?thesis using True d(1,3) c'(1,3) by simp
next
  case False
  have "players (cWorld c) j = Some q" using assms(3) w(1) by (simp add: follows_def agree_def)
  from next_turn_handled [OF this w(2), of name] obtain c' where
    c': "handle_message name (with_data GameNextPlayerTurn (enc_u32 j)) c = Inr c'" "cWorld c' = cWorld c"
      "PlayerID c' = PlayerID c" by blast
  then have "follows w c'" using assms(3) by (simp add: follows_def)
  then show ?thesis using False c'(1,3) follows_but_refreshed [OF w(1)] follows_first_turn [OF w(1)] by auto
qed

lemma AI_turn_returned:
  assumes "all_live s" and "distinct (m_deqConnection s)" and "MakeAITurn F disc s = Inr t"
  shows "all_live t \<and> (\<exists>a. enemies_turn F (gameWorld s) = Inr a \<and>
    gameWorld t = bury_dead (EnemyListDirt a) (ai_world a))"
proof -
  obtain a where a: "enemies_turn F (gameWorld s) = Inr a" using assms(3) by (auto simp: MakeAITurn_def)
  let ?f = "\<lambda>a. with_data GameAITurnAction (enc_EnemyAction a)"
  from announce_all [of "s\<lparr>gameWorld := ai_world a\<rparr>" disc ?f "ai_acts a"] assms(1,2) obtain u where
    "res_fold (\<lambda>a. MessageAllClients disc (?f a) None) (ai_acts a) (s\<lparr>gameWorld := ai_world a\<rparr>) = Inr u"
    "gameWorld u = ai_world a" "all_live u" by auto
  then show ?thesis using assms(3) a by (auto simp: MakeAITurn_def)
qed

lemma AI_turn_no_dirt:
  assumes "wf_world (gameWorld s)" and "all_live s" and "distinct (m_deqConnection s)"
    and "MakeAITurn F disc s = Inr t" and "length (EnemyList (gameWorld t)) = length (EnemyList (gameWorld s))"
  shows "\<exists>a. enemies_turn F (gameWorld s) = Inr a \<and> \<not> EnemyListDirt a"
proof -
  from AI_turn_returned [OF assms(2-4)] obtain a where
    a: "enemies_turn F (gameWorld s) = Inr a" "gameWorld t = bury_dead (EnemyListDirt a) (ai_world a)" by blast
  have "length (EnemyList (ai_world a)) = length (EnemyList (gameWorld s))"
    using enemies_turn_keeps [OF assms(1) a(1)] by (simp add: world_kept_def)
  then have "\<not> EnemyListDirt a" using same_length_no_dirt [OF assms(1) a(1)] assms(5) a(2) by simp
  with a(1) show ?thesis by blast
qed

lemma choose_current_live:
  assumes "all_live s" and "distinct (m_deqConnection s)" and "choose_current F disc (Some r) s = Inr t"
  shows "all_live t"
  using assms(3) AI_turn_returned [OF assms(1,2), of F disc] assms(1)
  by (auto simp: choose_current_def split: option.splits)

text \<open>Between two turns: the server's state as far as it is needed, and what the clients are told.\<close>

definition settled :: "custom_server \<Rightarrow> bool" where
  "settled s \<longleftrightarrow> all_live s \<and> ids_apart s \<and> wf_world (gameWorld s) \<and> named (gameWorld s)"

definition orderly :: "custom_server \<Rightarrow> bool" where
  "orderly s \<longleftrightarrow> settled s \<and> fit_enemies (gameWorld s)"

text \<open>Either somebody is next in the list, or the enemies have their turn and nobody is buried in it.\<close>

definition quiet :: "u32 \<Rightarrow> GameWorld \<Rightarrow> GameWorld \<Rightarrow> bool" where
  "quiet k w w' \<longleftrightarrow> (\<exists>j. next_key k (map fst (PlayersList w)) = Some (Some j)) \<or>
     fit_enemies w \<and> length (EnemyList w') = length (EnemyList w)"

definition turn_of :: "custom_server \<Rightarrow> custom_server \<Rightarrow> bool" where
  "turn_of s t \<longleftrightarrow> settled t \<and> m_deqConnection t = m_deqConnection s \<and> GetID t = GetID s \<and>
     (\<exists>q. players (gameWorld t) (CurrentPlayerID t) = Some q) \<and>
     stamina (gameWorld t) = stamina (gameWorld s) \<and>
     (\<forall>r. Some r \<in> set (m_deqConnection s) \<longrightarrow> told s t r)"

lemma turn_taken:
  assumes "settled s" and "(k, q) \<in> set (s_players s)"
  shows "turn_of s (s\<lparr>CurrentPlayerID := pID q\<rparr>)"
proof -
  have wf: "wf_world (gameWorld s)" using assms(1) by (simp add: settled_def)
  then have "players (gameWorld s) (pID q) = Some q" using assms(2) wf_world_ids [OF wf] by (auto simp: wf_world_def)
  moreover have "told s (s\<lparr>CurrentPlayerID := pID q\<rparr>) r" for r by (rule told_sends [of _ _ _ "[]"]) simp_all
  moreover have "GetID (s\<lparr>CurrentPlayerID := pID q\<rparr>) = GetID s" by (rule ext) simp
  ultimately show ?thesis using assms(1) by (simp add: turn_of_def settled_def ids_apart_def)
qed

lemma turn_of_trans:
  assumes "turn_of t u" and "m_deqConnection t = m_deqConnection s" and "GetID t = GetID s"
    and "stamina (gameWorld t) = stamina (gameWorld s)"
    and "\<And>r. Some r \<in> set (m_deqConnection s) \<Longrightarrow> told s t r"
  shows "turn_of s u"
  using assms by (auto simp: turn_of_def intro: told_trans)

lemma enemies_turn_orderly:
  assumes s: "orderly s" and run: "MakeAITurn F disc s = Inr t"
    and len: "length (EnemyList (gameWorld t)) = length (EnemyList (gameWorld s))"
  shows "orderly t" and "m_deqConnection t = m_deqConnection s" and "GetID t = GetID s"
    and "stamina (gameWorld t) = stamina (gameWorld s)"
    and "Some r \<in> set (m_deqConnection s) \<Longrightarrow> told s t r"
proof -
  from s have live: "all_live s" and ids: "ids_apart s" and wf: "wf_world (gameWorld s)" and nm: "named (gameWorld s)"
    and fit: "fit_enemies (gameWorld s)" by (simp_all add: orderly_def settled_def)
  from AI_turn_no_dirt [OF wf live ids_apart_distinct [OF ids] run len] obtain a where
    a: "enemies_turn F (gameWorld s) = Inr a" "\<not> EnemyListDirt a" by blast
  have es: "\<forall>e \<in> set (EnemyList (gameWorld s)). armed e \<and> unat (etype e) < 2"
    using fit by (simp add: fit_enemies_def list_all_iff)
  from enemies_turn_run [OF live ids_apart_distinct [OF ids] wf es a, of disc] obtain t' ms where
    t': "MakeAITurn F disc s = Inr t'" "gameWorld t' = ai_world a" "wf_world (gameWorld t')" "all_live t'"
      "m_deqConnection t' = m_deqConnection s" "GetID t' = GetID s"
      "\<forall>r. Some r \<in> set (m_deqConnection s) \<longrightarrow> posted (heap t' r) = posted (heap s r) @ map T_send ms"
      "\<forall>name c. follows (gameWorld s) c \<longrightarrow>
        (\<exists>c'. res_fold (handle_message name) ms c = Inr c' \<and> follows (gameWorld t') c' \<and> PlayerID c' = PlayerID c)"
    by blast
  then have t: "gameWorld t = ai_world a" "wf_world (gameWorld t)" "all_live t" "m_deqConnection t = m_deqConnection s"
      "GetID t = GetID s" and same: "t' = t" using run by auto
  have "all_armed (gameWorld s)" using es by (simp add: all_armed_def list_all_iff)
  from enemies_turn_recorded [OF wf this a] have
    rec: "replay (ai_acts a) (gameWorld s) = Inr (gameWorld t)" "kinds (gameWorld t) = kinds (gameWorld s)"
      "all_armed (gameWorld t)" using t(1) by auto
  have "named (gameWorld t)"
    using nm names_replay [OF wf rec(1)] by (simp add: named_names [OF wf] named_names [OF t(2)])
  moreover have "fit_enemies (gameWorld t)"
  proof -
    have "list_all (\<lambda>x. unat x < 2) (kinds (gameWorld t))" using es rec(2) by (simp add: kinds_def list_all_iff)
    then show ?thesis using rec(3) by (simp add: fit_enemies_def all_armed_def kinds_def list_all_iff)
  qed
  ultimately show "orderly t" using t ids by (simp add: orderly_def settled_def ids_apart_def)
  show "m_deqConnection t = m_deqConnection s" "GetID t = GetID s" using t by simp_all
  show "stamina (gameWorld t) = stamina (gameWorld s)" by (rule stamina_replay [OF wf rec(1)])
  assume "Some r \<in> set (m_deqConnection s)"
  then show "told s t r" using t'(7,8) unfolding same by (intro toldI [of _ _ _ ms]) auto
qed

lemma choose_turn:
  assumes s: "settled s" and run: "choose_current F disc (Some r) s = Inr t"
    and quiet: "quiet (GetID s r) (gameWorld s) (gameWorld t)"
  shows "turn_of s t"
    and "next_key (GetID s r) (map fst (s_players s)) = Some (Some j) \<Longrightarrow> t = s\<lparr>CurrentPlayerID := j\<rparr>"
proof -
  have wf: "wf_world (gameWorld s)" using s by (simp add: settled_def)
  then have d: "distinct (map fst (s_players s))" by (simp add: wf_world_def)
  have later: "\<exists>q. next_player (GetID s r) (s_players s) = Inr (Some q) \<and> pID q = j"
    if "next_key (GetID s r) (map fst (s_players s)) = Some (Some j)" for j
    using next_player_key [OF that d wf_world_ids [OF wf]] by blast
  then show "next_key (GetID s r) (map fst (s_players s)) = Some (Some j) \<Longrightarrow> t = s\<lparr>CurrentPlayerID := j\<rparr>"
    using run by (fastforce simp: choose_current_def)
  obtain n where n: "next_player (GetID s r) (s_players s) = Inr n" using run by (auto simp: choose_current_def)
  show "turn_of s t"
  proof (cases n)
    case (Some q)
    then obtain k where k: "(k, q) \<in> set (s_players s)" using next_player_in n by blast
    have "t = s\<lparr>CurrentPlayerID := pID q\<rparr>" using run n Some by (simp add: choose_current_def)
    then show ?thesis using turn_taken [OF s k] by simp
  next
    case None
    then obtain u p where u: "MakeAITurn F disc s = Inr u" "first_player (s_players u) = Inr p"
        "t = u\<lparr>CurrentPlayerID := pID p\<rparr>" using run n by (auto simp: choose_current_def)
    have fit: "fit_enemies (gameWorld s)" "length (EnemyList (gameWorld u)) = length (EnemyList (gameWorld s))"
      using quiet later n None u(3) by (auto simp: quiet_def)
    then have "orderly s" using s by (simp add: orderly_def)
    note ai = enemies_turn_orderly [OF this u(1) fit(2)]
    have "settled u" using ai(1) by (simp add: orderly_def)
    moreover from first_player_in [OF u(2)] obtain k where "(k, p) \<in> set (s_players u)" by blast
    ultimately show ?thesis using turn_of_trans [OF turn_taken ai(2-5)] by (simp add: u(3))
  qed
qed

lemma next_turn_live:
  assumes "all_live s" and "distinct (m_deqConnection s)" and "ChooseNextPlayerForTurn F disc (Some r) s = Inr u"
  shows "all_live u"
proof (cases "s_players s = []")
  case False
  with assms(3) obtain t where t: "choose_current F disc (Some r) s = Inr t"
    and start: "res_bind (find_client t (CurrentPlayerID t) (m_deqConnection t)) (\<lambda>c.
       res_bind (case c of None \<Rightarrow> Inr t | Some r \<Rightarrow> MessageClient disc (Some r) (new_message GamePlayerTurn) t)
         refresh_turns) = Inr u"
    by (auto simp: ChooseNextPlayerForTurn_def)
  have live: "all_live t" by (rule choose_current_live [OF assms(1,2) t])
  then have "\<forall>c \<in> set (m_deqConnection t). \<exists>r. c = Some r \<and> connected t r" by (simp add: all_live_def)
  from find_client_live [OF this, of "CurrentPlayerID t"] start live show ?thesis
    by (auto simp: refresh_turns_def MessageClient_live split: option.splits)
qed (use assms in \<open>simp add: ChooseNextPlayerForTurn_def\<close>)

lemma next_turn_told:
  assumes s: "settled s" and run: "ChooseNextPlayerForTurn F disc (Some r) s = Inr u" and "s_players s \<noteq> []"
    and quiet: "quiet (GetID s r) (gameWorld s) (gameWorld u)"
  shows "\<exists>t q. turn_of s t \<and> players (gameWorld t) (CurrentPlayerID u) = Some q \<and> all_live u \<and>
    gameWorld u = refreshed (CurrentPlayerID u) q (gameWorld t) \<and> m_deqConnection u = m_deqConnection s \<and>
    (\<forall>r. Some r \<in> set (m_deqConnection s) \<longrightarrow> posted (heap u r) = posted (heap t r) @
       map T_send (if GetID s r = CurrentPlayerID u then [new_message GamePlayerTurn] else [])) \<and>
    (\<forall>j. next_key (GetID s r) (map fst (s_players s)) = Some (Some j) \<longrightarrow> CurrentPlayerID u = j \<and>
       gameWorld t = gameWorld s \<and> GetID u = GetID s \<and> connected u = connected s \<and> GarbageIDs u = GarbageIDs s)"
proof -
  from run assms(3) obtain t where t: "choose_current F disc (Some r) s = Inr t"
    and start: "res_bind (find_client t (CurrentPlayerID t) (m_deqConnection t)) (\<lambda>c.
       res_bind (case c of None \<Rightarrow> Inr t | Some r \<Rightarrow> MessageClient disc (Some r) (new_message GamePlayerTurn) t)
         refresh_turns) = Inr u"
    by (auto simp: ChooseNextPlayerForTurn_def)
  have live: "all_live t" using choose_current_live [OF _ _ t] s ids_apart_distinct by (auto simp: settled_def)
  then have lv: "\<forall>c \<in> set (m_deqConnection t). \<exists>r. c = Some r \<and> connected t r" by (simp add: all_live_def)
  have "EnemyList (gameWorld u) = EnemyList (gameWorld t)"
    using start find_client_live [OF lv, of "CurrentPlayerID t"]
    by (auto simp: refresh_turns_def MessageClient_live split: option.splits)
  with quiet have "quiet (GetID s r) (gameWorld s) (gameWorld t)" by (simp add: quiet_def)
  note turn = choose_turn [OF s t this]
  from turn(1) obtain q where q: "players (gameWorld t) (CurrentPlayerID t) = Some q" and o: "all_live t" "ids_apart t"
    and same: "m_deqConnection t = m_deqConnection s" "GetID t = GetID s" by (auto simp: turn_of_def settled_def)
  note u = turn_starts [OF o refl q start]
  have "CurrentPlayerID u = j \<and> gameWorld t = gameWorld s \<and> connected u = connected s \<and> GarbageIDs u = GarbageIDs s"
    if "next_key (GetID s r) (map fst (s_players s)) = Some (Some j)" for j
    using turn(2) [OF that] u by (simp add: fun_eq_iff)
  then show ?thesis using turn(1) q u same by (intro exI [of _ t] exI [of _ q]) auto
qed

section \<open>The last action of a turn in the copies\<close>

text \<open>The run of a player's last action, cut into its three parts.\<close>

lemma last_action_parts:
  assumes o: "settled s" and "GarbageIDs s = []" and req: "is_request m" and "connected s r"
    and cur: "GetID s r = CurrentPlayerID s" and p: "map_of (s_players s) (GetID s r) = Some p"
    and eq: "unat (pEquipedItemID p) < MaxInventorySize" and "CurrentTurns p = 1"
    and "CheckPlayerAction (dec_PlayerAction (body m)) s = Inr True"
    and run: "OnMessage F n (Some r) m s = Inr s'"
  defines "disc \<equiv> OnClientDisconnect F n"
  shows "\<exists>t u. MakeApprovedAction (GetID s r) (dec_PlayerAction (body m)) (gameWorld s) = Inr (gameWorld t) \<and>
    settled t \<and> m_deqConnection t = m_deqConnection s \<and> GetID t = GetID s \<and> connected t = connected s \<and>
    GarbageIDs t = [] \<and> map fst (s_players t) = map fst (s_players s) \<and>
    (\<forall>r'. Some r' \<in> set (m_deqConnection s) \<longrightarrow> told s t r') \<and>
    ChooseNextPlayerForTurn F disc (Some r) t = Inr u \<and>
    MessageAllClients disc (with_data GameNextPlayerTurn (enc_u32 (CurrentPlayerID u))) None u = Inr s'"
proof -
  let ?a = "dec_PlayerAction (body m)" and ?k = "GetID s r"
  from o have live: "all_live s" and ids: "ids_apart s" and wf: "wf_world (gameWorld s)" and nm: "named (gameWorld s)"
    by (simp_all add: settled_def)
  have t0: "CurrentTurns p \<noteq> 0" using assms(8) by simp
  from MakeApprovedAction_wf [OF wf p eq t0, of ?a] obtain w' iv where
    w': "MakeApprovedAction ?k ?a (gameWorld s) = Inr w'" "wf_world w'" "same_shape (gameWorld s) w'"
      "players w' ?k = Some (p\<lparr>pCoords := moved_to ?a p, pInventory := iv, CurrentTurns := CurrentTurns p - 1\<rparr>)"
    by blast
  have "0 \<in> set (Name p)" using nm p by (auto simp: named_def dest: map_of_SomeD)
  note act = approved_told [OF wf live ids_apart_distinct [OF ids] p eq this t0 w'(1)]
  let ?v = "with_data GamePlayerActionValidated (enc_PlayerAction (?a\<lparr>PA_PlayerID := ?k\<rparr>))"
  define s2 where "s2 = send_all ?v None (m_deqConnection s) (s\<lparr>gameWorld := w'\<rparr>)"
  define t where "t = send_to r (new_message GameEndPlayerTurn) s2"
  have f: "gameWorld s2 = w'" "gameWorld t = w'" "m_deqConnection t = m_deqConnection s" "all_live t"
      "GetID t = GetID s" "connected t = connected s" "connected s2 r" "all_live s2" "GarbageIDs t = []"
    using live assms(2,4) by (simp_all add: s2_def t_def fun_eq_iff)
  have "named w'" using nm names_action [OF wf w'(1)] by (simp add: named_names [OF wf] named_names [OF w'(2)])
  then have "settled t" using f w'(2) ids by (simp add: settled_def ids_apart_def)
  moreover have "told s t r'" if "Some r' \<in> set (m_deqConnection s)" for r'
  proof -
    have "told s2 t r'"
      by (rule told_sends [of _ _ _ "if r = r' then [new_message GameEndPlayerTurn] else []"])
        (simp_all add: t_def posted_send_to new_message_def)
    then show ?thesis using act [OF that] by (auto simp: s2_def intro: told_trans)
  qed
  moreover have "OnMessage F n (Some r) m s = perform_action F disc r ?a s"
    unfolding disc_def using req
    by (intro on_action_approved [OF assms(2) _ _ cur p t0 assms(9)]) (simp_all add: is_request_def)
  then have "perform_action F disc r ?a s = Inr s'" using run by simp
  then obtain u where "ChooseNextPlayerForTurn F disc (Some r) t = Inr u"
      "MessageAllClients disc (with_data GameNextPlayerTurn (enc_u32 (CurrentPlayerID u))) None u = Inr s'"
    using w' assms(8) f by (auto simp: perform_action_def Let_def MessageAllClients_live [of "s\<lparr>gameWorld := w'\<rparr>"] live
        s2_def [symmetric] t_def [symmetric] MessageClient_live)
  ultimately show ?thesis using f w'(1,3) by (intro exI [of _ t] exI [of _ u]) (auto simp: same_shape_def)
qed

text \<open>What a client is told from \<open>s\<close> to \<open>s'\<close>, where the turn of a player begins: \<open>rest\<close> says that it was rested.\<close>

definition turn_told :: "bool \<Rightarrow> custom_server \<Rightarrow> custom_server \<Rightarrow> nat \<Rightarrow> bool" where
  "turn_told rest s s' r \<longleftrightarrow> (\<exists>ms. posted (heap s' r) = posted (heap s r) @ map T_send ms \<and>
    (\<forall>name c. follows (gameWorld s) c \<and> PlayerID c = GetID s r \<longrightarrow>
       (\<exists>c'. res_fold (handle_message name) ms c = Inr c' \<and> PlayerID c' = PlayerID c \<and>
          follows_but (CurrentPlayerID s') (gameWorld s') c' \<and>
          (PlayerID c = CurrentPlayerID s' \<or> rest \<longrightarrow> follows (gameWorld s') c'))))"

lemma turn_announced:
  assumes told: "told s v r'" and v: "settled v" "players (gameWorld v) j = Some q"
    and u: "gameWorld u = refreshed j q (gameWorld v)" "all_live u" "distinct (m_deqConnection u)"
      "Some r' \<in> set (m_deqConnection u)" "CurrentPlayerID u = j"
    and post: "posted (heap u r') = posted (heap v r') @
      map T_send (if GetID s r' = j then [new_message GamePlayerTurn] else [])"
    and s': "s' = send_all (with_data GameNextPlayerTurn (enc_u32 j)) None (m_deqConnection u) u"
  shows "turn_told (CurrentTurns q = MaxTurns q) s s' r'"
proof -
  let ?next = "with_data GameNextPlayerTurn (enc_u32 j)" and ?i = "GetID s r'"
  let ?last = "(if ?i = j then [new_message GamePlayerTurn] else []) @ [?next]"
  from told obtain ms where
    ms: "posted (heap v r') = posted (heap s r') @ map T_send ms"
      "\<forall>name c. follows (gameWorld s) c \<longrightarrow>
         (\<exists>c'. res_fold (handle_message name) ms c = Inr c' \<and> follows (gameWorld v) c' \<and> PlayerID c' = PlayerID c)"
    unfolding told_def by blast
  have full: "\<forall>c \<in> set (m_deqConnection u). c \<noteq> None" using u(2) by (auto simp: all_live_def)
  have posts: "posted (heap s' r') = posted (heap s r') @ map T_send (ms @ ?last)"
    using posted_send_all [OF u(3) full, of ?next None u r'] u(4) post ms(1) by (simp add: s')
  have nm: "0 \<in> set (Name q)" using v by (auto simp: settled_def named_def dest: map_of_SomeD)
  have game: "gameWorld s' = refreshed j q (gameWorld v)" "CurrentPlayerID s' = j" using u(1,5) by (simp_all add: s')
  have "\<exists>c'. res_fold (handle_message name) (ms @ ?last) c = Inr c' \<and> PlayerID c' = PlayerID c \<and>
      follows_but j (gameWorld s') c' \<and>
      (PlayerID c = j \<or> CurrentTurns q = MaxTurns q \<longrightarrow> follows (gameWorld s') c')"
    if c: "follows (gameWorld s) c \<and> PlayerID c = ?i" for name c
  proof -
    from ms(2) c obtain d where d: "res_fold (handle_message name) ms c = Inr d" "follows (gameWorld v) d"
      "PlayerID d = PlayerID c" by blast
    then have "PlayerID d = ?i" using c by simp
    from client_starts [OF v(2) nm d(2), of name, unfolded this] obtain c' where
      c': "res_fold (handle_message name) ?last d = Inr c'" "follows_but j (refreshed j q (gameWorld v)) c'"
        "PlayerID c' = ?i" "?i = j \<or> CurrentTurns q = MaxTurns q \<longrightarrow> follows (refreshed j q (gameWorld v)) c'" by blast
    show ?thesis
    proof (intro exI conjI)
      show "res_fold (handle_message name) (ms @ ?last) c = Inr c'"
        using d(1) c'(1) by (simp only: res_fold_append res_bind_Inr)
    qed (use c c'(2-4) in \<open>simp_all add: game\<close>)
  qed
  with posts show ?thesis unfolding turn_told_def game(2) by blast
qed

lemma turn_end_run:
  assumes s: "settled s" and "GarbageIDs s = []" and "is_request m" and "connected s r"
    and cur: "GetID s r = CurrentPlayerID s" and "map_of (s_players s) (GetID s r) = Some p"
    and "unat (pEquipedItemID p) < MaxInventorySize" and "CurrentTurns p = 1"
    and "CheckPlayerAction (dec_PlayerAction (body m)) s = Inr True"
    and run: "OnMessage F n (Some r) m s = Inr s'"
    and quiet: "quiet (GetID s r) (gameWorld s) (gameWorld s')"
  shows "\<exists>w' v q. MakeApprovedAction (GetID s r) (dec_PlayerAction (body m)) (gameWorld s) = Inr w' \<and>
    wf_world v \<and> named v \<and> stamina v = stamina w' \<and>
    players v (CurrentPlayerID s') = Some q \<and> gameWorld s' = refreshed (CurrentPlayerID s') q v \<and>
    m_deqConnection s' = m_deqConnection s \<and>
    (\<forall>r'. Some r' \<in> set (m_deqConnection s) \<longrightarrow> turn_told (CurrentTurns q = MaxTurns q) s s' r') \<and>
    (\<forall>j. next_key (GetID s r) (map fst (s_players s)) = Some (Some j) \<longrightarrow> CurrentPlayerID s' = j \<and> v = w' \<and>
       all_live s' \<and> GetID s' = GetID s \<and> connected s' = connected s \<and> GarbageIDs s' = [])"
proof -
  let ?disc = "OnClientDisconnect F n" and ?a = "dec_PlayerAction (body m)"
  from last_action_parts [OF assms(1-10)] obtain t u where
    t: "MakeApprovedAction (GetID s r) ?a (gameWorld s) = Inr (gameWorld t)" "settled t"
      "m_deqConnection t = m_deqConnection s" "GetID t = GetID s" "connected t = connected s" "GarbageIDs t = []"
      "map fst (s_players t) = map fst (s_players s)" "\<forall>r'. Some r' \<in> set (m_deqConnection s) \<longrightarrow> told s t r'" and
    u: "ChooseNextPlayerForTurn F ?disc (Some r) t = Inr u" and
    last: "MessageAllClients ?disc (with_data GameNextPlayerTurn (enc_u32 (CurrentPlayerID u))) None u = Inr s'"
    by blast
  have live: "all_live u" using next_turn_live [OF _ _ u] t(2) ids_apart_distinct by (auto simp: settled_def)
  with last have s': "s' = send_all (with_data GameNextPlayerTurn (enc_u32 (CurrentPlayerID u))) None
      (m_deqConnection u) u" by (simp add: MessageAllClients_live)
  have wf: "wf_world (gameWorld s)" using s by (simp add: settled_def)
  note hurt = only_hurt_action [OF wf t(1)]
  have q': "quiet (GetID t r) (gameWorld t) (gameWorld u)"
    using quiet only_hurt_fit [OF hurt] only_hurt_length [OF hurt] t(4,7) by (simp add: quiet_def s')
  have "s_players t \<noteq> []" using t(7) assms(6) by (cases "s_players s") auto
  from next_turn_told [OF t(2) u this q'] obtain v q where
    v: "turn_of t v" "players (gameWorld v) (CurrentPlayerID u) = Some q"
      "gameWorld u = refreshed (CurrentPlayerID u) q (gameWorld v)" "m_deqConnection u = m_deqConnection t" and
    post: "\<forall>r. Some r \<in> set (m_deqConnection t) \<longrightarrow> posted (heap u r) = posted (heap v r) @
      map T_send (if GetID t r = CurrentPlayerID u then [new_message GamePlayerTurn] else [])" and
    next': "\<forall>j. next_key (GetID t r) (map fst (s_players t)) = Some (Some j) \<longrightarrow> CurrentPlayerID u = j \<and>
      gameWorld v = gameWorld t \<and> GetID u = GetID t \<and> connected u = connected t \<and> GarbageIDs u = GarbageIDs t"
    by blast
  have sv: "settled v" "stamina (gameWorld v) = stamina (gameWorld t)" using v(1) by (simp_all add: turn_of_def)
  have "distinct (m_deqConnection u)" using ids_apart_distinct [of t] t(2) v(4) by (simp add: settled_def)
  then have "turn_told (CurrentTurns q = MaxTurns q) s s' r'" if r': "Some r' \<in> set (m_deqConnection s)" for r'
    using turn_announced [OF _ sv(1) v(2,3) live _ _ refl _ s', of s r'] v(1,4) t(3,4,8) post r' told_trans
    by (auto simp: turn_of_def)
  then show ?thesis
    using t v(2-4) sv next' live
    by (intro exI [of _ "gameWorld t"] exI [of _ "gameWorld v"] exI [of _ q])
      (auto simp: s' settled_def fun_eq_iff)
qed

text \<open>
  Property C12. The end of a turn reaches the copies. When a player's last action is performed, the enemies
  have their turn if the player is the last of the list, and the turn passes on. Unless somebody is buried,
  every client whose copy agreed with the server's world and that handles what it was posted agrees with the
  new world again, but for the actions that the player now on turn has left: those the server refreshes, and
  of the clients only the player's own. On a first turn, when nothing is missing, all copies agree.
\<close>

theorem turn_end_reaches_copies:
  assumes "orderly s" and "GarbageIDs s = []" and "is_request m" and "connected s r"
    and "GetID s r = CurrentPlayerID s" and "map_of (s_players s) (GetID s r) = Some p"
    and "unat (pEquipedItemID p) < MaxInventorySize" and "CurrentTurns p = 1"
    and "CheckPlayerAction (dec_PlayerAction (body m)) s = Inr True"
    and "OnMessage F n (Some r) m s = Inr s'"
    and "length (EnemyList (gameWorld s')) = length (EnemyList (gameWorld s))"
    and r': "Some r' \<in> set (m_deqConnection s)"
  defines "j \<equiv> CurrentPlayerID s'"
  shows "\<exists>q ms. players (gameWorld s') j = Some q \<and> CurrentTurns q = MaxTurns q \<and>
    posted (heap s' r') = posted (heap s r') @ map T_send ms \<and>
    (\<forall>name c. follows (gameWorld s) c \<and> PlayerID c = GetID s r' \<longrightarrow>
       (\<exists>c'. res_fold (handle_message name) ms c = Inr c' \<and> PlayerID c' = PlayerID c \<and>
          follows_but j (gameWorld s') c' \<and>
          (PlayerID c = j \<or> j \<noteq> GetID s r \<and> stamina (gameWorld s) j = Some (MaxTurns q, MaxTurns q) \<longrightarrow>
             follows (gameWorld s') c')))"
proof -
  have "settled s" and "quiet (GetID s r) (gameWorld s) (gameWorld s')"
    using assms(1,11) by (simp_all add: orderly_def quiet_def)
  from turn_end_run [OF this(1) assms(2-10) this(2)] obtain w' v q where
    w': "MakeApprovedAction (GetID s r) (dec_PlayerAction (body m)) (gameWorld s) = Inr w'" "stamina v = stamina w'" and
    q: "players v j = Some q" "gameWorld s' = refreshed j q v" and told: "turn_told (CurrentTurns q = MaxTurns q) s s' r'"
    using r' unfolding j_def by blast
  let ?q = "q\<lparr>CurrentTurns := MaxTurns q\<rparr>"
  have "wf_world (gameWorld s)" using \<open>settled s\<close> by (simp add: settled_def)
  then have "j \<noteq> GetID s r \<and> stamina (gameWorld s) j = Some (MaxTurns ?q, MaxTurns ?q) \<Longrightarrow> CurrentTurns q = MaxTurns q"
    using stamina_action [OF _ w'(1), of j] fun_cong [OF w'(2), of j] q(1) by (auto simp: stamina_def)
  moreover have "players (gameWorld s') j = Some ?q" "CurrentTurns ?q = MaxTurns ?q" using q(2) by simp_all
  ultimately show ?thesis using told unfolding turn_told_def j_def [symmetric] by blast
qed

lemma last_turn_server:
  "orderly (sample_server\<lparr>gameWorld := last_turn_world\<rparr>)"
  "CheckPlayerAction sample_step (sample_server\<lparr>gameWorld := last_turn_world\<rparr>) = Inr True"
proof -
  have "fit_enemies last_turn_world"
    by (simp add: fit_enemies_def last_turn_world_def sample_world_def)
      (simp add: EnemiesTable_def armed_def inventory_with_def table_slot_def ItemTable_def MaxInventorySize_def)
  moreover have "named last_turn_world" by (simp add: named_def last_turn_players sample_player_def MaxNameSize_def)
  ultimately show "orderly (sample_server\<lparr>gameWorld := last_turn_world\<rparr>)"
    by (simp add: orderly_def settled_def ids_apart_def wf_last_turn_world)
  show "CheckPlayerAction sample_step (sample_server\<lparr>gameWorld := last_turn_world\<rparr>) = Inr True"
    by (simp add: CheckPlayerAction_def last_turn_players sample_step_def sample_player_def action_vec_def
        vec3_add_def vec3_make_def Map_Width_def Map_Height_def sa_get_def Tile_Grass_def Tile_Hill_def Let_def)
qed

theorem turn_end_reaches_copies_witness:
  "\<exists>s' ms c'. OnMessage 4 1 (Some 0) (sample_request sample_step) (sample_server\<lparr>gameWorld := last_turn_world\<rparr>)
       = Inr s' \<and> CurrentPlayerID s' = 10001 \<and>
     posted (heap s' 1) = posted (heap sample_server 1) @ map T_send ms \<and>
     res_fold (handle_message []) ms (sample_client\<lparr>cWorld := last_turn_world\<rparr>) = Inr c' \<and> follows (gameWorld s') c'"
proof -
  let ?s = "sample_server\<lparr>gameWorld := last_turn_world\<rparr>" and ?m = "sample_request sample_step"
  let ?p = "(sample_player 10000 (vec3_make 4 2 0))\<lparr>CurrentTurns := 1\<rparr>"
  have f: "GarbageIDs ?s = []" "CurrentPlayerID ?s = 10000" "is_request ?m" "dec_PlayerAction (body ?m) = sample_step"
      "map_of (s_players ?s) 10000 = Some ?p" "unat (pEquipedItemID ?p) < MaxInventorySize"
    using sample_equipped [of 10000 "vec3_make 4 2 0"]
    by (simp_all add: sample_server_def is_request_def pod_PlayerAction last_turn_players)
  have "\<exists>s'. OnMessage 4 1 (Some 0) ?m ?s = Inr s' \<and> CurrentPlayerID s' = 10001 \<and>
      length (EnemyList (gameWorld s')) = length (EnemyList (gameWorld ?s))"
    using last_action_run [of ?s ?m 0 ?p 10001 4 1] f last_turn_server(2) wf_last_turn_world
    by (simp add: is_request_def last_turn_players) blast
  then obtain s' where s': "OnMessage 4 1 (Some 0) ?m ?s = Inr s'" "CurrentPlayerID s' = 10001"
      "length (EnemyList (gameWorld s')) = length (EnemyList (gameWorld ?s))" by blast
  have g: "connected ?s 0" "GetID ?s 0 = CurrentPlayerID ?s" "map_of (s_players ?s) (GetID ?s 0) = Some ?p"
      "CurrentTurns ?p = 1" "CheckPlayerAction (dec_PlayerAction (body ?m)) ?s = Inr True"
      "Some 1 \<in> set (m_deqConnection ?s)" "GetID ?s 1 = CurrentPlayerID s'"
    using f last_turn_server(2) s'(2) by (simp_all add: last_turn_players)
  from turn_end_reaches_copies [OF last_turn_server(1) f(1,3) g(1-3) f(6) g(4,5) s'(1,3) g(6)] obtain ms where
    ms: "posted (heap s' 1) = posted (heap ?s 1) @ map T_send ms"
    "\<forall>name c. follows (gameWorld ?s) c \<and> PlayerID c = GetID ?s 1 \<longrightarrow>
       (\<exists>c'. res_fold (handle_message name) ms c = Inr c' \<and>
          (PlayerID c = CurrentPlayerID s' \<longrightarrow> follows (gameWorld s') c'))"
    by blast
  let ?c = "sample_client\<lparr>cWorld := last_turn_world\<rparr>"
  have "follows (gameWorld ?s) ?c" by (simp add: follows_def agree_def wf_last_turn_world)
  moreover have id: "PlayerID ?c = GetID ?s 1" using g(7) s'(2) by simp
  ultimately obtain c' where "res_fold (handle_message []) ms ?c = Inr c'" "follows (gameWorld s') c'"
    using ms(2) g(7) by metis
  moreover have "posted (heap ?s 1) = posted (heap sample_server 1)" by simp
  ultimately show ?thesis using s'(1,2) ms(1) by metis
qed

end
