(* ===== verification/FirstRound.thy ===== *)
theory FirstRound
  imports TurnEnd
begin

text \<open>
  The first round: the players have their turns in the order of the list, each with all its actions. As long
  as requests come in fewer than there are actions left, no action is given back, the enemies do not move,
  and every client's copy agrees with the server's world. Theory TurnEnd has what follows at the end of the
  round, and ClientProps how the copies part on a second turn.
\<close>

section \<open>Requests\<close>





section \<open>The round\<close>























section \<open>One request\<close>







section \<open>The first round in the copies\<close>








end
