(* ===== verification/ServerMain.thy ===== *)
theory ServerMain
  imports ServerRun
begin

text \<open>
  \<^verbatim>\<open>main\<close> of the server (AsciiTerra_Server/GameServer.cpp): the server is constructed, started and run. Its
  two threads are a list of events: accepts and completions on the thread of the asio context, which there
  are only while that thread serves, and iterations of \<^verbatim>\<open>Run\<close> on the main thread.
\<close>

datatype server_event =
    Accepted bool u64
  | Completed nat event
  | Iteration nat u32

fun main_event :: "nat \<Rightarrow> nat \<Rightarrow> server_event \<Rightarrow> custom_server \<Rightarrow> custom_server res" where
  "main_event F n (Accepted ok now) s =
     Inr (if server_serves s \<and> next_ref s + 10001 \<le> 2 ^ 32 then on_accept OnClientConnect ok now s else s)"
| "main_event F n (Completed r ev) s =
     (if server_serves s \<and> r < next_ref s then server_context_event OnClientValidated r ev s else Inr s)"
| "main_event F n (Iteration k elapsed) s = Run_iteration F n k elapsed s"

text \<open>What \<^verbatim>\<open>Start\<close> returns is not looked at.\<close>

definition server_main :: "nat \<Rightarrow> nat \<Rightarrow> bool \<Rightarrow> bytes \<Rightarrow> (nat \<Rightarrow> nat) \<Rightarrow> (nat \<Rightarrow> u32 \<Rightarrow> nat)
    \<Rightarrow> server_event list \<Rightarrow> custom_server res" where
  "server_main F n created memory rs ho evs =
     res_bind (server_Start created (CustomServer memory rs ho)) (\<lambda>(started, s). res_fold (main_event F n) evs s)"

text \<open>Starting changes nothing that the invariant is about.\<close>

lemma server_inv_started:
  "server_inv (s\<lparr>accepts := a, s_thread_joinable := j\<rparr>) = server_inv s"
  by (simp add: server_inv_def clients_ok_def players_ok_def turn_ok_def GetID_def connected_def)

lemma Run_iteration_inv:
  assumes "server_inv s" and "Run_iteration F n k elapsed s = Inr t"
  shows "server_inv t"
proof -
  from assms(2) obtain u where u: "(if 1000 < elapsed then ShyCheckAllPlayers F n s else Inr s) = Inr u"
    "Update k (OnMessage F n) u = Inr t" by (auto simp: Run_iteration_def)
  have "server_inv u" using u(1) assms(1) server_step_inv [OF checked [of F n s u]] by (auto split: if_splits)
  with u(2) show ?thesis by (blast intro: Update_inv)
qed

lemma main_event_inv: "main_event F n ev s = Inr t \<Longrightarrow> server_inv s \<Longrightarrow> server_inv t"
  by (cases ev) (auto intro: accept_inv context_event_inv Run_iteration_inv split: if_splits)

lemma server_main_inv:
  assumes "length memory = Map_Width * Map_Height" and "server_main F n created memory rs ho evs = Inr t"
  shows "server_inv t"
proof -
  from assms(2) obtain started s where s: "server_Start created (CustomServer memory rs ho) = Inr (started, s)"
    "res_fold (main_event F n) evs s = Inr t" by (auto simp: server_main_def)
  then have "s = (CustomServer memory rs ho)\<lparr>accepts := accepts s, s_thread_joinable := s_thread_joinable s\<rparr>"
    by (auto simp: server_Start_def WaitForClientConnection_def Let_def split: if_splits)
  then have inv: "server_inv s" using fresh_server_inv [OF assms(1), of rs] server_inv_started by metis
  show ?thesis
    by (rule res_fold_invariant [where I = server_inv and f = "main_event F n", OF _ inv s(2)]) (rule main_event_inv)
qed

text \<open>
  The thread is created: the server serves from the start, with one accept asked for. It is not: the program
  goes on and nothing ever happens.
\<close>

lemma fresh_server_idle:
  assumes "length memory = Map_Width * Map_Height"
  shows "accepts (CustomServer memory rs ho) = 0 \<and> \<not> s_thread_joinable (CustomServer memory rs ho) \<and>
    \<not> s_context_stopped (CustomServer memory rs ho) \<and> m_deqConnection (CustomServer memory rs ho) = [] \<and>
    s_qIn (CustomServer memory rs ho) = []"
  by (rule CustomServer_spec [OF assms refl, of rs ho]) (intro conjI)

lemma server_main_serves:
  assumes "length memory = Map_Width * Map_Height"
  shows "\<exists>s. server_main F n True memory rs ho evs = res_fold (main_event F n) evs s \<and> server_serves s \<and> accepts s = 1"
proof -
  define s where "s = CustomServer memory rs ho"
  have "accepts s = 0" "\<not> s_thread_joinable s" "\<not> s_context_stopped s"
    using fresh_server_idle [OF assms, of rs] by (simp_all add: s_def)
  then show ?thesis unfolding server_main_def s_def [symmetric]
    by (intro exI [of _ "s\<lparr>accepts := 1, s_thread_joinable := True\<rparr>"])
      (simp add: server_Start_def WaitForClientConnection_def server_serves_def Let_def)
qed

lemma idle_event:
  assumes "m_deqConnection s = []" and "s_qIn s = []" and "\<not> s_thread_joinable s"
  shows "main_event F n ev s = Inr s"
proof (cases ev)
  case (Iteration k elapsed)
  have "Update k (OnMessage F n) s = Inr s" using assms(2) by (cases k) (simp_all add: q_empty_def)
  then show ?thesis using Iteration assms(1)
    by (simp add: Run_iteration_def ShyCheckAllPlayers_def MessageAllClients_def)
qed (use assms(3) in \<open>simp_all add: server_serves_def\<close>)

lemma server_main_unserved:
  assumes "length memory = Map_Width * Map_Height"
  shows "server_main F n False memory rs ho evs = Inr (WaitForClientConnection (CustomServer memory rs ho))" (is "_ = Inr ?s")
proof -
  have "m_deqConnection ?s = []" "s_qIn ?s = []" "\<not> s_thread_joinable ?s"
    using fresh_server_idle [OF assms, of rs] by (simp_all add: WaitForClientConnection_def)
  then have "res_fold (main_event F n) evs ?s = Inr ?s" by (induction evs) (simp_all add: idle_event)
  then show ?thesis by (simp add: server_main_def server_Start_def Let_def)
qed

end
