(* ===== verification/ClientMain.thy ===== *)
theory ClientMain
  imports ClientTypes
begin

text \<open>
  \<^verbatim>\<open>main\<close> of the client (AsciiTerra_Client/GameClient.cpp): a client is constructed, \<^verbatim>\<open>run\<close> connects it and updates
  it while it is connected, and at the end of \<^verbatim>\<open>main\<close> it is destroyed. An iteration without a connection does
  nothing, which stands for the loop's end; \<open>evs\<close> are the events handled while the destructor disconnects.
\<close>

definition client_main :: "bool \<Rightarrow> bytes \<Rightarrow> (u32 \<times> client_input \<times> event list) list \<Rightarrow> event list \<Rightarrow> custom_client res" where
  "client_main resolved memory its evs =
     res_bind (CreatePlayer resolved (CustomClient memory)) (\<lambda>c.
     res_bind (res_fold run_iteration its c) (client_destroy evs))"

text \<open>However it went, the client that is left has no connection and its thread has ended.\<close>

lemma client_main_ends:
  "client_main resolved memory its evs = Inr c \<Longrightarrow> m_connection c = None \<and> context_stopped c \<and> \<not> thread_joinable c"
proof -
  assume "client_main resolved memory its evs = Inr c"
  then obtain d where "client_disconnect evs d = Inr c" by (auto simp: client_main_def client_destroy_def)
  then show ?thesis by (cases "m_connection d") (auto simp: client_disconnect_def)
qed

text \<open>When the address is not found the program says so and ends: no input is looked at, nothing is sent.\<close>

lemma unconnected_iteration:
  assumes "m_connection c = None"
  shows "run_iteration it c = Inr c"
proof -
  have "res_fold context_event evs c = Inr c" for evs
    using assms by (induction evs) (simp_all add: context_event_def)
  then show ?thesis using assms by (cases it) (simp add: run_iteration_def client_connected_def)
qed

lemma client_main_unresolved:
  "\<exists>c. client_main False memory its evs = Inr c \<and> console c = [''[CLIENT]  Exception: Can't connect to server!''] \<and>
       leaked c = [] \<and> c_players c = [] \<and> PlayerID c = 0"
proof -
  obtain c where c: "CreatePlayer False (CustomClient memory) = Inr c" "m_connection c = None" "leaked c = []"
      "console c = [''[CLIENT]  Exception: Can't connect to server!'']" "c_players c = []" "PlayerID c = 0"
    by (simp add: CreatePlayer_def Connect_def CustomClient_def say_def)
  have "res_fold run_iteration its c = Inr c" using c(2) by (induction its) (simp_all add: unconnected_iteration)
  then show ?thesis using c by (simp add: client_main_def client_destroy_def client_disconnect_def)
qed

end
