(* ===== verification/RingBuffer.thy ===== *)
theory RingBuffer
  imports Prelude
begin

text \<open>
  SpNetCommon/src/Containers/DynamirArray.h: the ring buffer.

  \<^item> Memory is an explicit store from addresses to blocks of cells, so that two buffers may share a block
    and a block may be freed twice. A pointer is null, the address of a block, or the indeterminate value
    of a pointer that no constructor has set (\<open>Wild\<close>), whose test is undefined.
  \<^item> \<^verbatim>\<open>RING_BUFFER_ASSERT\<close> is empty in the build, and \<^verbatim>\<open>size_t(-1)\<close> is the invalid index.
  \<^item> \<^verbatim>\<open>memcpy_s\<close> counts bytes: \<open>sz\<close> is the size of a value, \<open>mix k x y\<close> the value whose first \<open>k\<close> bytes are
    those of \<open>x\<close> and whose others are those of \<open>y\<close>.
  \<^item> What an allocation returns is an argument: \<open>None\<close>, or the contents of the new block.
\<close>

section \<open>State\<close>

datatype ptr = Null | Wild | Addr nat

record 'a store =
  blocks :: "nat \<Rightarrow> 'a list option"
  next_addr :: nat

record ring =
  MemoryBlock :: ptr
  capacity :: nat
  head :: nat
  elementsInside :: nat

definition InvalidIndex :: nat where
  "InvalidIndex = size_max"

definition is_set :: "ptr \<Rightarrow> bool res" where
  "is_set p = (case p of Null \<Rightarrow> Inr False | Wild \<Rightarrow> Inl Undefined | Addr _ \<Rightarrow> Inr True)"

definition Allocate :: "'a list option \<Rightarrow> 'a store \<Rightarrow> ptr \<times> 'a store" where
  "Allocate got st =
     (case got of
        None \<Rightarrow> (Null, st)
      | Some xs \<Rightarrow> (Addr (next_addr st),
                    st\<lparr>blocks := (blocks st)(next_addr st \<mapsto> xs), next_addr := Suc (next_addr st)\<rparr>))"

text \<open>\<^verbatim>\<open>free\<close> of a block that is not allocated is undefined.\<close>

definition Deallocate :: "ptr \<Rightarrow> 'a store \<Rightarrow> 'a store res" where
  "Deallocate p st =
     (case p of
        Null \<Rightarrow> Inr st
      | Wild \<Rightarrow> Inl Undefined
      | Addr a \<Rightarrow> (case blocks st a of
          None \<Rightarrow> Inl Undefined | Some _ \<Rightarrow> Inr (st\<lparr>blocks := (blocks st)(a := None)\<rparr>)))"

definition block_of :: "ptr \<Rightarrow> 'a store \<Rightarrow> 'a list res" where
  "block_of p st =
     (case p of
        Null \<Rightarrow> Inl NullDeref
      | Wild \<Rightarrow> Inl Undefined
      | Addr a \<Rightarrow> (case blocks st a of None \<Rightarrow> Inl Undefined | Some xs \<Rightarrow> Inr xs))"

definition set_block :: "ptr \<Rightarrow> 'a list \<Rightarrow> 'a store \<Rightarrow> 'a store" where
  "set_block p xs st = (case p of Addr a \<Rightarrow> st\<lparr>blocks := (blocks st)(a \<mapsto> xs)\<rparr> | _ \<Rightarrow> st)"

section \<open>Indices\<close>

definition GetTailIndex :: "ring \<Rightarrow> nat" where
  "GetTailIndex r =
     (if capacity r = 0 then InvalidIndex
      else if head r = InvalidIndex then InvalidIndex
      else if elementsInside r = 1 then head r
      else if head r < elementsInside r - 1 then capacity r - (elementsInside r - head r - 1)
      else head r - (elementsInside r - 1))"

definition GetNextHeadIndex :: "ring \<Rightarrow> nat" where
  "GetNextHeadIndex r =
     (if capacity r = 0 \<or> capacity r = elementsInside r then InvalidIndex
      else if head r = capacity r - 1 then 0 else head r + 1)"

definition GetNextTailIndex :: "ring \<Rightarrow> nat" where
  "GetNextTailIndex r =
     (if capacity r = 0 \<or> capacity r = elementsInside r then InvalidIndex
      else if GetTailIndex r = 0 then capacity r - 1 else GetTailIndex r - 1)"

text \<open>A pointer to a cell, or the null pointer.\<close>

definition PointToValueAtIndex :: "nat \<Rightarrow> ring \<Rightarrow> nat option" where
  "PointToValueAtIndex i r = (if capacity r \<le> i then None else Some i)"

definition read_cell :: "nat option \<Rightarrow> ring \<Rightarrow> 'a store \<Rightarrow> 'a res" where
  "read_cell c r st =
     (case c of
        None \<Rightarrow> Inl NullDeref
      | Some i \<Rightarrow> res_bind (block_of (MemoryBlock r) st) (\<lambda>xs.
          if i < length xs then Inr (xs ! i) else Inl Undefined))"

definition write_cell :: "nat option \<Rightarrow> 'a \<Rightarrow> ring \<Rightarrow> 'a store \<Rightarrow> 'a store res" where
  "write_cell c x r st =
     (case c of
        None \<Rightarrow> Inl NullDeref
      | Some i \<Rightarrow> res_bind (block_of (MemoryBlock r) st) (\<lambda>xs.
          if i < length xs then Inr (set_block (MemoryBlock r) (xs[i := x]) st) else Inl Undefined))"

section \<open>Pushing\<close>

text \<open>Each operation returns its index and the state; \<^verbatim>\<open>Emplace\<close> swaps where \<^verbatim>\<open>Push\<close> assigns.\<close>

definition PushBack :: "'a \<Rightarrow> 'a store \<times> ring \<Rightarrow> (nat \<times> 'a store \<times> ring) res" where
  "PushBack value = (\<lambda>(st, r).
     res_bind (is_set (MemoryBlock r)) (\<lambda>b.
     if b \<and> elementsInside r < capacity r then
       (let i = (if GetTailIndex r \<noteq> InvalidIndex then GetNextTailIndex r else 0)
        in res_bind (write_cell (PointToValueAtIndex i r) value r st) (\<lambda>st'.
             Inr (i, st', r\<lparr>elementsInside := elementsInside r + 1,
                            head := if head r = InvalidIndex then i else head r\<rparr>)))
     else Inr (InvalidIndex, st, r)))"

definition EmplaceBack :: "'a \<Rightarrow> 'a store \<times> ring \<Rightarrow> (nat \<times> 'a \<times> 'a store \<times> ring) res" where
  "EmplaceBack value = (\<lambda>(st, r).
     res_bind (is_set (MemoryBlock r)) (\<lambda>b.
     if b \<and> elementsInside r < capacity r then
       (let i = (if GetTailIndex r \<noteq> InvalidIndex then GetNextTailIndex r else 0);
            cell = PointToValueAtIndex i r
        in res_bind (read_cell cell r st) (\<lambda>old.
           res_bind (write_cell cell value r st) (\<lambda>st'.
             Inr (i, old, st', r\<lparr>elementsInside := elementsInside r + 1,
                                 head := if head r = InvalidIndex then i else head r\<rparr>))))
     else Inr (InvalidIndex, value, st, r)))"

definition PushFront :: "'a \<Rightarrow> 'a store \<times> ring \<Rightarrow> (nat \<times> 'a store \<times> ring) res" where
  "PushFront value = (\<lambda>(st, r).
     res_bind (is_set (MemoryBlock r)) (\<lambda>b.
     if b \<and> elementsInside r < capacity r then
       (let i = (if head r \<noteq> InvalidIndex then GetNextHeadIndex r else 0)
        in res_bind (write_cell (PointToValueAtIndex i r) value r st) (\<lambda>st'.
             Inr (i, st', r\<lparr>head := i, elementsInside := elementsInside r + 1\<rparr>)))
     else Inr (InvalidIndex, st, r)))"

definition EmplaceFront :: "'a \<Rightarrow> 'a store \<times> ring \<Rightarrow> (nat \<times> 'a \<times> 'a store \<times> ring) res" where
  "EmplaceFront value = (\<lambda>(st, r).
     res_bind (is_set (MemoryBlock r)) (\<lambda>b.
     if b \<and> elementsInside r < capacity r then
       (let i = (if head r \<noteq> InvalidIndex then GetNextHeadIndex r else 0);
            cell = PointToValueAtIndex i r
        in res_bind (read_cell cell r st) (\<lambda>old.
           res_bind (write_cell cell value r st) (\<lambda>st'.
             Inr (i, old, st', r\<lparr>head := i, elementsInside := elementsInside r + 1\<rparr>))))
     else Inr (InvalidIndex, value, st, r)))"

definition Clear :: "ring \<Rightarrow> ring" where
  "Clear r = r\<lparr>head := InvalidIndex, elementsInside := 0\<rparr>"

section \<open>Looking\<close>

definition PeekFront :: "ring \<Rightarrow> nat option" where
  "PeekFront r = (if head r \<noteq> InvalidIndex then PointToValueAtIndex (head r) r else None)"

definition PeekBack :: "ring \<Rightarrow> nat option" where
  "PeekBack r = (if GetTailIndex r \<noteq> InvalidIndex then PointToValueAtIndex (GetTailIndex r) r else None)"

text \<open>\<^verbatim>\<open>Front()\<close> dereferences \<^verbatim>\<open>PeekBack()\<close> and \<^verbatim>\<open>Back()\<close> dereferences \<^verbatim>\<open>PeekFront()\<close>.\<close>

definition Front :: "'a store \<times> ring \<Rightarrow> 'a res" where
  "Front = (\<lambda>(st, r). read_cell (PeekBack r) r st)"

definition Back :: "'a store \<times> ring \<Rightarrow> 'a res" where
  "Back = (\<lambda>(st, r). read_cell (PeekFront r) r st)"

definition LookAtIndex :: "nat \<Rightarrow> ring \<Rightarrow> nat option" where
  "LookAtIndex i r =
     (if capacity r \<le> i \<or> elementsInside r = 0 \<or> i = InvalidIndex \<or>
         i < GetTailIndex r \<and> head r < i \<or>
         GetTailIndex r < i \<and> head r < i \<and> GetTailIndex r \<le> head r
      then None else Some i)"

text \<open>The cells from \<^verbatim>\<open>begin()\<close> to \<^verbatim>\<open>end()\<close>.\<close>

definition ring_range :: "'a store \<times> ring \<Rightarrow> 'a list res" where
  "ring_range = (\<lambda>(st, r). res_bind (block_of (MemoryBlock r) st) (\<lambda>xs.
     if elementsInside r \<le> length xs then Inr (take (elementsInside r) xs) else Inl Undefined))"

section \<open>Popping\<close>

text \<open>Popping an empty buffer returns a reference to a temporary that is gone: undefined.\<close>

definition PopFront :: "'a store \<times> ring \<Rightarrow> ('a \<times> 'a store \<times> ring) res" where
  "PopFront = (\<lambda>(st, r).
     if head r \<noteq> InvalidIndex then
       (let r' = (if 1 < elementsInside r
                  then r\<lparr>elementsInside := elementsInside r - 1,
                         head := if head r = 0 then capacity r - 1 else head r - 1 mod capacity r\<rparr>
                  else r\<lparr>head := InvalidIndex, elementsInside := 0\<rparr>)
        in case PointToValueAtIndex (head r) r of
             None \<Rightarrow> Inl Undefined
           | Some i \<Rightarrow> res_bind (read_cell (Some i) r st) (\<lambda>x. Inr (x, st, r')))
     else Inl Undefined)"

definition PopBack :: "'a store \<times> ring \<Rightarrow> ('a \<times> 'a store \<times> ring) res" where
  "PopBack = (\<lambda>(st, r).
     if GetTailIndex r \<noteq> InvalidIndex then
       (let r' = (if 1 < elementsInside r then r\<lparr>elementsInside := elementsInside r - 1\<rparr>
                  else r\<lparr>head := InvalidIndex, elementsInside := 0\<rparr>)
        in case PointToValueAtIndex (GetTailIndex r) r of
             None \<Rightarrow> Inl Undefined
           | Some i \<Rightarrow> res_bind (read_cell (Some i) r st) (\<lambda>x. Inr (x, st, r')))
     else Inl Undefined)"

section \<open>Resizing\<close>

text \<open>\<^verbatim>\<open>CopyMemory(src, dst, n)\<close>: outside either block it is undefined.\<close>

definition CopyMemory :: "nat \<Rightarrow> (nat \<Rightarrow> 'a \<Rightarrow> 'a \<Rightarrow> 'a) \<Rightarrow> 'a list \<Rightarrow> 'a list \<Rightarrow> nat \<Rightarrow> 'a list res" where
  "CopyMemory sz mix src dst n =
     (if n \<le> length src * sz \<and> n \<le> length dst * sz then
        Inr (map (\<lambda>i. if (i + 1) * sz \<le> n then src ! i
                      else if i * sz < n then mix (n - i * sz) (src ! i) (dst ! i) else dst ! i)
               [0..<length dst])
      else Inl Undefined)"

text \<open>The two loops that copy the part from the tail to the end, then the part up to the head.\<close>

definition copy_loops :: "nat \<Rightarrow> ring \<Rightarrow> 'a list \<Rightarrow> 'a list \<Rightarrow> 'a list res" where
  "copy_loops tail r old new =
     res_bind (res_fold (\<lambda>ci (s, new).
         if ci < length old \<and> s < length new then Inr (s + 1, new[s := old ! ci]) else Inl Undefined)
         ([tail..<capacity r] @ [0..<head r + 1]) (0, new)) (\<lambda>(s, new). Inr new)"

definition Resize :: "nat \<Rightarrow> (nat \<Rightarrow> 'a \<Rightarrow> 'a \<Rightarrow> 'a) \<Rightarrow> 'a list option \<Rightarrow> nat \<Rightarrow> 'a store \<times> ring
    \<Rightarrow> (bool \<times> 'a store \<times> ring) res" where
  "Resize sz mix got NewCapacity = (\<lambda>(st, r).
     if 0 < NewCapacity \<and> NewCapacity \<noteq> InvalidIndex \<and> elementsInside r \<le> NewCapacity then
       (case Allocate got st of (p, st1) \<Rightarrow>
        case p of
          Addr a \<Rightarrow>
            res_bind (is_set (MemoryBlock r)) (\<lambda>b.
            res_bind
              (if b then
                 res_bind
                   (if 0 < elementsInside r \<and> head r \<noteq> InvalidIndex then
                      (let tail = (if GetTailIndex r \<noteq> InvalidIndex then GetTailIndex r else 0)
                       in res_bind (block_of (MemoryBlock r) st1) (\<lambda>old.
                          res_bind (block_of p st1) (\<lambda>new.
                          if head r < tail
                          then res_bind (copy_loops tail r old new) (\<lambda>new'.
                                 Inr (set_block p new' st1, r\<lparr>head := elementsInside r - 1\<rparr>))
                          else res_bind (CopyMemory sz mix old new (head r + 1 * sz)) (\<lambda>new'.
                                 Inr (set_block p new' st1, r)))))
                    else Inr (st1, r))
                   (\<lambda>(st2, r'). res_bind (Deallocate (MemoryBlock r) st2) (\<lambda>st3. Inr (st3, r')))
               else Inr (st1, r))
              (\<lambda>(st4, r'). Inr (True, st4, r'\<lparr>capacity := NewCapacity, MemoryBlock := p\<rparr>)))
        | _ \<Rightarrow> Inr (False, st1, r))
     else Inr (False, st, r))"

section \<open>Construction, assignment, destruction\<close>

text \<open>No constructor but the move constructor and a successful allocation sets the pointer.\<close>

definition RingBuffer_default :: ring where
  "RingBuffer_default = \<lparr>MemoryBlock = Wild, capacity = 0, head = InvalidIndex, elementsInside = 0\<rparr>"

definition RingBuffer_capacity :: "'a list option \<Rightarrow> nat \<Rightarrow> 'a store \<Rightarrow> 'a store \<times> ring" where
  "RingBuffer_capacity got cap st =
     (if 0 < cap \<and> cap \<noteq> InvalidIndex then
        (case Allocate got st of (p, st') \<Rightarrow>
           (st', RingBuffer_default\<lparr>MemoryBlock := p, capacity := (if p = Null then 0 else cap)\<rparr>))
      else (st, RingBuffer_default))"

text \<open>The body the copy constructor and the copy assignment share, after \<^verbatim>\<open>Resize\<close>: \<open>capacity\<close> bytes are copied.\<close>

definition copy_contents :: "nat \<Rightarrow> (nat \<Rightarrow> 'a \<Rightarrow> 'a \<Rightarrow> 'a) \<Rightarrow> ring \<Rightarrow> 'a store \<times> ring \<Rightarrow> ('a store \<times> ring) res" where
  "copy_contents sz mix Other = (\<lambda>(st, r).
     if 0 < elementsInside Other then
       res_bind (block_of (MemoryBlock Other) st) (\<lambda>src.
       res_bind (block_of (MemoryBlock r) st) (\<lambda>dst.
       res_bind (CopyMemory sz mix src dst (capacity r)) (\<lambda>dst'.
         Inr (set_block (MemoryBlock r) dst' st,
              r\<lparr>head := head Other, elementsInside := elementsInside Other\<rparr>))))
     else Inr (st, r))"

definition RingBuffer_copy :: "nat \<Rightarrow> (nat \<Rightarrow> 'a \<Rightarrow> 'a \<Rightarrow> 'a) \<Rightarrow> 'a list option \<Rightarrow> ring \<Rightarrow> 'a store
    \<Rightarrow> ('a store \<times> ring) res" where
  "RingBuffer_copy sz mix got Other st =
     res_bind (Resize sz mix got (capacity Other) (st, RingBuffer_default)) (\<lambda>(b, st', r).
       copy_contents sz mix Other (st', r))"

definition RingBuffer_move :: "ring \<Rightarrow> ring" where
  "RingBuffer_move Other =
     \<lparr>MemoryBlock = MemoryBlock Other, capacity = capacity Other, head = head Other,
      elementsInside = elementsInside Other\<rparr>"

definition free_own :: "'a store \<times> ring \<Rightarrow> ('a store \<times> ring) res" where
  "free_own = (\<lambda>(st, r).
     (let r' = (if elementsInside r \<noteq> 0 then Clear r else r)
      in res_bind (is_set (MemoryBlock r')) (\<lambda>b.
           if b then res_bind (Deallocate (MemoryBlock r') st) (\<lambda>st'. Inr (st', r')) else Inr (st, r'))))"

definition ring_assign :: "nat \<Rightarrow> (nat \<Rightarrow> 'a \<Rightarrow> 'a \<Rightarrow> 'a) \<Rightarrow> 'a list option \<Rightarrow> ring \<Rightarrow> 'a store \<times> ring
    \<Rightarrow> ('a store \<times> ring) res" where
  "ring_assign sz mix got Other s =
     res_bind (free_own s) (\<lambda>s'.
     res_bind (Resize sz mix got (capacity Other) s') (\<lambda>(b, s''). copy_contents sz mix Other s''))"

definition ring_move_assign :: "ring \<Rightarrow> 'a store \<times> ring \<Rightarrow> ('a store \<times> ring) res" where
  "ring_move_assign Other s = res_bind (free_own s) (\<lambda>(st, r). Inr (st, RingBuffer_move Other))"

definition RingBuffer_destroy :: "'a store \<times> ring \<Rightarrow> 'a store res" where
  "RingBuffer_destroy = (\<lambda>(st, r).
     res_bind (is_set (MemoryBlock r)) (\<lambda>b. if b then Deallocate (MemoryBlock r) st else Inr st))"

end
