(* ===== verification/RingProps.thy ===== *)
theory RingProps
  imports RingBuffer
begin

text \<open>
  The ring buffer as a bounded double-ended queue: an interface (\<open>bounded_deque\<close>), what follows for its
  clients, and its interpretation on the ring; what resizing keeps; copies and moves.
\<close>

section \<open>The interface\<close>

text \<open>
  The four operations as data, with what each gives back: whether a push was accepted, or the item a
  pop took. \<open>list_op\<close> is the specification, a list that never holds more than \<open>cap\<close> items; popping
  the empty list is undefined, as the reference the code then returns is.
\<close>

datatype 'a deque_op = Push_back 'a | Push_front 'a | Pop_front | Pop_back

datatype 'a deque_result = Accepted bool | Popped 'a

fun list_op :: "nat \<Rightarrow> 'a deque_op \<Rightarrow> 'a list \<Rightarrow> ('a deque_result \<times> 'a list) res" where
  "list_op cap (Push_back x) xs =
     Inr (if length xs < cap then (Accepted True, xs @ [x]) else (Accepted False, xs))"
| "list_op cap (Push_front x) xs =
     Inr (if length xs < cap then (Accepted True, x # xs) else (Accepted False, xs))"
| "list_op cap Pop_front xs = (if xs = [] then Inl Undefined else Inr (Popped (hd xs), tl xs))"
| "list_op cap Pop_back xs = (if xs = [] then Inl Undefined else Inr (Popped (last xs), butlast xs))"

text \<open>A sequence of operations, with everything they give back.\<close>

fun runs :: "('o \<Rightarrow> 's \<Rightarrow> ('r \<times> 's) res) \<Rightarrow> 'o list \<Rightarrow> 's \<Rightarrow> ('r list \<times> 's) res" where
  "runs step [] s = Inr ([], s)"
| "runs step (x # xs) s = res_bind (step x s) (\<lambda>(r, s'). res_bind (runs step xs s') (\<lambda>(rs, s''). Inr (r # rs, s'')))"

lemma list_op_bound: "list_op cap x xs = Inr (r, ys) \<Longrightarrow> length xs \<le> cap \<Longrightarrow> length ys \<le> cap"
  by (cases x) (auto split: if_splits)

lemma list_runs_bound: "runs (list_op cap) ops xs = Inr (rs, ys) \<Longrightarrow> length xs \<le> cap \<Longrightarrow> length ys \<le> cap"
proof (induction ops arbitrary: xs rs)
  case (Cons x ops)
  then show ?case using list_op_bound [of cap x xs] by (auto simp: res_bind_eq_Inr)
qed simp

locale bounded_deque =
  fixes ok :: "'q \<Rightarrow> bool" and room :: "'q \<Rightarrow> nat" and items :: "'q \<Rightarrow> 'a list"
    and push_back :: "'a \<Rightarrow> 'q \<Rightarrow> (bool \<times> 'q) res" and push_front :: "'a \<Rightarrow> 'q \<Rightarrow> (bool \<times> 'q) res"
    and pop_front :: "'q \<Rightarrow> ('a \<times> 'q) res" and pop_back :: "'q \<Rightarrow> ('a \<times> 'q) res"
  assumes push_back_room: "ok q \<Longrightarrow> 0 < room q \<Longrightarrow>
      \<exists>q'. push_back x q = Inr (True, q') \<and> ok q' \<and> items q' = items q @ [x] \<and> Suc (room q') = room q"
    and push_back_full: "ok q \<Longrightarrow> room q = 0 \<Longrightarrow> push_back x q = Inr (False, q)"
    and push_front_room: "ok q \<Longrightarrow> 0 < room q \<Longrightarrow>
      \<exists>q'. push_front x q = Inr (True, q') \<and> ok q' \<and> items q' = x # items q \<and> Suc (room q') = room q"
    and push_front_full: "ok q \<Longrightarrow> room q = 0 \<Longrightarrow> push_front x q = Inr (False, q)"
    and pop_front_item: "ok q \<Longrightarrow> items q = x # xs \<Longrightarrow>
      \<exists>q'. pop_front q = Inr (x, q') \<and> ok q' \<and> items q' = xs \<and> room q' = Suc (room q)"
    and pop_back_item: "ok q \<Longrightarrow> items q = xs @ [x] \<Longrightarrow>
      \<exists>q'. pop_back q = Inr (x, q') \<and> ok q' \<and> items q' = xs \<and> room q' = Suc (room q)"
    and pop_none: "ok q \<Longrightarrow> items q = [] \<Longrightarrow> pop_front q = Inl Undefined \<and> pop_back q = Inl Undefined"
begin

fun deque_op :: "'a deque_op \<Rightarrow> 'q \<Rightarrow> ('a deque_result \<times> 'q) res" where
  "deque_op (Push_back x) q = res_bind (push_back x q) (\<lambda>(b, q'). Inr (Accepted b, q'))"
| "deque_op (Push_front x) q = res_bind (push_front x q) (\<lambda>(b, q'). Inr (Accepted b, q'))"
| "deque_op Pop_front q = res_bind (pop_front q) (\<lambda>(x, q'). Inr (Popped x, q'))"
| "deque_op Pop_back q = res_bind (pop_back q) (\<lambda>(x, q'). Inr (Popped x, q'))"

text \<open>One operation does to the items what the specification does, and gives back the same.\<close>

lemma op_refines:
  assumes "ok q" and "room q + length (items q) = cap"
  shows "case list_op cap x (items q) of
           Inl e \<Rightarrow> deque_op x q = Inl e
         | Inr (r, xs) \<Rightarrow> \<exists>q'. deque_op x q = Inr (r, q') \<and> ok q' \<and> items q' = xs \<and> room q' + length xs = cap"
proof (cases x)
  case (Push_back y)
  then show ?thesis
    using push_back_room [OF assms(1), of y] push_back_full [OF assms(1), of y] assms
    by (cases "room q") auto
next
  case (Push_front y)
  then show ?thesis
    using push_front_room [OF assms(1), of y] push_front_full [OF assms(1), of y] assms
    by (cases "room q") auto
next
  case Pop_front
  show ?thesis
  proof (cases "items q")
    case (Cons y ys)
    then show ?thesis using pop_front_item [OF assms(1) Cons] Pop_front assms(2) by auto
  qed (use pop_none [OF assms(1)] Pop_front in simp)
next
  case Pop_back
  show ?thesis
  proof (cases "items q" rule: rev_cases)
    case (snoc ys y)
    then show ?thesis using pop_back_item [OF assms(1) snoc] Pop_back assms(2) by auto
  qed (use pop_none [OF assms(1)] Pop_back in simp)
qed

lemma runs_refine:
  assumes "ok q" and "room q + length (items q) = cap"
  shows "case runs (list_op cap) ops (items q) of
           Inl e \<Rightarrow> runs deque_op ops q = Inl e
         | Inr (rs, xs) \<Rightarrow> \<exists>q'. runs deque_op ops q = Inr (rs, q') \<and> ok q' \<and> items q' = xs"
  using assms
proof (induction ops arbitrary: q)
  case (Cons x ops)
  note step = op_refines [OF Cons.prems, of x]
  show ?case
  proof (cases "list_op cap x (items q)")
    case (Inr a)
    obtain r xs where a: "a = (r, xs)" by fastforce
    from step Inr a obtain q' where q': "deque_op x q = Inr (r, q')" "ok q'" "items q' = xs"
      "room q' + length xs = cap" by auto
    from Cons.IH [OF q'(2)] q'(3,4) Inr a q'(1) show ?thesis
      by (auto split: sum.splits)
  qed (use step in simp)
qed simp

end

section \<open>The ring as a list\<close>

text \<open>The cell of the \<open>j\<close>-th item, counted from the front.\<close>

definition pos :: "nat \<Rightarrow> nat \<Rightarrow> nat \<Rightarrow> nat" where
  "pos h cap j = (if j \<le> h then h - j else h + cap - j)"

fun ring_cells :: "'a store \<times> ring \<Rightarrow> 'a list" where
  "ring_cells (st, r) = (case block_of (MemoryBlock r) st of Inr xs \<Rightarrow> xs | Inl _ \<Rightarrow> [])"

fun ring_items :: "'a store \<times> ring \<Rightarrow> 'a list" where
  "ring_items (st, r) =
     map (\<lambda>j. ring_cells (st, r) ! pos (head r) (capacity r) j) [0..<elementsInside r]"

fun ring_room :: "'a store \<times> ring \<Rightarrow> nat" where
  "ring_room (st, r) = capacity r - elementsInside r"

fun ring_ok :: "'a store \<times> ring \<Rightarrow> bool" where
  "ring_ok (st, r) \<longleftrightarrow>
     (\<exists>a xs. MemoryBlock r = Addr a \<and> blocks st a = Some xs \<and> length xs = capacity r) \<and>
     0 < capacity r \<and> capacity r < InvalidIndex \<and> elementsInside r \<le> capacity r \<and>
     (if elementsInside r = 0 then head r = InvalidIndex else head r < capacity r)"

lemma pos_bound: "h < cap \<Longrightarrow> j < cap \<Longrightarrow> pos h cap j < cap"
  by (auto simp: pos_def)

lemma pos_inj: "h < cap \<Longrightarrow> i < cap \<Longrightarrow> j < cap \<Longrightarrow> pos h cap i = pos h cap j \<longleftrightarrow> i = j"
  by (auto simp: pos_def)

lemma pos_next: "h < cap \<Longrightarrow> j < cap \<Longrightarrow> pos (if h = cap - 1 then 0 else h + 1) cap (Suc j) = pos h cap j"
  by (auto simp: pos_def)

lemma pos_prev: "h < cap \<Longrightarrow> Suc j < cap \<Longrightarrow> pos (if h = 0 then cap - 1 else h - 1) cap j = pos h cap (Suc j)"
  by (auto simp: pos_def)

lemma tail_is_last:
  assumes "head r < capacity r" and "0 < elementsInside r" and "elementsInside r \<le> capacity r"
    and "capacity r < InvalidIndex"
  shows "GetTailIndex r = pos (head r) (capacity r) (elementsInside r - 1)"
  using assms by (auto simp: GetTailIndex_def pos_def)

lemma next_tail:
  assumes "head r < capacity r" and "0 < elementsInside r" and "elementsInside r < capacity r"
    and "capacity r < InvalidIndex"
  shows "GetNextTailIndex r = pos (head r) (capacity r) (elementsInside r)"
  using assms tail_is_last [of r] by (auto simp: GetNextTailIndex_def pos_def)

lemma next_head:
  "0 < capacity r \<Longrightarrow> elementsInside r < capacity r \<Longrightarrow>
     GetNextHeadIndex r = (if head r = capacity r - 1 then 0 else head r + 1)"
  by (simp add: GetNextHeadIndex_def)

section \<open>Each operation on the list\<close>

text \<open>A push returns the index it wrote, \<^verbatim>\<open>InvalidIndex\<close> when it wrote nothing.\<close>

definition taken :: "(nat \<times> 's) res \<Rightarrow> (bool \<times> 's) res" where
  "taken m = res_bind m (\<lambda>(i, s). Inr (i \<noteq> InvalidIndex, s))"

lemma write_cell_ok:
  assumes "ring_ok (st, r)" and "i < capacity r"
  shows "\<exists>st'. write_cell (PointToValueAtIndex i r) x r st = Inr st' \<and>
           (\<forall>n h. ring_cells (st', r\<lparr>elementsInside := n, head := h\<rparr>) = (ring_cells (st, r))[i := x]) \<and>
           (\<forall>n h. ring_ok (st', r\<lparr>elementsInside := n, head := h\<rparr>) =
                  (n \<le> capacity r \<and> (if n = 0 then h = InvalidIndex else h < capacity r)))"
proof -
  obtain a xs where m: "MemoryBlock r = Addr a" "blocks st a = Some xs" "length xs = capacity r"
    using assms(1) by auto
  then have "write_cell (PointToValueAtIndex i r) x r st = Inr (st\<lparr>blocks := (blocks st)(a \<mapsto> xs[i := x])\<rparr>)"
    using assms(2) by (simp add: write_cell_def PointToValueAtIndex_def block_of_def set_block_def)
  moreover have "ring_cells (st\<lparr>blocks := (blocks st)(a \<mapsto> xs[i := x])\<rparr>, r\<lparr>elementsInside := n, head := h\<rparr>)
      = (ring_cells (st, r))[i := x]" for n h
    using m by (simp add: block_of_def)
  ultimately show ?thesis using m assms by (intro exI conjI allI) auto
qed

lemma read_cell_ok:
  "ring_ok (st, r) \<Longrightarrow> i < capacity r \<Longrightarrow> read_cell (PointToValueAtIndex i r) r st = Inr (ring_cells (st, r) ! i)"
  by (auto simp: read_cell_def PointToValueAtIndex_def block_of_def)

lemma cells_length: "ring_ok (st, r) \<Longrightarrow> length (ring_cells (st, r)) = capacity r"
  by (auto simp: block_of_def)

lemma ring_bounds:
  assumes "ring_ok (st, r)"
  shows "0 < capacity r" "capacity r < InvalidIndex" "elementsInside r \<le> capacity r"
    "head r = InvalidIndex \<longleftrightarrow> elementsInside r = 0" "0 < elementsInside r \<Longrightarrow> head r < capacity r"
  using assms by (auto split: if_splits)

lemma ring_set: "ring_ok (st, r) \<Longrightarrow> is_set (MemoryBlock r) = Inr True"
  by (auto simp: is_set_def)

lemma tail_invalid:
  assumes "ring_ok (st, r)"
  shows "GetTailIndex r = InvalidIndex \<longleftrightarrow> elementsInside r = 0"
proof (cases "elementsInside r = 0")
  case True
  then show ?thesis using ring_bounds [OF assms] by (simp add: GetTailIndex_def)
next
  case False
  note b = ring_bounds [OF assms]
  have "pos (head r) (capacity r) (elementsInside r - 1) < capacity r"
    using b False by (intro pos_bound) auto
  then show ?thesis using tail_is_last [of r] b False by auto
qed

lemma PushBack_ok:
  assumes "ring_ok (st, r)" and "elementsInside r < capacity r"
  shows "\<exists>i s'. PushBack x (st, r) = Inr (i, s') \<and> i \<noteq> InvalidIndex \<and> ring_ok s' \<and>
           ring_items s' = ring_items (st, r) @ [x] \<and> Suc (ring_room s') = ring_room (st, r)"
proof -
  define n h c i h' where "n = elementsInside r" and "h = head r" and "c = capacity r"
    and "i = (if GetTailIndex r \<noteq> InvalidIndex then GetNextTailIndex r else 0)"
    and "h' = (if n = 0 then 0 else h)"
  have h': "h' < c" "n \<noteq> 0 \<Longrightarrow> h' = h" using assms by (auto simp: h'_def n_def h_def c_def)
  have i: "i = (if n = 0 then 0 else pos h c n)"
    using assms(2) next_tail [of r] tail_invalid [OF assms(1)] ring_bounds [OF assms(1)]
    by (auto simp: i_def n_def h_def c_def)
  then have ic: "i < c" using assms pos_bound [of h c n] by (auto simp: n_def h_def c_def)
  then have iv: "i \<noteq> InvalidIndex" using ring_bounds [OF assms(1)] by (simp add: c_def)
  have i': "i = pos h' c n" using i by (auto simp: h'_def pos_def)
  obtain st' where w: "write_cell (PointToValueAtIndex i r) x r st = Inr st'"
      "\<And>n h. ring_cells (st', r\<lparr>elementsInside := n, head := h\<rparr>) = (ring_cells (st, r))[i := x]"
      "\<And>n h. ring_ok (st', r\<lparr>elementsInside := n, head := h\<rparr>) =
          (n \<le> c \<and> (if n = 0 then h = InvalidIndex else h < c))"
    using write_cell_ok [OF assms(1), of i x] ic unfolding c_def by blast
  let ?r = "r\<lparr>elementsInside := n + 1, head := h'\<rparr>"
  have head: "(if head r = InvalidIndex then i else head r) = h'"
    using ring_bounds [OF assms(1)] i by (auto simp: h'_def n_def h_def)
  have "PushBack x (st, r) = Inr (i, st', ?r)"
    using assms(2) w(1) head ring_set [OF assms(1)] unfolding PushBack_def prod.case i_def [symmetric]
    by (simp add: n_def)
  moreover have "ring_ok (st', ?r)" using w(3) h' assms(2) by (simp add: n_def c_def del: ring_ok.simps)
  moreover have "ring_items (st', ?r) = ring_items (st, r) @ [x]"
  proof -
    have "ring_cells (st', ?r) ! pos h' c j = ring_cells (st, r) ! pos h c j" if "j < n" for j
      using that w(2) h' i' pos_inj [of h' c j n] assms(2) by (simp add: n_def c_def del: ring_cells.simps)
    moreover have "ring_cells (st', ?r) ! pos h' c n = x"
      using w(2) i' ic cells_length [OF assms(1)] by (simp add: c_def del: ring_cells.simps)
    ultimately show ?thesis by (simp add: n_def h_def c_def del: ring_cells.simps)
  qed
  moreover have "Suc (ring_room (st', ?r)) = ring_room (st, r)" using assms(2) by (simp add: n_def)
  ultimately show ?thesis using iv by blast
qed

lemma PushFront_ok:
  assumes "ring_ok (st, r)" and "elementsInside r < capacity r"
  shows "\<exists>i s'. PushFront x (st, r) = Inr (i, s') \<and> i \<noteq> InvalidIndex \<and> ring_ok s' \<and>
           ring_items s' = x # ring_items (st, r) \<and> Suc (ring_room s') = ring_room (st, r)"
proof -
  define n h c i where "n = elementsInside r" and "h = head r" and "c = capacity r"
    and "i = (if head r \<noteq> InvalidIndex then GetNextHeadIndex r else 0)"
  have i: "i = (if n = 0 then 0 else if h = c - 1 then 0 else h + 1)"
    using assms(2) next_head [of r] ring_bounds [OF assms(1)] by (auto simp: i_def n_def h_def c_def)
  then have ic: "i < c" using assms by (auto simp: n_def h_def c_def)
  then have iv: "i \<noteq> InvalidIndex" using ring_bounds [OF assms(1)] by (simp add: c_def)
  obtain st' where w: "write_cell (PointToValueAtIndex i r) x r st = Inr st'"
      "\<And>n h. ring_cells (st', r\<lparr>elementsInside := n, head := h\<rparr>) = (ring_cells (st, r))[i := x]"
      "\<And>n h. ring_ok (st', r\<lparr>elementsInside := n, head := h\<rparr>) =
          (n \<le> c \<and> (if n = 0 then h = InvalidIndex else h < c))"
    using write_cell_ok [OF assms(1), of i x] ic unfolding c_def by blast
  let ?r = "r\<lparr>elementsInside := n + 1, head := i\<rparr>"
  have "PushFront x (st, r) = Inr (i, st', ?r)"
    using assms(2) w(1) ring_set [OF assms(1)] unfolding PushFront_def prod.case i_def [symmetric]
    by (simp add: n_def)
  moreover have "ring_ok (st', ?r)" using w(3) ic assms(2) by (simp add: n_def c_def del: ring_ok.simps)
  moreover have "ring_items (st', ?r) = x # ring_items (st, r)"
  proof -
    have "ring_cells (st', ?r) ! pos i c (Suc j) = ring_cells (st, r) ! pos h c j" if "j < n" for j
    proof -
      have "h < c" "Suc j < c" using that assms by (auto simp: n_def h_def c_def)
      then have "pos i c (Suc j) = pos h c j" "pos i c (Suc j) \<noteq> pos i c 0"
        using that i pos_next [of h c j] pos_inj [of i c "Suc j" 0] ic by auto
      then show ?thesis using w(2) by (simp add: pos_def del: ring_cells.simps)
    qed
    moreover have "ring_cells (st', ?r) ! pos i c 0 = x"
      using w(2) ic cells_length [OF assms(1)] by (simp add: c_def pos_def del: ring_cells.simps)
    ultimately show ?thesis
      by (simp add: n_def h_def c_def upt_conv_Cons map_Suc_upt [symmetric] del: ring_cells.simps upt_Suc)
  qed
  moreover have "Suc (ring_room (st', ?r)) = ring_room (st, r)" using assms(2) by (simp add: n_def)
  ultimately show ?thesis using iv by blast
qed

lemma push_full:
  assumes "ring_ok (st, r)" and "elementsInside r = capacity r"
  shows "PushBack x (st, r) = Inr (InvalidIndex, st, r)" and "PushFront x (st, r) = Inr (InvalidIndex, st, r)"
  using assms(2) ring_set [OF assms(1)] by (simp_all add: PushBack_def PushFront_def)

lemma ring_shrink:
  assumes "ring_ok (st, r)" and "0 < n" and "n \<le> capacity r" and "h < capacity r"
  shows "ring_ok (st, r\<lparr>elementsInside := n, head := h\<rparr>)" "ring_ok (st, Clear r)"
    "ring_cells (st, r\<lparr>elementsInside := n, head := h\<rparr>) = ring_cells (st, r)"
  using assms by (auto simp: Clear_def)

lemma PopFront_ok:
  assumes "ring_ok (st, r)" and items: "ring_items (st, r) = x # xs"
  shows "\<exists>s'. PopFront (st, r) = Inr (x, s') \<and> ring_ok s' \<and> ring_items s' = xs \<and>
              ring_room s' = Suc (ring_room (st, r))"
proof -
  note b = ring_bounds [OF assms(1)]
  define n h c where "n = elementsInside r" and "h = head r" and "c = capacity r"
  have n: "n = Suc (length xs)" using arg_cong [OF items, of length] by (simp add: n_def)
  have h: "h < c" "head r \<noteq> InvalidIndex" using b n by (auto simp: n_def h_def c_def)
  let ?cell = "\<lambda>j. ring_cells (st, r) ! pos h c j"
  have list: "ring_items (st, r) = map ?cell [0..<n]" by (simp add: n_def h_def c_def)
  have x: "x = ?cell 0" and xs: "xs = map (\<lambda>j. ?cell (Suc j)) [0..<length xs]"
    using items unfolding list n by (simp_all add: upt_conv_Cons map_Suc_upt [symmetric] comp_def del: upt_Suc ring_cells.simps)
  have read: "read_cell (PointToValueAtIndex h r) r st = Inr x" "PointToValueAtIndex h r = Some h"
    using read_cell_ok [OF assms(1), of h] h x by (simp_all add: pos_def c_def PointToValueAtIndex_def)
  show ?thesis
  proof (cases "n = 1")
    case True
    then have "PopFront (st, r) = Inr (x, st, Clear r)"
      using h(2) read by (simp add: PopFront_def Clear_def n_def h_def)
    moreover have "ring_ok (st, Clear r)" using ring_shrink(2) [OF assms(1), of 1 0] b by simp
    moreover have "ring_items (st, Clear r) = []" by (simp add: Clear_def)
    moreover have "ring_room (st, Clear r) = Suc (ring_room (st, r))"
      using True b by (simp add: Clear_def n_def)
    ultimately show ?thesis using n True by auto
  next
    case False
    define h' where "h' = (if h = 0 then c - 1 else h - 1)"
    have "1 < n" using False n by simp
    then have "1 < c" using b(3) by (simp add: n_def c_def)
    then have "1 mod c = 1" by simp
    then have "PopFront (st, r) = Inr (x, st, r\<lparr>elementsInside := n - 1, head := h'\<rparr>)"
      using h(2) read False n by (simp add: PopFront_def n_def h_def h'_def c_def)
    moreover have ok: "ring_ok (st, r\<lparr>elementsInside := n - 1, head := h'\<rparr>)"
      "ring_cells (st, r\<lparr>elementsInside := n - 1, head := h'\<rparr>) = ring_cells (st, r)"
      using ring_shrink [OF assms(1), of "n - 1" h'] False n h b by (auto simp: n_def c_def h'_def)
    moreover have "ring_items (st, r\<lparr>elementsInside := n - 1, head := h'\<rparr>) = xs"
    proof -
      have "pos h' c j = pos h c (Suc j)" if "j < length xs" for j
        using pos_prev [of h c j] that n h b by (simp add: h'_def n_def c_def)
      then have "map (\<lambda>j. ring_cells (st, r) ! pos h' c j) [0..<length xs] = xs"
        by (subst (2) xs) simp
      then show ?thesis using ok(2) n by (simp add: c_def del: ring_cells.simps)
    qed
    ultimately show ?thesis using n b by (fastforce simp: n_def simp del: ring_ok.simps ring_items.simps)
  qed
qed

lemma PopBack_ok:
  assumes "ring_ok (st, r)" and items: "ring_items (st, r) = xs @ [x]"
  shows "\<exists>s'. PopBack (st, r) = Inr (x, s') \<and> ring_ok s' \<and> ring_items s' = xs \<and>
              ring_room s' = Suc (ring_room (st, r))"
proof -
  note b = ring_bounds [OF assms(1)]
  define n h c t where "n = elementsInside r" and "h = head r" and "c = capacity r" and "t = GetTailIndex r"
  have n: "n = Suc (length xs)" using arg_cong [OF items, of length] by (simp add: n_def)
  have h: "h < c" "t \<noteq> InvalidIndex" using b n tail_invalid [OF assms(1)] by (auto simp: n_def h_def c_def t_def)
  have t: "t = pos h c (n - 1)" "t < c"
    using tail_is_last [of r] pos_bound [of h c "n - 1"] b n by (auto simp: n_def h_def c_def t_def)
  let ?cell = "\<lambda>j. ring_cells (st, r) ! pos h c j"
  have list: "ring_items (st, r) = map ?cell [0..<n]" by (simp add: n_def h_def c_def)
  have x: "x = ?cell (n - 1)" and xs: "xs = map ?cell [0..<n - 1]"
    using items unfolding list n by simp_all
  have read: "read_cell (PointToValueAtIndex t r) r st = Inr x" "PointToValueAtIndex t r = Some t"
    using read_cell_ok [OF assms(1), of t] t x by (simp_all add: c_def PointToValueAtIndex_def)
  show ?thesis
  proof (cases "n = 1")
    case True
    then have "PopBack (st, r) = Inr (x, st, Clear r)"
      using h(2) read by (simp add: PopBack_def Clear_def n_def t_def)
    moreover have "ring_ok (st, Clear r)" using ring_shrink(2) [OF assms(1), of 1 0] b by simp
    moreover have "ring_items (st, Clear r) = []" by (simp add: Clear_def)
    moreover have "ring_room (st, Clear r) = Suc (ring_room (st, r))"
      using True b by (simp add: Clear_def n_def)
    ultimately show ?thesis using n True by auto
  next
    case False
    then have "PopBack (st, r) = Inr (x, st, r\<lparr>elementsInside := n - 1\<rparr>)"
      using h(2) read n by (simp add: PopBack_def n_def t_def)
    moreover have "r\<lparr>elementsInside := n - 1, head := h\<rparr> = r\<lparr>elementsInside := n - 1\<rparr>" by (simp add: h_def)
    then have "ring_ok (st, r\<lparr>elementsInside := n - 1\<rparr>)"
      "ring_cells (st, r\<lparr>elementsInside := n - 1\<rparr>) = ring_cells (st, r)"
      using ring_shrink [OF assms(1), of "n - 1" h] False n h b by (simp_all add: n_def c_def del: ring_ok.simps ring_cells.simps)
    moreover from this have "ring_items (st, r\<lparr>elementsInside := n - 1\<rparr>) = xs"
      using xs by (simp add: h_def c_def del: ring_cells.simps)
    moreover have "ring_room (st, r\<lparr>elementsInside := n - 1\<rparr>) = Suc (ring_room (st, r))"
      using n b by (simp add: n_def)
    ultimately show ?thesis by blast
  qed
qed

lemma pop_empty:
  assumes "ring_ok (st, r)" and "ring_items (st, r) = []"
  shows "PopFront (st, r) = Inl Undefined" "PopBack (st, r) = Inl Undefined"
proof -
  have "elementsInside r = 0" using assms(2) by simp
  then show "PopFront (st, r) = Inl Undefined" "PopBack (st, r) = Inl Undefined"
    using ring_bounds [OF assms(1)] tail_invalid [OF assms(1)] by (simp_all add: PopFront_def PopBack_def)
qed

section \<open>The ring is a bounded deque\<close>

interpretation ring_deque: bounded_deque ring_ok ring_room ring_items
    "\<lambda>x s. taken (PushBack x s)" "\<lambda>x s. taken (PushFront x s)" PopFront PopBack
proof (unfold_locales, goal_cases)
  case (1 q x)
  then show ?case using PushBack_ok [of "fst q" "snd q" x] by (cases q) (fastforce simp: taken_def)
next
  case (2 q x)
  then show ?case using push_full(1) [of "fst q" "snd q" x] ring_bounds(3) [of "fst q" "snd q"]
    by (cases q) (simp add: taken_def del: ring_ok.simps)
next
  case (3 q x)
  then show ?case using PushFront_ok [of "fst q" "snd q" x] by (cases q) (fastforce simp: taken_def)
next
  case (4 q x)
  then show ?case using push_full(2) [of "fst q" "snd q" x] ring_bounds(3) [of "fst q" "snd q"]
    by (cases q) (simp add: taken_def del: ring_ok.simps)
next
  case (5 q x xs)
  then show ?case using PopFront_ok [of "fst q" "snd q" x xs] by simp
next
  case (6 q xs x)
  then show ?case using PopBack_ok [of "fst q" "snd q" xs x] by simp
next
  case (7 q)
  then show ?case using pop_empty [of "fst q" "snd q"] by simp
qed

section \<open>Properties\<close>

lemma RingBuffer_capacity_ok:
  assumes "length mem = cap" and "0 < cap" and "cap < InvalidIndex"
  shows "ring_ok (RingBuffer_capacity (Some mem) cap st)" "ring_items (RingBuffer_capacity (Some mem) cap st) = []"
    "ring_room (RingBuffer_capacity (Some mem) cap st) = cap"
  using assms by (simp_all add: RingBuffer_capacity_def Allocate_def RingBuffer_default_def)

text \<open>The ring's operations under the interface's names.\<close>

fun ring_op :: "'a deque_op \<Rightarrow> 'a store \<times> ring \<Rightarrow> ('a deque_result \<times> 'a store \<times> ring) res" where
  "ring_op (Push_back x) s = res_bind (PushBack x s) (\<lambda>(i, s'). Inr (Accepted (i \<noteq> InvalidIndex), s'))"
| "ring_op (Push_front x) s = res_bind (PushFront x s) (\<lambda>(i, s'). Inr (Accepted (i \<noteq> InvalidIndex), s'))"
| "ring_op Pop_front s = res_bind (PopFront s) (\<lambda>(x, s'). Inr (Popped x, s'))"
| "ring_op Pop_back s = res_bind (PopBack s) (\<lambda>(x, s'). Inr (Popped x, s'))"

lemma bind_taken: "res_bind (taken m) f = res_bind m (\<lambda>(i, s). f (i \<noteq> InvalidIndex, s))"
  by (cases m) (auto simp: taken_def)

lemma ring_op_interface: "ring_op = ring_deque.deque_op"
proof (intro ext)
  fix x :: "'a deque_op" and s
  show "ring_op x s = ring_deque.deque_op x s"
    by (cases x) (simp_all add: bind_taken)
qed

text \<open>
  Property C6. Over any memory an allocation returns, a new ring of a capacity refines a bounded
  double-ended queue: every sequence of pushes and pops at either end gives back exactly what it
  gives back on a list that never holds more than the capacity, and leaves the same items in the same
  order; a push on a full ring answers \<^verbatim>\<open>InvalidIndex\<close> and changes nothing; a sequence that pops an
  empty ring is undefined, and no other sequence is.
\<close>

theorem ring_is_bounded_queue:
  assumes "length mem = cap" and "0 < cap" and "cap < InvalidIndex"
  shows "case runs (list_op cap) ops [] of
           Inl e \<Rightarrow> runs ring_op ops (RingBuffer_capacity (Some mem) cap st) = Inl e
         | Inr (rs, xs) \<Rightarrow> length xs \<le> cap \<and>
             (\<exists>s'. runs ring_op ops (RingBuffer_capacity (Some mem) cap st) = Inr (rs, s') \<and>
                   ring_ok s' \<and> ring_items s' = xs)"
proof -
  note new = RingBuffer_capacity_ok [OF assms, of st]
  have "ring_room (RingBuffer_capacity (Some mem) cap st) +
        length (ring_items (RingBuffer_capacity (Some mem) cap st)) = cap"
    using new(2,3) by (simp only: list.size add_0_right)
  from ring_deque.runs_refine [OF new(1) this, of ops] show ?thesis
    unfolding ring_op_interface new(2)
    by (auto dest: list_runs_bound split: sum.splits simp del: ring_ok.simps ring_items.simps)
qed

text \<open>
  A ring of two: the third push is refused, a pop at the front makes room for a push there, which
  goes round the end of the block, and the pops take the items in the order of the list.
\<close>

theorem ring_is_bounded_queue_witness:
  "\<exists>s'. runs ring_op [Push_back 7, Push_back 8, Push_front 9, Pop_back, Push_front 5, Pop_front, Pop_front]
        (RingBuffer_capacity (Some [0, 0]) 2 \<lparr>blocks = \<lambda>_. None, next_addr = 0\<rparr>) =
      Inr ([Accepted True, Accepted True, Accepted False, Popped 8, Accepted True, Popped 5, Popped (7::nat)], s') \<and>
      ring_items s' = []"
proof -
  let ?ops = "[Push_back 7, Push_back 8, Push_front 9, Pop_back, Push_front 5, Pop_front, Pop_front :: nat deque_op]"
  have spec: "runs (list_op 2) ?ops [] =
      Inr ([Accepted True, Accepted True, Accepted False, Popped 8, Accepted True, Popped 5, Popped 7], [])"
    by simp
  have two: "(2::nat) < InvalidIndex" by (simp add: InvalidIndex_def size_max_def)
  from ring_is_bounded_queue [of "[0, 0 :: nat]" 2 ?ops "\<lparr>blocks = \<lambda>_. None, next_addr = 0\<rparr>", OF _ _ two]
  show ?thesis unfolding spec by (auto simp del: ring_items.simps ring_ok.simps runs.simps)
qed

text \<open>
  \<^verbatim>\<open>Front()\<close> is the item \<^verbatim>\<open>PopBack\<close> takes and \<^verbatim>\<open>Back()\<close> the one \<^verbatim>\<open>PopFront\<close> takes: the two names
  are swapped, while \<^verbatim>\<open>PeekFront\<close> and \<^verbatim>\<open>PeekBack\<close> are not.
\<close>

theorem front_and_back_swapped:
  assumes "ring_ok s" and "ring_items s = x # xs"
  shows "Back s = Inr x \<and> Front s = Inr (last (x # xs)) \<and>
         read_cell (PeekFront (snd s)) (snd s) (fst s) = Inr x"
proof -
  obtain st r where s: "s = (st, r)" by fastforce
  note ok = assms(1) [unfolded s] and b = ring_bounds [OF assms(1) [unfolded s]]
  have n: "elementsInside r = Suc (length xs)" using arg_cong [OF assms(2), of length] by (simp add: s)
  then have h: "head r < capacity r" "head r \<noteq> InvalidIndex" using b by auto
  have t: "GetTailIndex r = pos (head r) (capacity r) (length xs)" "GetTailIndex r \<noteq> InvalidIndex"
    using tail_is_last [of r] tail_invalid [OF ok] b n h by auto
  have tb: "GetTailIndex r < capacity r" unfolding t(1) using pos_bound [OF h(1)] b n by simp
  have cell: "ring_cells (st, r) ! pos (head r) (capacity r) j = (x # xs) ! j" if "j \<le> length xs" for j
  proof -
    have "(x # xs) ! j = ring_items (st, r) ! j" using assms(2) s by simp
    then show ?thesis using that n by (simp del: ring_cells.simps upt_Suc)
  qed
  have "read_cell (PeekFront r) r st = Inr x"
    using read_cell_ok [OF ok h(1)] h(2) cell [of 0] by (simp add: PeekFront_def pos_def del: ring_cells.simps)
  moreover have "read_cell (PeekBack r) r st = Inr (last (x # xs))"
    using read_cell_ok [OF ok tb] t cell [of "length xs"]
    by (simp add: PeekBack_def last_conv_nth del: ring_cells.simps)
  ultimately show ?thesis by (simp add: s Back_def Front_def)
qed

text \<open>The ring of the values 7 and 8.\<close>

definition sample_ring :: "nat store \<times> ring" where
  "sample_ring = (\<lparr>blocks = [0 \<mapsto> [8, 7, 5]], next_addr = 1\<rparr>,
     \<lparr>MemoryBlock = Addr 0, capacity = 3, head = 1, elementsInside = 2\<rparr>)"

lemma sample_ring_facts:
  "ring_ok sample_ring" "ring_items sample_ring = [7, 8]"
  by (simp_all add: sample_ring_def InvalidIndex_def size_max_def block_of_def pos_def upt_conv_Cons)

theorem front_and_back_swapped_witness: "Front sample_ring = Inr 8 \<and> Back sample_ring = Inr 7"
  using front_and_back_swapped [OF sample_ring_facts] by simp

section \<open>Resizing\<close>

lemma copy_fold:
  assumes "\<forall>i \<in> set js. i < length old" and "s + length js \<le> length new"
  shows "res_fold (\<lambda>ci (s, new). if ci < length old \<and> s < length new
             then Inr (s + 1, new[s := old ! ci]) else Inl Undefined) js (s, new)
           = Inr (s + length js, take s new @ map ((!) old) js @ drop (s + length js) new)"
  using assms
proof (induction js arbitrary: s new)
  case (Cons i js)
  have "take (Suc s) (new[s := old ! i]) = take s new @ [old ! i]"
    using Cons.prems(2) by (simp add: take_Suc_conv_app_nth)
  moreover have "drop (Suc s + length js) (new[s := old ! i]) = drop (s + length (i # js)) new"
    by (simp add: drop_update_cancel)
  ultimately show ?case using Cons.IH [of "Suc s" "new[s := old ! i]"] Cons.prems by simp
qed simp

lemma copy_loops_ok:
  assumes "length old = capacity r" and "head r < capacity r"
    and "capacity r - tail + (head r + 1) \<le> length new"
  shows "copy_loops tail r old new =
     Inr (map ((!) old) ([tail..<capacity r] @ [0..<head r + 1]) @ drop (capacity r - tail + (head r + 1)) new)"
  unfolding copy_loops_def
  by (subst copy_fold) (use assms in auto)

text \<open>The buffer owns its block, and new blocks are fresh.\<close>

fun owns :: "'a store \<times> ring \<Rightarrow> bool" where
  "owns (st, r) \<longleftrightarrow> (\<exists>a. MemoryBlock r = Addr a \<and> a < next_addr st)"

lemma Resize_run:
  assumes "ring_ok (st, r)" and "owns (st, r)" and "0 < N" and "N < InvalidIndex"
    and "elementsInside r \<le> N" and "0 < elementsInside r"
    and new: "(if head r < GetTailIndex r
               then copy_loops (GetTailIndex r) r (ring_cells (st, r)) mem
               else CopyMemory sz mix (ring_cells (st, r)) mem (head r + 1 * sz)) = Inr new"
  shows "\<exists>st' a. Resize sz mix (Some mem) N (st, r) = Inr (True, st', r\<lparr>head :=
             (if head r < GetTailIndex r then elementsInside r - 1 else head r), capacity := N, MemoryBlock := Addr a\<rparr>) \<and>
           blocks st' a = Some new"
proof -
  note b = ring_bounds [OF assms(1)]
  obtain a xs where a: "MemoryBlock r = Addr a" "blocks st a = Some xs" "a < next_addr st"
    using assms(1,2) by auto
  have cells: "ring_cells (st, r) = xs" using a by (simp add: block_of_def)
  have t: "GetTailIndex r \<noteq> InvalidIndex" "head r \<noteq> InvalidIndex" using tail_invalid [OF assms(1)] b assms(6) by auto
  let ?n = "next_addr st"
  let ?st = "st\<lparr>blocks := (blocks st)(?n \<mapsto> new, a := None), next_addr := Suc ?n\<rparr>"
  have "Resize sz mix (Some mem) N (st, r) = Inr (True, ?st, r\<lparr>head :=
             (if head r < GetTailIndex r then elementsInside r - 1 else head r), capacity := N, MemoryBlock := Addr ?n\<rparr>)"
    using assms(3-6) a t new unfolding cells
    by (auto simp: Resize_def Allocate_def is_set_def block_of_def set_block_def Deallocate_def Let_def)
  moreover have "blocks ?st ?n = Some new" using a by simp
  ultimately show ?thesis by blast
qed

lemma resize_wrapped:
  assumes "ring_ok (st, r)" and "owns (st, r)" and "0 < N" and "N < InvalidIndex" and "length mem = N"
    and "elementsInside r \<le> N" and "0 < elementsInside r" and w: "head r < GetTailIndex r"
  shows "\<exists>s'. Resize sz mix (Some mem) N (st, r) = Inr (True, s') \<and> ring_ok s' \<and> ring_items s' = ring_items (st, r)"
proof -
  note b = ring_bounds [OF assms(1)]
  define n h c t where "n = elementsInside r" and "h = head r" and "c = capacity r" and "t = GetTailIndex r"
  have h: "h < c" using b assms(7) by (simp add: h_def c_def)
  have t: "t = h + c - (n - 1)" "h < n - 1" "n \<le> c"
    using tail_is_last [of r] b assms(7) w by (auto simp: n_def h_def c_def t_def pos_def split: if_splits)
  then have len: "c - t + (h + 1) = n" using h by simp
  let ?xs = "ring_cells (st, r)"
  define new where "new = map ((!) ?xs) ([t..<c] @ [0..<h + 1]) @ drop n mem"
  have "copy_loops t r ?xs mem = Inr new"
    using copy_loops_ok [of ?xs r t mem] cells_length [OF assms(1)] h len assms(5,6)
    by (simp add: new_def n_def h_def c_def del: ring_cells.simps)
  then obtain st' a where run: "Resize sz mix (Some mem) N (st, r)
      = Inr (True, st', r\<lparr>head := n - 1, capacity := N, MemoryBlock := Addr a\<rparr>)" "blocks st' a = Some new"
    using Resize_run [OF assms(1-4,6,7), of mem sz mix new] w by (auto simp: n_def t_def simp del: ring_cells.simps)
  let ?s = "(st', r\<lparr>head := n - 1, capacity := N, MemoryBlock := Addr a\<rparr>)"
  have lnew: "length new = N" using len assms(5,6) by (simp add: new_def n_def)
  have ok: "ring_ok ?s" using run(2) lnew assms(3,4,6,7) by (auto simp: n_def)
  have "new ! pos (n - 1) N j = ?xs ! pos h c j" if "j < n" for j
  proof -
    have "new ! (n - 1 - j) = ?xs ! (([t..<c] @ [0..<h + 1]) ! (n - 1 - j))"
      using that len by (simp add: new_def nth_append del: ring_cells.simps)
    moreover have "([t..<c] @ [0..<h + 1]) ! (n - 1 - j) = pos h c j"
      using that len t h by (auto simp: nth_append pos_def simp del: upt_Suc)
    moreover have "pos (n - 1) N j = n - 1 - j" using that by (simp add: pos_def)
    ultimately show ?thesis by simp
  qed
  then have "ring_items ?s = ring_items (st, r)"
    using run(2) by (simp add: block_of_def n_def h_def c_def)
  with run(1) ok show ?thesis by blast
qed

lemma resize_unwrapped:
  assumes "ring_ok (st, r)" and "owns (st, r)" and "0 < N" and "N < InvalidIndex" and "length mem = N"
    and "elementsInside r \<le> N" and "0 < elementsInside r" and "0 < sz"
    and u: "GetTailIndex r \<le> head r \<and> head r < N"
  shows "\<exists>s'. Resize sz mix (Some mem) N (st, r) = Inr (True, s') \<and>
               ring_items s' = map (\<lambda>j. let i = head r - j; x = ring_items (st, r) ! j
                  in if (i + 1) * sz \<le> head r + sz then x
                     else if i * sz < head r + sz then mix (head r + sz - i * sz) x (mem ! i)
                     else mem ! i) [0..<elementsInside r]"
proof -
  note b = ring_bounds [OF assms(1)]
  define n h where "n = elementsInside r" and "h = head r"
  let ?xs = "ring_cells (st, r)"
  let ?cut = "\<lambda>i x y. if (i + 1) * sz \<le> h + sz then x else if i * sz < h + sz then mix (h + sz - i * sz) x y else y"
  define new where "new = map (\<lambda>i. ?cut i (?xs ! i) (mem ! i)) [0..<N]"
  have h: "h < capacity r" "n \<le> h + 1"
    using b assms(7) u tail_is_last [of r] by (auto simp: n_def h_def pos_def split: if_splits)
  have fits: "h + sz \<le> (h + 1) * sz" using assms(8) by simp
  have "(h + 1) * sz \<le> capacity r * sz" "(h + 1) * sz \<le> N * sz"
    using h u by (intro mult_le_mono1; simp add: h_def)+
  with fits have "h + sz \<le> capacity r * sz" "h + sz \<le> N * sz" by linarith+
  then have "CopyMemory sz mix ?xs mem (head r + 1 * sz) = Inr new"
    using cells_length [OF assms(1)] assms(5) by (simp add: CopyMemory_def new_def h_def del: ring_cells.simps)
  then obtain st' a where run: "Resize sz mix (Some mem) N (st, r)
      = Inr (True, st', r\<lparr>head := h, capacity := N, MemoryBlock := Addr a\<rparr>)" "blocks st' a = Some new"
    using Resize_run [OF assms(1-4,6,7), of mem sz mix new] u by (auto simp: h_def simp del: ring_cells.simps)
  have "new ! pos h N j = ?cut (h - j) (ring_items (st, r) ! j) (mem ! (h - j))" if "j < n" for j
  proof -
    have "h - j < N" using conjunct2 [OF u] unfolding h_def by linarith
    then have "new ! (h - j) = ?cut (h - j) (?xs ! (h - j)) (mem ! (h - j))"
      by (simp add: new_def del: ring_cells.simps)
    moreover have "pos h N j = h - j" "pos h (capacity r) j = h - j" using that h(2) by (simp_all add: pos_def)
    moreover have "ring_items (st, r) ! j = ?xs ! pos h (capacity r) j"
      using that by (simp add: n_def h_def del: ring_cells.simps)
    ultimately show ?thesis by simp
  qed
  moreover have "ring_items (st', r\<lparr>head := h, capacity := N, MemoryBlock := Addr a\<rparr>) =
      map (\<lambda>j. new ! pos h N j) [0..<n]"
    using run(2) by (simp add: block_of_def n_def)
  ultimately have "ring_items (st', r\<lparr>head := h, capacity := N, MemoryBlock := Addr a\<rparr>) =
      map (\<lambda>j. ?cut (h - j) (ring_items (st, r) ! j) (mem ! (h - j))) [0..<n]"
    by (simp del: ring_items.simps)
  with run(1) show ?thesis
    unfolding Let_def n_def h_def by blast
qed

text \<open>
  Property C28. A resize of a ring whose contents wrap around keeps them. Otherwise \<^verbatim>\<open>head + 1 * sizeof\<close>
  bytes are copied instead of \<^verbatim>\<open>(head + 1) * sizeof\<close>: of values larger than a byte, every cell from
  the first that does not fit into that many bytes on is cut or has what the new memory held.
\<close>

theorem resize_effect:
  assumes "ring_ok (st, r)" and "owns (st, r)" and "0 < N" and "N < InvalidIndex" and "length mem = N"
    and "elementsInside r \<le> N" and "0 < elementsInside r" and "0 < sz"
  shows "(head r < GetTailIndex r \<longrightarrow>
            (\<exists>s'. Resize sz mix (Some mem) N (st, r) = Inr (True, s') \<and> ring_items s' = ring_items (st, r))) \<and>
         (GetTailIndex r \<le> head r \<and> head r < N \<longrightarrow>
            (\<exists>s'. Resize sz mix (Some mem) N (st, r) = Inr (True, s') \<and>
               ring_items s' = map (\<lambda>j. let i = head r - j; x = ring_items (st, r) ! j
                  in if (i + 1) * sz \<le> head r + sz then x
                     else if i * sz < head r + sz then mix (head r + sz - i * sz) x (mem ! i)
                     else mem ! i) [0..<elementsInside r]))"
proof (intro conjI impI)
  assume "head r < GetTailIndex r"
  then show "\<exists>s'. Resize sz mix (Some mem) N (st, r) = Inr (True, s') \<and> ring_items s' = ring_items (st, r)"
    using resize_wrapped [OF assms(1-7)] by blast
next
  assume "GetTailIndex r \<le> head r \<and> head r < N"
  then show "\<exists>s'. Resize sz mix (Some mem) N (st, r) = Inr (True, s') \<and>
               ring_items s' = map (\<lambda>j. let i = head r - j; x = ring_items (st, r) ! j
                  in if (i + 1) * sz \<le> head r + sz then x
                     else if i * sz < head r + sz then mix (head r + sz - i * sz) x (mem ! i)
                     else mem ! i) [0..<elementsInside r]"
    by (rule resize_unwrapped [OF assms])
qed

theorem resize_effect_witness:
  "\<exists>s'. Resize 4 (\<lambda>k x y. 100) (Some [0, 0, 0, 0]) 4 sample_ring = Inr (True, s') \<and> ring_items s' = [100, 8]"
proof -
  have N: "(4::nat) < InvalidIndex" by (simp add: InvalidIndex_def size_max_def)
  have o: "owns sample_ring" by (simp add: sample_ring_def)
  have t: "GetTailIndex (snd sample_ring) = 0" "head (snd sample_ring) = 1" "elementsInside (snd sample_ring) = 2"
    by (simp_all add: sample_ring_def GetTailIndex_def InvalidIndex_def size_max_def)
  have p: "(fst sample_ring, snd sample_ring) = sample_ring" by simp
  from resize_effect [of "fst sample_ring" "snd sample_ring" 4 "[0, 0, 0, 0]" 4 "\<lambda>k x y. 100"]
  show ?thesis unfolding p using sample_ring_facts N o t by (simp add: Let_def upt_conv_Cons)
qed

section \<open>Ownership\<close>

text \<open>
  Property C40. Copies and moves do not work on the memory they should: copying a buffer into a new one
  tests a pointer that was never set; after a move both buffers own the block, and destroying the
  second frees it again; and assigning to a buffer that has memory frees its block twice.
\<close>

theorem ownership_faults:
  assumes "ring_ok (st, r)" and "owns (st, r)"
  shows "RingBuffer_copy sz mix (Some mem) r st = Inl Undefined \<and>
         (\<exists>st'. RingBuffer_destroy (st, RingBuffer_move r) = Inr st' \<and> RingBuffer_destroy (st', r) = Inl Undefined) \<and>
         (0 < capacity Other \<longrightarrow> capacity Other \<noteq> InvalidIndex \<longrightarrow>
            ring_assign sz mix (Some mem) Other (st, r) = Inl Undefined)"
proof -
  note b = ring_bounds [OF assms(1)]
  obtain a xs where a: "MemoryBlock r = Addr a" "blocks st a = Some xs" "a < next_addr st"
    using assms by auto
  have "RingBuffer_copy sz mix (Some mem) r st = Inl Undefined"
    using b by (simp add: RingBuffer_copy_def Resize_def RingBuffer_default_def Allocate_def is_set_def)
  moreover have "RingBuffer_destroy (st, RingBuffer_move r) = Inr (st\<lparr>blocks := (blocks st)(a := None)\<rparr>)"
    "RingBuffer_destroy (st\<lparr>blocks := (blocks st)(a := None)\<rparr>, r) = Inl Undefined"
    using a by (simp_all add: RingBuffer_destroy_def RingBuffer_move_def is_set_def Deallocate_def)
  moreover have "ring_assign sz mix (Some mem) Other (st, r) = Inl Undefined"
    if "0 < capacity Other" "capacity Other \<noteq> InvalidIndex"
    using a that by (simp add: ring_assign_def free_own_def is_set_def Deallocate_def Resize_def Allocate_def Clear_def Let_def)
  ultimately show ?thesis by blast
qed

theorem ownership_faults_witness:
  "RingBuffer_copy 4 (\<lambda>k x y. x) (Some [0, 0, 0]) (snd sample_ring) (fst sample_ring) = Inl Undefined"
  using ownership_faults [of "fst sample_ring" "snd sample_ring" 4 "\<lambda>k x y. x" "[0, 0, 0]"] sample_ring_facts(1)
  by (simp add: sample_ring_def)

section \<open>Reading the members\<close>

definition GetCapacity :: "ring \<Rightarrow> nat" where
  "GetCapacity r = capacity r"

definition GetSize :: "ring \<Rightarrow> nat" where
  "GetSize r = elementsInside r"

definition GetHeadIndex :: "ring \<Rightarrow> nat" where
  "GetHeadIndex r = head r"

definition ring_size :: "ring \<Rightarrow> nat" where
  "ring_size r = elementsInside r"

definition ring_data :: "ring \<Rightarrow> ptr" where
  "ring_data r = MemoryBlock r"

lemma ring_members:
  assumes "ring_ok (st, r)"
  shows "GetSize r = length (ring_items (st, r))" and "ring_size r = GetSize r" and "GetSize r \<le> GetCapacity r"
    and "GetHeadIndex r = InvalidIndex \<longleftrightarrow> ring_items (st, r) = []"
    and "0 < GetSize r \<Longrightarrow> hd (ring_items (st, r)) = ring_cells (st, r) ! GetHeadIndex r"
    and "block_of (ring_data r) st = Inr (ring_cells (st, r))"
  using assms
  by (auto simp: GetSize_def GetCapacity_def GetHeadIndex_def ring_size_def ring_data_def block_of_def pos_def
      hd_map upt_conv_Cons split: if_splits)

end
