(* ===== verification/Handles.thy ===== *)
theory Handles
  imports Prelude
begin

text \<open>
  The memory handles of SpNetCommon/src/Utils/Memory.h: \<^verbatim>\<open>UniqueMemoryHandle\<close>, \<^verbatim>\<open>SharedMemoryHandle\<close>
  and \<^verbatim>\<open>WeakMemoryHandle\<close>.

  \<^item> Handles are variables, told apart by their place; \<open>unique\<close>, \<open>shared\<close> and \<open>weak\<close> give what the
    \<^verbatim>\<open>Data\<close> of the handle at a place is, \<open>None\<close> for the null pointer and where there is no handle.
  \<^item> \<open>objects\<close> are the objects alive on the heap. Deleting what is not alive is undefined. Where
    \<^verbatim>\<open>malloc\<close> puts an object is an argument, \<open>None\<close> when it has no memory.
  \<^item> \<open>RefMap\<close> is the map from addresses to counts, \<^verbatim>\<open>unsigned long\<close> of 32 bits.
  \<^item> Constructors and destructors of the managed type do not touch handles.
  \<^item> The first sections are the code without \<^verbatim>\<open>MEMORY_MULTITHREAD_SAFE\<close>; the releasing of shared
    handles with it is the last section's.
\<close>

section \<open>Memory\<close>

type_synonym pointer = "nat option"

record 'a memory =
  objects :: "nat \<rightharpoonup> 'a"
  RefMap :: "nat \<rightharpoonup> u32"
  unique :: "nat \<Rightarrow> pointer"
  shared :: "nat \<Rightarrow> pointer"
  weak :: "nat \<Rightarrow> pointer"

definition no_memory :: "'a memory" where
  "no_memory = \<lparr>objects = (\<lambda>_. None), RefMap = (\<lambda>_. None), unique = (\<lambda>_. None), shared = (\<lambda>_. None),
     weak = (\<lambda>_. None)\<rparr>"

definition set_unique :: "nat \<Rightarrow> pointer \<Rightarrow> 'a memory \<Rightarrow> 'a memory" where
  "set_unique h d s = s\<lparr>unique := (unique s)(h := d)\<rparr>"

definition set_shared :: "nat \<Rightarrow> pointer \<Rightarrow> 'a memory \<Rightarrow> 'a memory" where
  "set_shared h d s = s\<lparr>shared := (shared s)(h := d)\<rparr>"

definition set_weak :: "nat \<Rightarrow> pointer \<Rightarrow> 'a memory \<Rightarrow> 'a memory" where
  "set_weak h d s = s\<lparr>weak := (weak s)(h := d)\<rparr>"

text \<open>\<^verbatim>\<open>zero_memory\<close> writes to the allocation before anybody looks whether there is one.\<close>

definition MallocAllocate :: "pointer \<Rightarrow> nat res" where
  "MallocAllocate allocation = (case allocation of None \<Rightarrow> Inl Undefined | Some a \<Rightarrow> Inr a)"

definition MallocDeallocate :: "pointer \<Rightarrow> 'a memory \<Rightarrow> (bool \<times> 'a memory) res" where
  "MallocDeallocate p s =
     (case p of
        Some a \<Rightarrow> (if objects s a = None then Inl Undefined
                   else Inr (True, s\<lparr>objects := (objects s)(a := None)\<rparr>))
      | None \<Rightarrow> Inr (False, s))"

definition harz_delete :: "pointer \<Rightarrow> 'a memory \<Rightarrow> 'a memory res" where
  "harz_delete p s =
     (if p \<noteq> None then res_bind (MallocDeallocate p s) (\<lambda>(_, s'). Inr s') else Inr s)"

definition harz_new :: "pointer \<Rightarrow> 'a \<Rightarrow> 'a memory \<Rightarrow> (pointer \<times> 'a memory) res" where
  "harz_new allocation x s =
     res_bind (MallocAllocate allocation) (\<lambda>a. Inr (Some a, s\<lparr>objects := (objects s)(a \<mapsto> x)\<rparr>))"

text \<open>Reading through a pointer.\<close>

definition deref :: "pointer \<Rightarrow> 'a memory \<Rightarrow> 'a res" where
  "deref p s =
     (case p of
        None \<Rightarrow> Inl NullDeref
      | Some a \<Rightarrow> (case objects s a of None \<Rightarrow> Inl Undefined | Some x \<Rightarrow> Inr x))"

section \<open>Unique handles\<close>

definition uq_IsValid :: "nat \<Rightarrow> 'a memory \<Rightarrow> bool" where
  "uq_IsValid h s \<longleftrightarrow> unique s h \<noteq> None"

definition uq_ReleaseResourseChecked :: "nat \<Rightarrow> 'a memory \<Rightarrow> 'a memory res" where
  "uq_ReleaseResourseChecked h s =
     (if unique s h = None then Inr s
      else res_bind (harz_delete (unique s h) s) (\<lambda>s'. Inr (set_unique h None s')))"

definition uq_Release :: "nat \<Rightarrow> 'a memory \<Rightarrow> 'a memory res" where
  "uq_Release h s = uq_ReleaseResourseChecked h s"

definition uq_AcquireDataToHandle :: "pointer \<Rightarrow> nat \<Rightarrow> 'a memory \<Rightarrow> 'a memory res" where
  "uq_AcquireDataToHandle d h s =
     (if d = None then Inr s
      else if unique s h = d then Inr s
      else res_bind (uq_Release h s) (\<lambda>s'. Inr (set_unique h d s')))"

definition uq_RetrieveResourse :: "nat \<Rightarrow> 'a memory \<Rightarrow> pointer \<times> 'a memory" where
  "uq_RetrieveResourse h s =
     (if \<not> uq_IsValid h s then (None, s) else (unique s h, set_unique h None s))"

definition uq_default :: "nat \<Rightarrow> 'a memory \<Rightarrow> 'a memory" where
  "uq_default h s = set_unique h None s"

definition uq_from_pointer :: "pointer \<Rightarrow> nat \<Rightarrow> 'a memory \<Rightarrow> 'a memory res" where
  "uq_from_pointer d h s = uq_AcquireDataToHandle d h (uq_default h s)"

text \<open>The constructors from a non-constant handle and from a temporary do the same.\<close>

definition uq_from_handle :: "nat \<Rightarrow> nat \<Rightarrow> 'a memory \<Rightarrow> 'a memory res" where
  "uq_from_handle g h s =
     (case uq_RetrieveResourse g (uq_default h s) of (d, s') \<Rightarrow> uq_AcquireDataToHandle d h s')"

definition uq_move_assign :: "nat \<Rightarrow> nat \<Rightarrow> 'a memory \<Rightarrow> 'a memory res" where
  "uq_move_assign g h s =
     (if h \<noteq> g then
        res_bind (if uq_IsValid h s then uq_Release h s else Inr s) (\<lambda>s1.
          case uq_RetrieveResourse g s1 of (d, s2) \<Rightarrow> uq_AcquireDataToHandle d h s2)
      else Inr s)"

definition uq_Create :: "pointer \<Rightarrow> 'a \<Rightarrow> nat \<Rightarrow> 'a memory \<Rightarrow> 'a memory res" where
  "uq_Create allocation x h s =
     res_bind (harz_new allocation x s) (\<lambda>(d, s'). uq_from_pointer d h s')"

definition uq_destroy :: "nat \<Rightarrow> 'a memory \<Rightarrow> 'a memory res" where
  "uq_destroy h s = (if uq_IsValid h s then uq_Release h s else Inr s)"

definition uq_Get :: "nat \<Rightarrow> 'a memory \<Rightarrow> pointer" where
  "uq_Get h s = unique s h"

definition uq_GetReference :: "nat \<Rightarrow> 'a memory \<Rightarrow> 'a res" where
  "uq_GetReference h s = (if uq_IsValid h s then deref (unique s h) s else Inl AssertFailed)"

definition uq_ResetNew :: "pointer \<Rightarrow> 'a \<Rightarrow> nat \<Rightarrow> 'a memory \<Rightarrow> 'a memory res" where
  "uq_ResetNew allocation x h s =
     res_bind (harz_new allocation x s) (\<lambda>(d, s'). uq_AcquireDataToHandle d h s')"

definition uq_Reset_pointer :: "pointer \<Rightarrow> nat \<Rightarrow> 'a memory \<Rightarrow> 'a memory res" where
  "uq_Reset_pointer d h s =
     (if unique s h = d then Inr s
      else if d = None then uq_Release h s
      else uq_AcquireDataToHandle d h s)"

text \<open>
  The other handle is passed by value: the parameter, at the place \<open>t\<close>, takes the resource of the
  handle \<open>g\<close> and is destroyed in the end.
\<close>

definition uq_Reset_handle :: "nat \<Rightarrow> nat \<Rightarrow> nat \<Rightarrow> 'a memory \<Rightarrow> 'a memory res" where
  "uq_Reset_handle t g h s =
     res_bind (uq_from_handle g t s) (\<lambda>s1.
     res_bind (if unique s1 h = uq_Get t s1 then Inl AssertFailed
               else if \<not> uq_IsValid t s1 then uq_Release h s1
               else (case uq_RetrieveResourse t s1 of (d, s2) \<Rightarrow> uq_AcquireDataToHandle d h s2))
       (uq_destroy t))"

definition uq_eq_pointer :: "pointer \<Rightarrow> nat \<Rightarrow> 'a memory \<Rightarrow> bool" where
  "uq_eq_pointer d h s \<longleftrightarrow> unique s h = d"

definition uq_arrow :: "nat \<Rightarrow> 'a memory \<Rightarrow> pointer" where
  "uq_arrow h s = uq_Get h s"

text \<open>\<^verbatim>\<open>MakeUniqueHandle\<close>: the handle \<^verbatim>\<open>Create\<close> returns, at the place \<open>t\<close>, is moved out of.\<close>

definition MakeUniqueHandle :: "nat \<Rightarrow> pointer \<Rightarrow> 'a \<Rightarrow> nat \<Rightarrow> 'a memory \<Rightarrow> 'a memory res" where
  "MakeUniqueHandle t allocation x h s =
     res_bind (uq_Create allocation x t s) (\<lambda>s1. res_bind (uq_from_handle t h s1) (uq_destroy t))"

section \<open>Shared handles\<close>

definition sh_IsValid :: "nat \<Rightarrow> 'a memory \<Rightarrow> bool" where
  "sh_IsValid h s = (case shared s h of None \<Rightarrow> False | Some a \<Rightarrow> RefMap s a \<noteq> None)"

definition sh_AcquireDataToHandle :: "pointer \<Rightarrow> nat \<Rightarrow> 'a memory \<Rightarrow> 'a memory" where
  "sh_AcquireDataToHandle d h s =
     (case d of
        None \<Rightarrow> s
      | Some a \<Rightarrow>
          if shared s h = Some a then s
          else set_shared h (Some a)
                 (s\<lparr>RefMap := (RefMap s)(a \<mapsto> (case RefMap s a of Some n \<Rightarrow> n + 1 | None \<Rightarrow> 1))\<rparr>))"

definition sh_ReleaseResourseChecked :: "nat \<Rightarrow> 'a memory \<Rightarrow> 'a memory res" where
  "sh_ReleaseResourseChecked h s =
     res_bind
       (case shared s h of
          None \<Rightarrow> Inr s
        | Some a \<Rightarrow>
            (case RefMap s a of
               None \<Rightarrow> Inl AssertFailed
             | Some n \<Rightarrow>
                 if n - 1 < 1
                 then harz_delete (Some a) (s\<lparr>RefMap := (RefMap s)(a := None)\<rparr>)
                 else Inr (s\<lparr>RefMap := (RefMap s)(a \<mapsto> n - 1)\<rparr>)))
       (\<lambda>s'. Inr (set_shared h None s'))"

definition sh_Release :: "nat \<Rightarrow> 'a memory \<Rightarrow> 'a memory res" where
  "sh_Release h s = sh_ReleaseResourseChecked h s"

definition sh_release_valid :: "nat \<Rightarrow> 'a memory \<Rightarrow> 'a memory res" where
  "sh_release_valid h s = (if sh_IsValid h s then sh_Release h s else Inr s)"

definition sh_default :: "nat \<Rightarrow> 'a memory \<Rightarrow> 'a memory" where
  "sh_default h s = set_shared h None s"

definition sh_Get :: "nat \<Rightarrow> 'a memory \<Rightarrow> pointer" where
  "sh_Get h s = shared s h"

definition sh_from_pointer :: "pointer \<Rightarrow> nat \<Rightarrow> 'a memory \<Rightarrow> 'a memory" where
  "sh_from_pointer d h s = sh_AcquireDataToHandle d h (sh_default h s)"

definition sh_Create :: "pointer \<Rightarrow> 'a \<Rightarrow> nat \<Rightarrow> 'a memory \<Rightarrow> 'a memory res" where
  "sh_Create allocation x h s =
     res_bind (harz_new allocation x s) (\<lambda>(d, s'). Inr (sh_from_pointer d h s'))"

definition sh_copy :: "nat \<Rightarrow> nat \<Rightarrow> 'a memory \<Rightarrow> 'a memory" where
  "sh_copy g h s = (let s' = sh_default h s in sh_AcquireDataToHandle (shared s' g) h s')"

definition sh_copy_assign :: "nat \<Rightarrow> nat \<Rightarrow> 'a memory \<Rightarrow> 'a memory res" where
  "sh_copy_assign g h s =
     (if h \<noteq> g then res_bind (sh_release_valid h s) (\<lambda>s'. Inr (sh_AcquireDataToHandle (sh_Get g s') h s'))
      else Inr s)"

definition sh_from_unique :: "nat \<Rightarrow> nat \<Rightarrow> 'a memory \<Rightarrow> 'a memory" where
  "sh_from_unique u h s =
     (case uq_RetrieveResourse u (sh_default h s) of (d, s') \<Rightarrow> sh_AcquireDataToHandle d h s')"

definition sh_move :: "nat \<Rightarrow> nat \<Rightarrow> 'a memory \<Rightarrow> 'a memory res" where
  "sh_move g h s =
     (let s' = sh_default h s in sh_Release g (sh_AcquireDataToHandle (sh_Get g s') h s'))"

definition sh_move_assign :: "nat \<Rightarrow> nat \<Rightarrow> 'a memory \<Rightarrow> 'a memory res" where
  "sh_move_assign g h s =
     (if h \<noteq> g then res_bind (sh_release_valid h s) (\<lambda>s'. sh_Release g (sh_AcquireDataToHandle (sh_Get g s') h s'))
      else Inr s)"

definition sh_destroy :: "nat \<Rightarrow> 'a memory \<Rightarrow> 'a memory res" where
  "sh_destroy h s = sh_release_valid h s"

definition sh_GetReference :: "nat \<Rightarrow> 'a memory \<Rightarrow> 'a res" where
  "sh_GetReference h s = (if sh_IsValid h s then deref (shared s h) s else Inl AssertFailed)"

definition sh_Reset_pointer :: "pointer \<Rightarrow> nat \<Rightarrow> 'a memory \<Rightarrow> 'a memory res" where
  "sh_Reset_pointer d h s =
     (if shared s h = d then Inr s
      else res_bind (sh_release_valid h s) (\<lambda>s'. Inr (sh_AcquireDataToHandle d h s')))"

text \<open>The parameter, at the place \<open>t\<close>, is a copy that is destroyed in the end.\<close>

definition sh_Reset_handle :: "nat \<Rightarrow> nat \<Rightarrow> nat \<Rightarrow> 'a memory \<Rightarrow> 'a memory res" where
  "sh_Reset_handle t g h s =
     (let s1 = sh_copy g t s
      in res_bind
           (if shared s1 h = sh_Get t s1 then Inr s1
            else res_bind (sh_release_valid h s1) (\<lambda>s2. Inr (sh_AcquireDataToHandle (sh_Get t s2) h s2)))
           (sh_destroy t))"

definition sh_eq_pointer :: "pointer \<Rightarrow> nat \<Rightarrow> 'a memory \<Rightarrow> bool" where
  "sh_eq_pointer d h s \<longleftrightarrow> shared s h = d"

definition sh_eq :: "nat \<Rightarrow> nat \<Rightarrow> 'a memory \<Rightarrow> bool" where
  "sh_eq g h s \<longleftrightarrow> shared s h = shared s g"

definition sh_arrow :: "nat \<Rightarrow> 'a memory \<Rightarrow> pointer" where
  "sh_arrow h s = sh_Get h s"

definition MakeSharedHandle :: "nat \<Rightarrow> pointer \<Rightarrow> 'a \<Rightarrow> nat \<Rightarrow> 'a memory \<Rightarrow> 'a memory res" where
  "MakeSharedHandle t allocation x h s =
     res_bind (sh_Create allocation x t s) (\<lambda>s1. res_bind (sh_move t h s1) (sh_destroy t))"

section \<open>Weak handles\<close>

definition CheckRefCount :: "pointer \<Rightarrow> 'a memory \<Rightarrow> bool" where
  "CheckRefCount p s =
     (case p of
        None \<Rightarrow> False
      | Some a \<Rightarrow> (case RefMap s a of None \<Rightarrow> False | Some n \<Rightarrow> 0 < n))"

definition wk_IsValid :: "nat \<Rightarrow> 'a memory \<Rightarrow> bool" where
  "wk_IsValid w s \<longleftrightarrow> weak s w \<noteq> None \<and> CheckRefCount (weak s w) s"

definition wk_default :: "nat \<Rightarrow> 'a memory \<Rightarrow> 'a memory" where
  "wk_default w s = set_weak w None s"

text \<open>Every constructor and assignment from a weak handle copies its pointer.\<close>

definition wk_copy :: "nat \<Rightarrow> nat \<Rightarrow> 'a memory \<Rightarrow> 'a memory" where
  "wk_copy v w s = set_weak w (weak s v) s"

definition wk_from_shared :: "nat \<Rightarrow> nat \<Rightarrow> 'a memory \<Rightarrow> 'a memory" where
  "wk_from_shared h w s = set_weak w (sh_Get h s) s"

definition wk_Reset :: "nat \<Rightarrow> nat \<Rightarrow> 'a memory \<Rightarrow> 'a memory" where
  "wk_Reset h w s = set_weak w (sh_Get h s) s"

definition wk_Get :: "nat \<Rightarrow> 'a memory \<Rightarrow> pointer" where
  "wk_Get w s = weak s w"

definition wk_GetReference :: "nat \<Rightarrow> 'a memory \<Rightarrow> 'a res" where
  "wk_GetReference w s = (if wk_IsValid w s then deref (weak s w) s else Inl AssertFailed)"

definition wk_eq_pointer :: "pointer \<Rightarrow> nat \<Rightarrow> 'a memory \<Rightarrow> bool" where
  "wk_eq_pointer d w s \<longleftrightarrow> weak s w = d"

definition wk_eq :: "nat \<Rightarrow> nat \<Rightarrow> 'a memory \<Rightarrow> bool" where
  "wk_eq v w s \<longleftrightarrow> weak s w = weak s v"

definition wk_eq_shared :: "nat \<Rightarrow> nat \<Rightarrow> 'a memory \<Rightarrow> bool" where
  "wk_eq_shared h w s \<longleftrightarrow> weak s w = sh_Get h s"

definition wk_arrow :: "nat \<Rightarrow> 'a memory \<Rightarrow> pointer" where
  "wk_arrow w s = wk_Get w s"

text \<open>
  \<^verbatim>\<open>GetWeak\<close> returns \<open>{ Data }\<close>: the pointer becomes a shared handle, at the place \<open>t\<close>, the weak handle
  is made from it, and it is destroyed.
\<close>

definition GetWeak :: "nat \<Rightarrow> nat \<Rightarrow> nat \<Rightarrow> 'a memory \<Rightarrow> 'a memory res" where
  "GetWeak t h w s =
     (let s1 = sh_from_pointer (shared s h) t s in sh_destroy t (wk_from_shared t w s1))"


section \<open>Releasing with MEMORY\_MULTITHREAD\_SAFE\<close>

text \<open>
  With \<^verbatim>\<open>MEMORY_MULTITHREAD_SAFE\<close> each access to the count takes the mutex for itself. Two threads
  release two shared handles to one object: \<open>ref_node\<close> is the node of the map the pointer \<^verbatim>\<open>Ref\<close> of both
  addresses, \<open>None\<close> once it was erased; \<open>release_at\<close> is what each thread does next.
\<close>

datatype release_place = LookUp | Decrement | ReadCount | Erase | Delete | Released

record racing =
  ref_node :: "u32 option"
  alive :: bool
  release_at :: "bool \<Rightarrow> release_place"

definition two_owners :: racing where
  "two_owners = \<lparr>ref_node = Some 2, alive = True, release_at = (\<lambda>_. LookUp)\<rparr>"

definition goes_to :: "bool \<Rightarrow> release_place \<Rightarrow> racing \<Rightarrow> racing" where
  "goes_to i p s = s\<lparr>release_at := (release_at s)(i := p)\<rparr>"

definition release_step :: "bool \<Rightarrow> racing \<Rightarrow> racing res" where
  "release_step i s =
     (case release_at s i of
        LookUp \<Rightarrow> (if ref_node s = None then Inl AssertFailed else Inr (goes_to i Decrement s))
      | Decrement \<Rightarrow> (case ref_node s of
            None \<Rightarrow> Inl Undefined
          | Some n \<Rightarrow> Inr (goes_to i ReadCount (s\<lparr>ref_node := Some (n - 1)\<rparr>)))
      | ReadCount \<Rightarrow> (case ref_node s of
            None \<Rightarrow> Inl Undefined
          | Some n \<Rightarrow> Inr (goes_to i (if n < 1 then Erase else Released) s))
      | Erase \<Rightarrow> Inr (goes_to i Delete (s\<lparr>ref_node := None\<rparr>))
      | Delete \<Rightarrow> (if alive s then Inr (goes_to i Released (s\<lparr>alive := False\<rparr>)) else Inl Undefined)
      | Released \<Rightarrow> Inr s)"

end
