(* ===== verification/HandleProps.thy ===== *)
theory HandleProps
  imports Handles
begin

text \<open>
  What the memory handles promise: as long as every raw pointer is handed to one handle at most, no
  operation faults, every live object has exactly one unique handle or as many shared handles as its
  count says, and nothing is leaked. The operations a program can make are the data type \<open>op\<close>.
\<close>

section \<open>Ownership\<close>

definition owners_of :: "(nat \<Rightarrow> pointer) \<Rightarrow> nat \<Rightarrow> nat" where
  "owners_of f a = card {h. f h = Some a}"

abbreviation owners :: "nat \<Rightarrow> 'a memory \<Rightarrow> nat" where
  "owners a s \<equiv> owners_of (shared s) a"

definition handles_used :: "(nat \<Rightarrow> pointer) \<Rightarrow> nat" where
  "handles_used f = card {h. f h \<noteq> None}"

text \<open>
  Who owns the objects: \<open>own\<close> counts shared handles, \<open>uq\<close> are the unique ones, \<open>R\<close> are the objects only
  a raw pointer points to.
\<close>

definition well_owned :: "nat set \<Rightarrow> (nat \<Rightarrow> nat) \<Rightarrow> (nat \<Rightarrow> bool) \<Rightarrow> (nat \<Rightarrow> pointer) \<Rightarrow> bool" where
  "well_owned R own live uq \<longleftrightarrow>
     (\<forall>a. live a = (own a \<noteq> 0 \<or> (\<exists>h. uq h = Some a) \<or> a \<in> R)) \<and>
     (\<forall>a h. uq h = Some a \<longrightarrow> own a = 0 \<and> a \<notin> R \<and> (\<forall>h'. uq h' = Some a \<longrightarrow> h' = h)) \<and>
     (\<forall>a \<in> R. own a = 0)"

definition count_of :: "nat \<Rightarrow> u32 option" where
  "count_of n = (if n = 0 then None else Some (word_of_nat n))"

definition handles_ok :: "nat set \<Rightarrow> 'a memory \<Rightarrow> bool" where
  "handles_ok R s \<longleftrightarrow>
     finite {h. shared s h \<noteq> None} \<and> handles_used (shared s) < 2 ^ 32 \<and>
     RefMap s = (\<lambda>a. count_of (owners a s)) \<and>
     well_owned R (owners_of (shared s)) (\<lambda>a. objects s a \<noteq> None) (unique s)"

lemma well_owned_live:
  "well_owned R own live uq \<Longrightarrow> live a = (own a \<noteq> 0 \<or> (\<exists>h. uq h = Some a) \<or> a \<in> R)"
  by (simp add: well_owned_def)

lemma well_owned_uq:
  "well_owned R own live uq \<Longrightarrow> uq h = Some a \<Longrightarrow> live a \<and> own a = 0 \<and> a \<notin> R"
  by (auto simp: well_owned_def)

lemma well_owned_acquire:
  assumes "well_owned R own live uq" and "a \<in> R \<or> own a \<noteq> 0"
  shows "well_owned (R - {a}) (own(a := Suc (own a))) live uq"
  using assms unfolding well_owned_def by (intro conjI allI ballI impI) (auto split: if_splits)

lemma well_owned_release:
  assumes "well_owned R own live uq" and "1 < own a"
  shows "well_owned R (own(a := own a - 1)) live uq"
  using assms unfolding well_owned_def by (intro conjI allI ballI impI) (auto split: if_splits)

lemma well_owned_last:
  assumes "well_owned R own live uq" and "own a = 1"
  shows "well_owned R (own(a := 0)) (live(a := False)) uq"
proof -
  have "\<forall>h. uq h \<noteq> Some a" "a \<notin> R" using assms by (auto simp: well_owned_def)
  with assms show ?thesis unfolding well_owned_def by (intro conjI allI ballI impI) (auto split: if_splits)
qed

lemma well_owned_new:
  assumes "well_owned R own live uq" and "\<not> live a"
  shows "well_owned (insert a R) own (live(a := True)) uq"
proof -
  have "\<forall>h. uq h \<noteq> Some a" "a \<notin> R" "own a = 0" using assms by (auto simp: well_owned_def)
  with assms show ?thesis unfolding well_owned_def by (intro conjI allI ballI impI) (auto split: if_splits)
qed

lemma held_drop:
  assumes "uq h = Some a" and "\<forall>k. uq k = Some a \<longrightarrow> k = h"
  shows "(\<exists>k. (uq(h := None)) k = Some b) = (b \<noteq> a \<and> (\<exists>k. uq k = Some b))"
proof (cases "b = a")
  case False
  have "(uq(h := None)) k = Some b \<longleftrightarrow> uq k = Some b" for k using assms(1) False by (cases "k = h") auto
  then show ?thesis using False by simp
next
  case True
  have "(uq(h := None)) k \<noteq> Some a" for k using assms(2) by (cases "k = h") auto
  then show ?thesis using True by simp
qed

lemma held_add:
  "uq h = None \<Longrightarrow> (\<exists>k. (uq(h := Some a)) k = Some b) = (b = a \<or> (\<exists>k. uq k = Some b))"
proof (cases "b = a")
  case False
  assume n: "uq h = None"
  have "(uq(h := Some a)) k = Some b \<longleftrightarrow> uq k = Some b" for k using n False by (cases "k = h") auto
  then show ?thesis using False by simp
next
  case True
  then have "(uq(h := Some a)) h = Some b" by simp
  then show ?thesis using True by blast
qed

lemma well_owned_delete:
  assumes "well_owned R own live uq" and "uq h = Some a"
  shows "well_owned R own (live(a := False)) (uq(h := None))"
proof -
  have f: "own a = 0" "a \<notin> R" "\<forall>k. uq k = Some a \<longrightarrow> k = h" using assms by (auto simp: well_owned_def)
  show ?thesis unfolding well_owned_def held_drop [of uq h a, OF assms(2) f(3)]
    using assms f unfolding well_owned_def by (intro conjI allI ballI impI) (auto split: if_splits)
qed

lemma well_owned_retrieve:
  assumes "well_owned R own live uq" and "uq h = Some a"
  shows "well_owned (insert a R) own live (uq(h := None))"
proof -
  have f: "own a = 0" "live a" "\<forall>k. uq k = Some a \<longrightarrow> k = h" using assms by (auto simp: well_owned_def)
  show ?thesis unfolding well_owned_def held_drop [of uq h a, OF assms(2) f(3)]
    using assms f unfolding well_owned_def by (intro conjI allI ballI impI) (auto split: if_splits)
qed

lemma well_owned_hold:
  assumes "well_owned R own live uq" and "a \<in> R" and "uq h = None"
  shows "well_owned (R - {a}) own live (uq(h := Some a))"
proof -
  have "own a = 0" "live a" "\<forall>h. uq h \<noteq> Some a" using assms by (auto simp: well_owned_def)
  with assms show ?thesis unfolding well_owned_def held_add [of uq h a, OF assms(3)]
    by (intro conjI allI ballI impI) (auto split: if_splits)
qed

lemma owners_fin: "finite {h. f h \<noteq> None} \<Longrightarrow> finite {h. f h = Some (a :: nat)}"
  by (rule finite_subset [rotated]) auto

lemma owners_add:
  assumes "finite {h. f h \<noteq> None}" and "f h = None"
  shows "owners_of (f(h := Some a)) = (owners_of f)(a := Suc (owners_of f a))"
proof
  fix b
  have "{h'. (f(h := Some a)) h' = Some b} = (if b = a then insert h {h'. f h' = Some b} else {h'. f h' = Some b})"
    using assms(2) by auto
  moreover have "card (insert h {h'. f h' = Some b}) = Suc (card {h'. f h' = Some b})"
    using assms(2) owners_fin [OF assms(1)] by (subst card_insert_disjoint) auto
  ultimately show "owners_of (f(h := Some a)) b = ((owners_of f)(a := Suc (owners_of f a))) b"
    by (cases "b = a") (simp_all add: owners_of_def)
qed

lemma owners_drop:
  assumes "finite {h. f h \<noteq> None}" and "f h = Some a"
  shows "owners_of (f(h := None)) = (owners_of f)(a := owners_of f a - 1)"
proof
  fix b
  have "{h'. (f(h := None)) h' = Some b} = (if b = a then {h'. f h' = Some b} - {h} else {h'. f h' = Some b})"
    using assms(2) by auto
  moreover have "card ({h'. f h' = Some a} - {h}) = card {h'. f h' = Some a} - 1"
    using assms(2) owners_fin [OF assms(1)] by (subst card_Diff_singleton) auto
  ultimately show "owners_of (f(h := None)) b = ((owners_of f)(a := owners_of f a - 1)) b"
    by (cases "b = a") (simp_all add: owners_of_def)
qed

lemma owners_pos:
  assumes "finite {h. f h \<noteq> None}" and "f h = Some a"
  shows "0 < owners_of f a"
  using assms owners_fin [OF assms(1), of a] by (auto simp: owners_of_def card_gt_0_iff)

lemma owners_used: "finite {h. f h \<noteq> None} \<Longrightarrow> owners_of f a \<le> handles_used f"
  unfolding owners_of_def handles_used_def by (rule card_mono) auto

lemma used_add: "finite {h. f h \<noteq> None} \<Longrightarrow> f h = None \<Longrightarrow> handles_used (f(h := Some a)) = Suc (handles_used f)"
proof -
  assume a: "finite {h. f h \<noteq> None}" "f h = None"
  have "{h'. (f(h := Some a)) h' \<noteq> None} = insert h {h'. f h' \<noteq> None}" by auto
  with a show ?thesis unfolding handles_used_def by (simp only:) (subst card_insert_disjoint; auto)
qed

lemma used_drop: "finite {h. f h \<noteq> None} \<Longrightarrow> handles_used (f(h := None)) \<le> handles_used f"
  unfolding handles_used_def by (rule card_mono) auto

lemma finite_used_upd: "finite {h. f h \<noteq> None} \<Longrightarrow> finite {h'. (f(h := d)) h' \<noteq> None}"
  by (rule finite_subset [of _ "insert h {h. f h \<noteq> None}"]) auto

lemma set_handle_simps [simp]:
  "shared (set_shared h d s) = (shared s)(h := d)" "unique (set_shared h d s) = unique s"
  "objects (set_shared h d s) = objects s" "RefMap (set_shared h d s) = RefMap s"
  "shared (set_unique h d s) = shared s" "unique (set_unique h d s) = (unique s)(h := d)"
  "objects (set_unique h d s) = objects s" "RefMap (set_unique h d s) = RefMap s"
  "shared (set_weak h d s) = shared s" "unique (set_weak h d s) = unique s"
  "objects (set_weak h d s) = objects s" "RefMap (set_weak h d s) = RefMap s"
  by (simp_all add: set_shared_def set_unique_def set_weak_def)

lemma handles_ok_weak [simp]: "handles_ok R (set_weak w d s) = handles_ok R s"
  by (simp add: handles_ok_def)

lemma set_null_id:
  "unique s h = None \<Longrightarrow> set_unique h None s = s" "shared s h = None \<Longrightarrow> set_shared h None s = s"
  by (simp_all add: set_unique_def set_shared_def fun_upd_idem)

section \<open>The steps the operations are made of\<close>

lemma new_ok:
  assumes "handles_ok R s" and "objects s a = None"
  shows "\<exists>s'. harz_new (Some a) x s = Inr (Some a, s') \<and> handles_ok (insert a R) s' \<and>
           shared s' = shared s \<and> unique s' = unique s \<and> objects s' = (objects s)(a \<mapsto> x)"
proof -
  let ?s = "s\<lparr>objects := (objects s)(a \<mapsto> x)\<rparr>"
  have l: "(\<lambda>b. objects ?s b \<noteq> None) = (\<lambda>b. objects s b \<noteq> None)(a := True)" by auto
  have "handles_ok (insert a R) ?s"
    using assms well_owned_new [of R "owners_of (shared s)" "\<lambda>b. objects s b \<noteq> None" "unique s" a]
    unfolding handles_ok_def l by simp
  then show ?thesis by (simp add: harz_new_def MallocAllocate_def)
qed

lemma delete_live: "objects s a \<noteq> None \<Longrightarrow> harz_delete (Some a) s = Inr (s\<lparr>objects := (objects s)(a := None)\<rparr>)"
  by (auto simp: harz_delete_def MallocDeallocate_def)

lemma uq_release_ok:
  assumes "handles_ok R s"
  shows "\<exists>s'. uq_Release h s = Inr s' \<and> handles_ok R s' \<and> unique s' = (unique s)(h := None) \<and> shared s' = shared s"
proof (cases "unique s h")
  case None
  then show ?thesis using assms by (simp add: uq_Release_def uq_ReleaseResourseChecked_def fun_upd_idem)
next
  case (Some a)
  have w: "well_owned R (owners_of (shared s)) (\<lambda>a. objects s a \<noteq> None) (unique s)"
    using assms by (simp add: handles_ok_def)
  then have "objects s a \<noteq> None" using well_owned_uq Some by blast
  then have "uq_Release h s = Inr (set_unique h None (s\<lparr>objects := (objects s)(a := None)\<rparr>))"
    using Some by (simp add: uq_Release_def uq_ReleaseResourseChecked_def delete_live)
  moreover have "(\<lambda>b. ((objects s)(a := None)) b \<noteq> None) = (\<lambda>b. objects s b \<noteq> None)(a := False)" by auto
  then have "handles_ok R (set_unique h None (s\<lparr>objects := (objects s)(a := None)\<rparr>))"
    using assms well_owned_delete [OF w Some] by (simp add: handles_ok_def del: fun_upd_apply)
  ultimately show ?thesis by simp
qed

lemma uq_retrieve_ok:
  assumes "handles_ok R s"
  shows "uq_RetrieveResourse h s = (unique s h, set_unique h None s)"
    "handles_ok (R \<union> set_option (unique s h)) (set_unique h None s)"
proof -
  show "uq_RetrieveResourse h s = (unique s h, set_unique h None s)"
    by (simp add: uq_RetrieveResourse_def uq_IsValid_def set_null_id)
  show "handles_ok (R \<union> set_option (unique s h)) (set_unique h None s)"
  proof (cases "unique s h")
    case None
    then show ?thesis using assms by (simp add: set_null_id)
  next
    case (Some a)
    then show ?thesis
      using well_owned_retrieve [of R "owners_of (shared s)" "\<lambda>a. objects s a \<noteq> None" "unique s" h a] assms
      by (simp add: handles_ok_def)
  qed
qed

lemma uq_acquire_ok:
  assumes "handles_ok R s" and "set_option d \<subseteq> R"
  shows "\<exists>s'. uq_AcquireDataToHandle d h s = Inr s' \<and> handles_ok (R - set_option d) s' \<and> shared s' = shared s \<and>
           unique s' = (unique s)(h := if d = None then unique s h else d)"
proof (cases d)
  case None
  then show ?thesis using assms by (simp add: uq_AcquireDataToHandle_def)
next
  case (Some a)
  obtain s1 where s1: "uq_Release h s = Inr s1" "handles_ok R s1" "unique s1 = (unique s)(h := None)" "shared s1 = shared s"
    using uq_release_ok [OF assms(1)] by blast
  have "a \<in> R" using assms(2) Some by simp
  have "unique s h \<noteq> Some a"
    using \<open>a \<in> R\<close> assms(1) well_owned_uq unfolding handles_ok_def by blast
  then have "uq_AcquireDataToHandle d h s = Inr (set_unique h (Some a) s1)"
    using Some s1(1) by (simp add: uq_AcquireDataToHandle_def)
  moreover have "handles_ok (R - {a}) (set_unique h (Some a) s1)"
    using s1(2,3) well_owned_hold [OF _ \<open>a \<in> R\<close>, of "owners_of (shared s1)" _ "unique s1" h]
    by (simp add: handles_ok_def)
  ultimately show ?thesis using Some s1(3,4) by simp
qed

lemma count_word:
  assumes "handles_ok R s" and "owners a s \<noteq> 0"
  shows "RefMap s a = Some (word_of_nat (owners a s))" "unat (word_of_nat (owners a s) :: u32) = owners a s"
proof -
  have "owners a s < 2 ^ 32" using owners_used [of "shared s" a] assms(1) by (auto simp: handles_ok_def)
  then show "unat (word_of_nat (owners a s) :: u32) = owners a s" by (simp add: unat_of_nat)
  show "RefMap s a = Some (word_of_nat (owners a s))" using assms by (simp add: handles_ok_def count_of_def)
qed

text \<open>Taking on an object: one that a raw pointer or another shared handle points to.\<close>

lemma sh_acquire_ok:
  assumes "handles_ok R s" and "shared s h = None" and "\<forall>a \<in> set_option d. a \<in> R \<or> owners a s \<noteq> 0"
    and "handles_used (shared s) + 1 < 2 ^ 32"
  shows "handles_ok (R - set_option d) (sh_AcquireDataToHandle d h s)"
    "shared (sh_AcquireDataToHandle d h s) = (shared s)(h := d)" "unique (sh_AcquireDataToHandle d h s) = unique s"
    "objects (sh_AcquireDataToHandle d h s) = objects s"
proof -
  show eqs: "shared (sh_AcquireDataToHandle d h s) = (shared s)(h := d)" "unique (sh_AcquireDataToHandle d h s) = unique s"
    "objects (sh_AcquireDataToHandle d h s) = objects s"
    using assms(2) by (auto simp: sh_AcquireDataToHandle_def fun_upd_idem split: option.split)
  show "handles_ok (R - set_option d) (sh_AcquireDataToHandle d h s)"
  proof (cases d)
    case None
    then show ?thesis using assms by (simp add: sh_AcquireDataToHandle_def)
  next
    case (Some a)
    have fin: "finite {h. shared s h \<noteq> None}" using assms(1) by (simp add: handles_ok_def)
    have n: "Some (case count_of k of Some n \<Rightarrow> n + 1 | None \<Rightarrow> 1) = count_of (Suc k)" for k
      by (simp add: count_of_def)
    have own: "owners_of ((shared s)(h := Some a)) = (owners_of (shared s))(a := Suc (owners a s))"
      by (rule owners_add [OF fin assms(2)])
    have w: "well_owned (R - {a}) ((owners_of (shared s))(a := Suc (owners a s))) (\<lambda>a. objects s a \<noteq> None) (unique s)"
      using assms(1,3) Some by (intro well_owned_acquire) (simp_all add: handles_ok_def)
    have m: "RefMap s = (\<lambda>a. count_of (owners a s))" using assms(1) by (simp add: handles_ok_def)
    have "RefMap (sh_AcquireDataToHandle d h s) = (\<lambda>b. count_of (((owners_of (shared s))(a := Suc (owners a s))) b))"
      using Some assms(2) n [of "owners a s"] by (auto simp: sh_AcquireDataToHandle_def m)
    with w show ?thesis
      using Some assms(4) finite_used_upd [OF fin] used_add [OF fin assms(2)] eqs own
      by (simp add: handles_ok_def)
  qed
qed

lemma sh_release_ok:
  assumes "handles_ok R s"
  shows "\<exists>s'. sh_Release h s = Inr s' \<and> handles_ok R s' \<and> shared s' = (shared s)(h := None) \<and> unique s' = unique s"
proof (cases "shared s h")
  case None
  then show ?thesis using assms
    by (simp add: sh_Release_def sh_ReleaseResourseChecked_def set_null_id fun_upd_idem)
next
  case (Some a)
  have fin: "finite {h. shared s h \<noteq> None}" using assms by (simp add: handles_ok_def)
  have pos: "owners a s \<noteq> 0" using owners_pos [OF fin Some] by simp
  note c = count_word [OF assms pos]
  let ?n = "word_of_nat (owners a s) :: u32"
  have last: "(?n - 1 < 1) = (owners a s = 1)"
  proof -
    have "unat (?n - 1) = owners a s - 1" using c(2) pos by (subst unat_minus_one) auto
    then show ?thesis using pos by (simp add: word_less_nat_alt) linarith
  qed
  have own: "owners_of ((shared s)(h := None)) = (owners_of (shared s))(a := owners a s - 1)"
    by (rule owners_drop [OF fin Some])
  have w: "well_owned R (owners_of (shared s)) (\<lambda>a. objects s a \<noteq> None) (unique s)"
    and m: "RefMap s = (\<lambda>a. count_of (owners a s))"
    using assms by (simp_all add: handles_ok_def)
  have live: "objects s a \<noteq> None" using well_owned_live [OF w, of a] pos by simp
  have used: "handles_used ((shared s)(h := None)) < 2 ^ 32"
    using used_drop [OF fin, of h] assms by (simp add: handles_ok_def)
  show ?thesis
  proof (cases "owners a s = 1")
    case True
    let ?t = "set_shared h None (s\<lparr>RefMap := (RefMap s)(a := None), objects := (objects s)(a := None)\<rparr>)"
    have "sh_Release h s = Inr ?t"
      using Some c(1) last True live by (simp add: sh_Release_def sh_ReleaseResourseChecked_def delete_live)
    moreover have "(RefMap s)(a := None) = (\<lambda>b. count_of (((owners_of (shared s))(a := 0)) b))"
      by (auto simp: m count_of_def)
    moreover have "(\<lambda>b. ((objects s)(a := None)) b \<noteq> None) = (\<lambda>b. objects s b \<noteq> None)(a := False)" by auto
    ultimately show ?thesis
      using well_owned_last [OF w True] own used finite_used_upd [OF fin, of h None] True
      by (simp add: handles_ok_def del: fun_upd_apply)
  next
    case False
    let ?t = "set_shared h None (s\<lparr>RefMap := (RefMap s)(a \<mapsto> ?n - 1)\<rparr>)"
    have "sh_Release h s = Inr ?t"
      using Some c(1) last False by (simp add: sh_Release_def sh_ReleaseResourseChecked_def)
    moreover have "(RefMap s)(a \<mapsto> ?n - 1) = (\<lambda>b. count_of (((owners_of (shared s))(a := owners a s - 1)) b))"
      using pos False by (auto simp: m count_of_def)
    moreover have "1 < owners a s" using pos False by simp
    ultimately show ?thesis
      using well_owned_release [OF w] own used finite_used_upd [OF fin, of h None]
      by (simp add: handles_ok_def del: fun_upd_apply)
  qed
qed

lemma sh_valid_iff: "handles_ok R s \<Longrightarrow> sh_IsValid h s = (shared s h \<noteq> None)"
proof -
  assume a: "handles_ok R s"
  have fin: "finite {h. shared s h \<noteq> None}" using a by (simp add: handles_ok_def)
  show ?thesis
    using a owners_pos [OF fin, of h] by (auto simp: sh_IsValid_def handles_ok_def count_of_def split: option.split)
qed

lemma sh_release_valid_ok:
  assumes "handles_ok R s"
  shows "\<exists>s'. sh_release_valid h s = Inr s' \<and> handles_ok R s' \<and> shared s' = (shared s)(h := None) \<and> unique s' = unique s"
  using sh_release_ok [OF assms, of h] assms
  by (auto simp: sh_release_valid_def sh_valid_iff [OF assms] fun_upd_idem)

section \<open>Programs\<close>

text \<open>
  The operations of a program. Places \<open>t\<close> are those of parameters and temporaries; \<open>a\<close> is where
  \<^verbatim>\<open>malloc\<close> finds memory, or a raw pointer the program holds.
\<close>

datatype 'a op =
    U_Create nat 'a nat | U_Make nat nat 'a nat | U_FromPointer nat nat | U_FromHandle nat nat
  | U_MoveAssign nat nat | U_ResetNew nat 'a nat | U_ResetPointer nat nat | U_ResetHandle nat nat nat
  | U_Retrieve nat | U_Release nat | U_Destroy nat
  | S_Create nat 'a nat | S_Make nat nat 'a nat | S_FromPointer nat nat | S_FromUnique nat nat
  | S_Copy nat nat | S_Move nat nat | S_CopyAssign nat nat | S_MoveAssign nat nat
  | S_ResetPointer nat nat | S_ResetHandle nat nat nat | S_Release nat | S_Destroy nat
  | W_FromShared nat nat | W_Copy nat nat | W_GetWeak nat nat nat

fun run_op :: "'a op \<Rightarrow> 'a memory \<Rightarrow> 'a memory res" where
  "run_op (U_Create a x h) s = uq_Create (Some a) x h s"
| "run_op (U_Make t a x h) s = MakeUniqueHandle t (Some a) x h s"
| "run_op (U_FromPointer a h) s = uq_from_pointer (Some a) h s"
| "run_op (U_FromHandle g h) s = uq_from_handle g h s"
| "run_op (U_MoveAssign g h) s = uq_move_assign g h s"
| "run_op (U_ResetNew a x h) s = uq_ResetNew (Some a) x h s"
| "run_op (U_ResetPointer a h) s = uq_Reset_pointer (Some a) h s"
| "run_op (U_ResetHandle t g h) s = uq_Reset_handle t g h s"
| "run_op (U_Retrieve h) s = Inr (snd (uq_RetrieveResourse h s))"
| "run_op (U_Release h) s = uq_Release h s"
| "run_op (U_Destroy h) s = uq_destroy h s"
| "run_op (S_Create a x h) s = sh_Create (Some a) x h s"
| "run_op (S_Make t a x h) s = MakeSharedHandle t (Some a) x h s"
| "run_op (S_FromPointer a h) s = Inr (sh_from_pointer (Some a) h s)"
| "run_op (S_FromUnique u h) s = Inr (sh_from_unique u h s)"
| "run_op (S_Copy g h) s = Inr (sh_copy g h s)"
| "run_op (S_Move g h) s = sh_move g h s"
| "run_op (S_CopyAssign g h) s = sh_copy_assign g h s"
| "run_op (S_MoveAssign g h) s = sh_move_assign g h s"
| "run_op (S_ResetPointer a h) s = sh_Reset_pointer (Some a) h s"
| "run_op (S_ResetHandle t g h) s = sh_Reset_handle t g h s"
| "run_op (S_Release h) s = sh_Release h s"
| "run_op (S_Destroy h) s = sh_destroy h s"
| "run_op (W_FromShared h w) s = Inr (wk_from_shared h w s)"
| "run_op (W_Copy v w) s = Inr (wk_copy v w s)"
| "run_op (W_GetWeak t h w) s = GetWeak t h w s"

text \<open>
  What a program may do: a new handle is made where there is none, \<^verbatim>\<open>malloc\<close> gives memory that is free,
  a raw pointer is handed over once, and an empty unique handle is not reset from another one.
\<close>

fun allowed :: "nat set \<Rightarrow> 'a op \<Rightarrow> 'a memory \<Rightarrow> bool" where
  "allowed R (U_Create a x h) s = (objects s a = None \<and> unique s h = None)"
| "allowed R (U_Make t a x h) s = (objects s a = None \<and> unique s h = None \<and> unique s t = None \<and> t \<noteq> h)"
| "allowed R (U_FromPointer a h) s = (a \<in> R \<and> unique s h = None)"
| "allowed R (U_FromHandle g h) s = (unique s h = None \<and> g \<noteq> h)"
| "allowed R (U_ResetNew a x h) s = (objects s a = None)"
| "allowed R (U_ResetPointer a h) s = (a \<in> R)"
| "allowed R (U_ResetHandle t g h) s =
     (unique s t = None \<and> t \<noteq> g \<and> t \<noteq> h \<and> (unique s h \<noteq> None \<or> unique s g \<noteq> None))"
| "allowed R (S_Create a x h) s = (objects s a = None \<and> shared s h = None)"
| "allowed R (S_Make t a x h) s = (objects s a = None \<and> shared s h = None \<and> shared s t = None \<and> t \<noteq> h)"
| "allowed R (S_FromPointer a h) s = (a \<in> R \<and> shared s h = None)"
| "allowed R (S_FromUnique u h) s = (shared s h = None)"
| "allowed R (S_Copy g h) s = (shared s h = None \<and> g \<noteq> h)"
| "allowed R (S_Move g h) s = (shared s h = None \<and> g \<noteq> h)"
| "allowed R (S_ResetPointer a h) s = (a \<in> R)"
| "allowed R (S_ResetHandle t g h) s = (shared s t = None \<and> t \<noteq> g \<and> t \<noteq> h)"
| "allowed R (W_GetWeak t h w) s = (shared s t = None \<and> t \<noteq> h)"
| "allowed R _ s = True"

text \<open>The raw pointers after an operation.\<close>

fun raw_after :: "'a op \<Rightarrow> 'a memory \<Rightarrow> nat set \<Rightarrow> nat set" where
  "raw_after (U_FromPointer a h) s R = R - {a}"
| "raw_after (U_ResetPointer a h) s R = R - {a}"
| "raw_after (S_FromPointer a h) s R = R - {a}"
| "raw_after (S_ResetPointer a h) s R = R - {a}"
| "raw_after (U_Retrieve h) s R = R \<union> set_option (unique s h)"
| "raw_after _ s R = R"

text \<open>Two counts are kept free for parameters and temporaries.\<close>

inductive reachable :: "nat set \<Rightarrow> 'a memory \<Rightarrow> bool" where
  start: "reachable {} no_memory"
| step: "reachable R s \<Longrightarrow> allowed R op s \<Longrightarrow> handles_used (shared s) + 2 < 2 ^ 32 \<Longrightarrow>
         run_op op s = Inr s' \<Longrightarrow> reachable (raw_after op s R) s'"

text \<open>An operation that succeeds and keeps the handles in order.\<close>

definition good :: "nat set \<Rightarrow> 'a memory res \<Rightarrow> bool" where
  "good R r \<longleftrightarrow> (\<exists>s'. r = Inr s' \<and> handles_ok R s')"

lemma goodI: "r = Inr s' \<Longrightarrow> handles_ok R s' \<Longrightarrow> good R r"
  by (simp add: good_def)

lemma default_simps:
  "unique s h = None \<Longrightarrow> uq_default h s = s" "shared s h = None \<Longrightarrow> sh_default h s = s"
  by (simp_all add: uq_default_def sh_default_def set_null_id)

lemma R_minus: "a \<notin> R \<Longrightarrow> insert a R - {a} = R"
  by simp

lemma fresh_not_raw: "handles_ok R s \<Longrightarrow> objects s a = None \<Longrightarrow> a \<notin> R"
  using well_owned_live unfolding handles_ok_def by blast

lemma uq_not_raw: "handles_ok R s \<Longrightarrow> unique s h = Some a \<Longrightarrow> a \<notin> R"
  using well_owned_uq unfolding handles_ok_def by blast

lemma uq_Create_ok:
  assumes "handles_ok R s" and "objects s a = None" and "unique s h = None"
  shows "\<exists>s'. uq_Create (Some a) x h s = Inr s' \<and> handles_ok R s' \<and> unique s' = (unique s)(h := Some a)"
proof -
  obtain s1 where s1: "harz_new (Some a) x s = Inr (Some a, s1)" "handles_ok (insert a R) s1" "unique s1 = unique s"
    using new_ok [OF assms(1,2)] by blast
  obtain s2 where "uq_AcquireDataToHandle (Some a) h s1 = Inr s2" "handles_ok R s2" "unique s2 = (unique s)(h := Some a)"
    using uq_acquire_ok [OF s1(2), of "Some a" h] fresh_not_raw [OF assms(1,2)] s1(3) by auto
  then show ?thesis using s1 assms(3) by (simp add: uq_Create_def uq_from_pointer_def default_simps)
qed

lemma uq_from_handle_ok:
  assumes "handles_ok R s" and "unique s h = None" and "g \<noteq> h"
  shows "\<exists>s'. uq_from_handle g h s = Inr s' \<and> handles_ok R s' \<and>
           unique s' = (unique s)(g := None, h := unique s g)"
proof -
  note r = uq_retrieve_ok [OF assms(1), of g]
  obtain s2 where s2: "uq_AcquireDataToHandle (unique s g) h (set_unique g None s) = Inr s2"
      "handles_ok ((R \<union> set_option (unique s g)) - set_option (unique s g)) s2"
      "unique s2 = (unique (set_unique g None s))(h := if unique s g = None then unique (set_unique g None s) h else unique s g)"
    using uq_acquire_ok [OF r(2), of "unique s g" h] by auto
  have "(R \<union> set_option (unique s g)) - set_option (unique s g) = R"
    using uq_not_raw [OF assms(1), of g] by (cases "unique s g") auto
  then show ?thesis using s2 r(1) assms(2,3) by (auto simp: uq_from_handle_def default_simps)
qed

lemma uq_destroy_ok:
  assumes "handles_ok R s"
  shows "\<exists>s'. uq_destroy h s = Inr s' \<and> handles_ok R s' \<and> unique s' = (unique s)(h := None)"
  using uq_release_ok [OF assms, of h] assms by (auto simp: uq_destroy_def uq_IsValid_def fun_upd_idem)

text \<open>Handing the resource of the handle \<open>g\<close> over to the handle \<open>h\<close>.\<close>

lemma uq_hand_over:
  assumes "handles_ok R s"
  shows "\<exists>s'. uq_AcquireDataToHandle (fst (uq_RetrieveResourse g s)) h (snd (uq_RetrieveResourse g s)) = Inr s' \<and>
           handles_ok R s' \<and>
           unique s' = (let f = (unique s)(g := None) in f(h := if unique s g = None then f h else unique s g))"
proof -
  note r = uq_retrieve_ok [OF assms(1), of g]
  have "(R \<union> set_option (unique s g)) - set_option (unique s g) = R"
    using uq_not_raw [OF assms(1), of g] by (cases "unique s g") auto
  then show ?thesis
    using uq_acquire_ok [OF r(2), of "unique s g" h] r(1) by (auto simp: Let_def fun_upd_idem)
qed

lemma uq_make_good:
  assumes ok: "handles_ok R s"
  shows "allowed R (U_Make t a x h) s \<Longrightarrow> good R (run_op (U_Make t a x h) s)"
proof -
  assume a: "allowed R (U_Make t a x h) s"
  obtain s1 where s1: "uq_Create (Some a) x t s = Inr s1" "handles_ok R s1" "unique s1 = (unique s)(t := Some a)"
    using uq_Create_ok [OF ok, of a t x] a by auto
  obtain s2 where s2: "uq_from_handle t h s1 = Inr s2" "handles_ok R s2"
    using uq_from_handle_ok [OF s1(2), of h t] a s1(3) by auto
  show ?thesis using uq_destroy_ok [OF s2(2), of t] s1(1) s2(1) by (auto simp: good_def MakeUniqueHandle_def)
qed

lemma uq_move_assign_good:
  assumes ok: "handles_ok R s"
  shows "good R (run_op (U_MoveAssign g h) s)"
proof -
  obtain s1 where s1: "(if uq_IsValid h s then uq_Release h s else Inr s) = Inr s1" "handles_ok R s1"
    using uq_release_ok [OF ok, of h] ok by (cases "uq_IsValid h s") auto
  show ?thesis using uq_hand_over [OF s1(2), of g h] s1(1) ok
    by (auto simp: good_def uq_move_assign_def split_def)
qed

lemma uq_reset_new_good:
  assumes ok: "handles_ok R s"
  shows "allowed R (U_ResetNew a x h) s \<Longrightarrow> good R (run_op (U_ResetNew a x h) s)"
proof -
  assume a: "allowed R (U_ResetNew a x h) s"
  obtain s1 where s1: "harz_new (Some a) x s = Inr (Some a, s1)" "handles_ok (insert a R) s1"
    using new_ok [OF ok, of a x] a by auto
  show ?thesis using uq_acquire_ok [OF s1(2), of "Some a" h] fresh_not_raw [OF ok] a s1(1)
    by (auto simp: good_def uq_ResetNew_def)
qed

lemma uq_reset_handle_good:
  assumes ok: "handles_ok R s"
  shows "allowed R (U_ResetHandle t g h) s \<Longrightarrow> good R (run_op (U_ResetHandle t g h) s)"
proof -
  assume a: "allowed R (U_ResetHandle t g h) s"
  obtain s1 where s1: "uq_from_handle g t s = Inr s1" "handles_ok R s1"
      "unique s1 = (unique s)(g := None, t := unique s g)"
    using uq_from_handle_ok [OF ok, of t g] a by auto
  have ne: "unique s1 h \<noteq> uq_Get t s1"
    using a s1(3) ok unfolding handles_ok_def well_owned_def
    by (cases "g = h"; cases "unique s g") (auto simp: uq_Get_def)
  have "\<exists>s2. (if \<not> uq_IsValid t s1 then uq_Release h s1
          else (case uq_RetrieveResourse t s1 of (d, s2) \<Rightarrow> uq_AcquireDataToHandle d h s2)) = Inr s2 \<and> handles_ok R s2"
    using uq_release_ok [OF s1(2), of h] uq_hand_over [OF s1(2), of t h]
    by (cases "uq_IsValid t s1") (auto simp: split_def)
  then show ?thesis using s1(1) ne uq_destroy_ok by (fastforce simp: good_def uq_Reset_handle_def)
qed

lemma unique_ops_ok:
  assumes ok: "handles_ok R s"
  shows "allowed R (U_Create a x h) s \<Longrightarrow> good R (run_op (U_Create a x h) s)"
    "allowed R (U_Make t a x h) s \<Longrightarrow> good R (run_op (U_Make t a x h) s)"
    "allowed R (U_FromPointer a h) s \<Longrightarrow> good (R - {a}) (run_op (U_FromPointer a h) s)"
    "allowed R (U_FromHandle g h) s \<Longrightarrow> good R (run_op (U_FromHandle g h) s)"
    "good R (run_op (U_MoveAssign g h) s)"
    "allowed R (U_ResetNew a x h) s \<Longrightarrow> good R (run_op (U_ResetNew a x h) s)"
    "allowed R (U_ResetPointer a h) s \<Longrightarrow> good (R - {a}) (run_op (U_ResetPointer a h) s)"
    "allowed R (U_ResetHandle t g h) s \<Longrightarrow> good R (run_op (U_ResetHandle t g h) s)"
    "good (R \<union> set_option (unique s h)) (run_op (U_Retrieve h) s)"
    "good R (run_op (U_Release h) s)" "good R (run_op (U_Destroy h) s)"
proof -
  show "allowed R (U_Create a x h) s \<Longrightarrow> good R (run_op (U_Create a x h) s)"
    using uq_Create_ok [OF ok, of a h x] by (auto simp: good_def)
  show "allowed R (U_Make t a x h) s \<Longrightarrow> good R (run_op (U_Make t a x h) s)" by (rule uq_make_good [OF ok])
  show "allowed R (U_FromPointer a h) s \<Longrightarrow> good (R - {a}) (run_op (U_FromPointer a h) s)"
    using uq_acquire_ok [OF ok, of "Some a" h] by (auto simp: good_def uq_from_pointer_def default_simps)
  show "allowed R (U_FromHandle g h) s \<Longrightarrow> good R (run_op (U_FromHandle g h) s)"
    using uq_from_handle_ok [OF ok, of h g] by (auto simp: good_def)
  show "good R (run_op (U_MoveAssign g h) s)" by (rule uq_move_assign_good [OF ok])
  show "allowed R (U_ResetNew a x h) s \<Longrightarrow> good R (run_op (U_ResetNew a x h) s)" by (rule uq_reset_new_good [OF ok])
  show "allowed R (U_ResetPointer a h) s \<Longrightarrow> good (R - {a}) (run_op (U_ResetPointer a h) s)"
    using uq_acquire_ok [OF ok, of "Some a" h] uq_not_raw [OF ok, of h a]
    by (auto simp: good_def uq_Reset_pointer_def)
  show "allowed R (U_ResetHandle t g h) s \<Longrightarrow> good R (run_op (U_ResetHandle t g h) s)" by (rule uq_reset_handle_good [OF ok])
  show "good (R \<union> set_option (unique s h)) (run_op (U_Retrieve h) s)"
    using uq_retrieve_ok [OF ok, of h] by (simp add: good_def)
  show "good R (run_op (U_Release h) s)" "good R (run_op (U_Destroy h) s)"
    using uq_release_ok [OF ok, of h] uq_destroy_ok [OF ok, of h] by (auto simp: good_def)
qed


lemma new_shared_ok:
  assumes "handles_ok R s" and "objects s a = None" and "shared s h = None" and "handles_used (shared s) + 1 < 2 ^ 32"
  shows "\<exists>s'. sh_Create (Some a) x h s = Inr s' \<and> handles_ok R s' \<and> shared s' = (shared s)(h := Some a)"
proof -
  obtain s1 where s1: "harz_new (Some a) x s = Inr (Some a, s1)" "handles_ok (insert a R) s1" "shared s1 = shared s"
    using new_ok [OF assms(1,2)] by blast
  have "handles_ok (insert a R - {a}) (sh_AcquireDataToHandle (Some a) h s1)"
    "shared (sh_AcquireDataToHandle (Some a) h s1) = (shared s1)(h := Some a)"
    using sh_acquire_ok [OF s1(2), of h "Some a"] assms(3,4) s1(3) by auto
  then show ?thesis using s1 fresh_not_raw [OF assms(1,2)] assms(3)
    by (auto simp: sh_Create_def sh_from_pointer_def default_simps)
qed

text \<open>Sharing the object of another shared handle.\<close>

lemma share_ok:
  assumes "handles_ok R s" and "shared s h = None" and "handles_used (shared s) + 1 < 2 ^ 32"
  shows "handles_ok R (sh_AcquireDataToHandle (shared s g) h s)"
    "shared (sh_AcquireDataToHandle (shared s g) h s) = (shared s)(h := shared s g)"
proof -
  have fin: "finite {h. shared s h \<noteq> None}" using assms(1) by (simp add: handles_ok_def)
  have own: "\<forall>a \<in> set_option (shared s g). owners a s \<noteq> 0"
    using owners_pos [OF fin, of g] by (auto simp: elem_set)
  have "R - set_option (shared s g) = R"
    using own assms(1) by (auto simp: handles_ok_def well_owned_def)
  then show "handles_ok R (sh_AcquireDataToHandle (shared s g) h s)"
    "shared (sh_AcquireDataToHandle (shared s g) h s) = (shared s)(h := shared s g)"
    using sh_acquire_ok [OF assms(1,2), of "shared s g"] own assms(3) by auto
qed

lemma sh_destroy_ok:
  assumes "handles_ok R s"
  shows "\<exists>s'. sh_destroy h s = Inr s' \<and> handles_ok R s'"
  using sh_release_valid_ok [OF assms, of h] by (auto simp: sh_destroy_def)

lemma released_room:
  assumes "handles_ok R s" and "handles_used (shared s) + n < 2 ^ 32" and "shared s' = (shared s)(h := None)"
  shows "handles_used (shared s') + n < 2 ^ 32"
  using used_drop [of "shared s" h] assms by (simp add: handles_ok_def)

lemma sh_make_good:
  assumes ok: "handles_ok R s" and room: "handles_used (shared s) + 2 < 2 ^ 32"
  shows "allowed R (S_Make t a x h) s \<Longrightarrow> good R (run_op (S_Make t a x h) s)"
proof -
  assume a: "allowed R (S_Make t a x h) s"
  obtain s2 where s2: "sh_Create (Some a) x t s = Inr s2" "handles_ok R s2" "shared s2 = (shared s)(t := Some a)"
    using new_shared_ok [OF ok, of a t x] a room by auto
  have fin: "finite {h. shared s h \<noteq> None}" using ok by (simp add: handles_ok_def)
  have "handles_used (shared s2) + 1 < 2 ^ 32" using used_add [OF fin, of t a] a room s2(3) by simp
  then have sh: "handles_ok R (sh_AcquireDataToHandle (shared s2 t) h s2)"
    using share_ok [OF s2(2), of h t] a s2(3) by simp
  obtain s3 where "sh_move t h s2 = Inr s3" "handles_ok R s3"
    using sh_release_ok [OF sh, of t] a s2(3) by (auto simp: sh_move_def default_simps sh_Get_def)
  then show ?thesis using sh_destroy_ok [of R s3 t] s2(1) by (auto simp: good_def MakeSharedHandle_def)
qed

lemma sh_from_unique_good:
  assumes ok: "handles_ok R s" and room: "handles_used (shared s) + 2 < 2 ^ 32"
  shows "allowed R (S_FromUnique u h) s \<Longrightarrow> good R (run_op (S_FromUnique u h) s)"
proof -
  assume a: "allowed R (S_FromUnique u h) s"
  note r = uq_retrieve_ok [OF ok, of u]
  have "handles_ok ((R \<union> set_option (unique s u)) - set_option (unique s u))
          (sh_AcquireDataToHandle (unique s u) h (set_unique u None s))"
    using sh_acquire_ok [OF r(2), of h "unique s u"] a room by auto
  moreover have "(R \<union> set_option (unique s u)) - set_option (unique s u) = R"
    using uq_not_raw [OF ok, of u] by (cases "unique s u") auto
  ultimately show ?thesis using a r(1) by (simp add: good_def sh_from_unique_def default_simps)
qed

lemma sh_reset_pointer_good:
  assumes ok: "handles_ok R s" and room: "handles_used (shared s) + 2 < 2 ^ 32"
  shows "allowed R (S_ResetPointer a h) s \<Longrightarrow> good (R - {a}) (run_op (S_ResetPointer a h) s)"
proof -
  obtain s1 where rel: "sh_release_valid h s = Inr s1" "handles_ok R s1" "shared s1 = (shared s)(h := None)"
    using sh_release_valid_ok [OF ok] by blast
  have room1: "handles_used (shared s1) + 2 < 2 ^ 32" by (rule released_room [OF ok room rel(3)])
  assume a: "allowed R (S_ResetPointer a h) s"
  have fin: "finite {h. shared s h \<noteq> None}" using ok by (simp add: handles_ok_def)
  have "shared s h \<noteq> Some a"
    using a ok owners_pos [OF fin, of h a] by (auto simp: handles_ok_def well_owned_def)
  then show ?thesis
    using sh_acquire_ok [OF rel(2), of h "Some a"] rel room1 a by (auto simp: good_def sh_Reset_pointer_def)
qed

lemma sh_reset_handle_good:
  assumes ok: "handles_ok R s" and room: "handles_used (shared s) + 2 < 2 ^ 32"
  shows "allowed R (S_ResetHandle t g h) s \<Longrightarrow> good R (run_op (S_ResetHandle t g h) s)"
proof -
  assume a: "allowed R (S_ResetHandle t g h) s"
  let ?s = "sh_copy g t s"
  have c: "handles_ok R ?s" "shared ?s = (shared s)(t := shared s g)"
    using share_ok [OF ok, of t g] a room by (simp_all add: sh_copy_def default_simps)
  have "handles_used (shared ?s) + 1 < 2 ^ 32"
    using used_add [of "shared s" t] ok a room c(2) by (cases "shared s g") (auto simp: handles_ok_def fun_upd_idem)
  note room2 = this
  obtain s2 where s2: "sh_release_valid h ?s = Inr s2" "handles_ok R s2" "shared s2 = (shared ?s)(h := None)"
    using sh_release_valid_ok [OF c(1), of h] by blast
  have "handles_ok R (sh_AcquireDataToHandle (shared s2 t) h s2)"
    using share_ok [OF s2(2), of h t] released_room [OF c(1) room2 s2(3)] s2(3) by simp
  then have "\<exists>s3. (if shared ?s h = sh_Get t ?s then Inr ?s
          else res_bind (sh_release_valid h ?s) (\<lambda>s2. Inr (sh_AcquireDataToHandle (sh_Get t s2) h s2))) = Inr s3 \<and> handles_ok R s3"
    using s2(1) c(1) by (simp add: sh_Get_def)
  then show ?thesis using sh_destroy_ok [of R _ t] by (fastforce simp: good_def sh_Reset_handle_def Let_def)
qed

lemma shared_ops_ok:
  assumes ok: "handles_ok R s" and room: "handles_used (shared s) + 2 < 2 ^ 32"
  shows "allowed R (S_Create a x h) s \<Longrightarrow> good R (run_op (S_Create a x h) s)"
    "allowed R (S_Make t a x h) s \<Longrightarrow> good R (run_op (S_Make t a x h) s)"
    "allowed R (S_FromPointer a h) s \<Longrightarrow> good (R - {a}) (run_op (S_FromPointer a h) s)"
    "allowed R (S_FromUnique u h) s \<Longrightarrow> good R (run_op (S_FromUnique u h) s)"
    "allowed R (S_Copy g h) s \<Longrightarrow> good R (run_op (S_Copy g h) s)"
    "allowed R (S_Move g h) s \<Longrightarrow> good R (run_op (S_Move g h) s)"
    "good R (run_op (S_CopyAssign g h) s)" "good R (run_op (S_MoveAssign g h) s)"
    "allowed R (S_ResetPointer a h) s \<Longrightarrow> good (R - {a}) (run_op (S_ResetPointer a h) s)"
    "allowed R (S_ResetHandle t g h) s \<Longrightarrow> good R (run_op (S_ResetHandle t g h) s)"
    "good R (run_op (S_Release h) s)" "good R (run_op (S_Destroy h) s)"
    "good R (run_op (W_FromShared h w) s)" "good R (run_op (W_Copy v w) s)"
    "allowed R (W_GetWeak t h w) s \<Longrightarrow> good R (run_op (W_GetWeak t h w) s)"
proof -
  obtain s1 where rel: "sh_release_valid h s = Inr s1" "handles_ok R s1" "shared s1 = (shared s)(h := None)"
    using sh_release_valid_ok [OF ok] by blast
  have room1: "handles_used (shared s1) + 2 < 2 ^ 32" by (rule released_room [OF ok room rel(3)])
  show "allowed R (S_Create a x h) s \<Longrightarrow> good R (run_op (S_Create a x h) s)"
    using new_shared_ok [OF ok, of a h x] room by (auto simp: good_def)
  show "allowed R (S_Copy g h) s \<Longrightarrow> good R (run_op (S_Copy g h) s)"
    using share_ok [OF ok, of h g] room by (simp add: good_def sh_copy_def default_simps)
  show "allowed R (S_Move g h) s \<Longrightarrow> good R (run_op (S_Move g h) s)"
    using share_ok [OF ok, of h g] room sh_release_ok
    by (fastforce simp: good_def sh_move_def default_simps sh_Get_def)
  show "allowed R (S_Make t a x h) s \<Longrightarrow> good R (run_op (S_Make t a x h) s)" by (rule sh_make_good [OF ok room])
  show "allowed R (S_FromPointer a h) s \<Longrightarrow> good (R - {a}) (run_op (S_FromPointer a h) s)"
    using sh_acquire_ok [OF ok, of h "Some a"] room by (auto simp: good_def sh_from_pointer_def default_simps)
  show "allowed R (S_FromUnique u h) s \<Longrightarrow> good R (run_op (S_FromUnique u h) s)" by (rule sh_from_unique_good [OF ok room])
  show "good R (run_op (S_CopyAssign g h) s)"
    using share_ok [OF rel(2), of h g] rel room1 ok
    by (auto simp: good_def sh_copy_assign_def sh_Get_def)
  show "good R (run_op (S_MoveAssign g h) s)"
    using share_ok [OF rel(2), of h g] rel room1 ok sh_release_ok
    by (fastforce simp: good_def sh_move_assign_def sh_Get_def)
  show "allowed R (S_ResetPointer a h) s \<Longrightarrow> good (R - {a}) (run_op (S_ResetPointer a h) s)" by (rule sh_reset_pointer_good [OF ok room])
  show "allowed R (S_ResetHandle t g h) s \<Longrightarrow> good R (run_op (S_ResetHandle t g h) s)" by (rule sh_reset_handle_good [OF ok room])
  show "good R (run_op (S_Release h) s)" "good R (run_op (S_Destroy h) s)"
    using sh_release_ok [OF ok, of h] sh_destroy_ok [OF ok, of h] by (auto simp: good_def)
  show "good R (run_op (W_FromShared h w) s)" "good R (run_op (W_Copy v w) s)"
    using ok by (simp_all add: good_def wk_from_shared_def wk_copy_def)
  show "allowed R (W_GetWeak t h w) s \<Longrightarrow> good R (run_op (W_GetWeak t h w) s)"
    using share_ok [OF ok, of t h] room
      sh_destroy_ok [of R "set_weak w (sh_Get t (sh_AcquireDataToHandle (shared s h) t s))
         (sh_AcquireDataToHandle (shared s h) t s)" t]
    by (simp add: good_def GetWeak_def sh_from_pointer_def default_simps wk_from_shared_def Let_def)
qed

lemma allowed_good:
  assumes "handles_ok R s" and "handles_used (shared s) + 2 < 2 ^ 32" and "allowed R op s"
  shows "good (raw_after op s R) (run_op op s)"
  using unique_ops_ok [OF assms(1)] shared_ops_ok [OF assms(1,2)] assms(3) by (cases op) (simp_all only: raw_after.simps)

lemma start_ok: "handles_ok {} no_memory"
  by (simp add: handles_ok_def no_memory_def well_owned_def owners_of_def handles_used_def count_of_def)

lemma reachable_ok: "reachable R s \<Longrightarrow> handles_ok R s"
proof (induction rule: reachable.induct)
  case (step R s op s')
  then show ?case using allowed_good by (fastforce simp: good_def)
qed (rule start_ok)


text \<open>
  Property C15. Whatever a program does with handles within the rules, no operation faults, and at every
  moment the live objects are those with a unique handle, those with shared handles and those a raw
  pointer was taken of: the count in the map is the number of shared handles, a unique handle is the
  only one. Nothing is freed twice, read after it was freed, or leaked.
\<close>

theorem handles_stay_owned:
  assumes "reachable R s"
  shows "(\<forall>op. allowed R op s \<and> handles_used (shared s) + 2 < 2 ^ 32 \<longrightarrow>
            (\<exists>s'. run_op op s = Inr s' \<and> reachable (raw_after op s R) s')) \<and>
         (\<forall>a. (objects s a \<noteq> None) = (0 < owners a s \<or> (\<exists>h. unique s h = Some a) \<or> a \<in> R)) \<and>
         (\<forall>a. RefMap s a = (if owners a s = 0 then None else Some (word_of_nat (owners a s)))) \<and>
         (\<forall>a h. unique s h = Some a \<longrightarrow> owners a s = 0 \<and> a \<notin> R \<and> (\<forall>h'. unique s h' = Some a \<longrightarrow> h' = h)) \<and>
         (\<forall>h. shared s h \<noteq> None \<longrightarrow> (\<exists>x. sh_GetReference h s = Inr x))"
proof -
  note ok = reachable_ok [OF assms]
  have w: "well_owned R (owners_of (shared s)) (\<lambda>a. objects s a \<noteq> None) (unique s)"
    and fin: "finite {h. shared s h \<noteq> None}" using ok by (simp_all add: handles_ok_def)
  have "\<exists>s'. run_op op s = Inr s' \<and> reachable (raw_after op s R) s'"
    if "allowed R op s" "handles_used (shared s) + 2 < 2 ^ 32" for op
    using allowed_good [OF ok that(2,1)] reachable.step [OF assms that] by (auto simp: good_def)
  moreover have "\<exists>x. sh_GetReference h s = Inr x" if "shared s h \<noteq> None" for h
  proof -
    obtain a where a: "shared s h = Some a" using \<open>shared s h \<noteq> None\<close> by blast
    have "objects s a \<noteq> None" using well_owned_live [OF w, of a] owners_pos [OF fin a] by simp
    then show ?thesis using a by (auto simp: sh_GetReference_def sh_valid_iff [OF ok] deref_def)
  qed
  moreover have "RefMap s a = (if owners a s = 0 then None else Some (word_of_nat (owners a s)))" for a
    using ok by (simp add: handles_ok_def count_of_def)
  ultimately show ?thesis using w unfolding well_owned_def by simp
qed

text \<open>The object 7 at the address 5, held by the shared handles 2 and 3.\<close>

definition two_handles :: "nat memory" where
  "two_handles = \<lparr>objects = [5 \<mapsto> 7], RefMap = [5 \<mapsto> 2], unique = (\<lambda>_. None),
     shared = (\<lambda>_. None)(2 := Some 5, 3 := Some 5), weak = (\<lambda>_. None)\<rparr>"

lemma reachable_two_handles: "reachable {} two_handles"
proof -
  define s1 :: "nat memory" where "s1 = no_memory\<lparr>objects := [5 \<mapsto> 7], unique := (\<lambda>_. None)(1 := Some 5)\<rparr>"
  define s2 :: "nat memory" where "s2 = no_memory\<lparr>objects := [5 \<mapsto> 7], RefMap := [5 \<mapsto> 1], shared := (\<lambda>_. None)(2 := Some 5)\<rparr>"
  have used: "handles_used (shared s1) = 0" "handles_used (shared s2) = 1" "handles_used (shared (no_memory :: nat memory)) = 0"
    by (simp_all add: s1_def s2_def no_memory_def handles_used_def)
  have "run_op (U_Create 5 7 1) no_memory = Inr s1"
    by (simp add: uq_Create_def harz_new_def MallocAllocate_def uq_from_pointer_def uq_default_def set_null_id
        uq_AcquireDataToHandle_def uq_Release_def uq_ReleaseResourseChecked_def no_memory_def set_unique_def s1_def)
  then have "reachable (raw_after (U_Create 5 (7 :: nat) 1) no_memory {}) s1"
    using used(3) by (intro reachable.step [OF reachable.start]) (simp_all, simp add: no_memory_def)
  then have 1: "reachable {} s1" by simp
  have "run_op (S_FromUnique 1 2) s1 = Inr s2"
    by (simp add: sh_from_unique_def sh_default_def uq_RetrieveResourse_def uq_IsValid_def s1_def s2_def no_memory_def
        sh_AcquireDataToHandle_def set_shared_def set_unique_def fun_upd_idem)
  then have "reachable (raw_after (S_FromUnique 1 2) s1 {}) s2"
    by (intro reachable.step [OF 1]) (simp_all add: used, simp add: s1_def no_memory_def)
  then have 2: "reachable {} s2" by simp
  have "run_op (S_Copy 2 3) s2 = Inr two_handles"
    by (simp add: sh_copy_def sh_default_def s2_def no_memory_def two_handles_def
        sh_AcquireDataToHandle_def set_shared_def fun_upd_idem)
  then have "reachable (raw_after (S_Copy 2 3) s2 {}) two_handles"
    by (intro reachable.step [OF 2]) (simp_all add: used, simp add: s2_def no_memory_def)
  then show ?thesis by simp
qed

theorem handles_stay_owned_witness:
  "(\<exists>x. sh_GetReference 3 two_handles = Inr x) \<and> (\<exists>s'. run_op (S_Release 2) two_handles = Inr s')"
proof -
  note h = handles_stay_owned [OF reachable_two_handles]
  have "handles_used (shared two_handles) \<le> 2"
  proof -
    have "{h. shared two_handles h \<noteq> None} = {2, 3}" by (auto simp: two_handles_def)
    then show ?thesis by (simp add: handles_used_def)
  qed
  moreover have "allowed {} (S_Release 2) two_handles" by simp
  ultimately have "\<exists>s'. run_op (S_Release 2) two_handles = Inr s'"
    using conjunct1 [OF h, rule_format, of "S_Release 2"] by auto
  moreover have "shared two_handles 3 \<noteq> None" by (simp add: two_handles_def)
  ultimately show ?thesis using h by (simp only: simp_thms)
qed

text \<open>
  Releasing a shared handle deletes the object exactly when it was the last one, and
  touches no other object.
\<close>

theorem last_owner_deletes:
  assumes "reachable R s" and h: "shared s h = Some a"
  shows "\<exists>s'. sh_Release h s = Inr s' \<and> shared s' h = None \<and>
           (\<forall>b. objects s' b = (if b = a \<and> (\<forall>k. shared s k = Some a \<longrightarrow> k = h) then None else objects s b)) \<and>
           (\<forall>k. k \<noteq> h \<longrightarrow> shared s' k = shared s k)"
proof -
  note ok = reachable_ok [OF assms(1)]
  have fin: "finite {h. shared s h \<noteq> None}" using ok by (simp add: handles_ok_def)
  have pos: "owners a s \<noteq> 0" using owners_pos [OF fin h] by simp
  note c = count_word [OF ok pos]
  have "unat ((word_of_nat (owners a s) :: u32) - 1) = owners a s - 1"
    using c(2) pos by (subst unat_minus_one) auto
  then have last: "((word_of_nat (owners a s) :: u32) - 1 < 1) = (owners a s = 1)"
    using pos by (simp add: word_less_nat_alt) linarith
  have one: "(owners a s = 1) = (\<forall>k. shared s k = Some a \<longrightarrow> k = h)"
  proof
    assume "owners a s = 1"
    then obtain x where x: "{k. shared s k = Some a} = {x}" unfolding owners_of_def by (rule card_1_singletonE)
    then have "k = x" if "shared s k = Some a" for k using that by blast
    with h show "\<forall>k. shared s k = Some a \<longrightarrow> k = h" by blast
  next
    assume "\<forall>k. shared s k = Some a \<longrightarrow> k = h"
    with h have "{k. shared s k = Some a} = {h}" by blast
    then show "owners a s = 1" by (simp add: owners_of_def)
  qed
  have live: "objects s a \<noteq> None" using ok pos by (auto simp: handles_ok_def well_owned_def)
  show ?thesis
  proof (cases "owners a s = 1")
    case True
    then have "sh_Release h s = Inr (set_shared h None (s\<lparr>RefMap := (RefMap s)(a := None), objects := (objects s)(a := None)\<rparr>))"
      using h c(1) last live by (simp add: sh_Release_def sh_ReleaseResourseChecked_def delete_live)
    then show ?thesis using True one by simp
  next
    case False
    then have "sh_Release h s = Inr (set_shared h None (s\<lparr>RefMap := (RefMap s)(a \<mapsto> word_of_nat (owners a s) - 1)\<rparr>))"
      using h c(1) last by (simp add: sh_Release_def sh_ReleaseResourseChecked_def)
    then show ?thesis using False one by auto
  qed
qed

theorem last_owner_deletes_witness: "\<exists>s'. sh_Release 2 two_handles = Inr s' \<and> objects s' 5 = Some 7"
proof -
  have "shared two_handles 2 = Some 5" "shared two_handles 3 = Some 5" "objects two_handles 5 = Some 7"
    by (simp_all add: two_handles_def)
  with last_owner_deletes [OF reachable_two_handles, of 2 5] show ?thesis by (metis numeral_eq_iff semiring_norm(88))
qed

text \<open>
  A weak handle does not know which object it was made for: once the object is gone the
  handle is not valid, but the next shared object \<^verbatim>\<open>malloc\<close> puts at the same address makes it valid again,
  and it gives that object.
\<close>

theorem weak_handle_revives:
  assumes "reachable R s" and "weak s w = Some a" and "objects s a = None" and "shared s h = None"
    and "handles_used (shared s) + 2 < 2 ^ 32"
  shows "\<not> wk_IsValid w s \<and> wk_GetReference w s = Inl AssertFailed \<and>
         (\<exists>s'. sh_Create (Some a) x h s = Inr s' \<and> wk_IsValid w s' \<and> wk_GetReference w s' = Inr x)"
proof -
  note ok = reachable_ok [OF assms(1)]
  have "well_owned R (owners_of (shared s)) (\<lambda>a. objects s a \<noteq> None) (unique s)" using ok by (simp add: handles_ok_def)
  from well_owned_live [OF this, of a] have "owners a s = 0" using assms(3) by simp
  then have r: "RefMap s a = None" using ok by (simp add: handles_ok_def count_of_def)
  have "sh_Create (Some a) x h s
      = Inr (set_shared h (Some a) (s\<lparr>objects := (objects s)(a \<mapsto> x), RefMap := (RefMap s)(a \<mapsto> 1)\<rparr>))"
    using assms(4) r
    by (simp add: sh_Create_def harz_new_def MallocAllocate_def sh_from_pointer_def sh_default_def set_null_id
        sh_AcquireDataToHandle_def)
  then show ?thesis using assms(2) r
    by (simp add: wk_IsValid_def CheckRefCount_def wk_GetReference_def deref_def set_shared_def)
qed


text \<open>An object that was shared and has been deleted, at the address 5, with a weak handle 9 to it.\<close>

definition stale_weak :: "nat memory" where
  "stale_weak = no_memory\<lparr>weak := (\<lambda>_. None)(9 := Some 5)\<rparr>"

lemma reachable_stale_weak: "reachable {} stale_weak"
proof -
  define s1 :: "nat memory" where "s1 = no_memory\<lparr>objects := [5 \<mapsto> 7], RefMap := [5 \<mapsto> 1], shared := (\<lambda>_. None)(2 := Some 5)\<rparr>"
  define s2 :: "nat memory" where "s2 = s1\<lparr>weak := (\<lambda>_. None)(9 := Some 5)\<rparr>"
  have used: "handles_used (shared s1) = 1" "handles_used (shared s2) = 1" "handles_used (shared (no_memory :: nat memory)) = 0"
    by (simp_all add: s1_def s2_def no_memory_def handles_used_def)
  have "run_op (S_Create 5 7 2) no_memory = Inr s1"
    by (simp add: sh_Create_def harz_new_def MallocAllocate_def sh_from_pointer_def sh_default_def set_null_id
        sh_AcquireDataToHandle_def set_shared_def no_memory_def s1_def)
  then have "reachable (raw_after (S_Create 5 (7 :: nat) 2) no_memory {}) s1"
    using used(3) by (intro reachable.step [OF reachable.start]) (simp_all, simp add: no_memory_def)
  then have 1: "reachable {} s1" by simp
  have "run_op (W_FromShared 2 9) s1 = Inr s2"
    by (simp add: wk_from_shared_def sh_Get_def s2_def s1_def set_weak_def no_memory_def)
  then have "reachable (raw_after (W_FromShared 2 9) s1 {}) s2"
    using used(1) by (intro reachable.step [OF 1]) simp_all
  then have 2: "reachable {} s2" by simp
  have "run_op (S_Destroy 2) s2 = Inr stale_weak"
    by (simp add: sh_destroy_def sh_release_valid_def sh_IsValid_def sh_Release_def sh_ReleaseResourseChecked_def
        harz_delete_def MallocDeallocate_def set_shared_def s2_def s1_def stale_weak_def no_memory_def fun_upd_idem)
  then have "reachable (raw_after (S_Destroy 2) s2 {}) stale_weak"
    using used(2) by (intro reachable.step [OF 2]) simp_all
  then show ?thesis by simp
qed

theorem weak_handle_revives_witness:
  "\<exists>s'. sh_Create (Some 5) 8 3 stale_weak = Inr s' \<and> wk_GetReference 9 s' = Inr 8"
proof -
  have "weak stale_weak 9 = Some 5" "objects stale_weak 5 = None" "shared stale_weak 3 = None"
    "handles_used (shared stale_weak) + 2 < 2 ^ 32"
    by (simp_all add: stale_weak_def no_memory_def handles_used_def)
  from weak_handle_revives [OF reachable_stale_weak this, of 8] show ?thesis by blast
qed

section \<open>Releases in two threads\<close>

text \<open>
  A schedule says which thread goes next. Both threads are at level \<open>k\<close> when each has had \<open>k\<close> turns:
  level 2 is reached when both have counted down and neither has read the count, level 3 when both
  have read it and neither has erased the node. \<open>done_turns\<close> are the turns had before the schedule.
\<close>

definition level_from :: "(bool \<Rightarrow> nat) \<Rightarrow> nat \<Rightarrow> bool list \<Rightarrow> bool" where
  "level_from done_turns k sch \<longleftrightarrow>
     (\<exists>n \<in> {..length sch}. \<forall>i. done_turns i + count_list (take n sch) i = k)"

definition level :: "nat \<Rightarrow> bool list \<Rightarrow> bool" where
  "level k sch \<longleftrightarrow> (\<exists>n \<in> {..length sch}. \<forall>i. count_list (take n sch) i = k)"

lemma level_now: "\<forall>i. c i = k \<Longrightarrow> level_from c k sch"
  by (auto simp: level_from_def intro: bexI [of _ 0])

lemma level_next: "c j \<noteq> k \<Longrightarrow> level_from c k (i # sch) \<longleftrightarrow> level_from (c(i := Suc (c i))) k sch"
proof -
  assume c: "c j \<noteq> k"
  have turn: "c m + count_list (take (Suc n) (i # sch)) m = (c(i := Suc (c i))) m + count_list (take n sch) m" for n m
    by simp
  have "(\<exists>n \<in> {..length (i # sch)}. P n) \<longleftrightarrow> P 0 \<or> (\<exists>n \<in> {..length sch}. P (Suc n))" for P :: "nat \<Rightarrow> bool"
    by (metis Suc_le_mono atMost_iff length_Cons list.size(3) not0_implies_Suc zero_le)
  then show ?thesis unfolding level_from_def turn [symmetric] using c by auto
qed

lemma level_past: "k < c i \<Longrightarrow> \<not> level_from c k sch"
  by (auto simp: level_from_def intro!: exI [of _ i])

lemma level_start: "level_from (\<lambda>_. 0) k sch = level k sch"
  by (simp add: level_from_def level_def)

text \<open>Where the run of a schedule stops with an undefined step: in a state and at a thread that satisfy \<open>P\<close>.\<close>

fun stops_at :: "(racing \<Rightarrow> bool \<Rightarrow> bool) \<Rightarrow> bool list \<Rightarrow> racing \<Rightarrow> bool" where
  "stops_at P [] s = False"
| "stops_at P (i # sch) s =
     (case release_step i s of Inl e \<Rightarrow> e = Undefined \<and> P s i | Inr s' \<Rightarrow> stops_at P sch s')"

definition second_delete :: "racing \<Rightarrow> bool \<Rightarrow> bool" where
  "second_delete s i \<longleftrightarrow> release_at s i = Delete \<and> \<not> alive s"

definition dangling_read :: "racing \<Rightarrow> bool \<Rightarrow> bool" where
  "dangling_read s i \<longleftrightarrow> release_at s i = ReadCount \<and> ref_node s = None"

definition deleted_once :: "bool list \<Rightarrow> racing \<Rightarrow> bool" where
  "deleted_once sch s \<longleftrightarrow> (\<exists>s'. res_fold release_step sch s = Inr s' \<and> \<not> alive s' \<and> ref_node s' = None \<and>
     (\<forall>i. release_at s' i = Released))"

text \<open>Where a thread that sees the count at zero is after its turns.\<close>

definition place_of :: "nat \<Rightarrow> release_place" where
  "place_of c = (if c = 0 then LookUp else if c = 1 then Decrement else if c = 2 then ReadCount
     else if c = 3 then Erase else if c = 4 then Delete else Released)"

text \<open>One thread is through without erasing: the other deletes the object.\<close>

lemma alone_run:
  assumes "release_at s (\<not> i) = Released" and "release_at s i = place_of c" and "c \<le> 5"
    and "ref_node s = (if c < 2 then Some 1 else if c < 4 then Some 0 else None)" and "alive s = (c < 5)"
    and "5 \<le> c + count_list sch i"
  shows "deleted_once sch s"
  using assms
proof (induction sch arbitrary: s c)
  case Nil
  then show ?case by (cases i) (auto simp: deleted_once_def place_of_def all_bool_eq)
next
  case (Cons j sch)
  show ?case
  proof (cases "j = i \<and> c < 5")
    case True
    obtain s' where s': "release_step i s = Inr s'" "release_at s' (\<not> i) = Released"
      "release_at s' i = place_of (Suc c)" "alive s' = (Suc c < 5)"
      "ref_node s' = (if Suc c < 2 then Some 1 else if Suc c < 4 then Some 0 else None)"
      using Cons.prems True by (auto simp: release_step_def goes_to_def place_of_def split: if_splits)
    from Cons.IH [OF s'(2,3) _ s'(5,4)] Cons.prems(6) True s'(1) show ?thesis
      by (auto simp: deleted_once_def)
  next
    case False
    then have "release_at s j = Released" using Cons.prems(1-3) by (cases i; cases j) (auto simp: place_of_def)
    then have "release_step j s = Inr s" by (simp add: release_step_def)
    moreover have "deleted_once sch s" using Cons.IH [OF Cons.prems(1-5)] Cons.prems(3,6) False by auto
    ultimately show ?thesis by (simp add: deleted_once_def)
  qed
qed

text \<open>The places of both threads, with bounds on their turns and enough turns to come; and one turn more.\<close>

definition placed :: "nat \<Rightarrow> nat \<Rightarrow> (bool \<Rightarrow> nat) \<Rightarrow> bool list \<Rightarrow> racing \<Rightarrow> bool" where
  "placed lo hi c sch s \<longleftrightarrow>
     (\<forall>i. release_at s i = place_of (c i) \<and> lo \<le> c i \<and> c i \<le> hi \<and> 5 \<le> c i + count_list sch i)"

lemma placedD:
  "placed lo hi c sch s \<Longrightarrow> release_at s i = place_of (c i)" "placed lo hi c sch s \<Longrightarrow> lo \<le> c i"
  "placed lo hi c sch s \<Longrightarrow> c i \<le> hi" "placed lo hi c sch s \<Longrightarrow> 5 \<le> c i + count_list sch i"
  by (simp_all add: placed_def)

lemma placed_turn:
  assumes "placed lo hi c (j # sch) s" and "c j < hi"
    and "\<forall>i. release_at s' i = (if i = j then place_of (Suc (c j)) else release_at s i)"
  shows "placed lo hi (c(j := Suc (c j))) sch s'"
  unfolding placed_def
proof (intro allI)
  fix i
  show "release_at s' i = place_of ((c(j := Suc (c j))) i) \<and> lo \<le> (c(j := Suc (c j))) i \<and>
        (c(j := Suc (c j))) i \<le> hi \<and> 5 \<le> (c(j := Suc (c j))) i + count_list sch i"
    using placedD [OF assms(1), of i] assms(2,3) by (cases "i = j") auto
qed

lemma placed_idle: "placed lo hi c (j # sch) s \<Longrightarrow> 5 \<le> c j \<Longrightarrow> placed lo hi c sch s"
  unfolding placed_def by (metis add.commute count_list.simps(2) le_add1 order_trans add_leE)

text \<open>Both have read zero: both delete.\<close>

lemma both_delete:
  assumes "placed 3 5 c sch s" and "alive s = (\<forall>i. c i < 5)" and "\<exists>i. c i < 5"
  shows "stops_at second_delete sch s"
  using assms
proof (induction sch arbitrary: s c)
  case Nil
  then obtain i where "c i < 5" by blast
  moreover have "5 \<le> c i" using placedD(4) [OF Nil.prems(1), of i] by simp
  ultimately show ?case by linarith
next
  case (Cons j sch)
  note at = placedD [OF Cons.prems(1), of j]
  then have three: "c j = 3 \<or> c j = 4 \<or> c j = 5" by linarith
  consider "c j = 3" | "c j = 4" "alive s" | "c j = 4" "\<not> alive s" | "c j = 5"
    using three by fastforce
  then show ?case
  proof cases
    case 3
    then show ?thesis using at(1) by (simp add: release_step_def second_delete_def place_of_def)
  next
    case 4
    then show ?thesis using at(1) placed_idle [OF Cons.prems(1)] Cons.IH [OF _ Cons.prems(2,3)]
      by (simp add: release_step_def place_of_def)
  next
    case 1
    let ?s = "goes_to j Delete (s\<lparr>ref_node := None\<rparr>)" and ?c = "c(j := Suc (c j))"
    have step: "release_step j s = Inr ?s" using at(1) 1 by (simp add: release_step_def place_of_def)
    have "placed 3 5 ?c sch ?s"
      using 1 by (intro placed_turn [OF Cons.prems(1)]) (auto simp: goes_to_def place_of_def)
    moreover have "?c i < 5 \<longleftrightarrow> c i < 5" for i using 1 by simp
    then have "alive ?s = (\<forall>i. ?c i < 5)" "\<exists>i. ?c i < 5"
      using Cons.prems(2,3) by (simp_all only:) (simp add: goes_to_def)
    ultimately have "stops_at second_delete sch ?s" by (rule Cons.IH)
    then show ?thesis using step by simp
  next
    case 2
    let ?s = "goes_to j Released (s\<lparr>alive := False\<rparr>)" and ?c = "c(j := Suc (c j))"
    have step: "release_step j s = Inr ?s" using at(1) 2 by (simp add: release_step_def place_of_def)
    have "placed 3 5 ?c sch ?s"
      using 2 by (intro placed_turn [OF Cons.prems(1)]) (auto simp: goes_to_def place_of_def)
    moreover have "alive ?s = (\<forall>i. ?c i < 5)" using 2 by (auto simp: goes_to_def)
    moreover have "?c (\<not> j) < 5" using Cons.prems(2) 2 by simp
    then have "\<exists>i. ?c i < 5" ..
    ultimately have "stops_at second_delete sch ?s" by (rule Cons.IH)
    then show ?thesis using step by simp
  qed
qed

text \<open>One has erased the node before the other reads the count.\<close>

lemma erased_read:
  assumes "release_at s i \<in> {Delete, Released}" and "release_at s i = Delete \<Longrightarrow> alive s" and "ref_node s = None"
    and "release_at s (\<not> i) = ReadCount" and "0 < count_list sch (\<not> i)"
  shows "stops_at dangling_read sch s"
  using assms
proof (induction sch arbitrary: s)
  case (Cons j sch)
  show ?case
  proof (cases "j = (\<not> i)")
    case True
    then show ?thesis using Cons.prems(3,4) by (simp add: release_step_def dangling_read_def)
  next
    case False
    then have j: "j = i" by auto
    then obtain s' where "release_step j s = Inr s'" "release_at s' i = Released" "ref_node s' = None"
      "release_at s' (\<not> i) = ReadCount"
      using Cons.prems by (auto simp: release_step_def goes_to_def)
    then show ?thesis using Cons.IH [of s'] Cons.prems(5) j by simp
  qed
qed simp

lemma both_counted:
  assumes "placed 2 3 c sch s" and "ref_node s = Some 0" and "alive s"
  shows "if level_from c 3 sch then stops_at second_delete sch s else stops_at dangling_read sch s"
  using assms
proof (induction sch arbitrary: s c)
  case Nil
  have False using placedD(3,4) [OF Nil.prems(1), of True] by simp
  then show ?case ..
next
  case (Cons j sch)
  note at = placedD [OF Cons.prems(1)]
  show ?case
  proof (cases "\<forall>i. c i = 3")
    case True
    have "placed 3 5 c (j # sch) s" using at True by (simp add: placed_def)
    then have "stops_at second_delete (j # sch) s" using Cons.prems(3) True by (intro both_delete [of c]) auto
    then show ?thesis using level_now [OF True] by simp
  next
    case False
    then obtain m where m: "c m \<noteq> 3" by blast
    show ?thesis
    proof (cases "c j = 2")
      case True
      define s' c' where "s' = goes_to j Erase s" and "c' = c(j := Suc (c j))"
      have "release_step j s = Inr s'"
        using at(1) [of j] Cons.prems(2) True by (simp add: release_step_def place_of_def s'_def)
      moreover have "placed 2 3 c' sch s'" unfolding c'_def
        using True by (intro placed_turn [OF Cons.prems(1)]) (auto simp: goes_to_def place_of_def s'_def)
      moreover have "ref_node s' = Some 0" "alive s'" using Cons.prems(2,3) by (simp_all add: s'_def goes_to_def)
      ultimately show ?thesis
        using Cons.IH [of c' s'] level_next [of c m 3 j sch] m unfolding c'_def [symmetric] by simp
    next
      case False
      then have cj: "c j = 3" "c m = 2" using at(2,3) [of j] at(2,3) [of m] m by linarith+
      then have mj: "m = (\<not> j)" by (cases m; cases j) auto
      have at3: "release_at s j = Erase" "release_at s (\<not> j) = ReadCount" "0 < count_list sch (\<not> j)"
        using at(1) [of j] at(1,4) [of m] cj mj by (simp_all add: place_of_def)
      let ?s = "goes_to j Delete (s\<lparr>ref_node := None\<rparr>)"
      have "stops_at dangling_read sch ?s"
        using at3 Cons.prems(3) by (intro erased_read [of _ j]) (auto simp: goes_to_def)
      moreover have "\<not> level_from c 3 (j # sch)"
        using level_next [of c m 3 j sch] m level_past [of 3 "c(j := Suc (c j))" j sch] cj by simp
      ultimately show ?thesis using at3(1) by (simp add: release_step_def)
    qed
  qed
qed

lemma release_schedules:
  assumes "placed 0 2 c sch s" and "alive s"
    and "ref_node s = Some (2 - (if c True = 2 then 1 else 0) - (if c False = 2 then 1 else 0))"
  shows "if \<not> level_from c 2 sch then deleted_once sch s
         else if level_from c 3 sch then stops_at second_delete sch s else stops_at dangling_read sch s"
  using assms
proof (induction sch arbitrary: s c)
  case Nil
  have False using placedD(3,4) [OF Nil.prems(1), of True] by simp
  then show ?case ..
next
  case (Cons j sch)
  note at = placedD [OF Cons.prems(1)]
  show ?case
  proof (cases "\<forall>i. c i = 2")
    case True
    have "placed 2 3 c (j # sch) s" using at True by (simp add: placed_def)
    then have "if level_from c 3 (j # sch) then stops_at second_delete (j # sch) s else stops_at dangling_read (j # sch) s"
      using Cons.prems(2,3) True by (intro both_counted) auto
    then show ?thesis using level_now [OF True] by simp
  next
    case False
    then obtain m where "c m \<noteq> 2" by blast
    then have m: "c m < 2" "c m \<noteq> 2" "c m \<noteq> 3" using at(3) [of m] by linarith+
    show ?thesis
    proof (cases "c j = 2")
      case False
      define c' where "c' = c(j := Suc (c j))"
      have "c j < 2" using at(3) [of j] False by linarith
      then have "c j = 0 \<or> c j = 1" by linarith
      then obtain s' where s': "release_step j s = Inr s'" "alive s'"
        "\<forall>i. release_at s' i = (if i = j then place_of (Suc (c j)) else release_at s i)"
        "ref_node s' = Some (2 - (if c' True = 2 then 1 else 0) - (if c' False = 2 then 1 else 0))"
        using at(1) [of j] Cons.prems(2,3)
        by (cases j) (auto simp: release_step_def goes_to_def place_of_def c'_def)
      have "placed 0 2 c' sch s'" unfolding c'_def using placed_turn [OF Cons.prems(1) \<open>c j < 2\<close> s'(3)] .
      note now = Cons.IH [OF this s'(2,4)]
      have "level_from c 2 (j # sch) = level_from c' 2 sch" "level_from c 3 (j # sch) = level_from c' 3 sch"
        using level_next [of c m _ j sch] m by (simp_all add: c'_def)
      moreover have "deleted_once (j # sch) s = deleted_once sch s'" "stops_at P (j # sch) s = stops_at P sch s'" for P
        using s'(1) by (simp_all add: deleted_once_def)
      ultimately show ?thesis using now by (simp only:)
    next
      case True
      then have mj: "m = (\<not> j)" using m by (cases m; cases j) auto
      then have node: "ref_node s = Some 1" using Cons.prems(3) True m by (cases j) auto
      let ?s = "goes_to j Released s"
      have "release_step j s = Inr ?s" using at(1) [of j] True node by (simp add: release_step_def place_of_def)
      moreover have "deleted_once sch ?s"
        using at(1,4) [of m] Cons.prems(2) True mj node m
        by (intro alone_run [of _ m "c m"]) (auto simp: goes_to_def)
      moreover have "\<not> level_from c 2 (j # sch)"
        using level_next [of c m 2 j sch] m level_past [of 2 "c(j := Suc (c j))" j sch] True by simp
      ultimately show ?thesis by (simp add: deleted_once_def)
    qed
  qed
qed

text \<open>
  Property C18. The thread-safe variant is not safe. Two threads release the last two handles of an
  object, and each gets the five turns its release can take, in any order. Unless both count down
  before either reads the count, the object is deleted once and both are done. If they do, the run
  stops with undefined behaviour: when both have read the count before either erases the node, at the
  second deletion of the object; otherwise at the reading of a count whose node has been erased.
\<close>

theorem releases_race:
  assumes "\<forall>i. 5 \<le> count_list sch i"
  shows "if \<not> level 2 sch then deleted_once sch two_owners
         else if level 3 sch then stops_at second_delete sch two_owners
         else stops_at dangling_read sch two_owners"
proof -
  have "placed 0 2 (\<lambda>_. 0) sch two_owners"
    using assms by (simp add: placed_def two_owners_def place_of_def)
  moreover have "alive two_owners" "ref_node two_owners = Some 2" by (simp_all add: two_owners_def)
  ultimately show ?thesis using release_schedules [of "\<lambda>_. 0" sch two_owners] by (simp add: level_start)
qed

text \<open>One schedule for each end.\<close>

theorem releases_race_witness:
  "stops_at second_delete ([True, False, True, False, True, False] @ [True, True, False, False]) two_owners \<and>
   stops_at dangling_read ([True, False, True, False, True, True] @ [False, True, False, False]) two_owners \<and>
   deleted_once ([True, False, True, True, False, False, False, False] @ [True, True]) two_owners"
proof (intro conjI)
  have two: "level 2 ([True, False, True, False] @ xs)" for xs
    unfolding level_def by (intro bexI [of _ 4]) (auto simp: all_bool_eq)
  have "level 3 ([True, False, True, False, True, False] @ xs)" for xs
    unfolding level_def by (intro bexI [of _ 6]) (auto simp: all_bool_eq)
  then show "stops_at second_delete ([True, False, True, False, True, False] @ [True, True, False, False]) two_owners"
    using releases_race [of "[True, False, True, False, True, False] @ [True, True, False, False]"]
      two [of "[True, False] @ [True, True, False, False]"] by (simp add: all_bool_eq)
  have "\<not> level 3 ([True, False, True, False, True, True] @ [False, True, False, False])"
    by (simp add: level_def atMost_Suc all_bool_eq)
  then show "stops_at dangling_read ([True, False, True, False, True, True] @ [False, True, False, False]) two_owners"
    using releases_race [of "[True, False, True, False, True, True] @ [False, True, False, False]"]
      two [of "[True, True] @ [False, True, False, False]"] by (simp add: all_bool_eq)
  have "\<not> level 2 ([True, False, True, True, False, False, False, False] @ [True, True])"
    by (simp add: level_def atMost_Suc all_bool_eq)
  then show "deleted_once ([True, False, True, True, False, False, False, False] @ [True, True]) two_owners"
    using releases_race [of "[True, False, True, True, False, False, False, False] @ [True, True]"]
    by (simp add: all_bool_eq)
qed

end
