(* ===== verification/SafeHandles.thy ===== *)
theory SafeHandles
  imports HandleProps
begin

text \<open>
  Shared handles with \<^verbatim>\<open>MEMORY_MULTITHREAD_SAFE\<close> (SpNetCommon/src/Utils/Memory.h), continued: the accesses
  to the count, each under the mutex, and the acquisition by any number of threads.
\<close>

section \<open>The interlocked accesses\<close>

text \<open>
  Of one address: \<open>None\<close> is an address the map has no node for. A reference to a count is valid as long
  as its node is in the map.
\<close>

type_synonym ref_entry = "u32 option"

definition RefMapGetValueInterlocked :: "ref_entry \<Rightarrow> bool" where
  "RefMapGetValueInterlocked m \<longleftrightarrow> m \<noteq> None"

definition RefMapEraseInterlocked :: "ref_entry \<Rightarrow> ref_entry" where
  "RefMapEraseInterlocked m = None"

definition RefMapInsertInterlocked :: "ref_entry \<Rightarrow> ref_entry" where
  "RefMapInsertInterlocked m = (case m of None \<Rightarrow> Some 1 | Some n \<Rightarrow> Some n)"

definition ReferenceIncrementInterlocked :: "ref_entry \<Rightarrow> ref_entry res" where
  "ReferenceIncrementInterlocked m = (case m of None \<Rightarrow> Inl Undefined | Some n \<Rightarrow> Inr (Some (n + 1)))"

definition ReferenceDecrementInterlocked :: "ref_entry \<Rightarrow> ref_entry res" where
  "ReferenceDecrementInterlocked m = (case m of None \<Rightarrow> Inl Undefined | Some n \<Rightarrow> Inr (Some (n - 1)))"

definition ReferenceGetValueInterlocked :: "ref_entry \<Rightarrow> u32 res" where
  "ReferenceGetValueInterlocked m = (case m of None \<Rightarrow> Inl Undefined | Some n \<Rightarrow> Inr n)"

text \<open>The release of theory Handles is made of them.\<close>

lemma release_step_interlocked:
  "release_at s i = Decrement \<Longrightarrow> release_step i s =
     res_bind (ReferenceDecrementInterlocked (ref_node s)) (\<lambda>m. Inr (goes_to i ReadCount (s\<lparr>ref_node := m\<rparr>)))"
  "release_at s i = ReadCount \<Longrightarrow> release_step i s =
     res_bind (ReferenceGetValueInterlocked (ref_node s)) (\<lambda>n. Inr (goes_to i (if n < 1 then Erase else Released) s))"
  "release_at s i = Erase \<Longrightarrow> release_step i s =
     Inr (goes_to i Delete (s\<lparr>ref_node := RefMapEraseInterlocked (ref_node s)\<rparr>))"
  by (simp_all add: release_step_def ReferenceDecrementInterlocked_def ReferenceGetValueInterlocked_def
      RefMapEraseInterlocked_def split: option.split)

section \<open>Acquiring\<close>

text \<open>
  \<^verbatim>\<open>AcquireDataToHandle\<close> of an object other than the handle's own: the thread looks for the node, then
  increments the count it found or inserts a node, then sets \<^verbatim>\<open>Data\<close>.
\<close>

datatype acquire_place = Find | Increment | Insert | Acquired

record acquiring =
  acq_node :: ref_entry
  acq_at :: "nat \<Rightarrow> acquire_place"

definition acq_goes :: "nat \<Rightarrow> acquire_place \<Rightarrow> acquiring \<Rightarrow> acquiring" where
  "acq_goes i p s = s\<lparr>acq_at := (acq_at s)(i := p)\<rparr>"

definition acquire_step :: "nat \<Rightarrow> acquiring \<Rightarrow> acquiring res" where
  "acquire_step i s =
     (case acq_at s i of
        Find \<Rightarrow> Inr (acq_goes i (if RefMapGetValueInterlocked (acq_node s) then Increment else Insert) s)
      | Increment \<Rightarrow> res_bind (ReferenceIncrementInterlocked (acq_node s)) (\<lambda>m.
                       Inr (acq_goes i Acquired (s\<lparr>acq_node := m\<rparr>)))
      | Insert \<Rightarrow> Inr (acq_goes i Acquired (s\<lparr>acq_node := RefMapInsertInterlocked (acq_node s)\<rparr>))
      | Acquired \<Rightarrow> Inr s)"

definition all_find :: "ref_entry \<Rightarrow> acquiring" where
  "all_find m = \<lparr>acq_node = m, acq_at = \<lambda>_. Find\<rparr>"

text \<open>With a node in the map, a thread that has done \<open>k\<close> of its two steps.\<close>

definition copy_place :: "nat \<Rightarrow> acquire_place" where
  "copy_place k = (if k = 0 then Find else if k = 1 then Increment else Acquired)"

lemma copy_places [simp]:
  "copy_place 0 = Find" "copy_place (Suc 0) = Increment" "copy_place (Suc (Suc k)) = Acquired"
  by (simp_all add: copy_place_def)

definition copied :: "u32 \<Rightarrow> nat list \<Rightarrow> acquiring" where
  "copied c sch = \<lparr>acq_node = Some (c + of_nat (card {i. 2 \<le> count_list sch i})),
                   acq_at = (\<lambda>i. copy_place (count_list sch i))\<rparr>"

lemma finished_finite: "finite {i. 2 \<le> count_list sch i}"
  by (rule finite_subset [of _ "set sch"]) (auto intro: ccontr dest: count_notin)

lemma count_snoc: "count_list (sch @ [i]) j = count_list sch j + (if j = i then 1 else 0)"
  by (induction sch) auto

lemma copied_snoc:
  "copied c (sch @ [i]) = \<lparr>acq_node = Some (c + of_nat (card
       (if count_list sch i = 1 then insert i {j. 2 \<le> count_list sch j} else {j. 2 \<le> count_list sch j}))),
     acq_at = (\<lambda>j. copy_place (count_list sch j)) (i := copy_place (Suc (count_list sch i)))\<rparr>"
proof -
  have places: "(\<lambda>j. copy_place (count_list (sch @ [i]) j)) =
      (\<lambda>j. copy_place (count_list sch j)) (i := copy_place (Suc (count_list sch i)))"
    by (auto simp: count_snoc simp del: count_list_append)
  have others: "{j. 2 \<le> count_list (sch @ [i]) j} =
      (if count_list sch i = 1 then insert i {j. 2 \<le> count_list sch j} else {j. 2 \<le> count_list sch j})"
    by (auto simp: count_snoc simp del: count_list_append split: if_splits)
  show ?thesis by (simp only: copied_def places others)
qed

lemma copied_step: "acquire_step i (copied c sch) = Inr (copied c (sch @ [i]))"
proof -
  let ?k = "count_list sch i"
  have at_i: "acq_at (copied c sch) i = copy_place ?k" by (simp add: copied_def)
  consider "?k = 0" | "?k = 1" | "2 \<le> ?k" by linarith
  then show ?thesis
  proof cases
    case 1
    then show ?thesis unfolding copied_snoc acquire_step_def at_i
      by (simp add: copied_def acq_goes_def RefMapGetValueInterlocked_def)
  next
    case 2
    then have "card (insert i {j. 2 \<le> count_list sch j}) = Suc (card {j. 2 \<le> count_list sch j})"
      by (intro card_insert_disjoint finished_finite) simp
    then show ?thesis using 2 unfolding copied_snoc acquire_step_def at_i
      by (simp add: copied_def acq_goes_def RefMapGetValueInterlocked_def
          ReferenceIncrementInterlocked_def add.assoc add.commute)
  next
    case 3
    then have "copy_place ?k = Acquired" "copy_place (Suc ?k) = Acquired" by (simp_all add: copy_place_def)
    then show ?thesis using 3 unfolding copied_snoc acquire_step_def at_i
      by (simp add: copied_def fun_upd_idem)
  qed
qed

lemma copied_run: "res_fold acquire_step sch (copied c pre) = Inr (copied c (pre @ sch))"
  by (induction sch arbitrary: pre) (simp_all add: copied_step)

text \<open>
  Property C19. However the threads take turns, concurrent copies of a handle are counted exactly: no step
  faults, and the count grows by the number of threads that have finished. The first handles to an
  object are not: two threads that both look before either inserts leave a count of one for two handles.
\<close>

theorem acquires_counted:
  "(\<exists>s. res_fold acquire_step sch (all_find (Some c)) = Inr s \<and>
        acq_node s = Some (c + of_nat (card {i. acq_at s i = Acquired})) \<and>
        (\<forall>i. acq_at s i = Acquired \<longleftrightarrow> 2 \<le> count_list sch i)) \<and>
   (\<exists>s. res_fold acquire_step [0, 1, 0, 1] (all_find None) = Inr s \<and>
        acq_at s 0 = Acquired \<and> acq_at s 1 = Acquired \<and> acq_node s = Some 1) \<and>
   (\<exists>s. res_fold acquire_step [0, 0, 1, 1] (all_find None) = Inr s \<and>
        acq_at s 0 = Acquired \<and> acq_at s 1 = Acquired \<and> acq_node s = Some 2)"
proof (intro conjI)
  have "all_find (Some c) = copied c []" by (simp add: all_find_def copied_def copy_place_def fun_eq_iff)
  then have run: "res_fold acquire_step sch (all_find (Some c)) = Inr (copied c sch)"
    using copied_run [of sch c "[]"] by simp
  have "acq_at (copied c sch) i = Acquired \<longleftrightarrow> 2 \<le> count_list sch i" for i
    by (simp add: copied_def copy_place_def)
  then show "\<exists>s. res_fold acquire_step sch (all_find (Some c)) = Inr s \<and>
        acq_node s = Some (c + of_nat (card {i. acq_at s i = Acquired})) \<and>
        (\<forall>i. acq_at s i = Acquired \<longleftrightarrow> 2 \<le> count_list sch i)"
    using run by (simp add: copied_def)
qed (simp_all add: acquire_step_def all_find_def acq_goes_def RefMapGetValueInterlocked_def
    RefMapInsertInterlocked_def ReferenceIncrementInterlocked_def)

section \<open>Tests and comparisons of handles\<close>

definition uq_bool :: "nat \<Rightarrow> 'a memory \<Rightarrow> bool" where
  "uq_bool h s = uq_IsValid h s"

definition sh_bool :: "nat \<Rightarrow> 'a memory \<Rightarrow> bool" where
  "sh_bool h s = sh_IsValid h s"

definition wk_bool :: "nat \<Rightarrow> 'a memory \<Rightarrow> bool" where
  "wk_bool w s = wk_IsValid w s"

definition sh_ne_pointer :: "pointer \<Rightarrow> nat \<Rightarrow> 'a memory \<Rightarrow> bool" where
  "sh_ne_pointer d h s \<longleftrightarrow> \<not> (shared s h = d)"

definition wk_ne_pointer :: "pointer \<Rightarrow> nat \<Rightarrow> 'a memory \<Rightarrow> bool" where
  "wk_ne_pointer d w s \<longleftrightarrow> \<not> (weak s w = d)"

definition wk_ne :: "nat \<Rightarrow> nat \<Rightarrow> 'a memory \<Rightarrow> bool" where
  "wk_ne v w s \<longleftrightarrow> \<not> (weak s w = weak s v)"

text \<open>
  A handle that converts to \<^verbatim>\<open>true\<close> differs from null, but a shared or weak handle that differs from null need
  not convert to \<^verbatim>\<open>true\<close>: the test also asks the map of counts. Two weak handles that are equal test alike.
\<close>

lemma handle_tests:
  "uq_bool h s \<longleftrightarrow> \<not> uq_eq_pointer None h s"
  "sh_bool h s \<Longrightarrow> sh_ne_pointer None h s"
  "wk_bool w s \<Longrightarrow> wk_ne_pointer None w s"
  "\<not> wk_ne v w s \<Longrightarrow> wk_bool v s = wk_bool w s"
  "wk_bool w (s\<lparr>RefMap := (\<lambda>_. None)\<rparr>) = False" "wk_ne_pointer d w (s\<lparr>RefMap := (\<lambda>_. None)\<rparr>) = wk_ne_pointer d w s"
  by (auto simp: uq_bool_def sh_bool_def wk_bool_def uq_IsValid_def sh_IsValid_def wk_IsValid_def uq_eq_pointer_def
      sh_ne_pointer_def wk_ne_pointer_def wk_ne_def CheckRefCount_def split: option.splits)

end
