(* ===== verification/Matrices.thy ===== *)
theory Matrices
  imports VecMath
begin

text \<open>
  The other vectors, the quaternions and the matrices of SpNetCommon/src/spNetMath.h, as far as they
  only add, subtract, multiply and divide.

  \<^item> As in theory VecMath the component type is any ring, a field where the code divides; the rounding
    of \<^verbatim>\<open>float\<close> is left out. An in-place operator gives the value of its object.
  \<^item> A matrix is its \<^verbatim>\<open>lineArrayData\<close>, a list of its rows' cells; \<open>cell n m i j\<close> is \<^verbatim>\<open>data[i][j]\<close> of a matrix
    with rows of \<open>n\<close> cells.
  \<^item> Assertions are off, as they are unless \<^verbatim>\<open>MATHARZ_ASSERIONS_ENABLED\<close> is defined.
  \<^item> Members that do not compile when they are used have no model: \<^verbatim>\<open>operator-=\<close> of \<^verbatim>\<open>template_vec2\<close> and
    \<^verbatim>\<open>+=\<close>, \<^verbatim>\<open>-=\<close> of \<^verbatim>\<open>template_vec4\<close> assign in a \<^verbatim>\<open>const\<close> member, the divisions of \<^verbatim>\<open>template_matrix2x2\<close> by a
    matrix pass it for a number, \<^verbatim>\<open>Slerp\<close> adds quaternions, \<^verbatim>\<open>GetAngleAxis\<close> uses a reference as a pointer.
\<close>

section \<open>Vectors of two components\<close>

record 'a vec2 =
  v2x :: 'a
  v2y :: 'a

definition vec2_make :: "'a \<Rightarrow> 'a \<Rightarrow> 'a vec2" where
  "vec2_make x y = \<lparr>v2x = x, v2y = y\<rparr>"

definition vec2_zero :: "'a::zero vec2" where
  "vec2_zero = vec2_make 0 0"

definition vec2_init_list :: "'a vec2 \<Rightarrow> 'a list \<Rightarrow> 'a vec2" where
  "vec2_init_list old xs =
     (case xs of [] \<Rightarrow> old | [s] \<Rightarrow> vec2_make s s | x # y # _ \<Rightarrow> vec2_make x y)"

definition vec2_ScalarAdd :: "'a::plus vec2 \<Rightarrow> 'a \<Rightarrow> 'a vec2" where
  "vec2_ScalarAdd a s = vec2_make (v2x a + s) (v2y a + s)"

definition vec2_add :: "'a::plus vec2 \<Rightarrow> 'a vec2 \<Rightarrow> 'a vec2" where
  "vec2_add a b = vec2_make (v2x a + v2x b) (v2y a + v2y b)"

definition vec2_sub :: "'a::minus vec2 \<Rightarrow> 'a vec2 \<Rightarrow> 'a vec2" where
  "vec2_sub a b = vec2_make (v2x a - v2x b) (v2y a - v2y b)"

definition vec2_ScalarSubtract :: "'a::minus vec2 \<Rightarrow> 'a \<Rightarrow> 'a vec2" where
  "vec2_ScalarSubtract a s = vec2_make (v2x a - s) (v2y a - s)"

definition vec2_mult :: "'a::times vec2 \<Rightarrow> 'a vec2 \<Rightarrow> 'a vec2" where
  "vec2_mult a b = vec2_make (v2x a * v2x b) (v2y a * v2y b)"

definition vec2_ScalarMultiply :: "'a::times vec2 \<Rightarrow> 'a \<Rightarrow> 'a vec2" where
  "vec2_ScalarMultiply a s = vec2_make (v2x a * s) (v2y a * s)"

definition vec2_divide :: "'a::field vec2 \<Rightarrow> 'a vec2 \<Rightarrow> 'a vec2" where
  "vec2_divide a b = vec2_make (v2x a / v2x b) (v2y a / v2y b)"

definition vec2_ScalarDivide :: "'a::field vec2 \<Rightarrow> 'a \<Rightarrow> 'a vec2" where
  "vec2_ScalarDivide a s = vec2_make (v2x a / s) (v2y a / s)"

definition vec2_left_divide :: "'a::field \<Rightarrow> 'a vec2 \<Rightarrow> 'a vec2" where
  "vec2_left_divide a v = vec2_make (a / v2x v) (a / v2y v)"

definition vec2_left_add :: "'a::plus \<Rightarrow> 'a vec2 \<Rightarrow> 'a vec2" where
  "vec2_left_add a v = vec2_make (a + v2x v) (a + v2y v)"

section \<open>Vectors of four components\<close>

record 'a vec4 =
  v4x :: 'a
  v4y :: 'a
  v4z :: 'a
  v4w :: 'a

definition vec4_make :: "'a \<Rightarrow> 'a \<Rightarrow> 'a \<Rightarrow> 'a \<Rightarrow> 'a vec4" where
  "vec4_make x y z w = \<lparr>v4x = x, v4y = y, v4z = z, v4w = w\<rparr>"

definition vec4_splat :: "'a \<Rightarrow> 'a vec4" where
  "vec4_splat s = vec4_make s s s s"

definition vec4_zero :: "'a::zero vec4" where
  "vec4_zero = vec4_splat 0"

definition vec4_init_list :: "'a vec4 \<Rightarrow> 'a list \<Rightarrow> 'a vec4" where
  "vec4_init_list old xs =
     (case xs of
        [] \<Rightarrow> old
      | [s] \<Rightarrow> vec4_splat s
      | [x, y] \<Rightarrow> vec4_make x y (v4z old) (v4w old)
      | [x, y, z] \<Rightarrow> vec4_make x y z (v4w old)
      | x # y # z # w # _ \<Rightarrow> vec4_make x y z w)"

definition vec4_from_vec2s :: "'a vec2 \<Rightarrow> 'a vec2 \<Rightarrow> 'a vec4" where
  "vec4_from_vec2s a b = vec4_make (v2x a) (v2y a) (v2x b) (v2y b)"

definition vec4_from_vec3_w :: "'a vec3 \<Rightarrow> 'a \<Rightarrow> 'a vec4" where
  "vec4_from_vec3_w v w = vec4_make (vx v) (vy v) (vz v) w"

definition vec4_from_x_vec3 :: "'a \<Rightarrow> 'a vec3 \<Rightarrow> 'a vec4" where
  "vec4_from_x_vec3 x v = vec4_make x (vx v) (vy v) (vz v)"

definition vec4_xyz :: "'a vec4 \<Rightarrow> 'a vec3" where
  "vec4_xyz v = vec3_make (v4x v) (v4y v) (v4z v)"

definition vec4_ScalarMultiply :: "'a::times vec4 \<Rightarrow> 'a \<Rightarrow> 'a vec4" where
  "vec4_ScalarMultiply a s = vec4_make (v4x a * s) (v4y a * s) (v4z a * s) (v4w a * s)"

definition vec4_Multiply :: "'a::times vec4 \<Rightarrow> 'a vec4 \<Rightarrow> 'a vec4" where
  "vec4_Multiply a b = vec4_make (v4x a * v4x b) (v4y a * v4y b) (v4z a * v4z b) (v4w a * v4w b)"

definition vec4_sub :: "'a::minus vec4 \<Rightarrow> 'a vec4 \<Rightarrow> 'a vec4" where
  "vec4_sub a b = vec4_make (v4x a - v4x b) (v4y a - v4y b) (v4z a - v4z b) (v4w a - v4w b)"

definition vec4_add :: "'a::plus vec4 \<Rightarrow> 'a vec4 \<Rightarrow> 'a vec4" where
  "vec4_add a b = vec4_make (v4x a + v4x b) (v4y a + v4y b) (v4z a + v4z b) (v4w a + v4w b)"

definition vec4_left_divide :: "'a::field \<Rightarrow> 'a vec4 \<Rightarrow> 'a vec4" where
  "vec4_left_divide a v = vec4_make (a / v4x v) (a / v4y v) (a / v4z v) (a / v4w v)"

definition vec4_left_add :: "'a::plus \<Rightarrow> 'a vec4 \<Rightarrow> 'a vec4" where
  "vec4_left_add a v = vec4_make (a + v4x v) (a + v4y v) (a + v4z v) (a + v4w v)"

section \<open>Quaternions\<close>

record 'a quaternion =
  qx :: 'a
  qy :: 'a
  qz :: 'a
  qw :: 'a

definition quat_make :: "'a \<Rightarrow> 'a \<Rightarrow> 'a \<Rightarrow> 'a \<Rightarrow> 'a quaternion" where
  "quat_make x y z w = \<lparr>qx = x, qy = y, qz = z, qw = w\<rparr>"

definition quat_zero :: "'a::zero quaternion" where
  "quat_zero = quat_make 0 0 0 0"

definition quat_splat :: "'a \<Rightarrow> 'a quaternion" where
  "quat_splat s = quat_make s s s s"

text \<open>Unlike a vector's, the list of a quaternion is copied even if it has one element.\<close>

definition quat_init_list :: "'a quaternion \<Rightarrow> 'a list \<Rightarrow> 'a quaternion" where
  "quat_init_list old xs =
     (case xs of
        [] \<Rightarrow> old
      | [x] \<Rightarrow> quat_make x (qy old) (qz old) (qw old)
      | [x, y] \<Rightarrow> quat_make x y (qz old) (qw old)
      | [x, y, z] \<Rightarrow> quat_make x y z (qw old)
      | x # y # z # w # _ \<Rightarrow> quat_make x y z w)"

definition quat_from_vec2s :: "'a vec2 \<Rightarrow> 'a vec2 \<Rightarrow> 'a quaternion" where
  "quat_from_vec2s a b = quat_make (v2x a) (v2y a) (v2x b) (v2y b)"

definition quat_xyz :: "'a quaternion \<Rightarrow> 'a vec3" where
  "quat_xyz q = vec3_make (qx q) (qy q) (qz q)"

definition vec4_from_quaternion :: "'a quaternion \<Rightarrow> 'a vec4" where
  "vec4_from_quaternion q = vec4_make (qx q) (qy q) (qz q) (qw q)"

definition IdentityQuaternion :: "'a::{zero,one} quaternion" where
  "IdentityQuaternion = quat_make 0 0 0 1"

definition quat_Multiply :: "'a::comm_ring_1 quaternion \<Rightarrow> 'a quaternion \<Rightarrow> 'a quaternion" where
  "quat_Multiply this q_1 =
     quat_make
       (qx this * qw q_1 + qy this * qz q_1 - qz this * qy q_1 + qw this * qx q_1)
       (- qx this * qz q_1 + qy this * qw q_1 + qz this * qx q_1 + qw this * qy q_1)
       (qx this * qy q_1 - qy this * qx q_1 + qz this * qw q_1 + qw this * qz q_1)
       (- qx this * qx q_1 - qy this * qy q_1 - qz this * qz q_1 + qw this * qw q_1)"

definition quat_rotate :: "'a::comm_ring_1 quaternion \<Rightarrow> 'a vec3 \<Rightarrow> 'a vec3" where
  "quat_rotate this v =
     (let vxvx = qx this * qx this; vzvz = qz this * qz this; vyvy = qy this * qy this;
          vxvy = qx this * qy this; vxvz = qx this * qz this; vyvz = qy this * qz this;
          svx = qw this * qx this; svy = qw this * qy this; svz = qw this * qz this
      in vec3_make
           (vx v * (1 - (vyvy + vzvz) * 2) + vy v * (vxvy - svz) * 2 + vz v * (vxvz + svy) * 2)
           (vx v * (vxvy + svz) * 2 + vy v * (1 - (vxvx + vzvz) * 2) + vz v * (vyvz - svx) * 2)
           (vx v * (vxvz - svy) * 2 + vy v * (vyvz + svx) * 2 + vz v * (1 - (vxvx + vyvy) * 2)))"

definition quat_DotProduct :: "'a::comm_ring_1 quaternion \<Rightarrow> 'a quaternion \<Rightarrow> 'a" where
  "quat_DotProduct this q_1 = qx this * qx q_1 + qy this * qy q_1 + qz this * qz q_1 + qw this * qw q_1"

definition quat_GetConjugate :: "'a::comm_ring_1 quaternion \<Rightarrow> 'a quaternion" where
  "quat_GetConjugate this = quat_make (- qx this) (- qy this) (- qz this) (qw this)"

definition quat_Conjugate :: "'a::comm_ring_1 quaternion \<Rightarrow> 'a quaternion" where
  "quat_Conjugate this = quat_make (qx this * (-1)) (qy this * (-1)) (qz this * (-1)) (qw this)"

text \<open>\<^verbatim>\<open>GetMatrix\<close> leaves the last row zero.\<close>

definition quat_GetMatrix :: "'a::comm_ring_1 quaternion \<Rightarrow> 'a list" where
  "quat_GetMatrix q =
     (let x = qx q; y = qy q; z = qz q; w = qw q
      in [1 - 2 * y * y - 2 * z * z, 2 * x * y + 2 * z * w, 2 * x * z - 2 * y * w, 0,
          2 * x * y - 2 * z * w, 1 - 2 * x * x - 2 * z * z, 2 * z * y + 2 * x * w, 0,
          2 * x * z + 2 * y * w, 2 * z * y - 2 * x * w, 1 - 2 * x * x - 2 * y * y, 0,
          0, 0, 0, 0])"

definition quat_GetMatrix_center :: "'a::comm_ring_1 quaternion \<Rightarrow> 'a vec3 \<Rightarrow> 'a list" where
  "quat_GetMatrix_center q centerVec3 =
     (quat_GetMatrix q)[12 := vx centerVec3, 13 := vy centerVec3, 14 := vz centerVec3, 15 := 1]"

definition quat_ToRotationMatrix_center :: "'a::comm_ring_1 quaternion \<Rightarrow> 'a vec3 \<Rightarrow> 'a list" where
  "quat_ToRotationMatrix_center q center =
     (let x = qx q; y = qy q; z = qz q; w = qw q;
          m0 = x * x - y * y - z * z + w * w; m1 = 2 * (x * y + z * w); m2 = 2 * (x * z - y * w);
          m4 = 2 * (x * y - z * w); m5 = - (x * x) + y * y - z * z + w * w; m6 = 2 * (y * z + x * w);
          m8 = 2 * (x * z + y * w); m9 = 2 * (y * z - x * w); m10 = - (x * x) - y * y + z * z + w * w
      in [m0, m1, m2, vx center - vx center * m0 - vy center * m1 - vz center * m2,
          m4, m5, m6, vy center - vx center * m4 - vy center * m5 - vz center * m6,
          m8, m9, m10, vz center - vx center * m8 - vy center * m9 - vz center * m10,
          0, 0, 0, 1])"

section \<open>Matrices\<close>

definition cell :: "nat \<Rightarrow> 'a list \<Rightarrow> nat \<Rightarrow> nat \<Rightarrow> 'a" where
  "cell n m i j = m ! (n * i + j)"

definition set_cell :: "nat \<Rightarrow> nat \<Rightarrow> nat \<Rightarrow> 'a \<Rightarrow> 'a list \<Rightarrow> 'a list" where
  "set_cell n i j x m = m[n * i + j := x]"

subsection \<open>Two by two\<close>

definition mat2_zero :: "'a::zero list" where
  "mat2_zero = replicate 4 0"

definition mat2_make :: "'a \<Rightarrow> 'a \<Rightarrow> 'a \<Rightarrow> 'a \<Rightarrow> 'a list" where
  "mat2_make a b c d = [a, b, c, d]"

definition mat2_pivot :: "'a::zero \<Rightarrow> 'a list" where
  "mat2_pivot p = (replicate 4 0)[0 := p, 3 := p]"

definition mat2_from_rows :: "'a vec2 \<Rightarrow> 'a vec2 \<Rightarrow> 'a list" where
  "mat2_from_rows a b = [v2x a, v2y a, v2x b, v2y b]"

definition mat2_init_list :: "'a::zero list \<Rightarrow> 'a list \<Rightarrow> 'a list" where
  "mat2_init_list old xs =
     (case xs of [s] \<Rightarrow> mat2_pivot s | _ \<Rightarrow> take 4 xs @ drop (length (take 4 xs)) old)"

definition mat2_vector :: "'a list \<Rightarrow> nat \<Rightarrow> 'a vec2" where
  "mat2_vector m i = vec2_make (cell 2 m i 0) (cell 2 m i 1)"

definition mat2_Multiply :: "'a::comm_ring_1 list \<Rightarrow> 'a list \<Rightarrow> 'a list" where
  "mat2_Multiply m b =
     [cell 2 m 0 0 * cell 2 b 0 0 + cell 2 m 0 1 * cell 2 b 1 0,
      cell 2 m 0 0 * cell 2 b 0 1 + cell 2 m 0 1 * cell 2 b 1 1,
      cell 2 m 1 0 * cell 2 b 0 0 + cell 2 m 1 1 * cell 2 b 1 0,
      cell 2 m 1 0 * cell 2 b 0 1 + cell 2 m 1 1 * cell 2 b 1 1]"

text \<open>The cells that are divided are those of the new matrix, not of this one.\<close>

definition mat2_ScalarDivide :: "'a::field list \<Rightarrow> 'a \<Rightarrow> 'a list" where
  "mat2_ScalarDivide m b = (if b \<noteq> 0 then map (\<lambda>x. x / b) mat2_zero else mat2_zero)"

definition mat2_ScalarDivideSelf :: "'a::field list \<Rightarrow> 'a \<Rightarrow> 'a list" where
  "mat2_ScalarDivideSelf m b =
     (if b \<noteq> 0
      then [cell 2 m 0 0 / b, cell 2 m 0 1 / b, cell 2 m 1 0 / b, cell 2 m 1 1 / b] else m)"

definition mat2_Determinant :: "'a::comm_ring_1 list \<Rightarrow> 'a" where
  "mat2_Determinant m = cell 2 m 0 0 * cell 2 m 1 1 - cell 2 m 0 1 * cell 2 m 1 0"

definition mat2_GetInverse :: "'a::field list \<Rightarrow> 'a list" where
  "mat2_GetInverse m =
     (let result = mat2_make (cell 2 m 1 1) (- cell 2 m 0 1) (- cell 2 m 1 0) (cell 2 m 0 0)
      in mat2_ScalarDivideSelf result (mat2_Determinant result))"

definition mat2_GetInverseSafe :: "'a::linordered_field list \<Rightarrow> 'a \<Rightarrow> 'a list" where
  "mat2_GetInverseSafe m safe_gap =
     (if safe_gap < \<bar>mat2_Determinant m\<bar> then mat2_GetInverse m else mat2_init_list [] [0])"

definition mat2_InverseSelf :: "'a::field list \<Rightarrow> 'a list" where
  "mat2_InverseSelf m = mat2_ScalarDivideSelf m (mat2_Determinant m)"

definition mat2_InverseSelfSafe :: "'a::linordered_field list \<Rightarrow> 'a \<Rightarrow> 'a list" where
  "mat2_InverseSelfSafe m safe_gap =
     (if safe_gap < \<bar>mat2_Determinant m\<bar> then mat2_ScalarDivideSelf m (mat2_Determinant m) else m)"

definition mat2_add :: "'a::comm_ring_1 list \<Rightarrow> 'a list \<Rightarrow> 'a list" where
  "mat2_add m b =
     fold (\<lambda>(i, j). set_cell 2 i j (cell 2 m i j + cell 2 b i j))
       (List.product [0..<2] [0..<2]) mat2_zero"

definition mat2_left_divide :: "'a::field \<Rightarrow> 'a list \<Rightarrow> 'a list" where
  "mat2_left_divide a m = mat2_from_rows (vec2_left_divide a (mat2_vector m 0)) (vec2_left_divide a (mat2_vector m 1))"

definition IdentityMatrix2x2 :: "'a::{zero,one} list" where
  "IdentityMatrix2x2 = [1, 0, 0, 1]"

subsection \<open>Three by three\<close>

definition mat3_zero :: "'a::zero list" where
  "mat3_zero = replicate 9 0"

definition mat3_pivot :: "'a::zero \<Rightarrow> 'a list" where
  "mat3_pivot p = (replicate 9 0)[0 := p, 4 := p, 8 := p]"

definition mat3_from_rows :: "'a vec3 \<Rightarrow> 'a vec3 \<Rightarrow> 'a vec3 \<Rightarrow> 'a list" where
  "mat3_from_rows a b c = [vx a, vy a, vz a, vx b, vy b, vz b, vx c, vy c, vz c]"

definition mat3_init_list :: "'a::zero list \<Rightarrow> 'a list \<Rightarrow> 'a list" where
  "mat3_init_list old xs =
     (case xs of [s] \<Rightarrow> mat3_pivot s | _ \<Rightarrow> take 9 xs @ drop (length (take 9 xs)) old)"

definition mat3_vector :: "'a list \<Rightarrow> nat \<Rightarrow> 'a vec3" where
  "mat3_vector m i = vec3_make (cell 3 m i 0) (cell 3 m i 1) (cell 3 m i 2)"

definition mat3_Multiply :: "'a::comm_ring_1 list \<Rightarrow> 'a list \<Rightarrow> 'a list" where
  "mat3_Multiply m b =
     fold (\<lambda>i. fold (\<lambda>j. fold (\<lambda>k r. set_cell 3 i j (cell 3 r i j + cell 3 m i k * cell 3 b k j) r)
       [0..<3]) [0..<3]) [0..<3] mat3_zero"

definition mat3_ScalarMultiply :: "'a::comm_ring_1 list \<Rightarrow> 'a \<Rightarrow> 'a list" where
  "mat3_ScalarMultiply m b =
     fold (\<lambda>i. fold (\<lambda>j. set_cell 3 i j (cell 3 m i j * b)) [0..<3]) [0..<3] mat3_zero"

definition mat3_Determinant :: "'a::comm_ring_1 list \<Rightarrow> 'a" where
  "mat3_Determinant m =
     (let a11 = cell 3 m 0 0; a12 = cell 3 m 0 1; a13 = cell 3 m 0 2;
          a21 = cell 3 m 1 0; a22 = cell 3 m 1 1; a23 = cell 3 m 1 2;
          a31 = cell 3 m 2 0; a32 = cell 3 m 2 1; a33 = cell 3 m 2 2;
          d1 = 0 + a11 * (a22 * a33 - a23 * a32);
          d2 = d1 - a12 * (a21 * a33 - a23 * a31)
      in d2 + a13 * (a21 * a32 - a22 * a31))"

text \<open>The last row's second cell is added to \<^verbatim>\<open>b.a\<close>, the first cell of the other matrix.\<close>

definition mat3_add :: "'a::comm_ring_1 list \<Rightarrow> 'a list \<Rightarrow> 'a list" where
  "mat3_add m b =
     [cell 3 m 0 0 + cell 3 b 0 0, cell 3 m 0 1 + cell 3 b 0 1, cell 3 m 0 2 + cell 3 b 0 2,
      cell 3 m 1 0 + cell 3 b 1 0, cell 3 m 1 1 + cell 3 b 1 1, cell 3 m 1 2 + cell 3 b 1 2,
      cell 3 m 2 0 + cell 3 b 2 0, cell 3 m 2 1 + cell 3 b 0 0, cell 3 m 2 2 + cell 3 b 2 2]"

definition IdentityMatrix3x3 :: "'a::{zero,one} list" where
  "IdentityMatrix3x3 = [1, 0, 0, 0, 1, 0, 0, 0, 1]"

subsection \<open>Four by four\<close>

definition mat4_zero :: "'a::zero list" where
  "mat4_zero = replicate 16 0"

text \<open>The constructor with default arguments: at least three cells, the others zero.\<close>

definition mat4_make :: "'a::zero \<Rightarrow> 'a \<Rightarrow> 'a \<Rightarrow> 'a list \<Rightarrow> 'a list" where
  "mat4_make a b c rest = take 16 (a # b # c # rest @ replicate 13 0)"

definition mat4_pivot :: "'a::zero \<Rightarrow> 'a list" where
  "mat4_pivot p = (replicate 16 0)[0 := p, 5 := p, 10 := p, 15 := p]"

definition vec4_list :: "'a vec4 \<Rightarrow> 'a list" where
  "vec4_list v = [v4x v, v4y v, v4z v, v4w v]"

definition mat4_from_rows :: "'a vec4 \<Rightarrow> 'a vec4 \<Rightarrow> 'a vec4 \<Rightarrow> 'a vec4 \<Rightarrow> 'a list" where
  "mat4_from_rows a b c d = vec4_list a @ vec4_list b @ vec4_list c @ vec4_list d"

definition mat4_init_list :: "'a::zero list \<Rightarrow> 'a list \<Rightarrow> 'a list" where
  "mat4_init_list old xs =
     (case xs of [s] \<Rightarrow> mat4_pivot s | _ \<Rightarrow> take 16 xs @ drop (length (take 16 xs)) old)"

definition mat4_set_vector :: "nat \<Rightarrow> 'a vec4 \<Rightarrow> 'a list \<Rightarrow> 'a list" where
  "mat4_set_vector i v m =
     set_cell 4 i 3 (v4w v) (set_cell 4 i 2 (v4z v) (set_cell 4 i 1 (v4y v) (set_cell 4 i 0 (v4x v) m)))"

text \<open>\<open>old\<close>: what the memory of the matrix held; the loop stops before the last row.\<close>

definition mat4_from_array :: "'a list \<Rightarrow> 'a vec4 list \<Rightarrow> 'a list" where
  "mat4_from_array old vec4s = fold (\<lambda>i. mat4_set_vector i (vec4s ! i)) [0..<3] old"

definition mat4_from_mat3 :: "'a list \<Rightarrow> 'a vec3 \<Rightarrow> 'a vec4 \<Rightarrow> 'a list" where
  "mat4_from_mat3 m right down =
     [cell 3 m 0 0, cell 3 m 0 1, cell 3 m 0 2, vx right,
      cell 3 m 1 0, cell 3 m 1 1, cell 3 m 1 2, vy right,
      cell 3 m 2 0, cell 3 m 2 1, cell 3 m 2 2, vz right] @ vec4_list down"

definition mat4_vector :: "'a list \<Rightarrow> nat \<Rightarrow> 'a vec4" where
  "mat4_vector m i = vec4_make (cell 4 m i 0) (cell 4 m i 1) (cell 4 m i 2) (cell 4 m i 3)"

definition mat4_Determinant :: "'a::comm_ring_1 list \<Rightarrow> 'a" where
  "mat4_Determinant m =
     (let data = cell 4 m;
          det2_01_01 = data 0 0 * data 1 1 - data 0 1 * data 1 0;
          det2_01_02 = data 0 0 * data 1 2 - data 0 2 * data 1 0;
          det2_01_03 = data 0 0 * data 1 3 - data 0 3 * data 1 0;
          det2_01_12 = data 0 1 * data 1 2 - data 0 2 * data 1 1;
          det2_01_13 = data 0 1 * data 1 3 - data 0 3 * data 1 1;
          det2_01_23 = data 0 2 * data 1 3 - data 0 3 * data 1 2;
          det3_201_012 = data 2 0 * det2_01_12 - data 2 1 * det2_01_02 + data 2 2 * det2_01_01;
          det3_201_013 = data 2 0 * det2_01_13 - data 2 1 * det2_01_03 + data 2 3 * det2_01_01;
          det3_201_023 = data 2 0 * det2_01_23 - data 2 2 * det2_01_03 + data 2 3 * det2_01_02;
          det3_201_123 = data 2 1 * det2_01_23 - data 2 2 * det2_01_13 + data 2 3 * det2_01_12
      in - det3_201_123 * data 3 0 + det3_201_023 * data 3 1 - det3_201_013 * data 3 2
         + det3_201_012 * data 3 3)"

text \<open>\<^verbatim>\<open>operator*(template_vec4)\<close>: the rows scaled by the components of the vector and added up.\<close>

definition mat4_apply :: "'a::comm_ring_1 list \<Rightarrow> 'a vec4 \<Rightarrow> 'a vec4" where
  "mat4_apply m b =
     (let Mul0 = vec4_Multiply (mat4_vector m 0) (vec4_splat (v4x b));
          Mul1 = vec4_Multiply (mat4_vector m 1) (vec4_splat (v4y b));
          Add0 = vec4_add Mul0 Mul1;
          Mul2 = vec4_Multiply (mat4_vector m 2) (vec4_splat (v4z b));
          Mul3 = vec4_Multiply (mat4_vector m 3) (vec4_splat (v4w b));
          Add1 = vec4_add Mul2 Mul3
      in vec4_add Add0 Add1)"

definition mat4_Multiply :: "'a::comm_ring_1 list \<Rightarrow> 'a vec4 \<Rightarrow> 'a vec4" where
  "mat4_Multiply m b = mat4_apply m b"

text \<open>The rotation about a unit axis whose angle has the given cosine and sine.\<close>

definition mat4_rotated :: "'a::comm_ring_1 \<Rightarrow> 'a \<Rightarrow> 'a vec3 \<Rightarrow> 'a list \<Rightarrow> 'a list" where
  "mat4_rotated c s axis m =
     (let temp = vec3_ScalarMultiply axis (1 - c);
          f11 = c + vx temp * vx axis; f12 = vx temp * vy axis + s * vz axis; f13 = vx temp * vz axis - s * vy axis;
          f21 = vy temp * vx axis - s * vz axis; f22 = c + vy temp * vy axis; f23 = vy temp * vz axis + s * vx axis;
          f31 = vz temp * vx axis + s * vy axis; f32 = vz temp * vy axis - s * vx axis; f33 = c + vz temp * vz axis;
          rows = mat4_vector m; row = (\<lambda>p q r. vec4_add (vec4_add (vec4_ScalarMultiply (rows 0) p)
                   (vec4_ScalarMultiply (rows 1) q)) (vec4_ScalarMultiply (rows 2) r))
      in mat4_from_rows (row f11 f12 f13) (row f21 f22 f23) (row f31 f32 f33) (rows 3))"

definition IdentityMatrix4x4 :: "'a::{zero,one} list" where
  "IdentityMatrix4x4 = [1, 0, 0, 0, 0, 1, 0, 0, 0, 0, 1, 0, 0, 0, 0, 1]"

section \<open>Hashes\<close>

text \<open>\<open>h\<close> is \<^verbatim>\<open>std::hash\<close> of a component and \<open>hs\<close> that of a \<^verbatim>\<open>size_t\<close>; the sums wrap.\<close>

definition hash_vec2 :: "(u64 \<Rightarrow> u64) \<Rightarrow> ('a \<Rightarrow> u64) \<Rightarrow> 'a vec2 \<Rightarrow> u64" where
  "hash_vec2 hs h v = hs (h (v2x v) + h (v2y v))"

definition hash_vec3 :: "(u64 \<Rightarrow> u64) \<Rightarrow> ('a \<Rightarrow> u64) \<Rightarrow> 'a vec3 \<Rightarrow> u64" where
  "hash_vec3 hs h v = hs (h (vx v) + h (vy v) + h (vz v))"

definition hash_vec4 :: "(u64 \<Rightarrow> u64) \<Rightarrow> ('a \<Rightarrow> u64) \<Rightarrow> 'a vec4 \<Rightarrow> u64" where
  "hash_vec4 hs h v = hs (h (v4x v) + h (v4y v) + h (v4z v) + h (v4w v))"

definition hash_quaternion :: "(u64 \<Rightarrow> u64) \<Rightarrow> ('a \<Rightarrow> u64) \<Rightarrow> 'a quaternion \<Rightarrow> u64" where
  "hash_quaternion hs h q = hash_vec4 hs h (vec4_from_quaternion q)"

definition hash_mat2 :: "(u64 \<Rightarrow> u64) \<Rightarrow> ('a \<Rightarrow> u64) \<Rightarrow> 'a list \<Rightarrow> u64" where
  "hash_mat2 hs h m = hs (hash_vec2 hs h (mat2_vector m 0) + hash_vec2 hs h (mat2_vector m 1))"

definition hash_mat3 :: "(u64 \<Rightarrow> u64) \<Rightarrow> ('a \<Rightarrow> u64) \<Rightarrow> 'a list \<Rightarrow> u64" where
  "hash_mat3 hs h m =
     hs (hash_vec3 hs h (mat3_vector m 0) + hash_vec3 hs h (mat3_vector m 1) + hash_vec3 hs h (mat3_vector m 2))"

definition hash_mat4 :: "(u64 \<Rightarrow> u64) \<Rightarrow> ('a \<Rightarrow> u64) \<Rightarrow> 'a list \<Rightarrow> u64" where
  "hash_mat4 hs h m =
     hs (hash_vec4 hs h (mat4_vector m 0) + hash_vec4 hs h (mat4_vector m 1) +
         hash_vec4 hs h (mat4_vector m 2) + hash_vec4 hs h (mat4_vector m 3))"

end
