(* ===== verification/MatProps.thy ===== *)
theory MatProps
  imports Matrices
begin

text \<open>
  What the matrices and quaternions compute: the unrolled and the looping products and determinants
  against one reference definition, inverses, and the rotations of quaternions.
\<close>

lemmas mat_defs = cell_def set_cell_def mat2_make_def mat2_vector_def mat3_vector_def mat4_vector_def
  vec2_make_def vec4_make_def vec3_make_def quat_make_def

section \<open>Reference definitions\<close>

definition mat_times :: "nat \<Rightarrow> 'a::comm_ring_1 list \<Rightarrow> 'a list \<Rightarrow> 'a list" where
  "mat_times n a b =
     concat (map (\<lambda>i. map (\<lambda>j. \<Sum>k<n. cell n a i k * cell n b k j) [0..<n]) [0..<n])"

text \<open>The determinant, expanded along the first row again and again.\<close>

fun laplace :: "nat \<Rightarrow> (nat \<Rightarrow> nat \<Rightarrow> 'a::comm_ring_1) \<Rightarrow> 'a" where
  "laplace 0 A = 1"
| "laplace (Suc n) A =
     (\<Sum>j<Suc n. (- 1) ^ j * A 0 j * laplace n (\<lambda>r c. A (Suc r) (if c < j then c else Suc c)))"

text \<open>The row vector times the matrix.\<close>

definition row_times :: "'a::comm_ring_1 vec4 \<Rightarrow> 'a list \<Rightarrow> 'a list" where
  "row_times v m = map (\<lambda>j. \<Sum>k<4. vec4_list v ! k * cell 4 m k j) [0..<4]"

lemmas upt_values = upt_conv_Cons eval_nat_numeral

lemma mat2_Multiply_times: "mat2_Multiply a b = mat_times 2 a b"
  by (simp add: mat2_Multiply_def mat_times_def upt_values)

lemma mat3_Multiply_times: "mat3_Multiply a b = mat_times 3 a b"
  by (simp add: mat3_Multiply_def mat_times_def mat3_zero_def upt_values cell_def set_cell_def)

lemma mat4_apply_times: "vec4_list (mat4_apply m v) = row_times v m"
  by (simp add: mat4_apply_def row_times_def vec4_list_def vec4_add_def vec4_Multiply_def vec4_splat_def
      mat4_vector_def vec4_make_def upt_values algebra_simps)

lemma mat2_Determinant_laplace: "mat2_Determinant m = laplace 2 (cell 2 m)"
  by (simp add: mat2_Determinant_def eval_nat_numeral)

lemma mat3_Determinant_laplace: "mat3_Determinant m = laplace 3 (cell 3 m)"
  by (simp add: mat3_Determinant_def Let_def eval_nat_numeral algebra_simps)

lemma mat4_Determinant_laplace: "mat4_Determinant m = laplace 4 (cell 4 m)"
  by (simp add: mat4_Determinant_def Let_def eval_nat_numeral algebra_simps)

text \<open>
  Property C21. The products and determinants of the matrices are what one definition for all sizes says:
  the unrolled product of two by two, the three loops of three by three, the determinants written out,
  the one of four by four by way of two by two ones, and the product with a vector, which takes the
  vector for a row.
\<close>

theorem matrices_match_reference:
  "mat2_Multiply a b = mat_times 2 a b \<and> mat3_Multiply a b = mat_times 3 a b \<and>
   mat2_Determinant m = laplace 2 (cell 2 m) \<and> mat3_Determinant m = laplace 3 (cell 3 m) \<and>
   mat4_Determinant m = laplace 4 (cell 4 m) \<and>
   vec4_list (mat4_Multiply m v) = row_times v m"
  by (simp only: mat2_Multiply_times mat3_Multiply_times mat2_Determinant_laplace mat3_Determinant_laplace
      mat4_Determinant_laplace mat4_Multiply_def mat4_apply_times simp_thms)

section \<open>Inverses\<close>

lemma mat2_cells: "length m = 4 \<Longrightarrow> m = [cell 2 m 0 0, cell 2 m 0 1, cell 2 m 1 0, cell 2 m 1 1]"
  by (rule nth_equalityI) (auto simp: cell_def eval_nat_numeral less_Suc_eq)

text \<open>
  \<^verbatim>\<open>GetInverse\<close> of an invertible matrix is its inverse on both sides. \<^verbatim>\<open>InverseSelf\<close> is not: it
  only divides by the determinant. \<^verbatim>\<open>ScalarDivide\<close> gives the zero matrix whatever it divides, and
  \<^verbatim>\<open>GetInverseSafe\<close> gives it for every determinant up to the gap, one half, invertible or not.
\<close>

theorem mat2_inverses:
  fixes m :: "'a::linordered_field list"
  assumes "length m = 4" and "mat2_Determinant m \<noteq> 0"
  shows "mat2_Multiply m (mat2_GetInverse m) = IdentityMatrix2x2 \<and>
         mat2_Multiply (mat2_GetInverse m) m = IdentityMatrix2x2 \<and>
         mat2_InverseSelf m = map (\<lambda>x. x / mat2_Determinant m) m \<and>
         mat2_ScalarDivide m s = [0, 0, 0, 0] \<and>
         (\<bar>mat2_Determinant m\<bar> \<le> gap \<longrightarrow> mat2_GetInverseSafe m gap = [0, 0, 0, 0])"
proof -
  obtain a b c d where m: "m = [a, b, c, d]" using mat2_cells [OF assms(1)] by blast
  define D where "D = a * d - b * c"
  have D: "mat2_Determinant m = D" "D \<noteq> 0"
    using assms(2) by (simp_all add: m D_def mat2_Determinant_def cell_def eval_nat_numeral)
  have inv: "mat2_GetInverse m = [d / D, - b / D, - c / D, a / D]"
    using D by (simp add: m D_def mat2_GetInverse_def mat2_ScalarDivideSelf_def mat2_Determinant_def mat_defs
        eval_nat_numeral algebra_simps)
  have "(a * d - b * c) / D = 1" using D(2) by (simp add: D_def)
  then have e: "a * d / D - b * c / D = 1" by (simp add: diff_divide_distrib)
  have "mat2_Multiply m (mat2_GetInverse m) = IdentityMatrix2x2 \<and>
        mat2_Multiply (mat2_GetInverse m) m = IdentityMatrix2x2"
    unfolding inv using e
    by (simp add: m mat2_Multiply_def IdentityMatrix2x2_def cell_def eval_nat_numeral algebra_simps)
  moreover have "mat2_InverseSelf m = map (\<lambda>x. x / D) m"
    using D by (simp add: mat2_InverseSelf_def mat2_ScalarDivideSelf_def m cell_def eval_nat_numeral)
  moreover have "mat2_ScalarDivide m s = [0, 0, 0, 0]"
    by (simp add: mat2_ScalarDivide_def mat2_zero_def eval_nat_numeral)
  moreover have "mat2_GetInverseSafe m gap = [0, 0, 0, 0]" if "\<bar>D\<bar> \<le> gap"
    using that D by (simp add: mat2_GetInverseSafe_def mat2_init_list_def mat2_pivot_def eval_nat_numeral)
  ultimately show ?thesis using D(1) by simp
qed

theorem mat2_inverses_witness:
  "mat2_Multiply [1, 1, 0, 1 / 2 :: rat] (mat2_GetInverse [1, 1, 0, 1 / 2]) = IdentityMatrix2x2 \<and>
   mat2_GetInverseSafe [1, 1, 0, 1 / 2 :: rat] (1 / 2) = [0, 0, 0, 0]"
proof -
  have "mat2_Determinant [1, 1, 0, 1 / 2 :: rat] = 1 / 2"
    by (simp add: mat2_Determinant_def cell_def eval_nat_numeral)
  with mat2_inverses [of "[1, 1, 0, 1 / 2 :: rat]" 1 "1 / 2"] show ?thesis by simp
qed

section \<open>Quaternions\<close>

lemmas quat_defs = quat_Multiply_def quat_make_def quat_DotProduct_def quat_GetConjugate_def
  quat_Conjugate_def quat_rotate_def vec3_make_def quat_xyz_def IdentityQuaternion_def

definition pure_quat :: "'a::zero vec3 \<Rightarrow> 'a quaternion" where
  "pure_quat v = quat_make (vx v) (vy v) (vz v) 0"

lemma quat_Multiply_assoc: "quat_Multiply (quat_Multiply p q) r = quat_Multiply p (quat_Multiply q r)"
  by (simp add: quat_defs algebra_simps)

lemma quat_norm_Multiply:
  "quat_DotProduct (quat_Multiply p q) (quat_Multiply p q) = quat_DotProduct p p * quat_DotProduct q q"
  by (simp add: quat_defs algebra_simps)

lemma quat_Conjugate_eq: "quat_Conjugate q = quat_GetConjugate q"
  by (simp add: quat_defs)

lemma quat_conjugate_conjugate: "quat_GetConjugate (quat_GetConjugate q) = q"
  by (simp add: quat_GetConjugate_def quat_make_def)

lemma quat_conjugate_Multiply:
  "quat_GetConjugate (quat_Multiply p q) = quat_Multiply (quat_GetConjugate q) (quat_GetConjugate p)"
  by (simp add: quat_defs algebra_simps)

lemma quat_times_conjugate:
  "quat_Multiply q (quat_GetConjugate q) = quat_make 0 0 0 (quat_DotProduct q q)"
  by (simp add: quat_defs algebra_simps)

lemma quat_rotate_sandwich:
  assumes "quat_DotProduct q q = 1"
  shows "pure_quat (quat_rotate q v) = quat_Multiply (quat_Multiply q (pure_quat v)) (quat_GetConjugate q)"
proof -
  have w: "qw q * qw q = 1 - (qx q * qx q + qy q * qy q + qz q * qz q)"
    using assms by (simp add: quat_defs algebra_simps)
  have ww: "a * (qw q * qw q) = a - a * (qx q * qx q + qy q * qy q + qz q * qz q)" for a
    by (simp add: w algebra_simps)
  show ?thesis
    using ww [of "vx v"] ww [of "vy v"] ww [of "vz v"]
    by (simp add: quat_defs pure_quat_def Let_def) (simp add: algebra_simps)
qed

lemma pure_quat_inject: "pure_quat a = pure_quat b \<longleftrightarrow> a = b"
  by (auto simp: pure_quat_def quat_make_def intro: vec3_eqI)

lemma quat_GetMatrix_rotates:
  "mat4_Multiply (quat_GetMatrix q) (vec4_from_vec3_w v s) = vec4_from_vec3_w (quat_rotate q v) 0"
  by (simp add: mat4_Multiply_def mat4_apply_def quat_GetMatrix_def vec4_from_vec3_w_def quat_rotate_def vec4_add_def
      vec4_Multiply_def vec4_splat_def mat4_vector_def vec4_make_def vec3_make_def cell_def Let_def eval_nat_numeral
      algebra_simps)

lemma quat_rotate_compose:
  assumes "quat_DotProduct p p = 1" and "quat_DotProduct q q = 1"
  shows "quat_rotate (quat_Multiply p q) v = quat_rotate p (quat_rotate q v)"
proof -
  have "quat_DotProduct (quat_Multiply p q) (quat_Multiply p q) = 1"
    using assms by (simp add: quat_norm_Multiply)
  from quat_rotate_sandwich [OF this, of v] quat_rotate_sandwich [OF assms(1), of "quat_rotate q v"]
    quat_rotate_sandwich [OF assms(2), of v]
  have "pure_quat (quat_rotate (quat_Multiply p q) v) = pure_quat (quat_rotate p (quat_rotate q v))"
    by (simp add: quat_conjugate_Multiply quat_Multiply_assoc)
  then show ?thesis by (simp only: pure_quat_inject)
qed

lemma quat_rotate_length:
  assumes "quat_DotProduct q q = 1"
  shows "vec3_SquareLength (quat_rotate q v) = vec3_SquareLength v"
proof -
  have n: "quat_DotProduct (pure_quat u) (pure_quat u) = vec3_SquareLength u" for u :: "'a vec3"
    by (simp add: pure_quat_def quat_make_def quat_DotProduct_def vec3_SquareLength_def)
  have "quat_DotProduct (quat_GetConjugate q) (quat_GetConjugate q) = quat_DotProduct q q"
    by (simp add: quat_defs)
  then have "quat_DotProduct (pure_quat (quat_rotate q v)) (pure_quat (quat_rotate q v)) =
      quat_DotProduct (pure_quat v) (pure_quat v)"
    using assms by (simp add: quat_rotate_sandwich quat_norm_Multiply)
  then show ?thesis by (simp only: n)
qed

lemma quat_rotate_back:
  assumes "quat_DotProduct q q = 1"
  shows "quat_rotate (quat_GetConjugate q) (quat_rotate q v) = v"
proof -
  have c: "quat_DotProduct (quat_GetConjugate q) (quat_GetConjugate q) = 1"
    using assms by (simp add: quat_defs)
  have i: "quat_Multiply (quat_GetConjugate q) q = quat_make 0 0 0 1"
    using quat_times_conjugate [of "quat_GetConjugate q"] c by (simp add: quat_conjugate_conjugate)
  show ?thesis
    unfolding quat_rotate_compose [OF c assms, symmetric] i
    by (simp add: quat_rotate_def quat_make_def vec3_make_def)
qed

lemma quat_rotates_about_center:
  assumes "quat_DotProduct q q = 1"
  shows "vec4_xyz (mat4_Multiply (quat_ToRotationMatrix_center q centre) (vec4_from_vec3_w v s)) = quat_rotate q v"
proof -
  have w: "qw q * qw q = 1 - (qx q * qx q + qy q * qy q + qz q * qz q)"
    using assms by (simp add: quat_defs algebra_simps)
  show ?thesis
    by (simp add: mat4_Multiply_def mat4_apply_def quat_ToRotationMatrix_center_def vec4_from_vec3_w_def
        quat_rotate_def vec4_add_def vec4_Multiply_def vec4_splat_def mat4_vector_def vec4_make_def vec3_make_def
        vec4_xyz_def cell_def Let_def eval_nat_numeral w) (simp add: algebra_simps)
qed

text \<open>
  Property C24. Unit quaternions are rotations: \<^verbatim>\<open>Multiply\<close> with a vector is the product with the quaternion
  and its conjugate, keeps lengths, and the product of two quaternions is one rotation after the
  other. \<^verbatim>\<open>GetMatrix\<close>, multiplied with a vector, is that rotation; so is the matrix about a centre, but
  its translation is in the last column, where the product with a vector does not use it.
\<close>

theorem quaternions_rotate:
  assumes "quat_DotProduct p p = 1" and "quat_DotProduct q q = 1"
  shows "pure_quat (quat_rotate q v) = quat_Multiply (quat_Multiply q (pure_quat v)) (quat_GetConjugate q) \<and>
         vec3_SquareLength (quat_rotate q v) = vec3_SquareLength v \<and>
         quat_rotate (quat_Multiply p q) v = quat_rotate p (quat_rotate q v) \<and>
         quat_rotate (quat_GetConjugate q) (quat_rotate q v) = v \<and>
         mat4_Multiply (quat_GetMatrix q) (vec4_from_vec3_w v s) = vec4_from_vec3_w (quat_rotate q v) 0 \<and>
         vec4_xyz (mat4_Multiply (quat_ToRotationMatrix_center q centre) (vec4_from_vec3_w v s)) = quat_rotate q v"
  using quat_rotate_sandwich [OF assms(2)] quat_rotate_length [OF assms(2)] quat_rotate_compose [OF assms]
    quat_GetMatrix_rotates quat_rotate_back [OF assms(2)] quat_rotates_about_center [OF assms(2)] by blast

theorem quaternions_rotate_witness:
  "quat_rotate (quat_Multiply (quat_make 1 0 0 0) (quat_make 0 0 1 (0 :: int))) (vec3_make 1 2 3) =
   quat_rotate (quat_make 1 0 0 0) (quat_rotate (quat_make 0 0 1 0) (vec3_make 1 2 3))"
  using quaternions_rotate [of "quat_make 1 0 0 0" "quat_make 0 0 1 (0 :: int)" "vec3_make 1 2 3" 0 vec3_zero]
  by (simp add: quat_DotProduct_def quat_make_def)

section \<open>Cells that are not what they should be\<close>

lemma mat3_add_wrong_cell:
  "length (mat3_add a b) = 9 \<and>
   (\<forall>i < 9. mat3_add a b ! i = (if i = 7 then a ! 7 + b ! 0 else a ! i + b ! i))"
  by (simp add: mat3_add_def cell_def eval_nat_numeral less_Suc_eq)

lemma mat4_from_array_last_row:
  assumes "length old = 16"
  shows "\<forall>j < 4. mat4_from_array old vs ! (12 + j) = old ! (12 + j)"
  using assms by (auto simp: mat4_from_array_def mat4_set_vector_def set_cell_def eval_nat_numeral upt_conv_Cons)

text \<open>Hashes do not see the order of the components.\<close>

lemma hash_vec3_permuted: "hash_vec3 hs h (vec3_make x y z) = hash_vec3 hs h (vec3_make y z x)"
  by (simp add: hash_vec3_def vec3_make_def algebra_simps)

end
