(* ===== verification/RealMath.thy ===== *)
theory RealMath
  imports MatProps
begin

text \<open>
  The parts of SpNetCommon/src/spNetMath.h that take roots, angles or compare: constants, lengths,
  refraction, the makers and conversions of quaternions, rotated matrices and the comparisons. The
  component type is \<open>real\<close>: the rounding of \<^verbatim>\<open>float\<close> and \<^verbatim>\<open>double\<close> is left out, the literals are the decimal
  numbers that are written. \<^verbatim>\<open>std::sin\<close>, \<^verbatim>\<open>std::cos\<close> and \<^verbatim>\<open>std::sqrt\<close> are the functions of the library.
\<close>

section \<open>Constants\<close>

definition m_pi :: real where "m_pi = 3.1415926535897932384626433"
definition m_two_pi :: real where "m_two_pi = 6.28318530717958647692528676655900576"
definition m_root_pi :: real where "m_root_pi = 1.772453850905516027"
definition m_half_pi :: real where "m_half_pi = 1.57079632679489661923132169163975144"
definition m_three_over_two_pi :: real where "m_three_over_two_pi = 4.71238898038468985769396507491925432"
definition m_quarter_pi :: real where "m_quarter_pi = 0.785398163397448309615660845819875721"
definition m_one_over_pi :: real where "m_one_over_pi = 0.318309886183790671537767526745028724"
definition m_one_over_two_pi :: real where "m_one_over_two_pi = 0.159154943091895335768883763372514362"
definition m_two_over_pi :: real where "m_two_over_pi = 0.636619772367581343075535053490057448"
definition m_four_over_pi :: real where "m_four_over_pi = 1.273239544735162686151070106980114898"
definition m_two_over_root_pi :: real where "m_two_over_root_pi = 1.12837916709551257389615890312154517"
definition m_one_over_root_two :: real where "m_one_over_root_two = 0.707106781186547524400844362104849039"
definition m_root_half_pi :: real where "m_root_half_pi = 1.253314137315500251"
definition m_root_two_pi :: real where "m_root_two_pi = 2.506628274631000502"
definition m_root_ln_four :: real where "m_root_ln_four = 1.17741002251547469"
definition m_e :: real where "m_e = 2.71828182845904523536"
definition m_euler :: real where "m_euler = 0.577215664901532860606"
definition m_root_two :: real where "m_root_two = 1.41421356237309504880168872420969808"
definition m_root_three :: real where "m_root_three = 1.73205080756887729352744634150587236"
definition m_root_five :: real where "m_root_five = 2.23606797749978969640917366873127623"
definition m_ln_two :: real where "m_ln_two = 0.693147180559945309417232121458176568"
definition m_ln_ten :: real where "m_ln_ten = 2.30258509299404568401799145468436421"
definition m_ln_ln_two :: real where "m_ln_ln_two = - 0.3665129205816643"
definition m_third :: real where "m_third = 0.3333333333333333333333333333333333333333"
definition m_two_thirds :: real where "m_two_thirds = 0.666666666666666666666666666666666666667"
definition m_golden_ratio :: real where "m_golden_ratio = 1.61803398874989484820458683436563811"

definition radians :: "real \<Rightarrow> real" where
  "radians degrees = degrees * m_pi / 180"

definition degrees :: "real \<Rightarrow> real" where
  "degrees r = r * 180 / m_pi"

section \<open>Numbers\<close>

definition m_min :: "'a::linorder \<Rightarrow> 'a \<Rightarrow> 'a" where
  "m_min x y = (if x < y then x else y)"

definition m_max :: "'a::linorder \<Rightarrow> 'a \<Rightarrow> 'a" where
  "m_max x y = (if y < x then x else y)"

definition m_clamp :: "'a::linorder \<Rightarrow> 'a \<Rightarrow> 'a \<Rightarrow> 'a" where
  "m_clamp n lower upper = m_max lower (m_min n upper)"

definition FLOAT_EPSILON :: real where
  "FLOAT_EPSILON = 0.00001"

definition m_equal :: "real \<Rightarrow> real \<Rightarrow> bool" where
  "m_equal a b \<longleftrightarrow> \<bar>a - b\<bar> \<le> FLOAT_EPSILON"

definition m_more_or_equal :: "real \<Rightarrow> real \<Rightarrow> bool" where
  "m_more_or_equal a b \<longleftrightarrow> b < a \<or> m_equal a b"

definition m_less_or_equal :: "real \<Rightarrow> real \<Rightarrow> bool" where
  "m_less_or_equal a b \<longleftrightarrow> a < b \<or> m_equal a b"

definition reflectance :: "real \<Rightarrow> real \<Rightarrow> real" where
  "reflectance cosine refractionIndex =
     (let r0 = (1 - refractionIndex) / (1 + refractionIndex); r0 = r0 * r0
      in r0 + (1 - r0) * (1 - cosine) ^ 5)"

section \<open>Comparisons\<close>

text \<open>Vectors of two components, then those of three with everything they are compared with.\<close>

definition vec2_eq :: "real vec2 \<Rightarrow> real vec2 \<Rightarrow> bool" where
  "vec2_eq a b \<longleftrightarrow> m_equal (v2x a) (v2x b) \<and> m_equal (v2y a) (v2y b)"

definition vec3_ne_number :: "real vec3 \<Rightarrow> real \<Rightarrow> bool" where
  "vec3_ne_number a s \<longleftrightarrow> \<not> m_equal (vx a) s"

definition vec3_ne_vec2 :: "real vec3 \<Rightarrow> real vec2 \<Rightarrow> bool" where
  "vec3_ne_vec2 a b \<longleftrightarrow> \<not> (m_equal (vx a) (v2x b) \<and> m_equal (vy a) (v2y b))"

definition vec3_ne :: "real vec3 \<Rightarrow> real vec3 \<Rightarrow> bool" where
  "vec3_ne a b \<longleftrightarrow> \<not> (m_equal (vx a) (vx b) \<and> m_equal (vy a) (vy b) \<and> m_equal (vz a) (vz b))"

definition vec3_eq_number :: "real vec3 \<Rightarrow> real \<Rightarrow> bool" where
  "vec3_eq_number a s \<longleftrightarrow> m_equal (vx a) s"

definition vec3_eq_vec2 :: "real vec3 \<Rightarrow> real vec2 \<Rightarrow> bool" where
  "vec3_eq_vec2 a b \<longleftrightarrow> m_equal (vx a) (v2x b) \<and> m_equal (vy a) (v2y b)"

definition vec3_ge_number :: "real vec3 \<Rightarrow> real \<Rightarrow> bool" where
  "vec3_ge_number a s \<longleftrightarrow> m_more_or_equal (vx a) s"

definition vec3_ge_vec2 :: "real vec3 \<Rightarrow> real vec2 \<Rightarrow> bool" where
  "vec3_ge_vec2 a b \<longleftrightarrow> m_more_or_equal (vx a) (v2x b) \<and> m_more_or_equal (vy a) (v2y b)"

definition vec3_ge :: "real vec3 \<Rightarrow> real vec3 \<Rightarrow> bool" where
  "vec3_ge a b \<longleftrightarrow> m_more_or_equal (vx a) (vx b) \<and> m_more_or_equal (vy a) (vy b) \<and> m_more_or_equal (vz a) (vz b)"

text \<open>The one comparison with a number that looks at every component.\<close>

definition vec3_le_number :: "real vec3 \<Rightarrow> real \<Rightarrow> bool" where
  "vec3_le_number a s \<longleftrightarrow> m_less_or_equal (vx a) s \<and> m_less_or_equal (vy a) s \<and> m_less_or_equal (vz a) s"

definition vec3_le_vec2 :: "real vec3 \<Rightarrow> real vec2 \<Rightarrow> bool" where
  "vec3_le_vec2 a b \<longleftrightarrow> m_less_or_equal (vx a) (v2x b) \<and> m_less_or_equal (vy a) (v2y b)"

definition vec3_le :: "real vec3 \<Rightarrow> real vec3 \<Rightarrow> bool" where
  "vec3_le a b \<longleftrightarrow> m_less_or_equal (vx a) (vx b) \<and> m_less_or_equal (vy a) (vy b) \<and> m_less_or_equal (vz a) (vz b)"

definition vec3_gt_number :: "real vec3 \<Rightarrow> real \<Rightarrow> bool" where
  "vec3_gt_number a s \<longleftrightarrow> s < vx a"

definition vec3_gt_vec2 :: "real vec3 \<Rightarrow> real vec2 \<Rightarrow> bool" where
  "vec3_gt_vec2 a b \<longleftrightarrow> v2x b < vx a \<and> v2y b < vy a"

definition vec3_gt :: "real vec3 \<Rightarrow> real vec3 \<Rightarrow> bool" where
  "vec3_gt a b \<longleftrightarrow> vx b < vx a \<and> vy b < vy a \<and> vz b < vz a"

definition vec3_lt_number :: "real vec3 \<Rightarrow> real \<Rightarrow> bool" where
  "vec3_lt_number a s \<longleftrightarrow> vx a < s"

definition vec3_lt_vec2 :: "real vec3 \<Rightarrow> real vec2 \<Rightarrow> bool" where
  "vec3_lt_vec2 a b \<longleftrightarrow> vx a < v2x b \<and> vy a < v2y b"

definition vec3_lt :: "real vec3 \<Rightarrow> real vec3 \<Rightarrow> bool" where
  "vec3_lt a b \<longleftrightarrow> vx a < vx b \<and> vy a < vy b \<and> vz a < vz b"

text \<open>\<^verbatim>\<open>equal\<close> of two vectors: the absolute differences, compared with the guard by \<^verbatim>\<open>operator<=(number_t)\<close>.\<close>

definition vec3_abs :: "real vec3 \<Rightarrow> real vec3" where
  "vec3_abs v = vec3_make \<bar>vx v\<bar> \<bar>vy v\<bar> \<bar>vz v\<bar>"

definition vec3_eq :: "real vec3 \<Rightarrow> real vec3 \<Rightarrow> bool" where
  "vec3_eq a b = vec3_le_number (vec3_abs (vec3_sub a b)) FLOAT_EPSILON"

text \<open>With a vector of four components, that vector's first three are on the left.\<close>

definition vec3_ne_vec4 :: "real vec3 \<Rightarrow> real vec4 \<Rightarrow> bool" where
  "vec3_ne_vec4 a b \<longleftrightarrow> \<not> vec3_eq (vec4_xyz b) a"

definition vec3_eq_vec4 :: "real vec3 \<Rightarrow> real vec4 \<Rightarrow> bool" where
  "vec3_eq_vec4 a b = vec3_eq (vec4_xyz b) a"

definition vec3_ge_vec4 :: "real vec3 \<Rightarrow> real vec4 \<Rightarrow> bool" where
  "vec3_ge_vec4 a b \<longleftrightarrow> vec3_gt (vec4_xyz b) a \<or> vec3_eq (vec4_xyz b) a"

definition vec3_le_vec4 :: "real vec3 \<Rightarrow> real vec4 \<Rightarrow> bool" where
  "vec3_le_vec4 a b \<longleftrightarrow> vec3_lt (vec4_xyz b) a \<or> vec3_eq (vec4_xyz b) a"

definition vec3_gt_vec4 :: "real vec3 \<Rightarrow> real vec4 \<Rightarrow> bool" where
  "vec3_gt_vec4 a b = vec3_gt (vec4_xyz b) a"

definition vec3_lt_vec4 :: "real vec3 \<Rightarrow> real vec4 \<Rightarrow> bool" where
  "vec3_lt_vec4 a b = vec3_lt (vec4_xyz b) a"

definition vec4_eq :: "real vec4 \<Rightarrow> real vec4 \<Rightarrow> bool" where
  "vec4_eq a b \<longleftrightarrow> m_equal (v4x a) (v4x b) \<and> m_equal (v4y a) (v4y b) \<and> m_equal (v4z a) (v4z b) \<and> m_equal (v4w a) (v4w b)"

definition vec4_ne :: "real vec4 \<Rightarrow> real vec4 \<Rightarrow> bool" where
  "vec4_ne a b \<longleftrightarrow>
     \<not> (m_equal (v4x a) (v4x b) \<and> m_equal (v4y a) (v4y b) \<and> m_equal (v4z a) (v4z b) \<and> m_equal (v4w a) (v4w b))"

definition vec4_ge :: "real vec4 \<Rightarrow> real vec4 \<Rightarrow> bool" where
  "vec4_ge a b \<longleftrightarrow> m_more_or_equal (v4x a) (v4x b) \<and> m_more_or_equal (v4y a) (v4y b) \<and>
     m_more_or_equal (v4z a) (v4z b) \<and> m_more_or_equal (v4w a) (v4w b)"

definition vec4_le :: "real vec4 \<Rightarrow> real vec4 \<Rightarrow> bool" where
  "vec4_le a b \<longleftrightarrow> m_less_or_equal (v4x a) (v4x b) \<and> m_less_or_equal (v4y a) (v4y b) \<and>
     m_less_or_equal (v4z a) (v4z b) \<and> m_less_or_equal (v4w a) (v4w b)"

definition vec4_gt :: "real vec4 \<Rightarrow> real vec4 \<Rightarrow> bool" where
  "vec4_gt a b \<longleftrightarrow> v4x b < v4x a \<and> v4y b < v4y a \<and> v4z b < v4z a \<and> v4w b < v4w a"

definition vec4_lt :: "real vec4 \<Rightarrow> real vec4 \<Rightarrow> bool" where
  "vec4_lt a b \<longleftrightarrow> v4x a < v4x b \<and> v4y a < v4y b \<and> v4z a < v4z b \<and> v4w a < v4w b"

definition vec4_eq_vec3 :: "real vec4 \<Rightarrow> real vec3 \<Rightarrow> bool" where
  "vec4_eq_vec3 a b = vec3_eq (vec4_xyz a) b"

definition vec4_ne_vec3 :: "real vec4 \<Rightarrow> real vec3 \<Rightarrow> bool" where
  "vec4_ne_vec3 a b \<longleftrightarrow> \<not> vec3_eq (vec4_xyz a) b"

definition vec4_ge_vec3 :: "real vec4 \<Rightarrow> real vec3 \<Rightarrow> bool" where
  "vec4_ge_vec3 a b = vec3_ge (vec4_xyz a) b"

definition vec4_le_vec3 :: "real vec4 \<Rightarrow> real vec3 \<Rightarrow> bool" where
  "vec4_le_vec3 a b = vec3_le (vec4_xyz a) b"

definition vec4_gt_vec3 :: "real vec4 \<Rightarrow> real vec3 \<Rightarrow> bool" where
  "vec4_gt_vec3 a b = vec3_gt (vec4_xyz a) b"

definition vec4_lt_vec3 :: "real vec4 \<Rightarrow> real vec3 \<Rightarrow> bool" where
  "vec4_lt_vec3 a b = vec3_lt (vec4_xyz a) b"

definition quat_eq :: "real quaternion \<Rightarrow> real quaternion \<Rightarrow> bool" where
  "quat_eq a b \<longleftrightarrow> m_equal (qx a) (qx b) \<and> m_equal (qy a) (qy b) \<and> m_equal (qz a) (qz b) \<and> m_equal (qw a) (qw b)"

definition quat_eq_vec4 :: "real quaternion \<Rightarrow> real vec4 \<Rightarrow> bool" where
  "quat_eq_vec4 a b \<longleftrightarrow> m_equal (qx a) (v4x b) \<and> m_equal (qy a) (v4y b) \<and> m_equal (qz a) (v4z b) \<and> m_equal (qw a) (v4w b)"

definition mat2_eq :: "real list \<Rightarrow> real list \<Rightarrow> bool" where
  "mat2_eq m b \<longleftrightarrow> m_equal (m ! 0) (b ! 0) \<and> m_equal (m ! 1) (b ! 1) \<and> m_equal (m ! 2) (b ! 2) \<and> m_equal (m ! 3) (b ! 3)"

text \<open>A matrix of two by two is compared with a bigger one exactly.\<close>

definition mat2_eq_mat3 :: "real list \<Rightarrow> real list \<Rightarrow> bool" where
  "mat2_eq_mat3 m b \<longleftrightarrow> cell 2 m 0 0 = cell 3 b 0 0 \<and> cell 2 m 0 1 = cell 3 b 0 1 \<and>
     cell 2 m 1 0 = cell 3 b 1 0 \<and> cell 2 m 1 1 = cell 3 b 1 1"

definition mat2_eq_mat4 :: "real list \<Rightarrow> real list \<Rightarrow> bool" where
  "mat2_eq_mat4 m b \<longleftrightarrow> cell 2 m 0 0 = cell 4 b 0 0 \<and> cell 2 m 0 1 = cell 4 b 0 1 \<and>
     cell 2 m 1 0 = cell 4 b 1 0 \<and> cell 2 m 1 1 = cell 4 b 1 1"

definition mat3_eq :: "real list \<Rightarrow> real list \<Rightarrow> bool" where
  "mat3_eq m b \<longleftrightarrow> vec3_eq (mat3_vector m 0) (mat3_vector b 0) \<and> vec3_eq (mat3_vector m 1) (mat3_vector b 1) \<and>
     vec3_eq (mat3_vector m 2) (mat3_vector b 2)"

definition mat3_eq_mat4 :: "real list \<Rightarrow> real list \<Rightarrow> bool" where
  "mat3_eq_mat4 m b \<longleftrightarrow> vec3_eq (mat3_vector m 0) (vec4_xyz (mat4_vector b 0)) \<and>
     vec3_eq (mat3_vector m 1) (vec4_xyz (mat4_vector b 1)) \<and> vec3_eq (mat3_vector m 2) (vec4_xyz (mat4_vector b 2))"

definition mat4_eq_mat2 :: "real list \<Rightarrow> real list \<Rightarrow> bool" where
  "mat4_eq_mat2 m b \<longleftrightarrow>
     (let xy = (\<lambda>i. vec2_make (v4x (mat4_vector m i)) (v4y (mat4_vector m i)))
      in vec2_eq (xy 0) (mat2_vector b 0) \<and> vec2_eq (xy 1) (mat2_vector b 1))"

definition mat4_eq_mat3 :: "real list \<Rightarrow> real list \<Rightarrow> bool" where
  "mat4_eq_mat3 m b \<longleftrightarrow> vec3_eq (vec4_xyz (mat4_vector m 0)) (mat3_vector b 0) \<and>
     vec3_eq (vec4_xyz (mat4_vector m 1)) (mat3_vector b 1) \<and> vec3_eq (vec4_xyz (mat4_vector m 2)) (mat3_vector b 2)"

definition mat4_eq :: "real list \<Rightarrow> real list \<Rightarrow> bool" where
  "mat4_eq m b \<longleftrightarrow> vec4_eq (mat4_vector m 0) (mat4_vector b 0) \<and> vec4_eq (mat4_vector m 1) (mat4_vector b 1) \<and>
     vec4_eq (mat4_vector m 2) (mat4_vector b 2) \<and> vec4_eq (mat4_vector m 3) (mat4_vector b 3)"

section \<open>Lengths and directions\<close>

definition vec3_Lenght :: "real vec3 \<Rightarrow> real" where
  "vec3_Lenght v = sqrt (vec3_SquareLength v)"

definition vec3_GetNormalized :: "real vec3 \<Rightarrow> real vec3" where
  "vec3_GetNormalized v = (let lenght = vec3_Lenght v in vec3_make (vx v / lenght) (vy v / lenght) (vz v / lenght))"

definition vec3_Normalize :: "real vec3 \<Rightarrow> real vec3" where
  "vec3_Normalize v =
     (let lenght = vec3_Lenght v in v\<lparr>vx := vx v / lenght, vy := vy v / lenght, vz := vz v / lenght\<rparr>)"

definition vec3_DistanceTo :: "real vec3 \<Rightarrow> real vec3 \<Rightarrow> real" where
  "vec3_DistanceTo this b = (let DirectionVec = vec3_sub b this in vec3_Lenght DirectionVec)"

definition vec3_IsPerpendicularTo_INT :: "real vec3 \<Rightarrow> real vec3 \<Rightarrow> bool" where
  "vec3_IsPerpendicularTo_INT this b = m_equal (vec3_DotProduct this b) 0"

definition vec3_IsParallelTo_INT :: "real vec3 \<Rightarrow> real vec3 \<Rightarrow> bool" where
  "vec3_IsParallelTo_INT this b =
     vec3_le_number (vec3_abs (vec3_ScalarSubtract (vec3_CrossProduct this b) 0)) FLOAT_EPSILON"

definition vec3_IsPerpendicularTo :: "real vec3 \<Rightarrow> real vec3 \<Rightarrow> real \<Rightarrow> bool" where
  "vec3_IsPerpendicularTo this b safeGuard \<longleftrightarrow> \<bar>vec3_DotProduct this b\<bar> < safeGuard"

definition vec3_IsParallelTo :: "real vec3 \<Rightarrow> real vec3 \<Rightarrow> real \<Rightarrow> bool" where
  "vec3_IsParallelTo this b safeGuard \<longleftrightarrow>
     (let tempVector = vec3_CrossProduct this b
      in vec3_lt_number tempVector safeGuard \<and> vec3_gt_number tempVector (- safeGuard))"

definition vec3_Refract :: "real vec3 \<Rightarrow> real vec3 \<Rightarrow> real \<Rightarrow> real vec3" where
  "vec3_Refract this n etai_over_etat =
     (let cosTheta = m_min (vec3_DotProduct (vec3_ScalarMultiply this (- 1)) n) 1;
          rOutPerp = vec3_ScalarMultiply (vec3_add this (vec3_ScalarMultiply n cosTheta)) etai_over_etat;
          rOutParallel = vec3_ScalarMultiply n (- sqrt \<bar>1 - vec3_SquareLength rOutPerp\<bar>)
      in vec3_add rOutPerp rOutParallel)"

section \<open>Quaternions\<close>

definition quat_Normal :: "real quaternion \<Rightarrow> real" where
  "quat_Normal q = sqrt (qx q * qx q + qy q * qy q + qz q * qz q + qw q * qw q)"

definition quat_Normalize :: "real quaternion \<Rightarrow> real quaternion" where
  "quat_Normalize q =
     (let normal = quat_Normal q
      in q\<lparr>qx := qx q / normal, qy := qy q / normal, qz := qz q / normal, qw := qw q / normal\<rparr>)"

definition quat_GetNormalized :: "real quaternion \<Rightarrow> real quaternion" where
  "quat_GetNormalized q =
     (let normal = quat_Normal q in quat_make (qx q / normal) (qy q / normal) (qz q / normal) (qw q / normal))"

definition quat_GetInverse :: "real quaternion \<Rightarrow> real quaternion" where
  "quat_GetInverse q = quat_Normalize (quat_GetConjugate q)"

definition quat_Inverse :: "real quaternion \<Rightarrow> real quaternion" where
  "quat_Inverse q = quat_Normalize (quat_Conjugate q)"

definition quat_ToRotationMatrix :: "real quaternion \<Rightarrow> real list" where
  "quat_ToRotationMatrix q =
     (let n = quat_GetNormalized q; x = qx n; y = qy n; z = qz n; w = qw n
      in (mat4_init_list [] [1])
           [0 := 1 - 2 * y * y - 2 * z * z, 1 := 2 * x * y - 2 * z * w, 2 := 2 * x * z + 2 * y * w,
            4 := 2 * x * y + 2 * z * w, 5 := 1 - 2 * x * x - 2 * z * z, 6 := 2 * y * z - 2 * x * w,
            8 := 2 * x * z - 2 * y * w, 9 := 2 * y * z + 2 * x * w, 10 := 1 - 2 * x * x - 2 * y * y])"

text \<open>The cosine is the first element of the list, the scalar part of a quaternion its last.\<close>

definition quat_MakeFromAxisAngle :: "real vec3 \<Rightarrow> real \<Rightarrow> real quaternion" where
  "quat_MakeFromAxisAngle axis angle =
     (let vn = vec3_GetNormalized axis; angle = radians angle; angle = angle * 0.5; sinAngle = sin angle
      in quat_init_list quat_zero [cos angle, vx vn * sinAngle, vy vn * sinAngle, vz vn * sinAngle])"

text \<open>The parameters are \<^verbatim>\<open>X\<close>, \<^verbatim>\<open>Y\<close>, \<^verbatim>\<open>Z\<close>; what is converted are the members \<^verbatim>\<open>x\<close>, \<^verbatim>\<open>y\<close>, \<^verbatim>\<open>z\<close>.\<close>

definition quat_MakeFromEulerRotation :: "real \<Rightarrow> real \<Rightarrow> real \<Rightarrow> real quaternion \<Rightarrow> real quaternion" where
  "quat_MakeFromEulerRotation X Y Z q =
     (let X = radians (qx q); Y = radians (qy q); Z = radians (qz q);
          X = X * 0.5; Y = Y * 0.5; Z = Z * 0.5;
          sinx = sin X; siny = sin Y; sinz = sin Z; cosx = cos X; cosy = cos Y; cosz = cos Z
      in q\<lparr>qw := cosx * cosy * cosz + sinx * siny * sinz,
           qx := sinx * cosy * cosz + cosx * siny * sinz,
           qy := cosx * siny * cosz - sinx * cosy * sinz,
           qz := cosx * cosy * sinz - sinx * siny * cosz\<rparr>)"

definition quat_MakeFromEulerRotation_vec :: "real vec3 \<Rightarrow> real quaternion \<Rightarrow> real quaternion" where
  "quat_MakeFromEulerRotation_vec v q = quat_MakeFromEulerRotation (vx v) (vy v) (vz v) q"

definition quat_from_vec3_w :: "real vec3 \<Rightarrow> real \<Rightarrow> real quaternion" where
  "quat_from_vec3_w v w = quat_MakeFromAxisAngle v w"

definition quat_ScalarMultiply :: "real quaternion \<Rightarrow> real \<Rightarrow> real quaternion" where
  "quat_ScalarMultiply q t = quat_from_vec3_w (vec3_ScalarMultiply (quat_xyz q) t) (qw q * t)"

definition MakeQuaternionFromAxisAngle :: "real vec3 \<Rightarrow> real \<Rightarrow> real quaternion" where
  "MakeQuaternionFromAxisAngle axis angle = quat_MakeFromAxisAngle axis angle"

definition MakeQuaternionFromEulerRotation_vec :: "real vec3 \<Rightarrow> real quaternion" where
  "MakeQuaternionFromEulerRotation_vec v = quat_MakeFromEulerRotation_vec v quat_zero"

definition MakeQuaternionFromEulerRotation :: "real \<Rightarrow> real \<Rightarrow> real \<Rightarrow> real quaternion" where
  "MakeQuaternionFromEulerRotation x y z = quat_MakeFromEulerRotation x y z quat_zero"

definition mat4_Rotate :: "real list \<Rightarrow> real \<Rightarrow> real vec3 \<Rightarrow> real list" where
  "mat4_Rotate m angle v = mat4_rotated (cos angle) (sin angle) (vec3_GetNormalized v) m"

text \<open>
  The constructors from Euler angles call the member on an object whose members were not set: \<open>junk\<close> is what
  was in its memory.
\<close>

definition quat_from_euler :: "real quaternion \<Rightarrow> real \<Rightarrow> real \<Rightarrow> real \<Rightarrow> real quaternion" where
  "quat_from_euler junk x y z = quat_MakeFromEulerRotation x y z junk"

definition quat_from_euler_vec :: "real quaternion \<Rightarrow> real vec3 \<Rightarrow> real quaternion" where
  "quat_from_euler_vec junk v = quat_MakeFromEulerRotation_vec v junk"

end
