(* ===== verification/RealProps.thy ===== *)
theory RealProps
  imports RealMath
begin

text \<open>
  What the constants are worth, which quaternions the makers make, how the matrices of a quaternion
  turn vectors, and what the comparisons and the tests on vectors look at.
\<close>

section \<open>Constants\<close>

text \<open>
  The constants agree with each other to the digits that are written: the multiples and
  quotients of pi with the literal of pi, the roots with their squares, the golden ratio with its
  equation.
\<close>

theorem constants_agree:
  "\<bar>m_two_pi - 2 * m_pi\<bar> \<le> 10 powi (- 24) \<and> \<bar>m_half_pi - m_pi / 2\<bar> \<le> 10 powi (- 24) \<and>
   \<bar>m_quarter_pi - m_pi / 4\<bar> \<le> 10 powi (- 24) \<and> \<bar>m_three_over_two_pi - 3 / 2 * m_pi\<bar> \<le> 10 powi (- 24) \<and>
   \<bar>m_one_over_pi * m_pi - 1\<bar> \<le> 10 powi (- 24) \<and> \<bar>m_one_over_two_pi * m_two_pi - 1\<bar> \<le> 10 powi (- 24) \<and>
   \<bar>m_two_over_pi * m_pi - 2\<bar> \<le> 10 powi (- 24) \<and> \<bar>m_four_over_pi * m_pi - 4\<bar> \<le> 10 powi (- 24) \<and>
   \<bar>m_root_pi ^ 2 - m_pi\<bar> \<le> 10 powi (- 17) \<and> \<bar>m_two_over_root_pi * m_root_pi - 2\<bar> \<le> 10 powi (- 17) \<and>
   \<bar>m_root_half_pi ^ 2 - m_half_pi\<bar> \<le> 10 powi (- 17) \<and> \<bar>m_root_two_pi ^ 2 - m_two_pi\<bar> \<le> 10 powi (- 17) \<and>
   \<bar>m_root_two ^ 2 - 2\<bar> \<le> 10 powi (- 34) \<and> \<bar>m_one_over_root_two * m_root_two - 1\<bar> \<le> 10 powi (- 34) \<and>
   \<bar>m_root_three ^ 2 - 3\<bar> \<le> 10 powi (- 34) \<and> \<bar>m_root_five ^ 2 - 5\<bar> \<le> 10 powi (- 34) \<and>
   \<bar>m_root_ln_four ^ 2 - 2 * m_ln_two\<bar> \<le> 10 powi (- 16) \<and>
   \<bar>m_golden_ratio ^ 2 - m_golden_ratio - 1\<bar> \<le> 10 powi (- 34) \<and>
   \<bar>m_two_thirds - 2 * m_third\<bar> \<le> 10 powi (- 38) \<and> \<bar>3 * m_third - 1\<bar> \<le> 10 powi (- 38)"
  unfolding m_two_pi_def m_pi_def m_half_pi_def m_quarter_pi_def m_three_over_two_pi_def m_one_over_pi_def
    m_one_over_two_pi_def m_two_over_pi_def m_four_over_pi_def m_root_pi_def m_two_over_root_pi_def
    m_root_half_pi_def m_root_two_pi_def m_root_two_def m_one_over_root_two_def m_root_three_def m_root_five_def
    m_root_ln_four_def m_ln_two_def m_golden_ratio_def m_third_def m_two_thirds_def
  by (simp add: power_int_minus abs_le_iff power2_eq_square)

section \<open>Lengths\<close>

lemma vec3_SquareLength_nonneg: "0 \<le> vec3_SquareLength (v :: real vec3)"
  by (simp add: vec3_SquareLength_def)

lemma vec3_SquareLength_zero: "vec3_SquareLength (v :: real vec3) = 0 \<longleftrightarrow> v = vec3_zero"
proof
  assume "vec3_SquareLength v = 0"
  then have "vx v * vx v + vy v * vy v + vz v * vz v = 0" by (simp add: vec3_SquareLength_def)
  moreover have "0 \<le> vx v * vx v" "0 \<le> vy v * vy v" "0 \<le> vz v * vz v" by simp_all
  ultimately have "vx v * vx v = 0" "vy v * vy v = 0" "vz v * vz v = 0" by linarith+
  then show "v = vec3_zero" by (simp add: vec3_zero_def)
qed (simp add: vec3_SquareLength_def vec3_zero_def)

lemma vec3_normalized_unit:
  assumes "v \<noteq> vec3_zero"
  shows "vec3_SquareLength (vec3_GetNormalized v) = 1"
proof -
  define L where "L = vec3_Lenght v"
  have L: "L * L = vec3_SquareLength v" using vec3_SquareLength_nonneg [of v] by (simp add: L_def vec3_Lenght_def)
  have p: "vec3_SquareLength v \<noteq> 0" using assms by (simp add: vec3_SquareLength_zero)
  have "vec3_SquareLength (vec3_GetNormalized v) = vec3_SquareLength v / (L * L)"
    by (simp add: vec3_GetNormalized_def Let_def vec3_SquareLength_def vec3_make_def add_divide_distrib flip: L_def)
  with L p show ?thesis by simp
qed

section \<open>Quaternions\<close>

lemma quat_Normal_square: "quat_Normal q * quat_Normal q = quat_DotProduct q q"
  by (simp add: quat_Normal_def quat_DotProduct_def)

lemma quat_Normal_conjugate: "quat_Normal (quat_GetConjugate q) = quat_Normal q"
  by (simp add: quat_Normal_def quat_GetConjugate_def quat_make_def)

lemma quat_normalized_unit:
  assumes "quat_DotProduct q q \<noteq> 0"
  shows "quat_DotProduct (quat_GetNormalized q) (quat_GetNormalized q) = (1 :: real)"
proof -
  have "quat_DotProduct (quat_GetNormalized q) (quat_GetNormalized q)
      = quat_DotProduct q q / (quat_Normal q * quat_Normal q)"
    by (simp add: quat_GetNormalized_def Let_def quat_DotProduct_def quat_make_def add_divide_distrib)
  then show ?thesis using assms by (simp add: quat_Normal_square)
qed

lemma axis_angle_unit:
  assumes "axis \<noteq> vec3_zero"
  shows "quat_DotProduct (quat_MakeFromAxisAngle axis angle) (quat_MakeFromAxisAngle axis angle) = 1"
proof -
  define s c where "s = sin (radians angle * 0.5)" and "c = cos (radians angle * 0.5)"
  let ?n = "vec3_GetNormalized axis"
  have m: "quat_MakeFromAxisAngle axis angle = quat_make c (vx ?n * s) (vy ?n * s) (vz ?n * s)"
    by (simp add: quat_MakeFromAxisAngle_def quat_init_list_def s_def c_def Let_def)
  have "quat_DotProduct (quat_MakeFromAxisAngle axis angle) (quat_MakeFromAxisAngle axis angle)
      = c * c + vec3_SquareLength ?n * (s * s)"
    unfolding m by (simp add: quat_make_def quat_DotProduct_def vec3_SquareLength_def algebra_simps)
  also have "\<dots> = c * c + s * s" by (simp add: vec3_normalized_unit [OF assms])
  also have "\<dots> = 1" unfolding s_def c_def using sin_cos_squared_add2 [of "radians angle * 0.5"]
    by (simp only: power2_eq_square)
  finally show ?thesis .
qed

text \<open>
  The makers do not make the quaternions they are asked for. One from Euler angles is the
  identity whatever the angles are. One from an axis and the angle zero is a half turn about the first
  axis, not the identity. And a multiple of a quaternion is taken for an axis and an angle: it has
  length one whatever the factor is.
\<close>

theorem quaternion_makers:
  assumes "axis \<noteq> vec3_zero" and "quat_xyz q \<noteq> vec3_zero" and "t \<noteq> 0"
  shows "MakeQuaternionFromEulerRotation X Y Z = IdentityQuaternion \<and>
         MakeQuaternionFromEulerRotation_vec v = IdentityQuaternion \<and>
         quat_rotate (MakeQuaternionFromAxisAngle axis 0) v = vec3_make (vx v) (- vy v) (- vz v) \<and>
         quat_DotProduct (quat_ScalarMultiply q t) (quat_ScalarMultiply q t) = 1"
proof -
  have e: "MakeQuaternionFromEulerRotation X Y Z = IdentityQuaternion" for X Y Z
    by (simp add: MakeQuaternionFromEulerRotation_def quat_MakeFromEulerRotation_def quat_zero_def quat_make_def
        radians_def IdentityQuaternion_def)
  have "MakeQuaternionFromAxisAngle axis 0 = quat_make 1 0 0 0"
    by (simp add: MakeQuaternionFromAxisAngle_def quat_MakeFromAxisAngle_def radians_def quat_init_list_def)
  moreover have "vec3_ScalarMultiply (quat_xyz q) t \<noteq> vec3_zero"
    using assms(2,3) by (simp add: vec3_ScalarMultiply_def quat_xyz_def vec3_make_def vec3_zero_def)
  ultimately show ?thesis
    using e axis_angle_unit
    by (simp add: MakeQuaternionFromEulerRotation_vec_def quat_MakeFromEulerRotation_vec_def
        MakeQuaternionFromEulerRotation_def quat_rotate_def quat_make_def vec3_make_def
        quat_ScalarMultiply_def quat_from_vec3_w_def)
qed

theorem quaternion_makers_witness:
  "quat_DotProduct (quat_ScalarMultiply (quat_make 1 0 0 0) 5) (quat_ScalarMultiply (quat_make 1 0 0 0) 5) = 1"
  using quaternion_makers [of "vec3_make 1 0 0" "quat_make 1 0 0 0" 5]
  by (simp add: vec3_make_def vec3_zero_def quat_xyz_def quat_make_def)

text \<open>
  \<^verbatim>\<open>GetInverse\<close> is the inverse of a unit quaternion only: the product with any other is its
  length. \<^verbatim>\<open>ToRotationMatrix\<close>, multiplied with a vector, turns it the other way round than \<^verbatim>\<open>GetMatrix\<close>
  and \<^verbatim>\<open>Multiply\<close> do.
\<close>

theorem inverse_and_conversion:
  assumes "quat_DotProduct q q \<noteq> 0"
  shows "quat_Multiply q (quat_GetInverse q) = quat_make 0 0 0 (quat_Normal q) \<and>
         quat_Inverse q = quat_GetInverse q \<and>
         mat4_Multiply (quat_ToRotationMatrix q) (vec4_from_vec3_w v s) =
           vec4_from_vec3_w (quat_rotate (quat_GetConjugate (quat_GetNormalized q)) v) s \<and>
         mat4_Multiply (quat_GetMatrix (quat_GetNormalized q))
             (mat4_Multiply (quat_ToRotationMatrix q) (vec4_from_vec3_w v s)) = vec4_from_vec3_w v 0"
proof -
  define n where "n = quat_Normal q"
  have n: "n * n = quat_DotProduct q q" by (simp add: n_def quat_Normal_square)
  then have n0: "n \<noteq> 0" using assms by auto
  let ?u = "quat_GetNormalized q"
  have u: "quat_DotProduct ?u ?u = 1" by (rule quat_normalized_unit [OF assms])
  have c: "quat_DotProduct (quat_GetConjugate ?u) (quat_GetConjugate ?u) = 1"
    using u by (simp add: quat_defs)
  have "quat_Multiply q (quat_GetInverse q) = quat_make 0 0 0 (quat_DotProduct q q / n)"
    unfolding quat_GetInverse_def quat_Normalize_def Let_def quat_Normal_conjugate n_def [symmetric]
    using n0 by (simp add: quat_defs field_simps)
  moreover have "quat_DotProduct q q / n = n" using n n0 by (simp add: field_simps)
  moreover have r: "mat4_Multiply (quat_ToRotationMatrix q) (vec4_from_vec3_w v s) =
           vec4_from_vec3_w (quat_rotate (quat_GetConjugate ?u) v) s" for v s
    by (simp add: mat4_Multiply_def mat4_apply_def quat_ToRotationMatrix_def mat4_init_list_def mat4_pivot_def
        vec4_from_vec3_w_def quat_rotate_def vec4_add_def vec4_Multiply_def vec4_splat_def mat4_vector_def
        vec4_make_def vec3_make_def cell_def Let_def eval_nat_numeral quat_GetConjugate_def quat_make_def
        algebra_simps)
  moreover have "quat_rotate ?u (quat_rotate (quat_GetConjugate ?u) v) = v"
    using quat_rotate_back [OF c, of v] by (simp add: quat_conjugate_conjugate)
  ultimately show ?thesis
    unfolding n_def [symmetric] by (simp add: quat_GetMatrix_rotates quat_Inverse_def quat_GetInverse_def quat_Conjugate_eq)
qed


theorem inverse_and_conversion_witness:
  "quat_Multiply (quat_make 0 0 0 2) (quat_GetInverse (quat_make 0 0 0 2)) = quat_make 0 0 0 2"
  using inverse_and_conversion [of "quat_make 0 0 0 2"]
  by (simp add: quat_DotProduct_def quat_make_def quat_Normal_def)

section \<open>Rotations about an axis\<close>

text \<open>Rodrigues' formula.\<close>

definition rodrigues :: "real \<Rightarrow> real \<Rightarrow> real vec3 \<Rightarrow> real vec3 \<Rightarrow> real vec3" where
  "rodrigues c s k v =
     vec3_add (vec3_add (vec3_ScalarMultiply v c) (vec3_ScalarMultiply (vec3_CrossProduct k v) s))
       (vec3_ScalarMultiply k ((1 - c) * vec3_DotProduct k v))"

lemma mat4_rotated_rodrigues:
  "mat4_Multiply (mat4_rotated c s k m) (vec4_from_vec3_w v w) = mat4_Multiply m (vec4_from_vec3_w (rodrigues c s k v) w)"
  by (simp add: mat4_Multiply_def mat4_apply_def mat4_rotated_def mat4_from_rows_def vec4_list_def Let_def
      vec4_from_vec3_w_def rodrigues_def vec4_add_def vec4_Multiply_def vec4_splat_def vec4_ScalarMultiply_def
      mat4_vector_def vec4_make_def vec3_add_def vec3_ScalarMultiply_def vec3_CrossProduct_def vec3_DotProduct_def
      cell_def eval_nat_numeral algebra_simps)

lemmas rodrigues_defs = rodrigues_def vec3_add_def vec3_ScalarMultiply_def vec3_CrossProduct_def
  vec3_DotProduct_def vec3_make_def

lemma rodrigues_quaternion:
  assumes "vec3_SquareLength k = 1"
  shows "rodrigues (1 - 2 * (S * S)) (2 * (S * C)) k v =
         quat_rotate (quat_make (vx k * S) (vy k * S) (vz k * S) C) v"
proof -
  obtain a b c where k: "k = vec3_make a b c" by (cases k) (simp add: vec3_make_def)
  obtain x y z where v: "v = vec3_make x y z" by (cases v) (simp add: vec3_make_def)
  have u: "a * a + b * b + c * c = 1" using assms(1) by (simp add: k vec3_SquareLength_def vec3_make_def)
  show ?thesis
  proof (rule vec3_eqI)
    show "vx (rodrigues (1 - 2 * (S * S)) (2 * (S * C)) k v) = vx (quat_rotate (quat_make (vx k * S) (vy k * S) (vz k * S) C) v)"
      using u unfolding k v rodrigues_defs quat_rotate_def Let_def quat_make_def by simp algebra
    show "vy (rodrigues (1 - 2 * (S * S)) (2 * (S * C)) k v) = vy (quat_rotate (quat_make (vx k * S) (vy k * S) (vz k * S) C) v)"
      using u unfolding k v rodrigues_defs quat_rotate_def Let_def quat_make_def by simp algebra
    show "vz (rodrigues (1 - 2 * (S * S)) (2 * (S * C)) k v) = vz (quat_rotate (quat_make (vx k * S) (vy k * S) (vz k * S) C) v)"
      using u unfolding k v rodrigues_defs quat_rotate_def Let_def quat_make_def by simp algebra
  qed
qed

text \<open>
  Property C22. \<^verbatim>\<open>Rotate\<close> turns what the matrix is applied to by the angle, in radians, about the axis,
  whatever its length is: by Rodrigues' formula, which is the rotation of the quaternion with half the
  angle. Lengths are kept.
\<close>

theorem rotate_turns_about_axis:
  assumes "axis \<noteq> vec3_zero"
  shows "let k = vec3_GetNormalized axis; h = angle / 2;
             q = quat_make (vx k * sin h) (vy k * sin h) (vz k * sin h) (cos h);
             turned = rodrigues (cos angle) (sin angle) k v
         in mat4_Multiply (mat4_Rotate m angle axis) (vec4_from_vec3_w v w)
              = mat4_Multiply m (vec4_from_vec3_w turned w) \<and>
            turned = quat_rotate q v \<and> vec3_SquareLength turned = vec3_SquareLength v"
proof -
  define k S C where "k = vec3_GetNormalized axis" and "S = sin (angle / 2)" and "C = cos (angle / 2)"
  have k: "vec3_SquareLength k = 1" unfolding k_def by (rule vec3_normalized_unit [OF assms])
  have one: "C * C + S * S = 1" using sin_cos_squared_add2 [of "angle / 2"]
    by (simp add: C_def S_def power2_eq_square)
  have c: "cos angle = 1 - 2 * (S * S)" using cos_double_sin [of "angle / 2"] by (simp add: S_def power2_eq_square)
  have s: "sin angle = 2 * (S * C)" using sin_double [of "angle / 2"] by (simp add: S_def C_def)
  have t: "rodrigues (cos angle) (sin angle) k v = quat_rotate (quat_make (vx k * S) (vy k * S) (vz k * S) C) v"
    unfolding c s by (rule rodrigues_quaternion [OF k])
  have "quat_DotProduct (quat_make (vx k * S) (vy k * S) (vz k * S) C)
      (quat_make (vx k * S) (vy k * S) (vz k * S) C) = vec3_SquareLength k * (S * S) + C * C"
    by (simp add: quat_DotProduct_def quat_make_def vec3_SquareLength_def algebra_simps)
  then have u: "quat_DotProduct (quat_make (vx k * S) (vy k * S) (vz k * S) C)
      (quat_make (vx k * S) (vy k * S) (vz k * S) C) = 1" using k one by simp
  show ?thesis
    unfolding Let_def k_def [symmetric] S_def [symmetric] C_def [symmetric]
    using t quat_rotate_length [OF u] mat4_rotated_rodrigues by (simp add: mat4_Rotate_def k_def)
qed

theorem rotate_turns_about_axis_witness:
  "vec3_SquareLength (rodrigues (cos 1) (sin 1) (vec3_GetNormalized (vec3_make 0 0 2)) (vec3_make 3 4 0)) = 25"
proof -
  have "vec3_make 0 0 2 \<noteq> (vec3_zero :: real vec3)" by (simp add: vec3_make_def vec3_zero_def)
  from rotate_turns_about_axis [OF this, of 1 "vec3_make 3 4 0"]
  have "vec3_SquareLength (rodrigues (cos 1) (sin 1) (vec3_GetNormalized (vec3_make 0 0 2)) (vec3_make 3 4 0))
      = vec3_SquareLength (vec3_make 3 4 0)"
    unfolding Let_def by blast
  also have "\<dots> = 25" by (simp add: vec3_SquareLength_def vec3_make_def)
  finally show ?thesis .
qed

section \<open>Refraction\<close>

lemma unit_dot_bound:
  assumes "vec3_SquareLength a = 1" and "vec3_SquareLength b = (1 :: real)"
  shows "vec3_DotProduct a b * vec3_DotProduct a b \<le> 1"
proof -
  have "vec3_SquareLength (vec3_CrossProduct a b) + vec3_DotProduct a b * vec3_DotProduct a b
      = vec3_SquareLength a * vec3_SquareLength b"
    by (simp add: vec3_SquareLength_def vec3_CrossProduct_def vec3_DotProduct_def algebra_simps)
  then show ?thesis using assms vec3_SquareLength_nonneg [of "vec3_CrossProduct a b"] by simp
qed

text \<open>
  \<^verbatim>\<open>Refract\<close> of a unit direction at a unit normal obeys Snell's law: the part along the surface
  is the incoming one times the ratio of the indices, and the refracted direction has length one, as
  long as there is no total reflection.
\<close>

theorem refraction_obeys_snell:
  assumes "vec3_SquareLength v = 1" and "vec3_SquareLength n = 1"
    and "eta * eta * (1 - vec3_DotProduct v n * vec3_DotProduct v n) \<le> 1"
  shows "vec3_CrossProduct n (vec3_Refract v n eta) = vec3_ScalarMultiply (vec3_CrossProduct n v) eta \<and>
         vec3_SquareLength (vec3_Refract v n eta) = 1 \<and> vec3_DotProduct (vec3_Refract v n eta) n \<le> 0"
proof -
  define d where "d = vec3_DotProduct v n"
  have dd: "d * d \<le> 1" unfolding d_def by (rule unit_dot_bound [OF assms(1,2)])
  have "- d \<le> 1"
  proof (rule ccontr)
    assume "\<not> - d \<le> 1"
    then have "1 < (- d) * (- d)" by (intro less_1_mult) simp_all
    with dd show False by simp
  qed
  then have cos: "m_min (vec3_DotProduct (vec3_ScalarMultiply v (- 1)) n) 1 = - d"
    by (auto simp: m_min_def d_def vec3_DotProduct_def vec3_ScalarMultiply_def)
  let ?p = "vec3_ScalarMultiply (vec3_add v (vec3_ScalarMultiply n (- d))) eta"
  define P r where "P = ?p" and "r = sqrt \<bar>1 - vec3_SquareLength ?p\<bar>"
  have ref: "vec3_Refract v n eta = vec3_add P (vec3_ScalarMultiply n (- r))"
    by (simp add: vec3_Refract_def cos Let_def P_def r_def)
  have Pn: "vec3_DotProduct P n = eta * (d - d * vec3_SquareLength n)"
    by (simp add: P_def d_def vec3_DotProduct_def vec3_ScalarMultiply_def vec3_add_def vec3_SquareLength_def algebra_simps)
  have PP: "vec3_SquareLength P = eta * eta * (vec3_SquareLength v - 2 * (d * d) + d * d * vec3_SquareLength n)"
    by (simp add: P_def d_def vec3_DotProduct_def vec3_ScalarMultiply_def vec3_add_def vec3_SquareLength_def algebra_simps)
  then have PP: "vec3_SquareLength P = eta * eta * (1 - d * d)" using assms(1,2) by (simp add: algebra_simps)
  have rr: "r * r = 1 - vec3_SquareLength P"
    using assms(3) PP by (simp add: r_def P_def d_def)
  have "vec3_SquareLength (vec3_Refract v n eta)
      = vec3_SquareLength P - 2 * (r * vec3_DotProduct P n) + r * r * vec3_SquareLength n"
    by (simp add: ref vec3_SquareLength_def vec3_DotProduct_def vec3_add_def vec3_ScalarMultiply_def algebra_simps)
  then have "vec3_SquareLength (vec3_Refract v n eta) = 1" using Pn assms(2) rr by simp
  moreover have "vec3_DotProduct (vec3_Refract v n eta) n = vec3_DotProduct P n - r * vec3_SquareLength n"
    by (simp add: ref vec3_SquareLength_def vec3_DotProduct_def vec3_add_def vec3_ScalarMultiply_def algebra_simps)
  then have "vec3_DotProduct (vec3_Refract v n eta) n = - r" using Pn assms(2) by simp
  moreover have "0 \<le> r" by (simp add: r_def)
  moreover have "vec3_CrossProduct n (vec3_Refract v n eta) = vec3_ScalarMultiply (vec3_CrossProduct n v) eta"
    by (simp add: ref P_def vec3_CrossProduct_def vec3_add_def vec3_ScalarMultiply_def algebra_simps)
  ultimately show ?thesis by simp
qed

theorem refraction_obeys_snell_witness:
  "vec3_SquareLength (vec3_Refract (vec3_make 0 (- 1) 0) (vec3_make 0 1 0) (1 / 2)) = 1"
  using refraction_obeys_snell [of "vec3_make 0 (- 1) 0" "vec3_make 0 1 0" "1 / 2"]
  by (simp add: vec3_make_def vec3_SquareLength_def vec3_DotProduct_def)

section \<open>Comparisons\<close>

text \<open>
  The tests on vectors do not test what they say. \<^verbatim>\<open>IsParallelTo\<close> looks at the first component
  of the cross product only, so any two vectors without a third component pass, perpendicular ones
  too. Two vectors whose components differ by between one and two epsilons are both equal and not
  equal. And the orders of a vector with a vector of four components are the wrong way round.
\<close>

theorem comparisons_disagree:
  "(vec3_IsParallelTo a b g \<longleftrightarrow> \<bar>vy a * vz b - vz a * vy b\<bar> < g) \<and>
   (vec3_eq a b \<longleftrightarrow> \<bar>vx a - vx b\<bar> \<le> 2 * FLOAT_EPSILON \<and> \<bar>vy a - vy b\<bar> \<le> 2 * FLOAT_EPSILON \<and>
                  \<bar>vz a - vz b\<bar> \<le> 2 * FLOAT_EPSILON) \<and>
   (vec3_ne a b \<longleftrightarrow> \<bar>vx a - vx b\<bar> > FLOAT_EPSILON \<or> \<bar>vy a - vy b\<bar> > FLOAT_EPSILON \<or>
                  \<bar>vz a - vz b\<bar> > FLOAT_EPSILON) \<and>
   (vec3_gt_vec4 a v = vec3_lt a (vec4_xyz v)) \<and> (vec3_lt_vec4 a v = vec3_gt a (vec4_xyz v))"
proof -
  have g: "m_less_or_equal \<bar>x\<bar> FLOAT_EPSILON \<longleftrightarrow> \<bar>x\<bar> \<le> 2 * FLOAT_EPSILON" for x
    unfolding m_less_or_equal_def m_equal_def FLOAT_EPSILON_def by (rule iffI) (linarith | arith)+
  have p: "vec3_IsParallelTo a b g \<longleftrightarrow> \<bar>vy a * vz b - vz a * vy b\<bar> < g"
    by (auto simp: vec3_IsParallelTo_def vec3_lt_number_def vec3_gt_number_def vec3_CrossProduct_def Let_def)
  show ?thesis
    by (auto simp: p vec3_eq_def vec3_le_number_def vec3_abs_def vec3_make_def vec3_sub_def g vec3_ne_def m_equal_def
        vec3_gt_vec4_def vec3_lt_vec4_def vec3_gt_def vec3_lt_def)
qed

text \<open>What the constructors from Euler angles make depends on the memory and not on the angles.\<close>

lemma euler_constructor_ignores_angles:
  "quat_from_euler junk x y z = quat_from_euler junk x' y' z'"
  "quat_from_euler_vec junk v = quat_from_euler junk 0 0 0"
  "quat_from_euler quat_zero x y z = IdentityQuaternion"
  by (simp_all add: quat_from_euler_def quat_from_euler_vec_def quat_MakeFromEulerRotation_vec_def
      quat_MakeFromEulerRotation_def quat_make_def quat_zero_def IdentityQuaternion_def radians_def Let_def)

end
