(* ===== verification/MathMore.thy ===== *)
theory MathMore
  imports RealMath "HOL-Library.Signed_Division"
begin

text \<open>
  The rest of SpNetCommon/src/spNetMath.h that compiles: the number functions it wraps, powers of
  components, conversions between component types, construction from arrays, element access and the
  free functions that forward to members.

  \<^item> Where the library's function has no real result (a root of a negative number, a power that is not
    a number or infinite, a remainder by zero) the result is \<open>None\<close>.
  \<^item> An array parameter is a pointer: a list, whose cells past the end are undefined to read. So is an
    index past a vector's components, the assertion being off.
  \<^item> A conversion \<^verbatim>\<open>static_cast\<close> between component types is an argument.
\<close>

section \<open>Numbers\<close>

definition MaxFloat32 :: real where
  "MaxFloat32 = (2 - 1 / 2 ^ 23) * 2 ^ 127"

definition MaxFloat64 :: real where
  "MaxFloat64 = (2 - 1 / 2 ^ 52) * 2 ^ 1023"

definition m_pow :: "real \<Rightarrow> real \<Rightarrow> real option" where
  "m_pow x e =
     (if 0 < x then Some (x powr e)
      else if e = of_int \<lfloor>e\<rfloor> \<and> (x \<noteq> 0 \<or> 0 \<le> e)
        then Some (if 0 \<le> e then x ^ nat \<lfloor>e\<rfloor> else inverse (x ^ nat (- \<lfloor>e\<rfloor>)))
      else if x = 0 \<and> 0 < e then Some 0 else None)"

text \<open>The overload for two \<^verbatim>\<open>float\<close>s has no \<^verbatim>\<open>return\<close>.\<close>

definition m_pow_float :: "real \<Rightarrow> real \<Rightarrow> 'a res" where
  "m_pow_float value e = Inl Undefined"

definition m_pow_double :: "real \<Rightarrow> real \<Rightarrow> real option res" where
  "m_pow_double value e = Inr (m_pow value e)"

definition m_sqrt :: "real \<Rightarrow> real option" where
  "m_sqrt x = (if 0 \<le> x then Some (sqrt x) else None)"

definition m_abs :: "real \<Rightarrow> real" where
  "m_abs x = \<bar>x\<bar>"

definition vec2_abs :: "real vec2 \<Rightarrow> real vec2" where
  "vec2_abs v = vec2_make \<bar>v2x v\<bar> \<bar>v2y v\<bar>"

definition vec4_abs :: "real vec4 \<Rightarrow> real vec4" where
  "vec4_abs v = vec4_make \<bar>v4x v\<bar> \<bar>v4y v\<bar> \<bar>v4z v\<bar> \<bar>v4w v\<bar>"

text \<open>\<^verbatim>\<open>x % y\<close> of two \<^verbatim>\<open>int\<close>s: undefined for zero, and when the quotient overflows.\<close>

definition m_mod_int :: "i32 \<Rightarrow> i32 \<Rightarrow> i32 res" where
  "m_mod_int x y =
     (if y = 0 \<or> sint x = - (2 ^ 31) \<and> sint y = - 1 then Inl Undefined
      else Inr (word_of_int (sint x smod sint y)))"

text \<open>\<^verbatim>\<open>std::fmod\<close>: the quotient is cut towards zero.\<close>

definition trunc :: "real \<Rightarrow> int" where
  "trunc x = (if 0 \<le> x then \<lfloor>x\<rfloor> else \<lceil>x\<rceil>)"

definition m_mod :: "real \<Rightarrow> real \<Rightarrow> real option" where
  "m_mod x y = (if y = 0 then None else Some (x - of_int (trunc (x / y)) * y))"

definition m_cos :: "real \<Rightarrow> real" where
  "m_cos x = cos x"

definition m_sin :: "real \<Rightarrow> real" where
  "m_sin x = sin x"

definition m_acos :: "real \<Rightarrow> real option" where
  "m_acos x = (if \<bar>x\<bar> \<le> 1 then Some (arccos x) else None)"

definition m_asin :: "real \<Rightarrow> real option" where
  "m_asin x = (if \<bar>x\<bar> \<le> 1 then Some (arcsin x) else None)"

section \<open>Vectors\<close>

subsection \<open>Powers\<close>

text \<open>\<open>pw\<close> is the overload of \<^verbatim>\<open>pow\<close> that is chosen for the component type.\<close>

definition vec3_pow :: "('a \<Rightarrow> 'a \<Rightarrow> 'b res) \<Rightarrow> 'a vec3 \<Rightarrow> 'a vec3 \<Rightarrow> 'b vec3 res" where
  "vec3_pow pw v b =
     res_bind (pw (vx v) (vx b)) (\<lambda>x. res_bind (pw (vy v) (vy b)) (\<lambda>y. res_bind (pw (vz v) (vz b)) (\<lambda>z.
       Inr (vec3_make x y z))))"

definition PowEachElement_vec :: "('a \<Rightarrow> 'a \<Rightarrow> 'b res) \<Rightarrow> 'a vec3 \<Rightarrow> 'a vec3 \<Rightarrow> 'b vec3 res" where
  "PowEachElement_vec pw v b = vec3_pow pw v b"

definition PowEachElement :: "('a \<Rightarrow> 'a \<Rightarrow> 'b res) \<Rightarrow> 'a vec3 \<Rightarrow> 'a \<Rightarrow> 'b vec3 res" where
  "PowEachElement pw v xE = vec3_pow pw v (vec3_splat xE)"

definition SelfPowEachElement :: "('a \<Rightarrow> 'a \<Rightarrow> 'a res) \<Rightarrow> 'a vec3 \<Rightarrow> 'a \<Rightarrow> 'a vec3 res" where
  "SelfPowEachElement pw v xE =
     res_bind (pw (vx v) xE) (\<lambda>x. let v1 = v\<lparr>vx := x\<rparr>
     in res_bind (pw (vy v1) xE) (\<lambda>y. let v2 = v1\<lparr>vy := y\<rparr>
     in res_bind (pw (vz v2) xE) (\<lambda>z. Inr (v2\<lparr>vz := z\<rparr>))))"

definition SelfPowEachElement_vec :: "('a \<Rightarrow> 'a \<Rightarrow> 'a res) \<Rightarrow> 'a vec3 \<Rightarrow> 'a vec3 \<Rightarrow> 'a vec3 res" where
  "SelfPowEachElement_vec pw v b =
     res_bind (pw (vx v) (vx b)) (\<lambda>x. let v1 = v\<lparr>vx := x\<rparr>
     in res_bind (pw (vy v1) (vy b)) (\<lambda>y. let v2 = v1\<lparr>vy := y\<rparr>
     in res_bind (pw (vz v2) (vz b)) (\<lambda>z. Inr (v2\<lparr>vz := z\<rparr>))))"

text \<open>\<^verbatim>\<open>^\<close> and \<^verbatim>\<open>^=\<close>.\<close>

definition vec3_xor :: "('a \<Rightarrow> 'a \<Rightarrow> 'b res) \<Rightarrow> 'a vec3 \<Rightarrow> 'a vec3 \<Rightarrow> 'b vec3 res" where
  "vec3_xor pw v b = PowEachElement_vec pw v b"

definition vec3_xor_assign :: "('a \<Rightarrow> 'a \<Rightarrow> 'a res) \<Rightarrow> 'a vec3 \<Rightarrow> 'a vec3 \<Rightarrow> 'a vec3 res" where
  "vec3_xor_assign pw v p = SelfPowEachElement_vec pw v p"

definition vec3_xor_number :: "('a \<Rightarrow> 'a \<Rightarrow> 'b res) \<Rightarrow> 'a vec3 \<Rightarrow> 'a \<Rightarrow> 'b vec3 res" where
  "vec3_xor_number pw v p = PowEachElement pw v p"

definition vec3_xor_assign_number :: "('a \<Rightarrow> 'a \<Rightarrow> 'a res) \<Rightarrow> 'a vec3 \<Rightarrow> 'a \<Rightarrow> 'a vec3 res" where
  "vec3_xor_assign_number pw v p = SelfPowEachElement pw v p"

subsection \<open>Adding in place\<close>

definition vec2_plus_number :: "'a::plus vec2 \<Rightarrow> 'a \<Rightarrow> 'a vec2" where
  "vec2_plus_number v b = vec2_ScalarAdd v b"

definition vec2_add_assign :: "'a::plus vec2 \<Rightarrow> 'a vec2 \<Rightarrow> 'a vec2" where
  "vec2_add_assign v b = v\<lparr>v2x := v2x v + v2x b, v2y := v2y v + v2y b\<rparr>"

definition vec2_add_assign_number :: "'a::plus vec2 \<Rightarrow> 'a \<Rightarrow> 'a vec2" where
  "vec2_add_assign_number v b = v\<lparr>v2x := v2x v + b, v2y := v2y v + b\<rparr>"

definition vec3_DotProductFromSelf :: "'a::{plus,times} vec3 \<Rightarrow> 'a" where
  "vec3_DotProductFromSelf v = vec3_SquareLength v"

definition vec3_left_times :: "'a::times \<Rightarrow> 'a vec3 \<Rightarrow> 'a vec3" where
  "vec3_left_times a vec = vec3_ScalarMultiply vec a"

definition vec3_left_plus :: "'a::plus \<Rightarrow> 'a vec3 \<Rightarrow> 'a vec3" where
  "vec3_left_plus a vec = vec3_ScalarAdd vec a"

subsection \<open>Making and casting\<close>

definition vec3_from_array :: "'a list \<Rightarrow> 'a vec3 res" where
  "vec3_from_array ds = (if 3 \<le> length ds then Inr (vec3_make (ds ! 0) (ds ! 1) (ds ! 2)) else Inl Undefined)"

definition vec2_from_array :: "'a list \<Rightarrow> 'a vec2 res" where
  "vec2_from_array ds = (if 2 \<le> length ds then Inr (vec2_make (ds ! 0) (ds ! 1)) else Inl Undefined)"

definition vec4_from_array :: "'a list \<Rightarrow> 'a vec4 res" where
  "vec4_from_array ds =
     (if 4 \<le> length ds then Inr (vec4_make (ds ! 0) (ds ! 1) (ds ! 2) (ds ! 3)) else Inl Undefined)"

definition quat_from_array :: "'a list \<Rightarrow> 'a quaternion res" where
  "quat_from_array ds =
     (if 4 \<le> length ds then Inr (quat_make (ds ! 0) (ds ! 1) (ds ! 2) (ds ! 3)) else Inl Undefined)"

definition vec3_from_vec2_z :: "'a vec2 \<Rightarrow> 'a \<Rightarrow> 'a vec3" where
  "vec3_from_vec2_z v z = vec3_make (v2x v) (v2y v) z"

definition vec3_from_x_vec2 :: "'a \<Rightarrow> 'a vec2 \<Rightarrow> 'a vec3" where
  "vec3_from_x_vec2 x v = vec3_make x (v2x v) (v2y v)"

definition vec2_cast :: "('a \<Rightarrow> 'b) \<Rightarrow> 'a vec2 \<Rightarrow> 'b vec2" where
  "vec2_cast cast v = vec2_make (cast (v2x v)) (cast (v2y v))"

definition vec3_cast :: "('a \<Rightarrow> 'b) \<Rightarrow> 'a vec3 \<Rightarrow> 'b vec3" where
  "vec3_cast cast v = vec3_make (cast (vx v)) (cast (vy v)) (cast (vz v))"

definition vec4_cast :: "('a \<Rightarrow> 'b) \<Rightarrow> 'a vec4 \<Rightarrow> 'b vec4" where
  "vec4_cast cast v = vec4_make (cast (v4x v)) (cast (v4y v)) (cast (v4z v)) (cast (v4w v))"

definition quat_cast :: "('a \<Rightarrow> 'b) \<Rightarrow> 'a quaternion \<Rightarrow> 'b quaternion" where
  "quat_cast cast q = quat_make (cast (qx q)) (cast (qy q)) (cast (qz q)) (cast (qw q))"

subsection \<open>Element access\<close>

definition at_index :: "'a list \<Rightarrow> nat \<Rightarrow> 'a res" where
  "at_index data i = (if i < length data then Inr (data ! i) else Inl Undefined)"

definition vec2_at :: "'a vec2 \<Rightarrow> nat \<Rightarrow> 'a res" where
  "vec2_at v i = at_index [v2x v, v2y v] i"

definition vec3_at :: "'a vec3 \<Rightarrow> nat \<Rightarrow> 'a res" where
  "vec3_at v i = at_index [vx v, vy v, vz v] i"

definition vec4_at :: "'a vec4 \<Rightarrow> nat \<Rightarrow> 'a res" where
  "vec4_at v i = at_index [v4x v, v4y v, v4z v, v4w v] i"

definition quat_at :: "'a quaternion \<Rightarrow> nat \<Rightarrow> 'a res" where
  "quat_at q i = at_index [qx q, qy q, qz q, qw q] i"

section \<open>Quaternions\<close>

definition quat_times :: "'a::comm_ring_1 quaternion \<Rightarrow> 'a quaternion \<Rightarrow> 'a quaternion" where
  "quat_times q p = quat_Multiply q p"

text \<open>The two products with a vector compute it and return nothing.\<close>

definition quat_times_vec3 :: "'a::comm_ring_1 quaternion \<Rightarrow> 'a vec3 \<Rightarrow> 'a vec3 res" where
  "quat_times_vec3 q v = Inl Undefined"

definition vec3_times_quat :: "'a::comm_ring_1 vec3 \<Rightarrow> 'a quaternion \<Rightarrow> 'a vec3 res" where
  "vec3_times_quat v q = Inl Undefined"

section \<open>Matrices\<close>

definition mat2_from_vec2s :: "'a vec2 list \<Rightarrow> 'a list res" where
  "mat2_from_vec2s vs = (if 2 \<le> length vs then Inr (mat2_from_rows (vs ! 0) (vs ! 1)) else Inl Undefined)"

text \<open>From an array of cells, or of rows of cells.\<close>

definition mat2_from_cells :: "'a list \<Rightarrow> 'a list res" where
  "mat2_from_cells ds = (if 4 \<le> length ds then Inr (take 4 ds) else Inl Undefined)"

definition mat2_from_cell_rows :: "'a list list \<Rightarrow> 'a list res" where
  "mat2_from_cell_rows ds =
     (if 2 \<le> length ds \<and> list_all (\<lambda>r. length r = 2) ds then Inr (take 4 (concat ds)) else Inl Undefined)"

definition mat3_make :: "'a \<Rightarrow> 'a \<Rightarrow> 'a \<Rightarrow> 'a \<Rightarrow> 'a \<Rightarrow> 'a \<Rightarrow> 'a \<Rightarrow> 'a \<Rightarrow> 'a \<Rightarrow> 'a list" where
  "mat3_make aE bE cE dE eE fE gE hE iE = [aE, bE, cE, dE, eE, fE, gE, hE, iE]"

definition mat3_from_cells :: "'a list \<Rightarrow> 'a list res" where
  "mat3_from_cells ds = (if 9 \<le> length ds then Inr (take 9 ds) else Inl Undefined)"

definition mat3_from_cell_rows :: "'a list list \<Rightarrow> 'a list res" where
  "mat3_from_cell_rows ds =
     (if 3 \<le> length ds \<and> list_all (\<lambda>r. length r = 3) ds then Inr (take 9 (concat ds)) else Inl Undefined)"

definition mat4_from_cells :: "'a list \<Rightarrow> 'a list res" where
  "mat4_from_cells ds = (if 16 \<le> length ds then Inr (take 16 ds) else Inl Undefined)"

definition mat4_from_cell_rows :: "'a list list \<Rightarrow> 'a list res" where
  "mat4_from_cell_rows ds =
     (if 4 \<le> length ds \<and> list_all (\<lambda>r. length r = 4) ds then Inr (take 16 (concat ds)) else Inl Undefined)"

definition mat2_cast :: "('a \<Rightarrow> 'b) \<Rightarrow> 'a list \<Rightarrow> 'b list" where
  "mat2_cast cast m = map cast (take 4 m)"

definition mat3_cast :: "('a \<Rightarrow> 'b) \<Rightarrow> 'a list \<Rightarrow> 'b list" where
  "mat3_cast cast m = map cast (take 9 m)"

definition mat2_times :: "'a::comm_ring_1 list \<Rightarrow> 'a list \<Rightarrow> 'a list" where
  "mat2_times m b = mat2_Multiply m b"

section \<open>Free functions\<close>

text \<open>
  They forward to the members; the guard of the two tests is the default argument. \<^verbatim>\<open>Length\<close> and
  \<^verbatim>\<open>Inverse\<close> name members that do not exist.
\<close>

definition f_IsPerpendicular :: "real vec3 \<Rightarrow> real vec3 \<Rightarrow> bool" where
  "f_IsPerpendicular vecA vecB = vec3_IsPerpendicularTo vecA vecB FLOAT_EPSILON"

definition f_IsParallel :: "real vec3 \<Rightarrow> real vec3 \<Rightarrow> bool" where
  "f_IsParallel vecA vecB = vec3_IsParallelTo vecA vecB FLOAT_EPSILON"

definition f_Add :: "'a::plus vec3 \<Rightarrow> 'a vec3 \<Rightarrow> 'a vec3" where
  "f_Add lft rgt = vec3_add lft rgt"

definition f_ScalarAdd :: "'a::plus vec3 \<Rightarrow> 'a \<Rightarrow> 'a vec3" where
  "f_ScalarAdd lft rgt = vec3_ScalarAdd lft rgt"

definition f_Subtract :: "'a::minus vec3 \<Rightarrow> 'a vec3 \<Rightarrow> 'a vec3" where
  "f_Subtract lft rgt = vec3_sub lft rgt"

definition f_ScalarSubtract :: "'a::minus vec3 \<Rightarrow> 'a \<Rightarrow> 'a vec3" where
  "f_ScalarSubtract lft rgt = vec3_ScalarSubtract lft rgt"

definition f_Multiply :: "'a::times vec3 \<Rightarrow> 'a vec3 \<Rightarrow> 'a vec3" where
  "f_Multiply lft rgt = vec3_mult lft rgt"

definition f_ScalarMultiply :: "'a::times vec3 \<Rightarrow> 'a \<Rightarrow> 'a vec3" where
  "f_ScalarMultiply lft rgt = vec3_ScalarMultiply lft rgt"

definition f_Divide :: "'a::field vec3 \<Rightarrow> 'a vec3 \<Rightarrow> 'a vec3" where
  "f_Divide lft rgt = vec3_divide lft rgt"

definition f_ScalarDivide :: "'a::field vec3 \<Rightarrow> 'a \<Rightarrow> 'a vec3" where
  "f_ScalarDivide lft rgt = vec3_ScalarDivide lft rgt"

definition f_ProjectionFrom :: "'a::field vec3 \<Rightarrow> 'a vec3 \<Rightarrow> 'a vec3" where
  "f_ProjectionFrom lft rgt = vec3_ProjectionFrom lft rgt"

definition f_Projection :: "'a::field vec3 \<Rightarrow> 'a vec3 \<Rightarrow> 'a vec3" where
  "f_Projection lft rgt = vec3_Projection lft rgt"

definition f_DotProduct :: "'a::{plus,times} vec3 \<Rightarrow> 'a vec3 \<Rightarrow> 'a" where
  "f_DotProduct lft rgt = vec3_DotProduct lft rgt"

definition f_CrossProduct :: "'a::{minus,times} vec3 \<Rightarrow> 'a vec3 \<Rightarrow> 'a vec3" where
  "f_CrossProduct lft rgt = vec3_CrossProduct lft rgt"

definition f_SquareLength :: "'a::{plus,times} vec3 \<Rightarrow> 'a" where
  "f_SquareLength vec = vec3_SquareLength vec"

definition f_SquareMagnitude :: "'a::{plus,times} vec3 \<Rightarrow> 'a" where
  "f_SquareMagnitude vec = vec3_SquareLength vec"

definition f_Magnitude :: "real vec3 \<Rightarrow> real" where
  "f_Magnitude vec = vec3_Lenght vec"

definition f_Normalize :: "real vec3 \<Rightarrow> real vec3" where
  "f_Normalize vec = vec3_GetNormalized vec"

definition f_Rotate :: "real list \<Rightarrow> real \<Rightarrow> real vec3 \<Rightarrow> real list" where
  "f_Rotate m angle vec = mat4_Rotate m angle vec"

section \<open>Properties\<close>

text \<open>The operators in place give what the others give.\<close>

lemma SelfPow_is_Pow: "SelfPowEachElement pw v xE = PowEachElement pw v xE"
  by (cases v; simp add: SelfPowEachElement_def PowEachElement_def vec3_pow_def vec3_splat_def vec3_make_def Let_def)

lemma SelfPow_vec_is_Pow: "SelfPowEachElement_vec pw v b = PowEachElement_vec pw v b"
  by (cases v; simp add: SelfPowEachElement_vec_def PowEachElement_vec_def vec3_pow_def vec3_make_def Let_def)

lemma vec2_assign: "vec2_add_assign v b = vec2_add v b" "vec2_add_assign_number v c = vec2_ScalarAdd v c"
  by (simp_all add: vec2_add_assign_def vec2_add_assign_number_def vec2_add_def vec2_ScalarAdd_def vec2_make_def)

text \<open>No power of a vector of \<^verbatim>\<open>float\<close>s is defined.\<close>

lemma float_powers_undefined: "PowEachElement m_pow_float v e = Inl Undefined" "vec3_xor m_pow_float v b = Inl Undefined"
  by (simp_all add: PowEachElement_def vec3_xor_def PowEachElement_vec_def vec3_pow_def m_pow_float_def)

text \<open>A conversion that loses nothing can be undone.\<close>

lemma casts_undone:
  assumes "\<And>x. back (cast x) = x"
  shows "vec2_cast back (vec2_cast cast v2) = v2" "vec3_cast back (vec3_cast cast v3) = v3"
    "vec4_cast back (vec4_cast cast v4) = v4" "quat_cast back (quat_cast cast q) = q"
    "length m = 4 \<Longrightarrow> mat2_cast back (mat2_cast cast m) = m"
    "length m = 9 \<Longrightarrow> mat3_cast back (mat3_cast cast m) = m"
  by (simp_all add: vec2_cast_def vec3_cast_def vec4_cast_def quat_cast_def mat2_cast_def mat3_cast_def
      vec2_make_def vec3_make_def vec4_make_def quat_make_def assms take_map comp_def)

text \<open>Rows of cells are the cells of the rows.\<close>

lemma concat_rows: "list_all (\<lambda>r. length r = n) ds \<Longrightarrow> length (concat ds) = n * length ds"
  by (induction ds) auto

lemma from_cell_rows:
  "list_all (\<lambda>r. length r = 2) ds \<Longrightarrow> mat2_from_cell_rows ds = mat2_from_cells (concat ds)"
  "list_all (\<lambda>r. length r = 3) ds \<Longrightarrow> mat3_from_cell_rows ds = mat3_from_cells (concat ds)"
  "list_all (\<lambda>r. length r = 4) ds \<Longrightarrow> mat4_from_cell_rows ds = mat4_from_cells (concat ds)"
  by (auto simp: mat2_from_cell_rows_def mat2_from_cells_def mat3_from_cell_rows_def mat3_from_cells_def
      mat4_from_cell_rows_def mat4_from_cells_def concat_rows)

text \<open>
  The remainder: what is left of \<open>x\<close> after whole multiples of \<open>y\<close> are taken, smaller than \<open>y\<close> in
  size and not of the opposite sign of \<open>x\<close>.
\<close>

lemma trunc_bounds: "\<bar>x - of_int (trunc x)\<bar> < 1" "0 \<le> x * (x - of_int (trunc x))"
proof -
  show "\<bar>x - of_int (trunc x)\<bar> < 1" unfolding trunc_def by (auto; linarith)
  show "0 \<le> x * (x - of_int (trunc x))"
  proof (cases "0 \<le> x")
    case True
    then show ?thesis by (simp add: trunc_def)
  next
    case False
    then show ?thesis by (simp add: trunc_def mult_nonpos_nonpos)
  qed
qed

lemma fmod_remainder:
  assumes "y \<noteq> 0"
  obtains r k where "m_mod x y = Some r" "x = of_int k * y + r" "\<bar>r\<bar> < \<bar>y\<bar>" "0 \<le> x * r"
proof
  let ?k = "trunc (x / y)" and ?r = "x - of_int (trunc (x / y)) * y"
  show "m_mod x y = Some ?r" using assms by (simp add: m_mod_def)
  show "x = of_int ?k * y + ?r" by simp
  have r: "?r = (x / y - of_int ?k) * y" using assms by (simp add: field_simps)
  show "\<bar>?r\<bar> < \<bar>y\<bar>"
    using mult_strict_right_mono [OF trunc_bounds(1) [of "x / y"], of "\<bar>y\<bar>"] assms unfolding r abs_mult by simp
  have "x * ?r = (x / y * (x / y - of_int ?k)) * (y * y)" using assms by (simp add: field_simps)
  then show "0 \<le> x * ?r" using mult_nonneg_nonneg [OF trunc_bounds(2) [of "x / y"] zero_le_square [of y]] by (simp only:)
qed

lemma mod_int_remainder:
  fixes x y :: i32
  assumes "y \<noteq> 0" and "\<not> (sint x = - (2 ^ 31) \<and> sint y = - 1)"
  obtains r where "m_mod_int x y = Inr r" "sint x = sint x sdiv sint y * sint y + sint r" "\<bar>sint r\<bar> < \<bar>sint y\<bar>"
proof
  let ?r = "sint x smod sint y"
  have "?r \<in> {- \<bar>sint y\<bar> + 1..\<bar>sint y\<bar> - 1}"
    using assms(1) by (intro smod_int_range) (simp add: signed_eq_0_iff)
  then have lt: "\<bar>?r\<bar> < \<bar>sint y\<bar>" unfolding atLeastAtMost_iff by linarith
  have "- (2 ^ 31) \<le> sint y" "sint y < 2 ^ 31"
    using sint_greater_eq [of y] sint_less [of y] by simp_all
  then have range: "- (2 ^ 31) \<le> ?r" "?r < 2 ^ 31" using lt by linarith+
  show "m_mod_int x y = Inr (word_of_int ?r)" using assms by (simp add: m_mod_int_def)
  have r: "sint (word_of_int ?r :: i32) = ?r" using range by (simp add: sint_sbintrunc' signed_take_bit_int_eq_self)
  show "sint x = sint x sdiv sint y * sint y + sint (word_of_int ?r :: i32)"
    unfolding r by (rule sdiv_mult_smod_eq [symmetric])
  show "\<bar>sint (word_of_int ?r :: i32)\<bar> < \<bar>sint y\<bar>" unfolding r by (rule lt)
qed

section \<open>The names inside a matrix\<close>

text \<open>
  The members of a matrix are a union: \<^verbatim>\<open>data\<close>, \<^verbatim>\<open>lineArrayData\<close>, \<^verbatim>\<open>vectors\<close>, and structures that give the cells and
  the rows names. The tables give for a name the cell of \<^verbatim>\<open>lineArrayData\<close>, or the row of \<^verbatim>\<open>vectors\<close>, at its place.
\<close>

definition mat2_cell_names :: "(string \<times> nat) list" where
  "mat2_cell_names =
    [(''a'', 0), (''b'', 1), (''c'', 2), (''d'', 3), (''a11'', 0), (''a12'', 1), (''a21'', 2), (''a22'',
     3)]"

definition mat2_row_names :: "(string \<times> nat) list" where
  "mat2_row_names =
    [(''xVector'', 0), (''yVector'', 1), (''rVector'', 0), (''gVector'', 1)]"

definition mat3_cell_names :: "(string \<times> nat) list" where
  "mat3_cell_names =
    [(''a'', 0), (''b'', 1), (''c'', 2), (''d'', 3), (''e'', 4), (''f'', 5), (''g'', 6), (''h'', 7),
     (''i'', 8), (''a11'', 0), (''a12'', 1), (''a13'', 2), (''a21'', 3), (''a22'', 4), (''a23'', 5),
     (''a31'', 6), (''a32'', 7), (''a33'', 8)]"

definition mat3_row_names :: "(string \<times> nat) list" where
  "mat3_row_names =
    [(''xVector'', 0), (''yVector'', 1), (''zVector'', 2), (''rVector'', 0), (''gVector'', 1),
     (''bVector'', 2)]"

definition mat4_cell_names :: "(string \<times> nat) list" where
  "mat4_cell_names =
    [(''a'', 0), (''b'', 1), (''c'', 2), (''d'', 3), (''e'', 4), (''f'', 5), (''g'', 6), (''h'', 7),
     (''i'', 8), (''j'', 9), (''k'', 10), (''l'', 11), (''m'', 12), (''n'', 13), (''o'', 14), (''p'',
     15), (''a11'', 0), (''a12'', 1), (''a13'', 2), (''a14'', 3), (''a21'', 4), (''a22'', 5), (''a23'',
     6), (''a24'', 7), (''a31'', 8), (''a32'', 9), (''a33'', 10), (''a34'', 11), (''a41'', 12), (''a42'',
     13), (''a43'', 14), (''a44'', 15)]"

definition mat4_row_names :: "(string \<times> nat) list" where
  "mat4_row_names =
    [(''xVector'', 0), (''yVector'', 1), (''zVector'', 2), (''wVector'', 3), (''rVector'', 0),
     (''gVector'', 1), (''bVector'', 2), (''aVector'', 3)]"

definition named_cell :: "(string \<times> nat) list \<Rightarrow> 'a list \<Rightarrow> string \<Rightarrow> 'a option" where
  "named_cell t m x = map_option (\<lambda>i. m ! i) (map_of t x)"

text \<open>
  The names agree: each of \<open>a11\<close>, \<open>a12\<close>, ... is the element of \<^verbatim>\<open>data\<close> with one-based indices, the letters go
  through the cells in the same order, and a row's name is the row \<^verbatim>\<open>operator[]\<close> returns.
\<close>

definition index_name :: "nat \<Rightarrow> nat \<Rightarrow> string" where
  "index_name i j = ''a'' @ [''1234'' ! i, ''1234'' ! j]"

lemma cell_names_agree:
  "\<forall>i < 2. \<forall>j < 2. named_cell mat2_cell_names m (index_name i j) = Some (cell 2 m i j)"
  "\<forall>i < 3. \<forall>j < 3. named_cell mat3_cell_names m (index_name i j) = Some (cell 3 m i j)"
  "\<forall>i < 4. \<forall>j < 4. named_cell mat4_cell_names m (index_name i j) = Some (cell 4 m i j)"
  by (simp_all add: eval_nat_numeral All_less_Suc named_cell_def cell_def index_name_def
      mat2_cell_names_def mat3_cell_names_def mat4_cell_names_def)

lemma letters_in_order:
  "map (named_cell mat2_cell_names [a, b, c, d]) (map (\<lambda>x. [x]) ''abcd'') = map Some [a, b, c, d]"
  "map (map_of mat3_cell_names) (map (\<lambda>x. [x]) ''abcdefghi'') = map Some [0..<9]"
  "map (map_of mat4_cell_names) (map (\<lambda>x. [x]) ''abcdefghijklmnop'') = map Some [0..<16]"
  by (simp_all add: named_cell_def mat2_cell_names_def mat3_cell_names_def mat4_cell_names_def upt_rec numeral_2_eq_2)

text \<open>A matrix made of rows has them under their names.\<close>

lemma row_names_agree:
  "map_option (mat2_vector (mat2_from_rows u v)) (map_of mat2_row_names ''yVector'') = Some v"
  "map_option (mat2_vector (mat2_from_rows u v)) (map_of mat2_row_names ''rVector'') = Some u"
  "map_option (mat3_vector (mat3_from_rows p q r)) (map_of mat3_row_names ''bVector'') = Some r"
  "map_of mat4_row_names ''wVector'' = map_of mat4_row_names ''aVector''"
  by (simp_all add: mat2_row_names_def mat3_row_names_def mat4_row_names_def mat2_vector_def mat2_from_rows_def
      mat3_vector_def mat3_from_rows_def cell_def vec2_make_def vec3_make_def)

end
