(* ===== verification/TextOut.thy ===== *)
theory TextOut
  imports Matrices ClientText Message
begin

text \<open>
  What the operators \<^verbatim>\<open><<\<close> of the mathematical classes (SpNetCommon/src/spNetMath.h) and of messages
  (spNetMessage.h) put into a stream. \<^verbatim>\<open>std::ostream\<close>'s own output of a number is the argument \<open>pr\<close>; for
  integers it is \<open>show_word\<close>. The locale below states what the text needs of it to be read back.
\<close>

section \<open>The model\<close>

definition print_vec2 :: "('a \<Rightarrow> string) \<Rightarrow> 'a vec2 \<Rightarrow> string" where
  "print_vec2 pr vec = ''['' @ pr (v2x vec) @ '':'' @ pr (v2y vec) @ '']''"

definition print_vec3 :: "('a \<Rightarrow> string) \<Rightarrow> 'a vec3 \<Rightarrow> string" where
  "print_vec3 pr vec = ''['' @ pr (vx vec) @ '':'' @ pr (vy vec) @ '':'' @ pr (vz vec) @ '']''"

definition print_vec4 :: "('a \<Rightarrow> string) \<Rightarrow> 'a vec4 \<Rightarrow> string" where
  "print_vec4 pr vec =
     ''['' @ pr (v4x vec) @ '':'' @ pr (v4y vec) @ '':'' @ pr (v4z vec) @ '':'' @ pr (v4w vec) @ '']''"

definition print_quaternion :: "('a \<Rightarrow> string) \<Rightarrow> 'a quaternion \<Rightarrow> string" where
  "print_quaternion pr q = print_vec4 pr (vec4_from_quaternion q)"

definition print_mat2 :: "('a \<Rightarrow> string) \<Rightarrow> 'a list \<Rightarrow> string" where
  "print_mat2 pr m =
     ''['' @ pr (cell 2 m 0 0) @ '':'' @ pr (cell 2 m 0 1) @ '']'' @ [newline] @
     ''['' @ pr (cell 2 m 1 0) @ '':'' @ pr (cell 2 m 1 1) @ '']'' @ [newline]"

definition print_mat3 :: "('a \<Rightarrow> string) \<Rightarrow> 'a list \<Rightarrow> string" where
  "print_mat3 pr m =
     ''['' @ pr (cell 3 m 0 0) @ '':'' @ pr (cell 3 m 0 1) @ '':'' @ pr (cell 3 m 0 2) @ '']'' @ [newline] @
     ''['' @ pr (cell 3 m 1 0) @ '':'' @ pr (cell 3 m 1 1) @ '':'' @ pr (cell 3 m 1 2) @ '']'' @ [newline] @
     ''['' @ pr (cell 3 m 2 0) @ '':'' @ pr (cell 3 m 2 1) @ '':'' @ pr (cell 3 m 2 2) @ '']'' @ [newline]"

definition print_mat4 :: "('a \<Rightarrow> string) \<Rightarrow> 'a list \<Rightarrow> string" where
  "print_mat4 pr m =
     ''['' @ pr (cell 4 m 0 0) @ '':'' @ pr (cell 4 m 0 1) @ '':'' @ pr (cell 4 m 0 2) @ '':'' @ pr (cell 4 m 0 3) @ '']'' @ [newline] @
     ''['' @ pr (cell 4 m 1 0) @ '':'' @ pr (cell 4 m 1 1) @ '':'' @ pr (cell 4 m 1 2) @ '':'' @ pr (cell 4 m 1 3) @ '']'' @ [newline] @
     ''['' @ pr (cell 4 m 2 0) @ '':'' @ pr (cell 4 m 2 1) @ '':'' @ pr (cell 4 m 2 2) @ '':'' @ pr (cell 4 m 2 3) @ '']'' @ [newline] @
     ''['' @ pr (cell 4 m 3 0) @ '':'' @ pr (cell 4 m 3 1) @ '':'' @ pr (cell 4 m 3 2) @ '':'' @ pr (cell 4 m 3 3) @ '']'' @ [newline]"

text \<open>The description of a message; \<^verbatim>\<open>int(msg.header.id)\<close> is signed.\<close>

definition print_message :: "message \<Rightarrow> string" where
  "print_message msg = ''| ID: '' @ show_int (sint (hid msg)) @ '' | Size: '' @ show_nat (unat (hsize msg)) @ '' | ''"

definition print_owned_message :: "'r \<times> message \<Rightarrow> string" where
  "print_owned_message msg = print_message (snd msg)"

section \<open>Reading back\<close>

primrec split_on :: "char \<Rightarrow> string \<Rightarrow> string list" where
  "split_on c [] = [[]]"
| "split_on c (x # xs) =
     (if x = c then [] # split_on c xs else (case split_on c xs of [] \<Rightarrow> [[x]] | w # ws \<Rightarrow> (x # w) # ws))"

lemma split_on_first: "c \<notin> set w \<Longrightarrow> split_on c (w @ c # s) = w # split_on c s"
  by (induction w) auto

lemma split_on_last: "c \<notin> set w \<Longrightarrow> split_on c w = [w]"
  by (induction w) auto

text \<open>One row in brackets, and rows that end with a newline each.\<close>

definition read_row :: "(string \<Rightarrow> 'b) \<Rightarrow> string \<Rightarrow> 'b list" where
  "read_row rd s = map rd (split_on CHR '':'' (butlast (tl s)))"

definition read_rows :: "(string \<Rightarrow> 'b) \<Rightarrow> string \<Rightarrow> 'b list list" where
  "read_rows rd s = map (read_row rd) (butlast (split_on newline s))"

locale number_text =
  fixes pr :: "'a \<Rightarrow> string" and rd :: "string \<Rightarrow> 'b" and val :: "'a \<Rightarrow> 'b"
  assumes read_back: "rd (pr x) = val x"
    and plain: "CHR '':'' \<notin> set (pr x)" "newline \<notin> set (pr x)"
begin

lemma row2: "read_row rd (''['' @ pr a @ '':'' @ pr b @ '']'') = [val a, val b]"
  by (simp add: read_row_def butlast_append split_on_first split_on_last plain read_back)

lemma row3: "read_row rd (''['' @ pr a @ '':'' @ pr b @ '':'' @ pr c @ '']'') = [val a, val b, val c]"
  by (simp add: read_row_def butlast_append split_on_first split_on_last plain read_back)

lemma row4: "read_row rd (''['' @ pr a @ '':'' @ pr b @ '':'' @ pr c @ '':'' @ pr d @ '']'') = [val a, val b, val c, val d]"
  by (simp add: read_row_def butlast_append split_on_first split_on_last plain read_back)

text \<open>A text of lines that hold no newline themselves.\<close>

lemma read_rows_lines:
  "\<forall>w \<in> set ws. newline \<notin> set w \<Longrightarrow> read_rows rd (concat (map (\<lambda>w. w @ [newline]) ws)) = map (read_row rd) ws"
proof -
  assume "\<forall>w \<in> set ws. newline \<notin> set w"
  then have "split_on newline (concat (map (\<lambda>w. w @ [newline]) ws)) = ws @ [[]]"
    by (induction ws) (auto simp: split_on_first)
  then show ?thesis by (simp add: read_rows_def butlast_append)
qed

lemma line_plain:
  "newline \<notin> set (''['' @ pr a @ '':'' @ pr b @ '']'')"
  "newline \<notin> set (''['' @ pr a @ '':'' @ pr b @ '':'' @ pr c @ '']'')"
  "newline \<notin> set (''['' @ pr a @ '':'' @ pr b @ '':'' @ pr c @ '':'' @ pr d @ '']'')"
  using plain(2) by simp_all

lemma vectors_read_back:
  "read_row rd (print_vec2 pr v2) = [val (v2x v2), val (v2y v2)]"
  "read_row rd (print_vec3 pr v3) = [val (vx v3), val (vy v3), val (vz v3)]"
  "read_row rd (print_vec4 pr v4) = [val (v4x v4), val (v4y v4), val (v4z v4), val (v4w v4)]"
  "read_row rd (print_quaternion pr q) = [val (qx q), val (qy q), val (qz q), val (qw q)]"
  unfolding print_vec2_def print_vec3_def print_quaternion_def print_vec4_def row2 row3 row4
  by (simp_all add: vec4_from_quaternion_def vec4_make_def)

lemma mat2_read_back: "read_rows rd (print_mat2 pr m) = [[val (m ! 0), val (m ! 1)], [val (m ! 2), val (m ! 3)]]"
proof -
  let ?row = "\<lambda>i. ''['' @ pr (cell 2 m i 0) @ '':'' @ pr (cell 2 m i 1) @ '']''"
  have "print_mat2 pr m = concat (map (\<lambda>w. w @ [newline]) [?row 0, ?row 1])" by (simp add: print_mat2_def)
  moreover have "\<forall>w \<in> set [?row 0, ?row 1]. newline \<notin> set w" using line_plain by simp
  ultimately have "read_rows rd (print_mat2 pr m) = map (read_row rd) [?row 0, ?row 1]"
    by (simp only: read_rows_lines)
  then show ?thesis by (simp only: list.map row2) (simp add: cell_def numeral_eq_Suc)
qed

lemma mat3_read_back: "read_rows rd (print_mat3 pr m) =
    [[val (m ! 0), val (m ! 1), val (m ! 2)], [val (m ! 3), val (m ! 4), val (m ! 5)], [val (m ! 6), val (m ! 7), val (m ! 8)]]"
proof -
  let ?row = "\<lambda>i. ''['' @ pr (cell 3 m i 0) @ '':'' @ pr (cell 3 m i 1) @ '':'' @ pr (cell 3 m i 2) @ '']''"
  have "print_mat3 pr m = concat (map (\<lambda>w. w @ [newline]) [?row 0, ?row 1, ?row 2])" by (simp add: print_mat3_def)
  moreover have "\<forall>w \<in> set [?row 0, ?row 1, ?row 2]. newline \<notin> set w" using line_plain by simp
  ultimately have "read_rows rd (print_mat3 pr m) = map (read_row rd) [?row 0, ?row 1, ?row 2]"
    by (simp only: read_rows_lines)
  then show ?thesis by (simp only: list.map row3) (simp add: cell_def numeral_eq_Suc)
qed

lemma mat4_read_back: "read_rows rd (print_mat4 pr m) =
    [[val (m ! 0), val (m ! 1), val (m ! 2), val (m ! 3)], [val (m ! 4), val (m ! 5), val (m ! 6), val (m ! 7)],
     [val (m ! 8), val (m ! 9), val (m ! 10), val (m ! 11)], [val (m ! 12), val (m ! 13), val (m ! 14), val (m ! 15)]]"
proof -
  let ?row = "\<lambda>i. ''['' @ pr (cell 4 m i 0) @ '':'' @ pr (cell 4 m i 1) @ '':'' @ pr (cell 4 m i 2) @ '':'' @
    pr (cell 4 m i 3) @ '']''"
  have "print_mat4 pr m = concat (map (\<lambda>w. w @ [newline]) [?row 0, ?row 1, ?row 2, ?row 3])" by (simp add: print_mat4_def)
  moreover have "\<forall>w \<in> set [?row 0, ?row 1, ?row 2, ?row 3]. newline \<notin> set w" using line_plain by simp
  ultimately have "read_rows rd (print_mat4 pr m) = map (read_row rd) [?row 0, ?row 1, ?row 2, ?row 3]"
    by (simp only: read_rows_lines)
  then show ?thesis by (simp only: list.map row4) (simp add: cell_def numeral_eq_Suc)
qed

end

section \<open>Integers\<close>

text \<open>\<^verbatim>\<open>short\<close> and \<^verbatim>\<open>int\<close> are printed in decimal, with a minus sign.\<close>

definition show_word :: "'w::len word \<Rightarrow> string" where
  "show_word x = show_int (sint x)"

definition digit_value :: "char \<Rightarrow> nat" where
  "digit_value c = of_char c - 48"

definition read_nat :: "string \<Rightarrow> nat" where
  "read_nat s = foldl (\<lambda>n c. 10 * n + digit_value c) 0 s"

definition read_int :: "string \<Rightarrow> int" where
  "read_int s = (case s of c # t \<Rightarrow> if c = CHR ''-'' then - int (read_nat t) else int (read_nat s) | [] \<Rightarrow> 0)"

lemma digit_of_char: "d < 10 \<Longrightarrow> digit_value (char_of (48 + d)) = d"
  by (simp add: digit_value_def)

lemma show_nat_digits:
  "read_nat (show_nat n) = n \<and> show_nat n \<noteq> [] \<and> (\<forall>c \<in> set (show_nat n). \<exists>d < (10::nat). c = char_of (48 + d))"
proof (induction n rule: show_nat.induct)
  case (1 n)
  show ?case
  proof (cases "n < 10")
    case True
    then show ?thesis by (auto simp: show_nat.simps [of n] read_nat_def digit_of_char)
  next
    case False
    have "n mod 10 < 10" by simp
    then show ?thesis using False 1
      by (auto simp: show_nat.simps [of n] read_nat_def digit_of_char [of "n mod 10"] intro: exI [of _ "n mod 10"])
  qed
qed

lemma digit_plain:
  fixes d :: nat
  assumes "d < 10" and "c = char_of (48 + d)"
  shows "c \<noteq> CHR ''-''" and "c \<noteq> CHR '':''" and "c \<noteq> newline"
proof -
  have "of_char c = 48 + d" using assms by simp
  then show "c \<noteq> CHR ''-''" "c \<noteq> CHR '':''" "c \<noteq> newline" using assms(1) by auto
qed

lemma show_nat_plain:
  assumes "c \<in> set (show_nat n)"
  shows "c \<noteq> CHR ''-''" and "c \<noteq> CHR '':''" and "c \<noteq> newline"
proof -
  obtain d :: nat where "d < 10" "c = char_of (48 + d)" using show_nat_digits [of n] assms by blast
  then show "c \<noteq> CHR ''-''" "c \<noteq> CHR '':''" "c \<noteq> newline" by (rule digit_plain)+
qed

lemma read_show_int: "read_int (show_int i) = i"
proof (cases "i < 0")
  case True
  then show ?thesis using show_nat_digits [of "nat (- i)"] by (simp add: show_int_def read_int_def)
next
  case False
  obtain c t where ct: "show_nat (nat i) = c # t" using show_nat_digits [of "nat i"] by (cases "show_nat (nat i)") auto
  then have "c \<noteq> CHR ''-''" using show_nat_plain(1) [of c "nat i"] by simp
  then show ?thesis using False show_nat_digits [of "nat i"] by (simp add: show_int_def read_int_def ct)
qed

lemma show_int_plain: "CHR '':'' \<notin> set (show_int i)" "newline \<notin> set (show_int i)"
  using show_nat_plain(2,3) by (auto simp: show_int_def split: if_splits)

interpretation word_text: number_text show_word read_int sint
  by unfold_locales (simp_all add: show_word_def read_show_int show_int_plain)

text \<open>
  Property C39. Vectors, quaternions and matrices of integers are read back from the text they
  are printed as: one row in brackets for a vector, one line for every row of a matrix.
\<close>

theorem text_read_back:
  "read_row read_int (print_vec2 show_word v2) = map sint [v2x v2, v2y v2] \<and>
   read_row read_int (print_vec3 show_word v3) = map sint [vx v3, vy v3, vz v3] \<and>
   read_row read_int (print_vec4 show_word v4) = map sint [v4x v4, v4y v4, v4z v4, v4w v4] \<and>
   read_row read_int (print_quaternion show_word q) = map sint [qx q, qy q, qz q, qw q] \<and>
   concat (read_rows read_int (print_mat2 show_word (mat2_make a b c d))) = map sint [a, b, c, d] \<and>
   (length m3 = 9 \<longrightarrow> concat (read_rows read_int (print_mat3 show_word m3)) = map sint m3) \<and>
   (length m4 = 16 \<longrightarrow> concat (read_rows read_int (print_mat4 show_word m4)) = map sint m4)"
proof -
  have nths: "[f (m ! 0), f (m ! 1), f (m ! 2), f (m ! 3), f (m ! 4), f (m ! 5), f (m ! 6), f (m ! 7), f (m ! 8)] = map f m"
    if "length m = 9" for m :: "'z list" and f :: "'z \<Rightarrow> int"
    using that by (auto simp: numeral_eq_Suc length_Suc_conv)
  have nths4: "[f (m ! 0), f (m ! 1), f (m ! 2), f (m ! 3), f (m ! 4), f (m ! 5), f (m ! 6), f (m ! 7), f (m ! 8),
      f (m ! 9), f (m ! 10), f (m ! 11), f (m ! 12), f (m ! 13), f (m ! 14), f (m ! 15)] = map f m"
    if "length m = 16" for m :: "'z list" and f :: "'z \<Rightarrow> int"
    using that by (auto simp: numeral_eq_Suc length_Suc_conv)
  show ?thesis
    using nths [of m3 sint] nths4 [of m4 sint]
    by (simp add: word_text.vectors_read_back word_text.mat2_read_back word_text.mat3_read_back
        word_text.mat4_read_back mat2_make_def)
qed

theorem text_read_back_witness:
  "concat (read_rows read_int (print_mat3 show_word [1, 2, 3, 4, 5, 6, 7, 8, -9 :: i32])) = [1, 2, 3, 4, 5, 6, 7, 8, -9]"
  using text_read_back [where ?m3.0 = "[1, 2, 3, 4, 5, 6, 7, 8, -9 :: i32]", THEN conjunct2, THEN conjunct2,
      THEN conjunct2, THEN conjunct2, THEN conjunct2, THEN conjunct1] by simp

end
