(* ===== verification/Spec2Isabelle.thy ===== *)
theory Spec2Isabelle
  imports FirstRound ServerMain ClientMain RingProps SafeHandles RealProps MathMore TextOut
begin

text \<open>
  AsciiTerraRPG: a turn-based game for the console, with a server that owns the world, clients that
  each keep a copy of it, and a small network library between them. This development models the code
  under SpNetCommon, AsciiTerra_Server and AsciiTerra_Client of the repository's sources, in the order
  the program layers it, and proves what each layer promises, also where the promise is broken.

  \<^bold>\<open>Conventions.\<close> A class or struct is a record, an operation a function from the old state to the new
  one. Machine integers are words of their width; \<open>i16\<close> arithmetic is C++'s, done at \<open>i32\<close> and cut.
  What may go wrong returns \<open>'a res\<close>, a value of \<open>fault + 'a\<close>: a failing assertion, an access out of
  range, a thrown exception, a null pointer, undefined behaviour, a loop out of fuel (theory Prelude,
  with \<open>res_bind\<close> and \<open>res_fold\<close> for sequencing). Fixed arrays are lists whose length is an invariant.
  The assertions are those of a build without \<^verbatim>\<open>NDEBUG\<close>.

  \<^bold>\<open>The common library.\<close>
  \<^item> spNetMath.h. VecMath: the three-component vector, over any ring, and the map coordinates
    \<^verbatim>\<open>template_vec3<int16>\<close> with their wrap-around. Matrices and MatProps: the vectors of two and four
    components, quaternions, the 2x2, 3x3 and 4x4 matrices and the hashes; one reference definition of
    product and determinant for all sizes, inverses, and quaternions as rotations. RealMath and
    RealProps: what needs roots, angles or comparisons, over \<open>real\<close>: rotation about an axis is Rodrigues'
    formula, refraction obeys Snell's law, and which makers of quaternions do not make what they say.
    MathMore: number functions, powers, conversions, element access, construction from arrays and the free
    functions. TextOut: what \<^verbatim>\<open><<\<close> prints of vectors, matrices and messages, and that it is read back; the
    locale there says what the text of a number must be like.
  \<^item> Containers. StaticArr: StaticArray.h. RingBuffer and RingProps: DynamirArray.h over an explicit
    store of memory blocks; under every sequence of pushes and pops the ring refines a bounded
    double-ended queue (the locale there and its specification \<open>list_op\<close>); what a resize keeps, and the copies and moves that free a block twice.
  \<^item> Utils/Memory.h. Handles and HandleProps: unique, shared and weak handles over a heap and the map of
    counts. Every sequence of operations of the data type \<open>op\<close> keeps the ownership invariant, as long as
    there are fewer than 2^32 handles; of the thread-safe handle, the release by two threads: for every
    schedule, whether the object is deleted once, deleted twice, or its erased count read.
    SafeHandles: its interlocked accesses, and the acquisition by any number of threads.
  \<^item> spThreadSafeQueue.h. TSQueue: the operations under the lock, the locale of a queue, and the
    interleavings of \<^verbatim>\<open>push_back\<close>, \<^verbatim>\<open>pop_front\<close> and \<^verbatim>\<open>wait\<close> as a step relation.
  \<^item> Timer.h. Timer, with the clock as an argument.
  \<^item> spNetMETA.h. Items: items and inventories. World: players, enemies, actions, attacks and
    \<^verbatim>\<open>MakeApprovedAction\<close>. WorldInv: the well-formedness \<open>wf_world\<close> and that operations keep it. Combat:
    the full effect of attacks and actions on everybody, against a reference (\<open>weapon_use\<close>,
    \<open>player_after\<close>, \<open>enemy_after\<close>).

  \<^bold>\<open>The network\<close> (spiderNet.h).
  \<^item> Message: header, body, the typed stack of \<^verbatim>\<open>operator<<\<close> and \<^verbatim>\<open>operator>>\<close>. Layout: the bytes of the
    structures that travel, with the round trips. Protocol: the identifiers and typed messages.
  \<^item> Connection: the class \<^verbatim>\<open>connection\<close> as a record of its members and of the operations it has in
    flight; \<open>steps\<close> runs a list of events, which is an order of completions asio may choose. Wire: what
    holds for every such order, on the write side, the read side and in the handshake.
  \<^item> ServerInterface and ClientInterface: the two base classes. A virtual member is an argument; the
    locale there states what the code relies on, and the game's overriding members interpret it.

  \<^bold>\<open>The game.\<close>
  \<^item> EnemyAI and EnemyTurn: \<^verbatim>\<open>MakeAITurn\<close>: equipping, the search for a target, the action loop and its
    abstract plan \<open>ai_plan\<close> over integer displacements.
  \<^item> GameServer and ServerLoop: the class \<^verbatim>\<open>CustomServer\<close>: world generation, registration, turns, the
    check of an action, disconnects, the message switch and an iteration of the main loop. ServerProps:
    what its handlers do and post. ServerLife: construction, the purge of dead connections and their
    players, the recursion of a disconnect. WorldKeeps: what every action keeps whatever the state. ServerInv and ServerRun: the
    invariant of the running server. The handlers and \<^verbatim>\<open>OnClientDisconnect\<close> call each other; what they
    rely on is the locale \<open>turn_keeper\<close>, interpreted on the game's handler by induction on its fuel; then
    the invariant holds in every state the two threads reach, each handling one event or some messages at a
    time. TurnPass: the turn of a lost player goes to the next one that is connected. ServerMain: \<^verbatim>\<open>main\<close>, with
    the two threads as one list of events; the invariant holds whatever they are, and nothing happens when
    the thread could not be created.
  \<^item> ClientText: the texts the client prints. GameClient: the class \<^verbatim>\<open>CustomClient\<close>: keys, requests, the
    message switch and an update. Replica: a client's copy and the server's world stay in agreement
    under the same actions. ClientProps and ClientTypes: registration, mirrored actions, where the copy
    stops following, and the types the copy keeps whatever arrives. ClientMain: \<^verbatim>\<open>main\<close>.

  \<^bold>\<open>The parts together\<close> (Together). The server calls \<^verbatim>\<open>MakeApprovedAction\<close> on its world and posts the same
  action to every client, which performs it on its copy. The theorems there follow the message: posted by
  the server, written and read by the two connections, taken from the queue by the client, so that the
  copy agrees with the server's world again; and they show that the messages of a registration build
  such a copy from nothing. From the layers below they use what each promises: the server's half of an
  action (ServerProps), the client's half (ClientProps), the frames on the wire (Wire).
  Round, TurnEnd and FirstRound go from one action to the game. Round: requests of several clients within a
  turn, refused or performed; and the turn of the enemies, performed first and announced afterwards, is what
  its announcements replay (\<open>replay\<close>), so the copies follow it when everybody is armed and nobody is met
  dead (\<open>copies_part_at_the_dead\<close> computes how they part otherwise). TurnEnd: the last action of a turn, the
  enemies' turn when the player was the last of the list, the choice of the next player and its
  announcement. What one blow keeps the whole action keeps (\<open>approved_action_rule\<close>, \<open>enemy_action_rule\<close> of
  WorldKeeps), so nobody returns from the dead, names stay and nobody gains an action; the copies are left
  in agreement but for the actions that are refreshed on a player's own copy only. FirstRound: as nothing is
  refreshed before everybody had a turn, all copies follow through the whole first round, whoever asks or
  acts; it ends with the case of TurnEnd, and on a second turn the copies stop, as ClientProps shows. A
  registration is not part of it: it may put the players in another order.

  \<^bold>\<open>The order of players.\<close> \<^verbatim>\<open>PlayersList\<close> is an \<^verbatim>\<open>unordered_map\<close>; who is next on turn and which of two targets
  at one distance is taken depend on its order of iteration. It is the order of an association list. On the
  server a new player may change it altogether: \<open>insert_player\<close> sorts the list by the ranking \<open>hash_order\<close> of
  the state, an arbitrary function that no theorem restricts. Assigning to a key that is there and erasing
  one keep the order. What is proved of a client's copy speaks of its players as a map (\<open>agree\<close>).

  \<^bold>\<open>Fuel.\<close> \<open>ai_loop\<close> takes one unit per iteration. An iteration that acts uses up one of at most three
  actions, so four units are enough for a loop that ends; a theorem of EnemyTurn says which do, and that
  no fuel is enough for the others. \<open>OnClientDisconnect\<close> takes one unit per nested call, since the messages
  it sends can reach it again; a theorem of ServerLife shows states where no fuel is enough. \<open>F\<close> and \<open>n\<close>
  in the server's theorems are these two, and arbitrary where they do not matter. \<open>Update\<close> of the server
  handles at most the given number of messages. Nothing else needs fuel.

  \<^bold>\<open>Not modelled.\<close>
  \<^item> asio: vendored; it is the order of the events of a connection. The constructor that only binds
    a port.
  \<^item> Logging, and the measured time of a ping.
  \<^item> The rounding of \<^verbatim>\<open>float\<close> and \<^verbatim>\<open>double\<close>: the component type is a ring, a field or \<open>real\<close>; where the result
    is not a number or infinite it is \<open>None\<close>.
  \<^item> Members that no instance can compile or call: \<^verbatim>\<open>Slerp\<close>, \<^verbatim>\<open>GetAngleAxis\<close>, \<^verbatim>\<open>NearZero\<close>, the assignments in \<^verbatim>\<open>const\<close>
    members, the free \<^verbatim>\<open>Length\<close> and \<^verbatim>\<open>Inverse\<close>, the second
    left-hand \<^verbatim>\<open>/\<close> and \<^verbatim>\<open>+\<close> of a number and a vector and the \<^verbatim>\<open>/\<close> of a number and a 3x3 matrix, the \<^verbatim>\<open>const\<close>
    dereferences of handles, the \<^verbatim>\<open>!=\<close> with a shared handle, the cast of a 4x4 matrix, \<^verbatim>\<open>operator[]\<close> and the \<^verbatim>\<open>const\<close>
    peeks of the ring buffer.
  \<^item> The overflow of \<^verbatim>\<open>int\<close> in \<^verbatim>\<open>SquareLength\<close> of map coordinates with huge components, undefined in C++: the
    model wraps. No component of a field of the map's size comes near it.
  \<^item> Spurious wake-ups of the condition variable in \<^verbatim>\<open>wait\<close>.
  \<^item> Data races on plain memory. The two threads of the server take turns in whole handlers; the queue
    between them is locked, the list of connections is not.
  \<^item> Of the common header all but the integer types; the build scripts.
\<close>

end
